(* ===== verification/Prelude.thy ===== *)
theory Prelude
  imports Main "HOL-Library.AList" "HOL-Library.Sublist" "HOL-Library.Char_ord"
    "HOL-Library.List_Lexorder" "HOL-Library.Product_Lexorder"
begin

text \<open>
  Shared vocabulary of the development: SQL tables as lists of rows with a primary key, Python
  dictionaries as association lists in insertion order, truthiness of optional strings, and the
  lemmas and named collections about them that the component theories use.
\<close>

named_theorems table_simps \<open>row-level facts about the table operations\<close>
named_theorems key_intros \<open>preservation of primary keys\<close>

type_synonym str = string
type_synonym stamp = int  \<comment> \<open>a point in time, in whole seconds\<close>

section \<open>Tables\<close>

text \<open>
  A table is the list of its rows in rowid order.  \<open>upsert\<close> is SQLite's
  \<open>INSERT ... ON CONFLICT DO UPDATE\<close>: the function \<open>upd\<close> receives the excluded row and the
  stored row.  \<open>insert_ignore\<close> is \<open>INSERT OR IGNORE\<close> (also \<open>ON CONFLICT DO NOTHING\<close>).
\<close>

definition upsert :: "('r \<Rightarrow> 'k) \<Rightarrow> ('r \<Rightarrow> 'r \<Rightarrow> 'r) \<Rightarrow> 'r \<Rightarrow> 'r list \<Rightarrow> 'r list" where
  "upsert key upd new t =
     (if key new \<in> key ` set t
      then map (\<lambda>r. if key r = key new then upd new r else r) t
      else t @ [new])"

definition insert_ignore :: "('r \<Rightarrow> 'k) \<Rightarrow> 'r \<Rightarrow> 'r list \<Rightarrow> 'r list" where
  "insert_ignore key new t = (if key new \<in> key ` set t then t else t @ [new])"

definition delete_where :: "('r \<Rightarrow> bool) \<Rightarrow> 'r list \<Rightarrow> 'r list" where
  "delete_where P t = filter (\<lambda>r. \<not> P r) t"

definition update_where :: "('r \<Rightarrow> bool) \<Rightarrow> ('r \<Rightarrow> 'r) \<Rightarrow> 'r list \<Rightarrow> 'r list" where
  "update_where P f t = map (\<lambda>r. if P r then f r else r) t"

definition count_where :: "('r \<Rightarrow> bool) \<Rightarrow> 'r list \<Rightarrow> nat" where
  "count_where P t = length (filter P t)"

definition keyed :: "('r \<Rightarrow> 'k) \<Rightarrow> 'r list \<Rightarrow> bool" where
  "keyed key t \<longleftrightarrow> distinct (map key t)"

definition lookup :: "('r \<Rightarrow> 'k) \<Rightarrow> 'k \<Rightarrow> 'r list \<Rightarrow> 'r option" where
  "lookup key k t = find (\<lambda>r. key r = k) t"

lemma delete_where_set [simp, table_simps]: "set (delete_where P t) = {r \<in> set t. \<not> P r}"
  by (auto simp: delete_where_def)

lemma delete_where_Nil [simp]: "delete_where P [] = []"
  by (simp add: delete_where_def)

lemma keyed_Nil [simp]: "keyed key []"
  by (simp add: keyed_def)

lemma keyed_filter [key_intros]: "keyed key t \<Longrightarrow> keyed key (filter P t)"
  by (simp add: keyed_def distinct_map_filter)

lemma keyed_delete [key_intros]: "keyed key t \<Longrightarrow> keyed key (delete_where P t)"
  by (simp add: delete_where_def key_intros)

lemma keyed_insert_ignore [key_intros]: "keyed key t \<Longrightarrow> keyed key (insert_ignore key new t)"
  by (auto simp: keyed_def insert_ignore_def)

lemma keyed_update [key_intros]:
  assumes "keyed key t" "\<And>r. key (f r) = key r"
  shows "keyed key (update_where P f t)"
proof -
  have "map key (update_where P f t) = map key t"
    by (simp add: update_where_def assms(2))
  with assms(1) show ?thesis by (simp add: keyed_def)
qed

lemma lookup_Some_iff:
  "keyed key t \<Longrightarrow> lookup key k t = Some r \<longleftrightarrow> r \<in> set t \<and> key r = k"
  by (induction t) (auto simp: keyed_def lookup_def)

lemma lookup_None_iff [table_simps]: "lookup key k t = None \<longleftrightarrow> k \<notin> key ` set t"
  by (auto simp: lookup_def find_None_iff)

lemma lookup_SomeD: "lookup key k t = Some r \<Longrightarrow> r \<in> set t \<and> key r = k"
  by (auto simp: lookup_def find_Some_iff)

lemma lookup_delete:
  "keyed key t \<Longrightarrow>
   lookup key k (delete_where P t) =
     (case lookup key k t of None \<Rightarrow> None | Some r \<Rightarrow> if P r then None else Some r)"
proof (induction t)
  case Nil
  then show ?case by (simp add: lookup_def)
next
  case (Cons r t)
  then have IH: "lookup key k (delete_where P t) =
      (case lookup key k t of None \<Rightarrow> None | Some r \<Rightarrow> if P r then None else Some r)"
    and new: "key r \<notin> key ` set t"
    by (auto simp: keyed_def)
  show ?case
  proof (cases "key r = k")
    case True
    with new have "lookup key k t = None" by (simp add: lookup_None_iff)
    with IH True show ?thesis by (auto simp: lookup_def delete_where_def)
  next
    case False
    with IH show ?thesis by (auto simp: lookup_def delete_where_def)
  qed
qed

lemma lookup_update:
  "(\<And>r. key (f r) = key r) \<Longrightarrow>
   lookup key k (update_where P f t) = map_option (\<lambda>r. if P r then f r else r) (lookup key k t)"
  by (induction t) (auto simp: lookup_def update_where_def)

lemma lookup_append_new:
  "lookup key k (t @ [new]) =
     (case lookup key k t of Some r \<Rightarrow> Some r | None \<Rightarrow> if key new = k then Some new else None)"
  by (induction t) (auto simp: lookup_def)

text \<open>
  The contract between a table and the statements that upsert into it: the \<open>DO UPDATE\<close> part never
  changes the primary key.  Everything the stores need about their upserts follows from it.
\<close>

locale upsert_table =
  fixes key :: "'r \<Rightarrow> 'k" and upd :: "'r \<Rightarrow> 'r \<Rightarrow> 'r"
  assumes upd_key: "key old = key new \<Longrightarrow> key (upd new old) = key new"
begin

lemma map_key_upsert:
  "map key (upsert key upd new t) =
     (if key new \<in> key ` set t then map key t else map key t @ [key new])"
  by (auto simp: upsert_def upd_key)

lemma keyed_upsert: "keyed key t \<Longrightarrow> keyed key (upsert key upd new t)"
  by (auto simp: keyed_def map_key_upsert)

lemma keys_upsert: "key ` set (upsert key upd new t) = insert (key new) (key ` set t)"
proof -
  have "key ` set (upsert key upd new t) = set (map key (upsert key upd new t))"
    by simp
  also have "\<dots> = insert (key new) (key ` set t)"
    unfolding map_key_upsert by auto
  finally show ?thesis .
qed

lemma lookup_upsert:
  "lookup key k (upsert key upd new t) =
     (if k = key new
      then Some (case lookup key k t of None \<Rightarrow> new | Some old \<Rightarrow> upd new old)
      else lookup key k t)"
proof (cases "key new \<in> key ` set t")
  case True
  have "lookup key k (map (\<lambda>r. if key r = key new then upd new r else r) t) =
          map_option (\<lambda>r. if key r = key new then upd new r else r) (lookup key k t)"
    by (induction t) (auto simp: lookup_def upd_key)
  with True have up: "lookup key k (upsert key upd new t) =
      map_option (\<lambda>r. if key r = key new then upd new r else r) (lookup key k t)"
    by (simp add: upsert_def)
  show ?thesis
  proof (cases "lookup key k t")
    case None
    with True have "k \<noteq> key new" by (auto simp: lookup_None_iff)
    with None up show ?thesis by simp
  next
    case (Some r)
    with up show ?thesis by (auto dest: lookup_SomeD)
  qed
next
  case False
  then have "lookup key (key new) t = None" by (simp add: lookup_None_iff)
  with False show ?thesis
    by (cases "k = key new") (simp_all add: upsert_def lookup_append_new split: option.split)
qed

lemma upsert_other: "r \<in> set t \<Longrightarrow> key r \<noteq> key new \<Longrightarrow> r \<in> set (upsert key upd new t)"
  by (force simp: upsert_def)

lemma upsert_elem:
  "r \<in> set (upsert key upd new t) \<Longrightarrow> key r \<noteq> key new \<Longrightarrow> r \<in> set t"
  by (auto simp: upsert_def upd_key split: if_splits)

lemma keyed_fold_upsert: "keyed key t \<Longrightarrow> keyed key (fold (upsert key upd) news t)"
  by (induction news arbitrary: t) (auto simp: keyed_upsert)

lemma keys_fold_upsert:
  "key ` set (fold (upsert key upd) news t) = key ` set news \<union> key ` set t"
  by (induction news arbitrary: t) (auto simp: keys_upsert)

lemma lookup_fold_upsert_other:
  "k \<notin> key ` set news \<Longrightarrow> lookup key k (fold (upsert key upd) news t) = lookup key k t"
  by (induction news arbitrary: t) (auto simp: lookup_upsert)

lemma lookup_fold_upsert:
  "keyed key news \<Longrightarrow> new \<in> set news \<Longrightarrow>
   lookup key (key new) (fold (upsert key upd) news t) =
     Some (case lookup key (key new) t of None \<Rightarrow> new | Some old \<Rightarrow> upd new old)"
proof (induction news arbitrary: t)
  case Nil
  then show ?case by simp
next
  case (Cons n ns)
  show ?case
  proof (cases "new = n")
    case True
    with Cons.prems have "key n \<notin> key ` set ns"
      by (auto simp: keyed_def)
    with True show ?thesis
      by (simp add: lookup_fold_upsert_other lookup_upsert cong: option.case_cong)
  next
    case False
    with Cons.prems have mem: "new \<in> set ns" and "keyed key ns" and "key n \<notin> key ` set ns"
      by (auto simp: keyed_def)
    moreover from mem have "key new \<in> key ` set ns" by simp
    ultimately have "key new \<noteq> key n" by metis
    with mem \<open>keyed key ns\<close> Cons.IH show ?thesis by (simp add: lookup_upsert)
  qed
qed

end

lemma insert_ignore_lookup:
  "lookup key k (insert_ignore key new t) =
     (case lookup key k t of Some r \<Rightarrow> Some r | None \<Rightarrow> if key new = k then Some new else None)"
proof (cases "key new \<in> key ` set t")
  case True
  then have "lookup key (key new) t \<noteq> None" by (simp add: lookup_None_iff)
  with True show ?thesis by (auto simp: insert_ignore_def split: option.split)
next
  case False
  then show ?thesis by (auto simp: insert_ignore_def lookup_append_new split: option.split)
qed

lemma insert_ignore_set:
  "set t \<subseteq> set (insert_ignore key new t)"
  by (auto simp: insert_ignore_def)

lemma keyed_fold_insert_ignore:
  "keyed key t \<Longrightarrow> keyed key (fold (insert_ignore key) news t)"
  by (induction news arbitrary: t) (auto intro: key_intros)

section \<open>Dictionaries and optional strings\<close>

text \<open>
  A dict is an association list with distinct keys in insertion order: \<open>AList.update\<close> overwrites
  in place and appends a new key, as assignment to a dict item does.
\<close>

definition dict_of :: "('k \<times> 'v) list \<Rightarrow> ('k \<times> 'v) list" where
  "dict_of ps = fold (\<lambda>(k, v). AList.update k v) ps []"

lemma fold_update_distinct:
  "distinct (map fst d) \<Longrightarrow>
   distinct (map fst (fold (\<lambda>(k, v). AList.update k v) ps d))"
  by (induction ps arbitrary: d) (auto intro: distinct_update)

lemma fold_update_map_of:
  "map_of (fold (\<lambda>(k, v). AList.update k v) ps d) = map_of d ++ map_of (rev ps)"
  by (induction ps arbitrary: d) (auto simp: update_conv' map_add_upd fun_eq_iff map_add_def split: option.split)

lemma distinct_dict_of [simp]: "distinct (map fst (dict_of ps))"
  by (simp add: dict_of_def fold_update_distinct)

lemma map_of_dict_of: "map_of (dict_of ps) = map_of (rev ps)"
  by (simp add: dict_of_def fold_update_map_of)

lemma keys_dict_of: "fst ` set (dict_of ps) = fst ` set ps"
proof -
  have "dom (map_of (dict_of ps)) = dom (map_of (rev ps))"
    by (simp add: map_of_dict_of)
  then show ?thesis by (simp add: dom_map_of_conv_image_fst)
qed

fun truthy :: "str option \<Rightarrow> bool" where
  "truthy None = False"
| "truthy (Some s) = (s \<noteq> [])"

lemma truthy_iff: "truthy x \<longleftrightarrow> (\<exists>s. x = Some s \<and> s \<noteq> [])"
  by (cases x) auto

text \<open>\<open>f'{x}'\<close> of a nullable string\<close>

definition opt_str :: "str option \<Rightarrow> str" where
  "opt_str x = (case x of None \<Rightarrow> ''None'' | Some s \<Rightarrow> s)"

section \<open>Fallible computations\<close>

definition bind :: "'e + 'a \<Rightarrow> ('a \<Rightarrow> 'e + 'b) \<Rightarrow> 'e + 'b" where
  "bind x f = (case x of Inl e \<Rightarrow> Inl e | Inr y \<Rightarrow> f y)"

lemma bind_Inr: "bind x f = Inr y \<longleftrightarrow> (\<exists>z. x = Inr z \<and> f z = Inr y)"
  by (cases x) (auto simp: bind_def)

lemma bind_Inl: "bind x f = Inl e \<longleftrightarrow> x = Inl e \<or> (\<exists>z. x = Inr z \<and> f z = Inl e)"
  by (cases x) (auto simp: bind_def)

lemma bind_simps [simp]: "bind (Inl e) f = Inl e" "bind (Inr y) f = f y"
  by (simp_all add: bind_def)

end
