(* ===== verification/PyString.thy ===== *)
theory PyString
  imports Prelude
begin

text \<open>
  The string operations of Python's standard library that the sources use.  A string is a list of
  characters with code points below 256; \<open>py_space\<close>, \<open>py_digit\<close> and \<open>splitlines\<close> follow Python's
  tables on that range (so NEL and NO-BREAK SPACE are whitespace, and the superscript digits are
  digits for \<open>str.isdigit\<close> although \<open>int\<close> rejects them).  Byte strings use the same type.
\<close>

abbreviation code :: "char \<Rightarrow> nat" where
  "code c \<equiv> of_char c"

section \<open>Character classes\<close>

definition py_space :: "char \<Rightarrow> bool" where
  "py_space c \<longleftrightarrow> (let n = code c in (9 \<le> n \<and> n \<le> 13) \<or> (28 \<le> n \<and> n \<le> 32) \<or> n = 133 \<or> n = 160)"

definition ascii_digit :: "char \<Rightarrow> bool" where
  "ascii_digit c \<longleftrightarrow> 48 \<le> code c \<and> code c \<le> 57"

definition py_digit :: "char \<Rightarrow> bool" where
  "py_digit c \<longleftrightarrow> ascii_digit c \<or> code c \<in> {178, 179, 185}"

definition ascii_lower :: "char \<Rightarrow> bool" where
  "ascii_lower c \<longleftrightarrow> 97 \<le> code c \<and> code c \<le> 122"

definition ascii_upper :: "char \<Rightarrow> bool" where
  "ascii_upper c \<longleftrightarrow> 65 \<le> code c \<and> code c \<le> 90"

definition ascii_alnum :: "char \<Rightarrow> bool" where
  "ascii_alnum c \<longleftrightarrow> ascii_digit c \<or> ascii_lower c \<or> ascii_upper c"

definition ascii_hex :: "char \<Rightarrow> bool" where
  "ascii_hex c \<longleftrightarrow> ascii_digit c \<or> (97 \<le> code c \<and> code c \<le> 102) \<or> (65 \<le> code c \<and> code c \<le> 70)"

text \<open>\<open>re.fullmatch('[class]+', s)\<close> for a character class.\<close>

definition all_in :: "(char \<Rightarrow> bool) \<Rightarrow> str \<Rightarrow> bool" where
  "all_in p s \<longleftrightarrow> s \<noteq> [] \<and> list_all p s"

definition isdigit :: "str \<Rightarrow> bool" where
  "isdigit s \<longleftrightarrow> s \<noteq> [] \<and> list_all py_digit s"

definition isascii :: "str \<Rightarrow> bool" where
  "isascii s \<longleftrightarrow> list_all (\<lambda>c. code c < 128) s"

text \<open>\<open>str.lower\<close> on code points below 256: ASCII letters and the Latin-1 capitals but the
  multiplication sign.\<close>

definition lower_char :: "char \<Rightarrow> char" where
  "lower_char c = (let n = code c in
     if (65 \<le> n \<and> n \<le> 90) \<or> (192 \<le> n \<and> n \<le> 222 \<and> n \<noteq> 215) then char_of (n + 32) else c)"

definition lower :: "str \<Rightarrow> str" where
  "lower s = map lower_char s"

section \<open>Stripping and searching\<close>

definition lstrip :: "str \<Rightarrow> str" where
  "lstrip s = dropWhile py_space s"

definition rstrip :: "str \<Rightarrow> str" where
  "rstrip s = rev (dropWhile py_space (rev s))"

definition strip :: "str \<Rightarrow> str" where
  "strip s = rstrip (lstrip s)"

definition rstrip_char :: "char \<Rightarrow> str \<Rightarrow> str" where
  "rstrip_char c s = rev (dropWhile (\<lambda>x. x = c) (rev s))"

definition lstrip_char :: "char \<Rightarrow> str \<Rightarrow> str" where
  "lstrip_char c s = dropWhile (\<lambda>x. x = c) s"

definition starts_with :: "str \<Rightarrow> str \<Rightarrow> bool" where
  "starts_with p s \<longleftrightarrow> take (length p) s = p"

definition ends_with :: "str \<Rightarrow> str \<Rightarrow> bool" where
  "ends_with p s \<longleftrightarrow> length p \<le> length s \<and> drop (length s - length p) s = p"

fun contains :: "str \<Rightarrow> str \<Rightarrow> bool" where
  "contains p [] = (p = [])"
| "contains p (c # s) = (starts_with p (c # s) \<or> contains p s)"

definition removeprefix :: "str \<Rightarrow> str \<Rightarrow> str" where
  "removeprefix p s = (if starts_with p s then drop (length p) s else s)"

text \<open>\<open>s.partition(sep)\<close>: None when the separator does not occur.\<close>

fun partition_at :: "str \<Rightarrow> str \<Rightarrow> (str \<times> str) option" where
  "partition_at sep [] = (if sep = [] then Some ([], []) else None)"
| "partition_at sep (c # s) =
     (if starts_with sep (c # s) then Some ([], drop (length sep) (c # s))
      else map_option (\<lambda>(a, b). (c # a, b)) (partition_at sep s))"

section \<open>Splitting and joining\<close>

fun split_on :: "'a \<Rightarrow> 'a list \<Rightarrow> 'a list list" where
  "split_on c [] = [[]]"
| "split_on c (x # xs) =
     (if x = c then [] # split_on c xs
      else case split_on c xs of [] \<Rightarrow> [[x]] | w # ws \<Rightarrow> (x # w) # ws)"

fun join :: "'a list \<Rightarrow> 'a list list \<Rightarrow> 'a list" where
  "join sep [] = []"
| "join sep [w] = w"
| "join sep (w # ws) = w @ sep @ join sep ws"

text \<open>\<open>s.split()\<close>: the maximal runs of non-whitespace.\<close>

fun words_acc :: "str \<Rightarrow> str \<Rightarrow> str list" where
  "words_acc w [] = (if w = [] then [] else [rev w])"
| "words_acc w (c # s) =
     (if py_space c then (if w = [] then words_acc [] s else rev w # words_acc [] s)
      else words_acc (c # w) s)"

definition split_ws :: "str \<Rightarrow> str list" where
  "split_ws s = words_acc [] s"

definition line_break :: "char \<Rightarrow> bool" where
  "line_break c \<longleftrightarrow> (let n = code c in (10 \<le> n \<and> n \<le> 13) \<or> (28 \<le> n \<and> n \<le> 30) \<or> n = 133)"

text \<open>\<open>s.splitlines()\<close>: a carriage return followed by a line feed is one break, and a final break
  does not open another line.\<close>

fun lines_acc :: "str \<Rightarrow> str \<Rightarrow> str list" where
  "lines_acc w [] = (if w = [] then [] else [rev w])"
| "lines_acc w (c # s) =
     (if line_break c
      then rev w # (case s of d # s' \<Rightarrow> if code c = 13 \<and> code d = 10 then lines_acc [] s' else lines_acc [] s
                            | [] \<Rightarrow> [])
      else lines_acc (c # w) s)"

definition splitlines :: "str \<Rightarrow> str list" where
  "splitlines s = lines_acc [] s"

abbreviation LF :: char where "LF \<equiv> CHR 10"

section \<open>Decimal numbers\<close>

definition digit_value :: "char \<Rightarrow> nat" where
  "digit_value c = code c - 48"

definition nat_of_digits :: "str \<Rightarrow> nat" where
  "nat_of_digits s = foldl (\<lambda>n c. 10 * n + digit_value c) 0 s"

text \<open>\<open>int(s)\<close> on a string of digits; \<open>None\<close> is the ValueError for a digit that is not decimal.\<close>

definition int_of_digits :: "str \<Rightarrow> nat option" where
  "int_of_digits s = (if all_in ascii_digit s then Some (nat_of_digits s) else None)"

fun show_nat :: "nat \<Rightarrow> str" where
  "show_nat n = (if n < 10 then [char_of (48 + n)] else show_nat (n div 10) @ [char_of (48 + n mod 10)])"

declare show_nat.simps [simp del]

section \<open>Lemmas\<close>

lemma starts_with_iff: "starts_with p s \<longleftrightarrow> (\<exists>t. s = p @ t)"
  unfolding starts_with_def by (metis append_eq_conv_conj append_take_drop_id)

lemma starts_with_append [simp]: "starts_with p (p @ t)"
  by (simp add: starts_with_def)

lemma starts_with_Nil [simp]: "starts_with [] s"
  by (simp add: starts_with_def)

lemma starts_with_prefix: "starts_with p s \<longleftrightarrow> prefix p s"
  by (auto simp: starts_with_iff prefix_def)

lemma removeprefix_append [simp]: "removeprefix p (p @ s) = s"
  by (simp add: removeprefix_def)

lemma ends_with_iff: "ends_with p s \<longleftrightarrow> (\<exists>t. s = t @ p)"
  unfolding ends_with_def
  by (metis append_eq_conv_conj append_take_drop_id diff_add_inverse2 le_add2 length_append)

lemma split_on_not_Nil [simp]: "split_on c s \<noteq> []"
  by (induction s) (auto split: list.splits)

lemma split_on_join: "join [c] (split_on c s) = s"
proof (induction s)
  case Nil
  then show ?case by simp
next
  case (Cons x s)
  obtain w ws where ws: "split_on c s = w # ws"
    by (cases "split_on c s") auto
  show ?case
  proof (cases "x = c")
    case True
    with Cons ws show ?thesis by simp
  next
    case False
    with Cons ws show ?thesis by (cases ws) auto
  qed
qed

lemma split_on_no_sep: "w \<in> set (split_on c s) \<Longrightarrow> c \<notin> set w"
proof (induction s arbitrary: w)
  case Nil
  then show ?case by simp
next
  case (Cons x s)
  obtain v vs where vs: "split_on c s = v # vs"
    by (cases "split_on c s") auto
  have parts: "\<And>u. u \<in> set (v # vs) \<Longrightarrow> c \<notin> set u"
    using Cons.IH vs by metis
  from Cons.prems vs have "w = [] \<or> w \<in> set (v # vs) \<or> (x \<noteq> c \<and> w = x # v)"
    by (auto split: if_splits)
  with parts show ?case by auto
qed

lemma split_on_single: "c \<notin> set s \<Longrightarrow> split_on c s = [s]"
  by (induction s) auto

lemma split_on_append: "c \<notin> set w \<Longrightarrow> split_on c (w @ c # s) = w # split_on c s"
  by (induction w) (auto split: list.splits)

lemma split_of_join:
  "ws \<noteq> [] \<Longrightarrow> \<forall>w\<in>set ws. c \<notin> set w \<Longrightarrow> split_on c (join [c] ws) = ws"
proof (induction ws)
  case Nil
  then show ?case by simp
next
  case (Cons w ws)
  then show ?case
    by (cases ws) (auto simp: split_on_single split_on_append)
qed

lemma set_split_on: "w \<in> set (split_on c s) \<Longrightarrow> set w \<subseteq> set s"
proof (induction s arbitrary: w)
  case Nil
  then show ?case by simp
next
  case (Cons x s)
  obtain v vs where vs: "split_on c s = v # vs"
    by (cases "split_on c s") auto
  have parts: "\<And>u. u \<in> set (v # vs) \<Longrightarrow> set u \<subseteq> set s"
    using Cons.IH vs by metis
  from Cons.prems vs have "w = [] \<or> w \<in> set (v # vs) \<or> w = x # v"
    by (auto split: if_splits)
  with parts show ?case by (metis empty_subsetI insert_mono list.set(1,2) list.set_intros(1) subset_insertI2)
qed

lemma lines_acc_line:
  assumes "\<forall>c\<in>set l. \<not> line_break c"
  shows "lines_acc w (l @ LF # s) = (rev w @ l) # lines_acc [] s"
  using assms
proof (induction l arbitrary: w)
  case Nil
  have "line_break LF" by (simp add: line_break_def)
  then show ?case by (cases s) simp_all
next
  case (Cons c l)
  then show ?case by simp
qed

lemma splitlines_line:
  "\<forall>c\<in>set l. \<not> line_break c \<Longrightarrow> splitlines (l @ LF # s) = l # splitlines s"
  by (simp add: splitlines_def lines_acc_line)

lemma splitlines_Nil [simp]: "splitlines [] = []"
  by (simp add: splitlines_def)

lemma lines_acc_last:
  assumes "\<forall>c\<in>set l. \<not> line_break c"
  shows "lines_acc w l = (if w = [] \<and> l = [] then [] else [rev w @ l])"
  using assms by (induction l arbitrary: w) auto

lemma splitlines_concat_lines:
  "\<forall>l\<in>set ls. \<forall>c\<in>set l. \<not> line_break c \<Longrightarrow> splitlines (concat (map (\<lambda>l. l @ [LF]) ls)) = ls"
proof (induction ls)
  case Nil
  then show ?case by simp
next
  case (Cons l ls)
  have "splitlines (concat (map (\<lambda>l. l @ [LF]) (l # ls))) = splitlines (l @ LF # concat (map (\<lambda>l. l @ [LF]) ls))"
    by simp
  also have "\<dots> = l # splitlines (concat (map (\<lambda>l. l @ [LF]) ls))"
    by (rule splitlines_line) (use Cons.prems in simp)
  also have "\<dots> = l # ls"
    using Cons by simp
  finally show ?case .
qed

lemma strip_no_space:
  assumes "s \<noteq> [] \<Longrightarrow> \<not> py_space (hd s) \<and> \<not> py_space (last s)"
  shows "strip s = s"
proof (cases s rule: rev_cases)
  case Nil
  then show ?thesis by (simp add: strip_def rstrip_def lstrip_def)
next
  case (snoc t c)
  with assms have "\<not> py_space (hd s)" and "\<not> py_space c" by auto
  moreover from snoc have "dropWhile py_space s = s"
    using \<open>\<not> py_space (hd s)\<close> by (simp add: dropWhile_eq_self_iff del: dropWhile_append)
  ultimately show ?thesis using snoc by (simp add: strip_def rstrip_def lstrip_def)
qed

lemma ascii_digit_code: "ascii_digit c \<Longrightarrow> digit_value c < 10 \<and> char_of (48 + digit_value c) = c"
  by (auto simp: ascii_digit_def digit_value_def)

lemma digit_char: "n < 10 \<Longrightarrow> ascii_digit (char_of (48 + n)) \<and> digit_value (char_of (48 + n)) = n"
  by (auto simp: ascii_digit_def digit_value_def)

lemma show_nat_digits: "list_all ascii_digit (show_nat n)"
proof (induction n rule: show_nat.induct)
  case (1 n)
  then show ?case
    by (subst show_nat.simps) (auto simp: digit_char)
qed

lemma show_nat_not_Nil [simp]: "show_nat n \<noteq> []"
  by (subst show_nat.simps) simp

lemma nat_of_digits_snoc: "nat_of_digits (s @ [c]) = 10 * nat_of_digits s + digit_value c"
  by (simp add: nat_of_digits_def)

lemma nat_of_digits_show_nat: "nat_of_digits (show_nat n) = n"
proof (induction n rule: show_nat.induct)
  case (1 n)
  show ?case
  proof (cases "n < 10")
    case True
    then have "show_nat n = [char_of (48 + n)]" by (subst show_nat.simps) simp
    with True show ?thesis by (simp add: nat_of_digits_def digit_value_def)
  next
    case False
    then have "show_nat n = show_nat (n div 10) @ [char_of (48 + n mod 10)]"
      by (subst show_nat.simps) simp
    with False 1 show ?thesis by (simp add: nat_of_digits_snoc digit_char)
  qed
qed

lemma int_of_digits_show_nat [simp]: "int_of_digits (show_nat n) = Some n"
  by (simp add: int_of_digits_def all_in_def show_nat_digits nat_of_digits_show_nat)

lemma show_nat_inject [simp]: "show_nat m = show_nat n \<longleftrightarrow> m = n"
  by (metis nat_of_digits_show_nat)

end
