(* ===== verification/Schema.thy ===== *)
theory Schema
  imports PyString Complex_Main
begin

text \<open>
  The SQLite schema of \<open>storage/schema.py\<close>: one record per table, the database as the record of
  all tables, and the primary keys every statement must respect.  A nullable column is an option,
  a JSON column holds its decoded value, an ISO-8601 timestamp column of second resolution holds
  the instant (\<open>last_check = ''\<close>, written by \<open>record_key_expiry\<close>, is \<open>None\<close>), and REAL columns
  are rationals.
\<close>

record admin_session =
  se_secret :: str
  se_fingerprint :: str
  se_expires :: rat
  se_secure :: bool

record host_token =
  tk_id :: str
  tk_name :: str
  tk_secret :: str
  tk_created :: rat
  tk_expires :: "rat option"
  tk_last_used :: "rat option"
  tk_revoked :: "rat option"
  tk_repo_ids :: "str list option"

record nix_artifact =
  na_repo :: str
  na_key :: str
  na_file :: str
  na_hash :: "str option"
  na_size :: "nat option"

record nix_trust =
  nt_repo :: str
  nt_policy :: "bool \<times> str list \<times> str option"

record repo_state =
  rs_repo :: str
  rs_last_check :: "stamp option"
  rs_changed_at :: "stamp option"
  rs_etag :: "str option"
  rs_modified :: "str option"
  rs_count :: "nat option"
  rs_key_expires :: "str option"
  rs_key_known :: bool
  rs_revision :: nat
  rs_identity :: "str option"

record repo_package =
  pk_repo :: str
  pk_key :: str
  pk_name :: "str option"
  pk_file :: str
  pk_hash :: "str option"

record repo_event =
  ev_id :: nat
  ev_repo :: str
  ev_ts :: stamp
  ev_new :: "str list"
  ev_removed :: "str list"
  ev_modified :: "str list"

record pending_replacement =
  pr_repo :: str
  pr_key :: str
  pr_targets :: "(str \<times> str) list"
  pr_hash :: "str option"
  pr_revision :: str
  pr_error :: "str option"

record request_event =
  rq_id :: nat
  rq_ts :: stamp
  rq_repo :: "str option"
  rq_ip :: "str option"
  rq_method :: str
  rq_path :: str
  rq_status :: "str option"
  rq_cache :: "str option"
  rq_pkey :: "str option"
  rq_prepo :: "str option"

record warmed_package =
  wm_repo :: str
  wm_key :: str
  wm_file :: str
  wm_at :: stamp
  wm_status :: str
  wm_http :: "int option"
  wm_source :: "str option"
  wm_revision :: str

record prefetch_ban =
  bn_repo :: str
  bn_name :: str
  bn_at :: stamp

record failure_state =
  fs_repo :: str
  fs_kind :: str
  fs_count :: nat
  fs_error :: "str option"
  fs_at :: "stamp option"
  fs_notified :: bool

record package_interest =
  pi_repo :: str
  pi_identity :: str
  pi_name :: str

record request_counter =
  rc_kind :: str
  rc_repo :: str
  rc_key :: str
  rc_total :: int
  rc_hits :: int

record request_hour =
  rh_hour :: int
  rh_repo :: str
  rh_total :: int
  rh_hits :: int

record db =
  admin_sessions :: "admin_session list"
  host_tokens :: "host_token list"
  nix_artifacts :: "nix_artifact list"
  nix_trusts :: "nix_trust list"
  repo_states :: "repo_state list"
  repo_packages :: "repo_package list"
  repo_events :: "repo_event list"
  repo_events_seq :: nat
  pending_replacements :: "pending_replacement list"
  request_events :: "request_event list"
  request_events_seq :: nat
  warmed_packages :: "warmed_package list"
  prefetch_bans :: "prefetch_ban list"
  failure_states :: "failure_state list"
  package_interests :: "package_interest list"
  request_counters :: "request_counter list"
  request_hourly :: "request_hour list"

definition empty_db :: db where
  "empty_db = \<lparr>admin_sessions = [], host_tokens = [], nix_artifacts = [], nix_trusts = [],
     repo_states = [], repo_packages = [], repo_events = [], repo_events_seq = 0,
     pending_replacements = [], request_events = [], request_events_seq = 0,
     warmed_packages = [], prefetch_bans = [], failure_states = [], package_interests = [],
     request_counters = [], request_hourly = []\<rparr>"

section \<open>Primary keys\<close>

definition pk_pkey :: "repo_package \<Rightarrow> str \<times> str" where
  "pk_pkey r = (pk_repo r, pk_key r)"
definition pr_pkey :: "pending_replacement \<Rightarrow> str \<times> str" where
  "pr_pkey r = (pr_repo r, pr_key r)"
definition wm_pkey :: "warmed_package \<Rightarrow> str \<times> str" where
  "wm_pkey r = (wm_repo r, wm_key r)"
definition bn_pkey :: "prefetch_ban \<Rightarrow> str \<times> str" where
  "bn_pkey r = (bn_repo r, bn_name r)"
definition fs_pkey :: "failure_state \<Rightarrow> str \<times> str" where
  "fs_pkey r = (fs_repo r, fs_kind r)"
definition na_pkey :: "nix_artifact \<Rightarrow> str \<times> str \<times> str" where
  "na_pkey r = (na_repo r, na_key r, na_file r)"
definition pi_pkey :: "package_interest \<Rightarrow> str \<times> str \<times> str" where
  "pi_pkey r = (pi_repo r, pi_identity r, pi_name r)"
definition rc_pkey :: "request_counter \<Rightarrow> str \<times> str \<times> str" where
  "rc_pkey r = (rc_kind r, rc_repo r, rc_key r)"
definition rh_pkey :: "request_hour \<Rightarrow> int \<times> str" where
  "rh_pkey r = (rh_hour r, rh_repo r)"

lemmas pkey_defs = pk_pkey_def pr_pkey_def wm_pkey_def bn_pkey_def fs_pkey_def na_pkey_def
  pi_pkey_def rc_pkey_def rh_pkey_def

text \<open>
  The primary keys of all tables, and ids of the two AUTOINCREMENT tables that never exceed the
  sequence they are drawn from.
\<close>

definition db_keys :: "db \<Rightarrow> bool" where
  "db_keys d \<longleftrightarrow>
     keyed se_secret (admin_sessions d) \<and> keyed na_pkey (nix_artifacts d) \<and>
     keyed nt_repo (nix_trusts d) \<and> keyed rs_repo (repo_states d) \<and>
     keyed pk_pkey (repo_packages d) \<and> keyed pr_pkey (pending_replacements d) \<and>
     keyed wm_pkey (warmed_packages d) \<and> keyed bn_pkey (prefetch_bans d) \<and>
     keyed fs_pkey (failure_states d) \<and> keyed pi_pkey (package_interests d)"

definition db_ids :: "db \<Rightarrow> bool" where
  "db_ids d \<longleftrightarrow>
     keyed ev_id (repo_events d) \<and> (\<forall>e \<in> set (repo_events d). ev_id e \<le> repo_events_seq d) \<and>
     keyed rq_id (request_events d) \<and> (\<forall>e \<in> set (request_events d). rq_id e \<le> request_events_seq d)"

lemma db_keys_empty [simp]: "db_keys empty_db"
  by (simp add: db_keys_def empty_db_def)

lemma db_ids_empty [simp]: "db_ids empty_db"
  by (simp add: db_ids_def empty_db_def)

section \<open>Rollups\<close>

text \<open>
  \<open>_rollup_triggers\<close>: every insert into and delete from \<open>request_events\<close> moves the row into or out
  of the counters.  A scope is \<open>r:<repo>\<close>, the empty string for requests of no repository, or
  \<open>*\<close>; the hour is the 13-character prefix of the timestamp, that is, the instant divided by 3600.
\<close>

definition scope_of :: "str option \<Rightarrow> str" where
  "scope_of r = (case r of None \<Rightarrow> [] | Some i \<Rightarrow> ''r:'' @ i)"

definition hit_of :: "request_event \<Rightarrow> int" where
  "hit_of e = (if rq_cache e = Some ''HIT'' then 1 else 0)"

definition hour_of :: "stamp \<Rightarrow> int" where
  "hour_of t = t div 3600"

definition rc_bump :: "request_counter \<Rightarrow> request_counter \<Rightarrow> request_counter" where
  "rc_bump new old = old\<lparr>rc_total := rc_total old + 1, rc_hits := rc_hits old + rc_hits new\<rparr>"

definition rh_bump :: "request_hour \<Rightarrow> request_hour \<Rightarrow> request_hour" where
  "rh_bump new old = old\<lparr>rh_total := rh_total old + 1, rh_hits := rh_hits old + rh_hits new\<rparr>"

text \<open>The counters one event touches: (kind, scope, key, hits).\<close>

definition rollup_targets :: "request_event \<Rightarrow> (str \<times> str \<times> str \<times> int) list" where
  "rollup_targets e =
     [(''repo'', scope_of (rq_repo e), [], hit_of e),
      (''path'', scope_of (rq_repo e), rq_path e, 0), (''path'', ''*'', rq_path e, 0)] @
     (case rq_ip e of None \<Rightarrow> [] | Some ip \<Rightarrow> [(''ip'', scope_of (rq_repo e), ip, 0), (''ip'', ''*'', ip, 0)])"

definition counter_insert :: "str \<times> str \<times> str \<times> int \<Rightarrow> request_counter list \<Rightarrow> request_counter list" where
  "counter_insert x t = (case x of (k, s, i, h) \<Rightarrow>
     upsert rc_pkey rc_bump \<lparr>rc_kind = k, rc_repo = s, rc_key = i, rc_total = 1, rc_hits = h\<rparr> t)"

definition counter_delete :: "str \<times> str \<times> str \<times> int \<Rightarrow> request_counter list \<Rightarrow> request_counter list" where
  "counter_delete x t = (case x of (k, s, i, h) \<Rightarrow>
     update_where (\<lambda>r. rc_kind r = k \<and> rc_repo r = s \<and> rc_key r = i)
       (\<lambda>r. r\<lparr>rc_total := rc_total r - 1, rc_hits := rc_hits r - h\<rparr>) t)"

definition rollup_insert :: "request_event \<Rightarrow> db \<Rightarrow> db" where
  "rollup_insert e d = d\<lparr>
     request_counters := fold counter_insert (rollup_targets e) (request_counters d),
     request_hourly := upsert rh_pkey rh_bump
       \<lparr>rh_hour = hour_of (rq_ts e), rh_repo = scope_of (rq_repo e), rh_total = 1, rh_hits = hit_of e\<rparr>
       (request_hourly d)\<rparr>"

definition rollup_delete :: "request_event \<Rightarrow> db \<Rightarrow> db" where
  "rollup_delete e d = d\<lparr>
     request_counters := fold counter_delete (rollup_targets e) (request_counters d),
     request_hourly := update_where
       (\<lambda>r. rh_hour r = hour_of (rq_ts e) \<and> rh_repo r = scope_of (rq_repo e))
       (\<lambda>r. r\<lparr>rh_total := rh_total r - 1, rh_hits := rh_hits r - hit_of e\<rparr>) (request_hourly d)\<rparr>"

end
