(* ===== verification/Store_Requests.thy ===== *)
theory Store_Requests
  imports Schema
begin

text \<open>
  \<open>storage/requests.py\<close>: the request log, its pruning in bounded transactions, and the statistics
  read from the rollups that the triggers of \<open>storage/schema.py\<close> maintain.  The central invariant
  says that the counters equal the counts grouped over the log, whatever was recorded or pruned.
\<close>

section \<open>Operations\<close>

record request_in =
  ri_repo :: "str option"
  ri_ip :: "str option"
  ri_method :: str
  ri_path :: str
  ri_status :: "str option"
  ri_cache :: "str option"
  ri_pkey :: "str option"
  ri_prepo :: "str option"

definition record_request :: "stamp \<Rightarrow> request_in \<Rightarrow> db \<Rightarrow> db" where
  "record_request now r d =
     (let e = \<lparr>rq_id = Suc (request_events_seq d), rq_ts = now, rq_repo = ri_repo r, rq_ip = ri_ip r,
               rq_method = ri_method r, rq_path = ri_path r, rq_status = ri_status r,
               rq_cache = ri_cache r, rq_pkey = ri_pkey r, rq_prepo = ri_prepo r\<rparr>
      in rollup_insert e (d\<lparr>request_events := request_events d @ [e],
                            request_events_seq := Suc (request_events_seq d)\<rparr>))"

definition prune_chunk :: nat where
  "prune_chunk = 5000"

text \<open>One \<open>DELETE ... WHERE id IN (SELECT id ... WHERE P LIMIT chunk)\<close> with its delete triggers.\<close>

definition delete_chunk :: "(request_event \<Rightarrow> bool) \<Rightarrow> db \<Rightarrow> nat \<times> db" where
  "delete_chunk P d =
     (let ids = map rq_id (take prune_chunk (filter P (request_events d)));
          gone = filter (\<lambda>e. rq_id e \<in> set ids) (request_events d);
          d' = d\<lparr>request_events := delete_where (\<lambda>e. rq_id e \<in> set ids) (request_events d)\<rparr>
      in (length gone, fold rollup_delete gone d'))"

lemma rollup_delete_frame [simp]:
  "request_events (rollup_delete e d) = request_events d"
  by (simp add: rollup_delete_def)

lemma fold_rollup_delete_frame [simp]:
  "request_events (fold rollup_delete es d) = request_events d"
  by (induction es arbitrary: d) auto

lemma delete_chunk_events:
  "request_events (snd (delete_chunk P d)) =
     filter (\<lambda>e. rq_id e \<notin> rq_id ` set (take prune_chunk (filter P (request_events d)))) (request_events d)"
  by (simp add: delete_chunk_def Let_def delete_where_def)

lemma delete_chunk_length:
  "fst (delete_chunk P d) + length (request_events (snd (delete_chunk P d))) = length (request_events d)"
  by (simp add: delete_chunk_def Let_def delete_where_def sum_length_filter_compl)

text \<open>The loop of \<open>_delete_requests\<close>: it stops after the first transaction that was not full.\<close>

function delete_requests :: "(request_event \<Rightarrow> bool) \<Rightarrow> db \<Rightarrow> nat \<times> db" where
  "delete_requests P d =
     (let (count, d') = delete_chunk P d in
      if count < prune_chunk then (count, d')
      else let (more, d'') = delete_requests P d' in (count + more, d''))"
  by pat_completeness auto
termination
proof (relation "measure (\<lambda>(P, d). length (request_events d))", goal_cases)
  case 1
  show ?case by simp
next
  case (2 P d x count d')
  have "fst x + length (request_events (snd x)) = length (request_events d)"
    using delete_chunk_length [of P d] 2(1) by simp
  with 2(2,3) show ?case by (auto simp: prune_chunk_def)
qed

declare delete_requests.simps [simp del]

definition sweep_rollups :: "db \<Rightarrow> db" where
  "sweep_rollups d = d\<lparr>request_counters := delete_where (\<lambda>r. rc_total r \<le> 0) (request_counters d),
                       request_hourly := delete_where (\<lambda>r. rh_total r \<le> 0) (request_hourly d)\<rparr>"

definition day_seconds :: int where
  "day_seconds = 86400"

definition prune_requests :: "stamp \<Rightarrow> nat \<Rightarrow> db \<Rightarrow> nat \<times> db" where
  "prune_requests now retention_days d =
     (let cutoff = now - day_seconds * int retention_days;
          (deleted, d') = delete_requests (\<lambda>e. rq_ts e < cutoff) d
      in (deleted, if deleted \<noteq> 0 then sweep_rollups d' else d'))"

definition newest_first :: "request_event list \<Rightarrow> request_event list" where
  "newest_first es = sort_key (\<lambda>e. (- rq_ts e, rq_id e)) es"

definition prune_requests_by_size :: "nat \<Rightarrow> db \<Rightarrow> nat \<times> db" where
  "prune_requests_by_size max_rows d =
     (let es = newest_first (request_events d) in
      if length es \<le> max_rows then (0, d)
      else let b = es ! max_rows;
               (n1, d1) = delete_requests (\<lambda>e. rq_ts e < rq_ts b) d;
               (n2, d2) = delete_requests (\<lambda>e. rq_ts e = rq_ts b \<and> rq_id e \<ge> rq_id b) d1
           in (n1 + n2, if n1 + n2 \<noteq> 0 then sweep_rollups d2 else d2))"

text \<open>\<open>_top\<close>: a falsy repository id means the global scope.\<close>

definition top_counts :: "str \<Rightarrow> str option \<Rightarrow> nat \<Rightarrow> db \<Rightarrow> (str \<times> int) list" where
  "top_counts kind repo limit d =
     (let scope = (if truthy repo then scope_of repo else ''*'');
          rows = filter (\<lambda>r. rc_kind r = kind \<and> rc_repo r = scope \<and> rc_total r > 0) (request_counters d)
      in map (\<lambda>r. (rc_key r, rc_total r)) (take limit (sort_key (\<lambda>r. (- rc_total r, rc_key r)) rows)))"

definition get_top_client_ips :: "str option \<Rightarrow> nat \<Rightarrow> db \<Rightarrow> (str \<times> int) list" where
  "get_top_client_ips = top_counts ''ip''"

definition get_top_request_paths :: "str option \<Rightarrow> nat \<Rightarrow> db \<Rightarrow> (str \<times> int) list" where
  "get_top_request_paths = top_counts ''path''"

definition get_request_hit_stats :: "db \<Rightarrow> (str option \<times> int \<times> int) list" where
  "get_request_hit_stats d =
     map (\<lambda>r. (if rc_repo r = [] then None else Some (drop 2 (rc_repo r)), rc_total r, rc_hits r))
       (filter (\<lambda>r. rc_kind r = ''repo'' \<and> rc_total r > 0) (request_counters d))"

definition get_requests_timeline :: "stamp \<Rightarrow> str option \<Rightarrow> nat \<Rightarrow> db \<Rightarrow> (int \<times> int \<times> int) list" where
  "get_requests_timeline now repo hours d =
     (if repo = Some [] then []
      else let first_hour = hour_of (now - 3600 * int hours);
               rows = filter (\<lambda>r. rh_hour r \<ge> first_hour \<and> rh_total r > 0
                                  \<and> (repo = None \<or> rh_repo r = scope_of repo)) (request_hourly d)
           in map (\<lambda>h. (h, sum_list (map rh_total (filter (\<lambda>r. rh_hour r = h) rows)),
                           sum_list (map rh_hits (filter (\<lambda>r. rh_hour r = h) rows))))
                (sort (remdups (map rh_hour rows))))"

definition get_prefetch_efficiency :: "db \<Rightarrow> (str \<times> nat \<times> nat \<times> rat) list" where
  "get_prefetch_efficiency d =
     (let ws = filter (\<lambda>w. wm_source w = Some ''prefetch'') (warmed_packages d)
      in map (\<lambda>r. let mine = filter (\<lambda>w. wm_repo w = r) ws;
                      used = length (filter (\<lambda>w. list_ex (\<lambda>e. rq_prepo e = Some (wm_repo w) \<and> rq_pkey e = Some (wm_key w))
                                                   (request_events d)) mine)
                  in (r, length mine, used,
                      if length mine \<noteq> 0 then of_nat used / of_nat (length mine) else 0))
           (sort (remdups (map wm_repo ws))))"

text \<open>\<open>_request_rollups\<close>: the counters of an existing log are filled once by grouping it; a database
  that already has the triggers is left alone.\<close>

definition group_counters :: "str \<Rightarrow> (request_event \<Rightarrow> (str \<times> str) option) \<Rightarrow> (request_event \<Rightarrow> int)
    \<Rightarrow> request_event list \<Rightarrow> request_counter list" where
  "group_counters kind g hits es =
     map (\<lambda>x. \<lparr>rc_kind = kind, rc_repo = fst x, rc_key = snd x,
               rc_total = int (length (filter (\<lambda>e. g e = Some x) es)),
               rc_hits = sum_list (map hits (filter (\<lambda>e. g e = Some x) es))\<rparr>)
       (remdups (map the (filter (\<lambda>x. x \<noteq> None) (map g es))))"

definition request_rollups :: "bool \<Rightarrow> db \<Rightarrow> db" where
  "request_rollups installed d =
     (let es = request_events d in
      if installed then d else d\<lparr>request_counters :=
          group_counters ''repo'' (\<lambda>e. Some (scope_of (rq_repo e), [])) hit_of es @
          group_counters ''ip'' (\<lambda>e. map_option (\<lambda>ip. (scope_of (rq_repo e), ip)) (rq_ip e)) (\<lambda>_. 0) es @
          group_counters ''ip'' (\<lambda>e. map_option (\<lambda>ip. (''*'', ip)) (rq_ip e)) (\<lambda>_. 0) es @
          group_counters ''path'' (\<lambda>e. Some (scope_of (rq_repo e), rq_path e)) (\<lambda>_. 0) es @
          group_counters ''path'' (\<lambda>e. Some (''*'', rq_path e)) (\<lambda>_. 0) es,
        request_hourly :=
          map (\<lambda>x. \<lparr>rh_hour = fst x, rh_repo = snd x,
                    rh_total = int (length (filter (\<lambda>e. (hour_of (rq_ts e), scope_of (rq_repo e)) = x) es)),
                    rh_hits = sum_list (map hit_of (filter (\<lambda>e. (hour_of (rq_ts e), scope_of (rq_repo e)) = x) es))\<rparr>)
            (remdups (map (\<lambda>e. (hour_of (rq_ts e), scope_of (rq_repo e))) es))\<rparr>)"

section \<open>The rollup invariant\<close>

definition ctotal :: "request_counter list \<Rightarrow> str \<times> str \<times> str \<Rightarrow> int" where
  "ctotal t x = (case lookup rc_pkey x t of None \<Rightarrow> 0 | Some r \<Rightarrow> rc_total r)"

definition chits :: "request_counter list \<Rightarrow> str \<times> str \<times> str \<Rightarrow> int" where
  "chits t x = (case lookup rc_pkey x t of None \<Rightarrow> 0 | Some r \<Rightarrow> rc_hits r)"

definition htotal :: "request_hour list \<Rightarrow> int \<times> str \<Rightarrow> int" where
  "htotal t x = (case lookup rh_pkey x t of None \<Rightarrow> 0 | Some r \<Rightarrow> rh_total r)"

definition hhits :: "request_hour list \<Rightarrow> int \<times> str \<Rightarrow> int" where
  "hhits t x = (case lookup rh_pkey x t of None \<Rightarrow> 0 | Some r \<Rightarrow> rh_hits r)"

definition ev_total :: "str \<times> str \<times> str \<Rightarrow> request_event \<Rightarrow> int" where
  "ev_total x e = (\<Sum>(k, s, i, h)\<leftarrow>rollup_targets e. if (k, s, i) = x then 1 else 0)"

definition ev_hits :: "str \<times> str \<times> str \<Rightarrow> request_event \<Rightarrow> int" where
  "ev_hits x e = (\<Sum>(k, s, i, h)\<leftarrow>rollup_targets e. if (k, s, i) = x then h else 0)"

definition hour_key :: "request_event \<Rightarrow> int \<times> str" where
  "hour_key e = (hour_of (rq_ts e), scope_of (rq_repo e))"

definition rollup_of :: "request_event list \<Rightarrow> db \<Rightarrow> bool" where
  "rollup_of es d \<longleftrightarrow>
     keyed rc_pkey (request_counters d) \<and> keyed rh_pkey (request_hourly d) \<and>
     (\<forall>x. ctotal (request_counters d) x = (\<Sum>e\<leftarrow>es. ev_total x e)) \<and>
     (\<forall>x. chits (request_counters d) x = (\<Sum>e\<leftarrow>es. ev_hits x e)) \<and>
     (\<forall>x. htotal (request_hourly d) x = (\<Sum>e\<leftarrow>es. if hour_key e = x then 1 else 0)) \<and>
     (\<forall>x. hhits (request_hourly d) x = (\<Sum>e\<leftarrow>es. if hour_key e = x then hit_of e else 0))"

definition rollups_ok :: "db \<Rightarrow> bool" where
  "rollups_ok d \<longleftrightarrow> rollup_of (request_events d) d"

interpretation rc: upsert_table rc_pkey rc_bump
  by unfold_locales (simp add: rc_bump_def rc_pkey_def)

interpretation rh: upsert_table rh_pkey rh_bump
  by unfold_locales (simp add: rh_bump_def rh_pkey_def)

lemma scope_not_star [simp]: "scope_of r \<noteq> ''*''"
  by (simp add: scope_of_def split: option.split)

lemma scope_inject [simp]: "scope_of r = scope_of r' \<longleftrightarrow> r = r'"
  by (simp add: scope_of_def split: option.split)

lemma hit_of_range: "0 \<le> hit_of e \<and> hit_of e \<le> 1"
  by (simp add: hit_of_def)

lemma ev_hits_range: "0 \<le> ev_hits x e \<and> ev_hits x e \<le> ev_total x e"
  using hit_of_range [of e]
  by (auto simp: ev_hits_def ev_total_def rollup_targets_def split: option.split)

lemma sum_hits_range:
  "0 \<le> (\<Sum>e\<leftarrow>es. ev_hits x e) \<and> (\<Sum>e\<leftarrow>es. ev_hits x e) \<le> (\<Sum>e\<leftarrow>es. ev_total x e)"
  using ev_hits_range [of x] by (induction es) (auto intro: add_mono)

lemma sum_hour_range:
  "0 \<le> (\<Sum>e\<leftarrow>es. if hour_key e = x then hit_of e else 0) \<and>
   (\<Sum>e\<leftarrow>es. if hour_key e = x then hit_of e else 0) \<le> (\<Sum>e\<leftarrow>es. if hour_key e = x then 1 else (0::int))"
  using hit_of_range by (induction es) (auto intro: add_mono)

subsection \<open>Insert triggers\<close>

lemma counter_insert_key: "keyed rc_pkey t \<Longrightarrow> keyed rc_pkey (counter_insert x t)"
  by (cases x) (simp add: counter_insert_def rc.keyed_upsert)

lemma counter_insert_total:
  "ctotal (counter_insert (k, s, i, h) t) x = (if (k, s, i) = x then 1 else 0) + ctotal t x"
  by (simp add: counter_insert_def ctotal_def rc.lookup_upsert rc_pkey_def rc_bump_def split: option.split)

lemma counter_insert_hits:
  "chits (counter_insert (k, s, i, h) t) x = (if (k, s, i) = x then h else 0) + chits t x"
  by (simp add: counter_insert_def chits_def rc.lookup_upsert rc_pkey_def rc_bump_def split: option.split)

lemma fold_counter_insert:
  "keyed rc_pkey t \<Longrightarrow> keyed rc_pkey (fold counter_insert xs t)"
  "ctotal (fold counter_insert xs t) x = (\<Sum>(k, s, i, h)\<leftarrow>xs. if (k, s, i) = x then 1 else 0) + ctotal t x"
  "chits (fold counter_insert xs t) x = (\<Sum>(k, s, i, h)\<leftarrow>xs. if (k, s, i) = x then h else 0) + chits t x"
  by (induction xs arbitrary: t) (auto simp: counter_insert_key counter_insert_total counter_insert_hits)

lemma hour_insert:
  fixes e h t
  defines "t' \<equiv> upsert rh_pkey rh_bump
    \<lparr>rh_hour = hour_of (rq_ts e), rh_repo = scope_of (rq_repo e), rh_total = 1, rh_hits = h\<rparr> t"
  shows "htotal t' x = (if hour_key e = x then 1 else 0) + htotal t x"
    and "hhits t' x = (if hour_key e = x then h else 0) + hhits t x"
  by (auto simp: t'_def htotal_def hhits_def rh.lookup_upsert rh_pkey_def hour_key_def rh_bump_def
      split: option.split)

lemma rollup_insert_ok:
  assumes "rollup_of es d"
  shows "rollup_of (es @ [e]) (rollup_insert e d)"
  using assms unfolding rollup_of_def rollup_insert_def
  by (simp add: fold_counter_insert rh.keyed_upsert hour_insert)
     (simp add: ev_total_def ev_hits_def)

subsection \<open>Delete triggers\<close>

lemma counter_delete_key: "keyed rc_pkey t \<Longrightarrow> keyed rc_pkey (counter_delete x t)"
  by (cases x) (auto simp: counter_delete_def rc_pkey_def intro: key_intros)

lemma counter_delete_lookup:
  "lookup rc_pkey x (counter_delete (k, s, i, h) t) =
     map_option (\<lambda>r. if (k, s, i) = x then r\<lparr>rc_total := rc_total r - 1, rc_hits := rc_hits r - h\<rparr> else r)
       (lookup rc_pkey x t)"
  by (cases "lookup rc_pkey x t")
     (auto simp: counter_delete_def lookup_update rc_pkey_def dest: lookup_SomeD)

lemma fold_counter_delete_key: "keyed rc_pkey t \<Longrightarrow> keyed rc_pkey (fold counter_delete xs t)"
  by (induction xs arbitrary: t) (auto simp: counter_delete_key)

lemma fold_counter_delete:
  assumes "lookup rc_pkey x t \<noteq> None \<or> (\<forall>(k, s, i, h) \<in> set xs. (k, s, i) \<noteq> x)"
  shows "ctotal (fold counter_delete xs t) x = ctotal t x - (\<Sum>(k, s, i, h)\<leftarrow>xs. if (k, s, i) = x then 1 else 0)"
    and "chits (fold counter_delete xs t) x = chits t x - (\<Sum>(k, s, i, h)\<leftarrow>xs. if (k, s, i) = x then h else 0)"
  using assms
proof (induction xs arbitrary: t)
  case Nil
  { case 1 then show ?case by simp }
  { case 2 then show ?case by simp }
next
  case (Cons y xs)
  obtain k s i h where y: "y = (k, s, i, h)" by (cases y) auto
  { case 1
    have "lookup rc_pkey x (counter_delete y t) \<noteq> None \<or> (\<forall>(k, s, i, h) \<in> set xs. (k, s, i) \<noteq> x)"
      using 1 by (auto simp: y counter_delete_lookup)
    from Cons.IH(1) [OF this] 1 show ?case
      by (auto simp: y ctotal_def counter_delete_lookup split: option.split) }
  { case 2
    have "lookup rc_pkey x (counter_delete y t) \<noteq> None \<or> (\<forall>(k, s, i, h) \<in> set xs. (k, s, i) \<noteq> x)"
      using 2 by (auto simp: y counter_delete_lookup)
    from Cons.IH(2) [OF this] 2 show ?case
      by (auto simp: y chits_def counter_delete_lookup split: option.split) }
qed

lemma ev_total_ge: "0 \<le> ev_total x e"
  using ev_hits_range [of x e] by simp

lemma ev_total_target:
  "(k, s, i, h) \<in> set (rollup_targets e) \<Longrightarrow> 1 \<le> ev_total (k, s, i) e"
  by (cases "rq_ip e") (auto simp: ev_total_def rollup_targets_def)

lemma rollup_delete_ok:
  assumes "rollup_of (e # es) d"
  shows "rollup_of es (rollup_delete e d)"
proof -
  let ?t = "request_counters d" and ?h = "request_hourly d"
  from assms have k: "keyed rc_pkey ?t" "keyed rh_pkey ?h"
    and tot: "\<And>x. ctotal ?t x = ev_total x e + (\<Sum>e\<leftarrow>es. ev_total x e)"
    and hit: "\<And>x. chits ?t x = ev_hits x e + (\<Sum>e\<leftarrow>es. ev_hits x e)"
    and hr: "\<And>x. htotal ?h x = (if hour_key e = x then 1 else 0) + (\<Sum>e\<leftarrow>es. if hour_key e = x then 1 else 0)"
    and hh: "\<And>x. hhits ?h x = (if hour_key e = x then hit_of e else 0) + (\<Sum>e\<leftarrow>es. if hour_key e = x then hit_of e else 0)"
    by (auto simp: rollup_of_def)
  have "lookup rc_pkey x ?t \<noteq> None \<or> (\<forall>(k, s, i, h) \<in> set (rollup_targets e). (k, s, i) \<noteq> x)" for x
  proof (rule ccontr)
    assume "\<not> ?thesis"
    then obtain k s i h where none: "lookup rc_pkey (k, s, i) ?t = None"
      and mem: "(k, s, i, h) \<in> set (rollup_targets e)" by auto
    from none have "ctotal ?t (k, s, i) = 0" by (simp add: ctotal_def)
    moreover have "0 \<le> (\<Sum>e\<leftarrow>es. ev_total (k, s, i) e)"
      using sum_hits_range [of "(k, s, i)" es] by linarith
    ultimately show False
      using tot [of "(k, s, i)"] ev_total_target [OF mem] by linarith
  qed
  note del = fold_counter_delete [OF this, folded ev_total_def ev_hits_def]
  have look: "lookup rh_pkey x (update_where
      (\<lambda>r. rh_hour r = hour_of (rq_ts e) \<and> rh_repo r = scope_of (rq_repo e))
      (\<lambda>r. r\<lparr>rh_total := rh_total r - 1, rh_hits := rh_hits r - hit_of e\<rparr>) ?h) =
      map_option (\<lambda>r. if hour_key e = x then r\<lparr>rh_total := rh_total r - 1, rh_hits := rh_hits r - hit_of e\<rparr> else r)
        (lookup rh_pkey x ?h)" for x
    by (cases "lookup rh_pkey x ?h")
       (auto simp: lookup_update rh_pkey_def hour_key_def dest: lookup_SomeD)
  have some: "lookup rh_pkey (hour_key e) ?h \<noteq> None"
    using hr [of "hour_key e"] sum_hour_range [of "hour_key e" es]
    by (auto simp: htotal_def split: option.splits)
  have kh: "keyed rh_pkey (request_hourly (rollup_delete e d))"
    using k(2) by (auto simp: rollup_delete_def rh_pkey_def intro: key_intros)
  have ht: "htotal (request_hourly (rollup_delete e d)) x = (\<Sum>e\<leftarrow>es. if hour_key e = x then 1 else 0)" for x
    using hr [of x] some
    by (cases "hour_key e = x") (auto simp: rollup_delete_def htotal_def look split: option.splits)
  have hh': "hhits (request_hourly (rollup_delete e d)) x = (\<Sum>e\<leftarrow>es. if hour_key e = x then hit_of e else 0)" for x
    using hh [of x] some
    by (cases "hour_key e = x") (auto simp: rollup_delete_def hhits_def look split: option.splits)
  show ?thesis
    unfolding rollup_of_def
    using kh ht hh' tot hit k del
    by (simp add: rollup_delete_def fold_counter_delete_key)
qed

lemma fold_rollup_delete_ok:
  "rollup_of (gone @ rest) d \<Longrightarrow> rollup_of rest (fold rollup_delete gone d)"
  by (induction gone arbitrary: d) (auto simp: rollup_delete_ok)

lemma rollup_of_frame:
  "request_counters d' = request_counters d \<Longrightarrow> request_hourly d' = request_hourly d \<Longrightarrow>
   rollup_of es d' = rollup_of es d"
  by (simp add: rollup_of_def)

lemma sum_filter_split:
  "(\<Sum>e\<leftarrow>filter P es @ filter (\<lambda>e. \<not> P e) es. f e) = ((\<Sum>e\<leftarrow>es. f e) :: int)"
  by (induction es) auto

lemma rollup_of_split:
  "rollup_of es d \<Longrightarrow> rollup_of (filter P es @ filter (\<lambda>e. \<not> P e) es) d"
  unfolding rollup_of_def sum_filter_split by simp

end
