(* ===== verification/Requests_Props.thy ===== *)
theory Requests_Props
  imports Store_Requests
begin

text \<open>
  Correctness of the request log: pruning deletes exactly the rows its predicate names, whatever the
  number of transactions, and every operation keeps the rollups equal to the log.
\<close>

section \<open>Pruning\<close>

definition req_ids :: "db \<Rightarrow> bool" where
  "req_ids d \<longleftrightarrow> keyed rq_id (request_events d) \<and>
     (\<forall>e \<in> set (request_events d). rq_id e \<le> request_events_seq d)"

lemma fold_rollup_delete_seq [simp]:
  "request_events_seq (fold rollup_delete es d) = request_events_seq d"
  by (induction es arbitrary: d) (auto simp: rollup_delete_def)

lemma delete_chunk_seq [simp]: "request_events_seq (snd (delete_chunk P d)) = request_events_seq d"
  by (simp add: delete_chunk_def Let_def)

lemma delete_chunk_rollups:
  assumes "rollups_ok d" shows "rollups_ok (snd (delete_chunk P d))"
proof -
  let ?Q = "\<lambda>e. rq_id e \<in> set (map rq_id (take prune_chunk (filter P (request_events d))))"
  let ?d = "d\<lparr>request_events := delete_where ?Q (request_events d)\<rparr>"
  have "rollup_of (filter ?Q (request_events d) @ filter (\<lambda>e. \<not> ?Q e) (request_events d)) d"
    using assms rollup_of_split unfolding rollups_ok_def by blast
  then have "rollup_of (filter ?Q (request_events d) @ filter (\<lambda>e. \<not> ?Q e) (request_events d)) ?d"
    by (subst (asm) rollup_of_frame [of ?d d, symmetric]) simp_all
  then have "rollup_of (filter (\<lambda>e. \<not> ?Q e) (request_events d))
      (fold rollup_delete (filter ?Q (request_events d)) ?d)"
    by (rule fold_rollup_delete_ok)
  then show ?thesis
    by (simp add: rollups_ok_def delete_chunk_def Let_def delete_where_def)
qed

text \<open>With unique ids one chunk deletes exactly the rows it selected.\<close>

lemma filter_ids_take:
  assumes "distinct (map f es)" "set xs \<subseteq> set es"
  shows "filter (\<lambda>e. f e \<notin> f ` set xs) es = filter (\<lambda>e. e \<notin> set xs) es"
proof (rule filter_cong)
  fix e assume e: "e \<in> set es"
  have "inj_on f (set es)" using assms(1) by (simp add: distinct_map)
  with e assms(2) show "(f e \<notin> f ` set xs) = (e \<notin> set xs)"
    by (auto simp: inj_on_def)
qed simp

lemma filter_not_take:
  assumes "distinct es"
  shows "filter P (filter (\<lambda>e. e \<notin> set (take n (filter P es))) es) = drop n (filter P es)"
proof -
  have "filter P (filter (\<lambda>e. e \<notin> set (take n (filter P es))) es) =
      filter (\<lambda>e. e \<notin> set (take n (filter P es))) (filter P es)"
    by (simp add: conj_commute)
  also have "\<dots> = drop n (filter P es)"
  proof -
    have d: "distinct (take n (filter P es) @ drop n (filter P es))" using assms by simp
    then have dis: "set (take n (filter P es)) \<inter> set (drop n (filter P es)) = {}"
      by (simp only: distinct_append)
    have "filter (\<lambda>e. e \<notin> set (take n (filter P es))) (take n (filter P es) @ drop n (filter P es)) =
        drop n (filter P es)"
      unfolding filter_append using dis by (auto simp: filter_empty_conv intro!: filter_True)
    then show ?thesis by simp
  qed
  finally show ?thesis .
qed

lemma delete_chunk_exact:
  fixes P d
  assumes "req_ids d"
  defines "es \<equiv> request_events d"
  defines "xs \<equiv> take prune_chunk (filter P es)"
  shows "request_events (snd (delete_chunk P d)) = filter (\<lambda>e. e \<notin> set xs) es"
    and "fst (delete_chunk P d) = length xs"
    and "req_ids (snd (delete_chunk P d))"
proof -
  have keyed: "distinct (map rq_id es)" using assms(1) by (simp add: req_ids_def keyed_def es_def)
  have sub: "set xs \<subseteq> set es" by (auto simp: xs_def dest: in_set_takeD)
  show A: "request_events (snd (delete_chunk P d)) = filter (\<lambda>e. e \<notin> set xs) es"
    unfolding delete_chunk_events es_def [symmetric] xs_def [symmetric]
    by (rule filter_ids_take [OF keyed sub])
  have dist: "distinct es" using keyed by (simp add: distinct_map)
  then have "distinct xs" by (simp add: xs_def)
  have "length es = length (filter (\<lambda>e. e \<in> set xs) es) + length (filter (\<lambda>e. e \<notin> set xs) es)"
    by (rule sum_length_filter_compl [symmetric])
  moreover have "length (filter (\<lambda>e. e \<in> set xs) es) = length xs"
  proof -
    have "set (filter (\<lambda>e. e \<in> set xs) es) = set xs" using sub by auto
    then show ?thesis
      using dist \<open>distinct xs\<close> by (metis distinct_card distinct_filter)
  qed
  ultimately show "fst (delete_chunk P d) = length xs"
    using delete_chunk_length [of P d] A by (simp add: es_def)
  show "req_ids (snd (delete_chunk P d))"
    using assms(1) A by (auto simp: req_ids_def es_def intro: keyed_filter)
qed

lemma delete_requests_stop:
  "delete_chunk P d = (count, d') \<Longrightarrow> count < prune_chunk \<Longrightarrow> delete_requests P d = (count, d')"
  by (subst delete_requests.simps) simp

lemma delete_requests_more:
  "delete_chunk P d = (count, d') \<Longrightarrow> \<not> count < prune_chunk \<Longrightarrow>
   delete_requests P d = (count + fst (delete_requests P d'), snd (delete_requests P d'))"
  by (subst delete_requests.simps) (simp add: case_prod_unfold Let_def)

lemma delete_requests_exact:
  "req_ids d \<Longrightarrow>
   request_events (snd (delete_requests P d)) = delete_where P (request_events d) \<and>
   fst (delete_requests P d) = count_where P (request_events d) \<and>
   req_ids (snd (delete_requests P d)) \<and>
   request_events_seq (snd (delete_requests P d)) = request_events_seq d"
proof (induction P d rule: delete_requests.induct)
  case (1 P d)
  obtain count d' where chunk: "delete_chunk P d = (count, d')" by (cases "delete_chunk P d")
  let ?es = "request_events d"
  let ?xs = "take prune_chunk (filter P ?es)"
  note exact = delete_chunk_exact [OF 1(2), of P, unfolded chunk, simplified]
  have dist: "distinct ?es" using 1(2) by (auto simp: req_ids_def keyed_def distinct_map)
  have seq: "request_events_seq d' = request_events_seq d" using delete_chunk_seq [of P d] chunk by simp
  show ?case
  proof (cases "count < prune_chunk")
    case True
    then have all: "?xs = filter P ?es" using exact(2) by auto
    have "filter (\<lambda>e. e \<notin> set ?xs) ?es = delete_where P ?es"
      unfolding all delete_where_def by (rule filter_cong) auto
    with True exact all seq show ?thesis
      unfolding delete_requests_stop [OF chunk True] by (simp add: count_where_def)
  next
    case False
    from 1(1) [OF chunk [symmetric] refl False exact(3)]
    have IH: "request_events (snd (delete_requests P d')) = delete_where P (request_events d')"
      "fst (delete_requests P d') = count_where P (request_events d')"
      "req_ids (snd (delete_requests P d'))"
      "request_events_seq (snd (delete_requests P d')) = request_events_seq d" using seq by auto
    have rest: "delete_where P (request_events d') = delete_where P ?es"
      unfolding exact(1) delete_where_def by (auto intro!: filter_cong dest: in_set_takeD)
    have "filter P (request_events d') = drop prune_chunk (filter P ?es)"
      unfolding exact(1) by (rule filter_not_take [OF dist])
    then have "count + count_where P (request_events d') = count_where P ?es"
      using exact(2) by (simp add: count_where_def)
    with IH rest show ?thesis
      unfolding delete_requests_more [OF chunk False] by simp
  qed
qed

lemma delete_requests_rollups: "rollups_ok d \<Longrightarrow> rollups_ok (snd (delete_requests P d))"
proof (induction P d rule: delete_requests.induct)
  case (1 P d)
  obtain count d' where chunk: "delete_chunk P d = (count, d')" by (cases "delete_chunk P d")
  have d': "rollups_ok d'" using delete_chunk_rollups [OF 1(2), of P] chunk by simp
  show ?case
  proof (cases "count < prune_chunk")
    case True
    with d' show ?thesis by (simp add: delete_requests_stop [OF chunk])
  next
    case False
    with 1(1) [OF chunk [symmetric] refl False d'] show ?thesis
      by (simp add: delete_requests_more [OF chunk])
  qed
qed

lemma sweep_frame [simp]:
  "request_events (sweep_rollups d) = request_events d"
  "request_events_seq (sweep_rollups d) = request_events_seq d"
  by (simp_all add: sweep_rollups_def)

lemma sweep_rollups_ok:
  assumes "rollups_ok d" shows "rollups_ok (sweep_rollups d)"
proof -
  let ?es = "request_events d"
  from assms have k: "keyed rc_pkey (request_counters d)" "keyed rh_pkey (request_hourly d)"
    and tot: "\<And>x. ctotal (request_counters d) x = (\<Sum>e\<leftarrow>?es. ev_total x e)"
    and hit: "\<And>x. chits (request_counters d) x = (\<Sum>e\<leftarrow>?es. ev_hits x e)"
    and htot: "\<And>x. htotal (request_hourly d) x = (\<Sum>e\<leftarrow>?es. if hour_key e = x then 1 else 0)"
    and hhit: "\<And>x. hhits (request_hourly d) x = (\<Sum>e\<leftarrow>?es. if hour_key e = x then hit_of e else 0)"
    by (auto simp: rollups_ok_def rollup_of_def)
  have "ctotal (delete_where (\<lambda>r. rc_total r \<le> 0) (request_counters d)) x = ctotal (request_counters d) x \<and>
        chits (delete_where (\<lambda>r. rc_total r \<le> 0) (request_counters d)) x = chits (request_counters d) x" for x
    using tot [of x] hit [of x] sum_hits_range [of x ?es]
    by (auto simp: ctotal_def chits_def lookup_delete [OF k(1)] split: option.splits)
  moreover have "htotal (delete_where (\<lambda>r. rh_total r \<le> 0) (request_hourly d)) x = htotal (request_hourly d) x \<and>
        hhits (delete_where (\<lambda>r. rh_total r \<le> 0) (request_hourly d)) x = hhits (request_hourly d) x" for x
    using htot [of x] hhit [of x] sum_hour_range [of x ?es]
    by (auto simp: htotal_def hhits_def lookup_delete [OF k(2)] split: option.splits)
  ultimately show ?thesis
    using k tot hit htot hhit
    by (simp add: rollups_ok_def rollup_of_def) (simp add: sweep_rollups_def key_intros)
qed

definition log_ok :: "db \<Rightarrow> bool" where
  "log_ok d \<longleftrightarrow> req_ids d \<and> rollups_ok d"

lemma record_request_ok: "log_ok d \<Longrightarrow> log_ok (record_request now r d)"
proof -
  assume ok: "log_ok d"
  define e where "e = \<lparr>rq_id = Suc (request_events_seq d), rq_ts = now, rq_repo = ri_repo r, rq_ip = ri_ip r,
               rq_method = ri_method r, rq_path = ri_path r, rq_status = ri_status r,
               rq_cache = ri_cache r, rq_pkey = ri_pkey r, rq_prepo = ri_prepo r\<rparr>"
  define d1 where "d1 = d\<lparr>request_events := request_events d @ [e], request_events_seq := Suc (request_events_seq d)\<rparr>"
  have rec: "record_request now r d = rollup_insert e d1"
    by (simp add: record_request_def e_def d1_def Let_def)
  have "rollup_of (request_events d) d1"
    using ok by (subst rollup_of_frame [of d1 d]) (simp_all add: d1_def log_ok_def rollups_ok_def)
  from rollup_insert_ok [OF this, of e] have "rollups_ok (rollup_insert e d1)"
    by (simp add: rollups_ok_def) (simp add: rollup_insert_def d1_def)
  moreover have "req_ids (rollup_insert e d1)"
  proof -
    have "rq_id e = Suc (request_events_seq d)" by (simp add: e_def)
    moreover have "\<forall>x \<in> set (request_events d). rq_id x \<le> request_events_seq d" "keyed rq_id (request_events d)"
      using ok by (auto simp: log_ok_def req_ids_def)
    ultimately show ?thesis
      by (auto simp: req_ids_def rollup_insert_def d1_def keyed_def)
  qed
  ultimately show ?thesis by (simp add: log_ok_def rec)
qed

lemma delete_requests_ok: "log_ok d \<Longrightarrow> log_ok (snd (delete_requests P d))"
  by (simp add: log_ok_def delete_requests_exact delete_requests_rollups)

lemma sweep_ok: "log_ok d \<Longrightarrow> log_ok (sweep_rollups d)"
  by (simp add: log_ok_def sweep_rollups_ok req_ids_def)

lemma prune_requests_ok: "log_ok d \<Longrightarrow> log_ok (snd (prune_requests now days d))"
  by (auto simp: prune_requests_def case_prod_unfold Let_def delete_requests_ok sweep_ok)

lemma prune_requests_by_size_ok: "log_ok d \<Longrightarrow> log_ok (snd (prune_requests_by_size n d))"
  by (auto simp: prune_requests_by_size_def case_prod_unfold Let_def delete_requests_ok sweep_ok)

subsection \<open>The newest rows survive\<close>

definition req_rank :: "request_event \<Rightarrow> int \<times> nat" where
  "req_rank e = (- rq_ts e, rq_id e)"

lemma newest_first_rank: "newest_first = sort_key req_rank"
  by (rule ext) (simp add: newest_first_def req_rank_def [abs_def])

lemma sort_key_below_nth:
  fixes f :: "'a \<Rightarrow> 'k::linorder"
  assumes "distinct (map f es)" and "m < length es"
  shows "{e \<in> set es. f e < f (sort_key f es ! m)} = set (take m (sort_key f es))"
proof -
  let ?ns = "sort_key f es"
  have srt: "sorted (map f ?ns)" by simp
  have "distinct (map f ?ns)"
    using assms(1) by (simp add: distinct_map)
  then have strict: "sorted_wrt (<) (map f ?ns)"
    using srt by (simp add: strict_sorted_iff)
  have less: "i < j \<Longrightarrow> j < length ?ns \<Longrightarrow> f (?ns ! i) < f (?ns ! j)" for i j
    using strict by (simp add: sorted_wrt_iff_nth_less)
  have len: "length ?ns = length es" by simp
  have mem: "e \<in> set es \<longleftrightarrow> (\<exists>i < length ?ns. e = ?ns ! i)" for e
    by (metis in_set_conv_nth set_sort)
  have "e \<in> set (take m ?ns) \<longleftrightarrow> (\<exists>i < m. e = ?ns ! i)" for e
    using assms(2) by (auto simp: in_set_conv_nth)
  moreover have "f (?ns ! i) < f (?ns ! m) \<longleftrightarrow> i < m" if "i < length ?ns" for i
    using less [of i m] less [of m i] that assms(2) len by (metis linorder_neqE_nat order_less_asym order_less_irrefl)
  ultimately show ?thesis
    using assms(2) len by (auto simp: mem) (metis order_less_trans)
qed

lemma prune_requests_by_size_set:
  assumes "req_ids d"
  shows "set (request_events (snd (prune_requests_by_size m d))) = set (take m (newest_first (request_events d)))"
proof (cases "length (request_events d) \<le> m")
  case True
  then show ?thesis
    by (simp add: prune_requests_by_size_def newest_first_rank Let_def)
next
  case False
  let ?es = "request_events d"
  let ?b = "newest_first ?es ! m"
  let ?d1 = "snd (delete_requests (\<lambda>e. rq_ts e < rq_ts ?b) d)"
  have "distinct (map rq_id ?es)" using assms by (simp add: req_ids_def keyed_def)
  then have "distinct (map req_rank ?es)"
    by (auto simp: distinct_map inj_on_def req_rank_def)
  from sort_key_below_nth [OF this, of m] False
  have take: "{e \<in> set ?es. req_rank e < req_rank ?b} = set (take m (newest_first ?es))"
    by (simp add: newest_first_rank)
  have d1: "request_events ?d1 = delete_where (\<lambda>e. rq_ts e < rq_ts ?b) ?es" "req_ids ?d1"
    using delete_requests_exact [OF assms] by auto
  have "request_events (snd (prune_requests_by_size m d)) =
      delete_where (\<lambda>e. rq_ts e = rq_ts ?b \<and> rq_id e \<ge> rq_id ?b) (request_events ?d1)"
    using False delete_requests_exact [OF d1(2)]
    by (simp add: prune_requests_by_size_def Let_def case_prod_unfold newest_first_rank)
  also have "set \<dots> = {e \<in> set ?es. req_rank e < req_rank ?b}"
    by (auto simp: d1(1) req_rank_def)
  finally show ?thesis using take by simp
qed

section \<open>Filling the rollups of an existing log\<close>

lemma sum_indicator: "int (length (filter P es)) = (\<Sum>e\<leftarrow>es. if P e then 1 else 0)"
  by (induction es) auto

lemma sum_filter: "(\<Sum>e\<leftarrow>filter P es. f e) = (\<Sum>e\<leftarrow>es. if P e then f e else (0::int))"
  by (induction es) auto

lemma lookup_map_remdups:
  assumes "\<And>x y. key (row x) = key (row y) \<Longrightarrow> x = y"
  shows "keyed key (map row (remdups xs))"
    and "lookup key (key (row x)) (map row (remdups xs)) = (if x \<in> set xs then Some (row x) else None)"
proof -
  have inj: "inj_on (key \<circ> row) A" for A using assms by (auto simp: inj_on_def)
  show k: "keyed key (map row (remdups xs))"
    using inj [of "set xs"] by (simp add: keyed_def distinct_map)
  show "lookup key (key (row x)) (map row (remdups xs)) = (if x \<in> set xs then Some (row x) else None)"
  proof (cases "x \<in> set xs")
    case True
    then have "row x \<in> set (map row (remdups xs))" by simp
    with True lookup_Some_iff [OF k, of "key (row x)" "row x"] show ?thesis by simp
  next
    case False
    then have "key (row x) \<notin> key ` set (map row (remdups xs))"
      by (auto dest: assms)
    with False lookup_None_iff [of key "key (row x)" "map row (remdups xs)"] show ?thesis by simp
  qed
qed

lemma group_counters_keyed: "keyed rc_pkey (group_counters kind g hits es)"
  unfolding group_counters_def by (rule lookup_map_remdups) (auto simp: rc_pkey_def prod_eq_iff)

lemma group_domain:
  "set (map the (filter (\<lambda>x. x \<noteq> None) (map g es))) = {x. \<exists>e \<in> set es. g e = Some x}"
  by (induction es) auto

lemma keys_map_remdups: "key ` set (map row (remdups xs)) = (\<lambda>x. key (row x)) ` set xs"
  by auto

lemma group_counters_keys:
  "rc_pkey ` set (group_counters kind g hits es) = (\<lambda>x. (kind, x)) ` {x. \<exists>e \<in> set es. g e = Some x}"
  unfolding group_counters_def keys_map_remdups group_domain by (simp add: rc_pkey_def)

lemma group_counters_lookup:
  "lookup rc_pkey (kind, x) (group_counters kind g hits es) =
     (if Some x \<in> g ` set es
      then Some \<lparr>rc_kind = kind, rc_repo = fst x, rc_key = snd x,
               rc_total = int (length (filter (\<lambda>e. g e = Some x) es)),
               rc_hits = sum_list (map hits (filter (\<lambda>e. g e = Some x) es))\<rparr>
      else None)"
proof -
  let ?row = "\<lambda>x. \<lparr>rc_kind = kind, rc_repo = fst x, rc_key = snd x,
      rc_total = int (length (filter (\<lambda>e. g e = Some x) es)),
      rc_hits = sum_list (map hits (filter (\<lambda>e. g e = Some x) es))\<rparr>"
  have "rc_pkey (?row x) = (kind, x)" by (simp add: rc_pkey_def)
  moreover have "x \<in> set (map the (filter (\<lambda>x. x \<noteq> None) (map g es))) \<longleftrightarrow> (\<exists>e \<in> set es. g e = Some x)"
    unfolding group_domain by simp
  moreover have "Some x \<in> g ` set es \<longleftrightarrow> (\<exists>e \<in> set es. g e = Some x)"
    by (auto simp: image_iff eq_commute)
  ultimately show ?thesis
    using lookup_map_remdups(2) [where key = rc_pkey and row = ?row and x = x
        and xs = "map the (filter (\<lambda>x. x \<noteq> None) (map g es))"]
    by (auto simp: group_counters_def rc_pkey_def prod_eq_iff)
qed

lemma group_counters_total:
  "ctotal (group_counters kind g hits es) (k, x) =
     (\<Sum>e\<leftarrow>es. if k = kind \<and> g e = Some x then 1 else 0)"
proof (cases "k = kind")
  case True
  have "Some x \<notin> g ` set es \<Longrightarrow> (\<Sum>e\<leftarrow>es. if g e = Some x then 1 else 0) = (0::int)"
    by (induction es) auto
  with True show ?thesis
    by (simp add: ctotal_def group_counters_lookup sum_indicator)
next
  case False
  then have "lookup rc_pkey (k, x) (group_counters kind g hits es) = None"
    by (auto simp: lookup_None_iff group_counters_keys)
  with False show ?thesis by (simp add: ctotal_def)
qed

lemma group_counters_hits:
  "chits (group_counters kind g hits es) (k, x) =
     (\<Sum>e\<leftarrow>es. if k = kind \<and> g e = Some x then hits e else 0)"
proof (cases "k = kind")
  case True
  have "Some x \<notin> g ` set es \<Longrightarrow> (\<Sum>e\<leftarrow>es. if g e = Some x then hits e else 0) = (0::int)"
    by (induction es) auto
  with True show ?thesis
    by (simp add: chits_def group_counters_lookup sum_filter)
next
  case False
  then have "lookup rc_pkey (k, x) (group_counters kind g hits es) = None"
    by (auto simp: lookup_None_iff group_counters_keys)
  with False show ?thesis by (simp add: chits_def)
qed

lemma lookup_append:
  "lookup key k (a @ b) = (case lookup key k a of Some r \<Rightarrow> Some r | None \<Rightarrow> lookup key k b)"
  by (induction a) (auto simp: lookup_def)

lemma ctotal_append:
  assumes "rc_pkey ` set a \<inter> rc_pkey ` set b = {}"
  shows "ctotal (a @ b) x = ctotal a x + ctotal b x" "chits (a @ b) x = chits a x + chits b x"
proof -
  have "lookup rc_pkey x a = None \<or> lookup rc_pkey x b = None"
    using assms by (auto simp: lookup_None_iff)
  then show "ctotal (a @ b) x = ctotal a x + ctotal b x" "chits (a @ b) x = chits a x + chits b x"
    by (auto simp: ctotal_def chits_def lookup_append split: option.split)
qed

lemma keyed_append:
  "keyed key (a @ b) \<longleftrightarrow> keyed key a \<and> keyed key b \<and> key ` set a \<inter> key ` set b = {}"
  by (auto simp: keyed_def)

lemma star_not_scope [simp]: "''*'' \<noteq> scope_of r"
  using scope_not_star by metis

lemma ev_total_split:
  "ev_total (k, s, i) e =
     (if k = ''repo'' \<and> Some (scope_of (rq_repo e), []) = Some (s, i) then 1 else 0) +
     ((if k = ''ip'' \<and> map_option (\<lambda>ip. (scope_of (rq_repo e), ip)) (rq_ip e) = Some (s, i) then 1 else 0) +
     ((if k = ''ip'' \<and> map_option (\<lambda>ip. (''*'', ip)) (rq_ip e) = Some (s, i) then 1 else 0) +
     ((if k = ''path'' \<and> Some (scope_of (rq_repo e), rq_path e) = Some (s, i) then 1 else 0) +
      (if k = ''path'' \<and> Some (''*'', rq_path e) = Some (s, i) then 1 else 0))))"
  by (cases "rq_ip e") (auto simp: ev_total_def rollup_targets_def)

lemma ev_hits_split:
  "ev_hits (k, s, i) e =
     (if k = ''repo'' \<and> Some (scope_of (rq_repo e), []) = Some (s, i) then hit_of e else 0)"
  by (cases "rq_ip e") (auto simp: ev_hits_def rollup_targets_def)

lemma request_rollups_ok:
  assumes "req_ids d" shows "log_ok (request_rollups False d)"
proof -
  let ?es = "request_events d"
  let ?A = "group_counters ''repo'' (\<lambda>e. Some (scope_of (rq_repo e), [])) hit_of ?es"
  let ?B = "group_counters ''ip'' (\<lambda>e. map_option (\<lambda>ip. (scope_of (rq_repo e), ip)) (rq_ip e)) (\<lambda>_. 0) ?es"
  let ?C = "group_counters ''ip'' (\<lambda>e. map_option (\<lambda>ip. (''*'', ip)) (rq_ip e)) (\<lambda>_. 0) ?es"
  let ?D = "group_counters ''path'' (\<lambda>e. Some (scope_of (rq_repo e), rq_path e)) (\<lambda>_. 0) ?es"
  let ?E = "group_counters ''path'' (\<lambda>e. Some (''*'', rq_path e)) (\<lambda>_. 0) ?es"
  have dis: "rc_pkey ` set ?D \<inter> rc_pkey ` set ?E = {}"
    "rc_pkey ` set ?C \<inter> rc_pkey ` set (?D @ ?E) = {}"
    "rc_pkey ` set ?B \<inter> rc_pkey ` set (?C @ ?D @ ?E) = {}"
    "rc_pkey ` set ?A \<inter> rc_pkey ` set (?B @ ?C @ ?D @ ?E) = {}"
    by (auto simp: image_Un group_counters_keys)
  have keyed: "keyed rc_pkey (?A @ ?B @ ?C @ ?D @ ?E)"
    using dis by (simp add: keyed_append group_counters_keyed image_Un del: Int_iff)
  have tot: "ctotal (?A @ ?B @ ?C @ ?D @ ?E) (k, s, i) = (\<Sum>e\<leftarrow>?es. ev_total (k, s, i) e)" for k s i
    unfolding ctotal_append [OF dis(4)] ctotal_append [OF dis(3)] ctotal_append [OF dis(2)]
      ctotal_append [OF dis(1)] group_counters_total
    unfolding ev_total_split sum_list_addf ..
  have hit: "chits (?A @ ?B @ ?C @ ?D @ ?E) (k, s, i) = (\<Sum>e\<leftarrow>?es. ev_hits (k, s, i) e)" for k s i
    unfolding ctotal_append [OF dis(4)] ctotal_append [OF dis(3)] ctotal_append [OF dis(2)]
      ctotal_append [OF dis(1)] group_counters_hits
    unfolding ev_hits_split by simp
  let ?hrow = "\<lambda>x. \<lparr>rh_hour = fst x, rh_repo = snd x,
      rh_total = int (length (filter (\<lambda>e. hour_key e = x) ?es)),
      rh_hits = sum_list (map hit_of (filter (\<lambda>e. hour_key e = x) ?es))\<rparr>"
  let ?H = "map ?hrow (remdups (map hour_key ?es))"
  have H: "keyed rh_pkey ?H"
    "lookup rh_pkey x ?H = (if x \<in> set (map hour_key ?es) then Some (?hrow x) else None)" for x
    using lookup_map_remdups(1) [where key = rh_pkey and row = ?hrow and xs = "map hour_key ?es"]
      lookup_map_remdups(2) [where key = rh_pkey and row = ?hrow and xs = "map hour_key ?es" and x = x]
    by (auto simp: rh_pkey_def prod_eq_iff)
  have zero: "x \<notin> hour_key ` set es \<Longrightarrow> (\<Sum>e\<leftarrow>es. if hour_key e = x then 1 else 0) = (0::int) \<and>
      (\<Sum>e\<leftarrow>es. if hour_key e = x then hit_of e else 0) = (0::int)" for x es
    by (induction es) auto
  have hour: "htotal ?H x = (\<Sum>e\<leftarrow>?es. if hour_key e = x then 1 else 0)"
    "hhits ?H x = (\<Sum>e\<leftarrow>?es. if hour_key e = x then hit_of e else 0)" for x
    unfolding htotal_def hhits_def H(2)
    using zero [of x ?es] by (simp_all add: sum_indicator sum_filter)
  have "rollup_of ?es (request_rollups False d)"
    using keyed tot hit H(1) hour
    by (simp add: rollup_of_def request_rollups_def Let_def hour_key_def [abs_def])
  with assms show ?thesis
    by (simp add: log_ok_def rollups_ok_def req_ids_def) (simp add: request_rollups_def Let_def)
qed

section \<open>Reading the statistics\<close>

datatype log_op = Record stamp request_in | Prune stamp nat | PruneSize nat

fun log_step :: "log_op \<Rightarrow> db \<Rightarrow> db" where
  "log_step (Record now r) d = record_request now r d"
| "log_step (Prune now days) d = snd (prune_requests now days d)"
| "log_step (PruneSize n) d = snd (prune_requests_by_size n d)"

definition log_run :: "log_op list \<Rightarrow> db \<Rightarrow> db" where
  "log_run ops d = fold log_step ops d"

lemma log_run_ok: "log_ok d \<Longrightarrow> log_ok (log_run ops d)"
proof (induction ops arbitrary: d)
  case Nil
  then show ?case by (simp add: log_run_def)
next
  case (Cons x ops)
  have "log_ok (log_step x d)"
    using Cons.prems by (cases x) (auto simp: record_request_ok prune_requests_ok prune_requests_by_size_ok)
  then show ?case using Cons.IH by (simp add: log_run_def)
qed

lemma sum_pos_iff:
  "(\<And>e. 0 \<le> f e) \<Longrightarrow> 0 < (\<Sum>e\<leftarrow>es. f e) \<longleftrightarrow> (\<exists>e \<in> set es. 0 < (f e :: int))"
proof (induction es)
  case Nil
  then show ?case by simp
next
  case (Cons a es)
  have "0 \<le> (\<Sum>e\<leftarrow>es. f e)" using Cons.prems by (induction es) auto
  with Cons.prems [of a] Cons.IH [OF Cons.prems] show ?case by auto
qed

lemma live_counters:
  assumes "rollups_ok d"
  defines "es \<equiv> request_events d"
  shows "{(rc_pkey r, rc_total r, rc_hits r) | r. r \<in> set (request_counters d) \<and> 0 < rc_total r} =
         {(x, \<Sum>e\<leftarrow>es. ev_total x e, \<Sum>e\<leftarrow>es. ev_hits x e) | x. \<exists>e \<in> set es. 0 < ev_total x e}"
    (is "?L = ?R")
proof -
  from assms(1) have k: "keyed rc_pkey (request_counters d)"
    and tot: "\<And>x. ctotal (request_counters d) x = (\<Sum>e\<leftarrow>es. ev_total x e)"
    and hit: "\<And>x. chits (request_counters d) x = (\<Sum>e\<leftarrow>es. ev_hits x e)"
    by (auto simp: rollups_ok_def rollup_of_def es_def)
  note look = lookup_Some_iff [OF k]
  have row: "rc_total r = (\<Sum>e\<leftarrow>es. ev_total (rc_pkey r) e) \<and> rc_hits r = (\<Sum>e\<leftarrow>es. ev_hits (rc_pkey r) e)"
    if "r \<in> set (request_counters d)" for r
    using tot [of "rc_pkey r"] hit [of "rc_pkey r"] look [of "rc_pkey r" r] that
    by (simp add: ctotal_def chits_def)
  have pos: "0 < (\<Sum>e\<leftarrow>es. ev_total x e) \<longleftrightarrow> (\<exists>e \<in> set es. 0 < ev_total x e)" for x
    by (rule sum_pos_iff) (rule ev_total_ge)
  have ex: "\<exists>r \<in> set (request_counters d). rc_pkey r = x" if "0 < (\<Sum>e\<leftarrow>es. ev_total x e)" for x
    using tot [of x] that by (auto simp: ctotal_def dest: lookup_SomeD split: option.splits)
  show ?thesis
  proof (intro subset_antisym subsetI)
    fix y assume "y \<in> ?L"
    then obtain r where r: "r \<in> set (request_counters d)" "0 < rc_total r"
      and y: "y = (rc_pkey r, rc_total r, rc_hits r)" by auto
    with row [OF r(1)] have "\<exists>e \<in> set es. 0 < ev_total (rc_pkey r) e" by (simp add: pos [symmetric])
    with y row [OF r(1)] show "y \<in> ?R" by blast
  next
    fix y assume "y \<in> ?R"
    then obtain x where x: "0 < (\<Sum>e\<leftarrow>es. ev_total x e)"
      and y: "y = (x, \<Sum>e\<leftarrow>es. ev_total x e, \<Sum>e\<leftarrow>es. ev_hits x e)" by (auto simp: pos)
    from ex [OF x] obtain r where "r \<in> set (request_counters d)" "rc_pkey r = x" by auto
    with row [of r] x y show "y \<in> ?L" by auto
  qed
qed

lemma ev_total_repo: "ev_total (''repo'', s, i) e = (if i = [] \<and> scope_of (rq_repo e) = s then 1 else 0)"
  and ev_total_path: "ev_total (''path'', s, i) e =
    (if rq_path e = i \<and> (scope_of (rq_repo e) = s \<or> s = ''*'') then 1 else 0)"
  and ev_total_ip: "ev_total (''ip'', s, i) e =
    (if rq_ip e = Some i \<and> (scope_of (rq_repo e) = s \<or> s = ''*'') then 1 else 0)"
  and ev_hits_repo: "ev_hits (''repo'', s, i) e = (if i = [] \<and> scope_of (rq_repo e) = s then hit_of e else 0)"
  by (auto simp: ev_total_split ev_hits_split)

lemma count_sum: "int (count_where P es) = (\<Sum>e\<leftarrow>es. if P e then 1 else 0)"
  by (simp add: count_where_def sum_indicator)

lemma count_hits:
  "int (count_where (\<lambda>e. P e \<and> rq_cache e = Some ''HIT'') es) = (\<Sum>e\<leftarrow>es. if P e then hit_of e else 0)"
  by (induction es) (auto simp: count_where_def hit_of_def)

lemma repo_sums:
  "(\<Sum>e\<leftarrow>es. ev_total (''repo'', scope_of r, []) e) = int (count_where (\<lambda>e. rq_repo e = r) es)"
  "(\<Sum>e\<leftarrow>es. ev_hits (''repo'', scope_of r, []) e) =
     int (count_where (\<lambda>e. rq_repo e = r \<and> rq_cache e = Some ''HIT'') es)"
  by (induction es) (auto simp: ev_total_repo ev_hits_repo count_where_def hit_of_def)

lemma live_repo_keys:
  "0 < ev_total x e \<and> fst x = ''repo'' \<longleftrightarrow> x = (''repo'', scope_of (rq_repo e), [])"
  by (cases x) (auto simp: ev_total_repo split: if_splits)

lemma scope_repo_inv: "(if scope_of r = [] then None else Some (drop 2 (scope_of r))) = r"
  by (auto simp: scope_of_def split: option.split)

lemma hit_stats_of_log:
  assumes "rollups_ok d"
  shows "set (get_request_hit_stats d) =
    (\<lambda>r. (r, int (count_where (\<lambda>e. rq_repo e = r) (request_events d)),
             int (count_where (\<lambda>e. rq_repo e = r \<and> rq_cache e = Some ''HIT'') (request_events d)))) `
      rq_repo ` set (request_events d)" (is "_ = ?R")
proof -
  let ?f = "\<lambda>((k, s, i), t, h). (if s = [] then None else Some (drop 2 s), t, h :: int)"
  let ?S = "{y. fst (fst y) = ''repo''}"
  let ?es = "request_events d"
  have "set (get_request_hit_stats d) =
      ?f ` ({(rc_pkey r, rc_total r, rc_hits r) | r. r \<in> set (request_counters d) \<and> 0 < rc_total r} \<inter> ?S)"
    by (force simp: get_request_hit_stats_def rc_pkey_def)
  also have "\<dots> = ?f ` ({(x, \<Sum>e\<leftarrow>?es. ev_total x e, \<Sum>e\<leftarrow>?es. ev_hits x e) | x. \<exists>e \<in> set ?es. 0 < ev_total x e} \<inter> ?S)"
    using live_counters [OF assms] by simp
  also have "{(x, \<Sum>e\<leftarrow>?es. ev_total x e, \<Sum>e\<leftarrow>?es. ev_hits x e) | x. \<exists>e \<in> set ?es. 0 < ev_total x e} \<inter> ?S =
      (\<lambda>r. ((''repo'', scope_of r, []), int (count_where (\<lambda>e. rq_repo e = r) ?es),
            int (count_where (\<lambda>e. rq_repo e = r \<and> rq_cache e = Some ''HIT'') ?es))) ` rq_repo ` set ?es"
      (is "?A = ?B")
  proof -
    have "?A = (\<lambda>x. (x, \<Sum>e\<leftarrow>?es. ev_total x e, \<Sum>e\<leftarrow>?es. ev_hits x e)) `
        {x. \<exists>e \<in> set ?es. 0 < ev_total x e \<and> fst x = ''repo''}" by auto
    also have "{x. \<exists>e \<in> set ?es. 0 < ev_total x e \<and> fst x = ''repo''} =
        (\<lambda>r. (''repo'', scope_of r, [])) ` rq_repo ` set ?es"
      unfolding live_repo_keys by auto
    finally show ?thesis by (simp only: image_image repo_sums)
  qed
  also have "?f ` \<dots> = ?R"
    by (simp add: image_image scope_repo_inv)
  finally show ?thesis .
qed

section \<open>Top lists\<close>

text \<open>Sorting by a key that is injective depends on the set of rows only.\<close>

lemma sort_key_set_unique:
  fixes f :: "'a \<Rightarrow> 'k::linorder"
  assumes "distinct xs" "distinct ys" "set xs = set ys" "inj_on f (set xs)"
  shows "sort_key f xs = sort_key f ys"
proof -
  have "sort_key f xs = sort_key f ys \<longleftrightarrow> map f (sort_key f xs) = map f (sort_key f ys)"
    using assms(3,4) by (simp add: inj_on_map_eq_map)
  moreover have "map f (sort_key f xs) = map f (sort_key f ys)"
    using assms by (intro sorted_distinct_set_unique) (auto simp: distinct_map)
  ultimately show ?thesis by simp
qed

lemma insort_key_map_commute:
  "(\<And>x. f (g x) = h x) \<Longrightarrow> map g (insort_key h x xs) = insort_key f (g x) (map g xs)"
  by (induction xs) auto

lemma sort_key_map_commute:
  "(\<And>x. f (g x) = h x) \<Longrightarrow> map g (sort_key h xs) = sort_key f (map g xs)"
  by (induction xs) (simp_all add: insort_key_map_commute [where f = f and h = h])

definition in_scope :: "str option \<Rightarrow> request_event \<Rightarrow> bool" where
  "in_scope repo e \<longleftrightarrow> \<not> truthy repo \<or> rq_repo e = repo"

text \<open>\<open>SELECT field, COUNT(*) ... GROUP BY field ORDER BY COUNT(*) DESC, field LIMIT n\<close> over the log.\<close>

definition grouped_top :: "(request_event \<Rightarrow> str option) \<Rightarrow> nat \<Rightarrow> request_event list \<Rightarrow> (str \<times> int) list" where
  "grouped_top field limit es =
     take limit (sort_key (\<lambda>(key, n). (- n, key))
       (map (\<lambda>key. (key, int (count_where (\<lambda>e. field e = Some key) es)))
          (remdups (map the (filter (\<lambda>x. x \<noteq> None) (map field es))))))"

lemma top_scope_sum:
  assumes "\<And>s i e. ev_total (kind, s, i) e = (if field e = Some i \<and> (scope_of (rq_repo e) = s \<or> s = ''*'') then 1 else 0)"
  shows "(\<Sum>e\<leftarrow>es. ev_total (kind, if truthy repo then scope_of repo else ''*'', i) e) =
         int (count_where (\<lambda>e. field e = Some i) (filter (in_scope repo) es))"
  by (induction es) (auto simp: assms count_where_def in_scope_def)

lemma top_counts_of_log:
  assumes ok: "rollups_ok d"
    and tot: "\<And>s i e. ev_total (kind, s, i) e = (if field e = Some i \<and> (scope_of (rq_repo e) = s \<or> s = ''*'') then 1 else 0)"
  shows "top_counts kind repo limit d = grouped_top field limit (filter (in_scope repo) (request_events d))"
proof -
  let ?scope = "if truthy repo then scope_of repo else ''*''"
  let ?es = "request_events d" and ?fs = "filter (in_scope repo) (request_events d)"
  let ?rows = "filter (\<lambda>r. rc_kind r = kind \<and> rc_repo r = ?scope \<and> rc_total r > 0) (request_counters d)"
  let ?c = "\<lambda>key. (key, int (count_where (\<lambda>e. field e = Some key) ?fs))"
  let ?keys = "remdups (map the (filter (\<lambda>x. x \<noteq> None) (map field ?fs)))"
  let ?k = "\<lambda>(key, n). (- n, key :: str) :: int \<times> str"
  have k: "keyed rc_pkey (request_counters d)" using ok by (simp add: rollups_ok_def rollup_of_def)
  have pos: "(\<exists>e \<in> set ?es. 0 < ev_total (kind, ?scope, i) e) \<longleftrightarrow> (\<exists>e \<in> set ?fs. field e = Some i)" for i
    by (auto simp: tot in_scope_def split: if_splits)
  have keys: "set ?keys = {i. \<exists>e \<in> set ?fs. field e = Some i}"
    by (simp only: set_remdups group_domain)
  have mem: "y \<in> set (map ?c ?keys) \<longleftrightarrow> y = ?c (fst y) \<and> (\<exists>e \<in> set ?fs. field e = Some (fst y))" for y
    unfolding set_map [of ?c] keys by (cases y) (simp add: image_iff, blast)
  have "(rc_key r, rc_total r) \<in> set (map ?c ?keys)" if "r \<in> set ?rows" for r
  proof -
    have "(rc_pkey r, rc_total r, rc_hits r) \<in> {(x, \<Sum>e\<leftarrow>?es. ev_total x e, \<Sum>e\<leftarrow>?es. ev_hits x e) | x. \<exists>e \<in> set ?es. 0 < ev_total x e}"
      using that unfolding live_counters [OF ok, symmetric] by auto
    then have "rc_total r = (\<Sum>e\<leftarrow>?es. ev_total (kind, ?scope, rc_key r) e)"
      "\<exists>e \<in> set ?es. 0 < ev_total (kind, ?scope, rc_key r) e"
      using that by (simp_all add: rc_pkey_def)
    then show ?thesis
      unfolding pos top_scope_sum [OF tot] mem fst_conv by blast
  qed
  moreover have "y \<in> (\<lambda>r. (rc_key r, rc_total r)) ` set ?rows" if "y \<in> set (map ?c ?keys)" for y
  proof -
    from that obtain i where y: "y = ?c i" and ex: "\<exists>e \<in> set ?fs. field e = Some i"
      unfolding mem by blast
    let ?x = "(kind, ?scope, i)"
    have "(?x, \<Sum>e\<leftarrow>?es. ev_total ?x e, \<Sum>e\<leftarrow>?es. ev_hits ?x e) \<in>
        {(rc_pkey r, rc_total r, rc_hits r) | r. r \<in> set (request_counters d) \<and> 0 < rc_total r}"
      unfolding live_counters [OF ok] using ex pos by blast
    then obtain r where "r \<in> set (request_counters d)" "0 < rc_total r" "rc_pkey r = ?x"
      "rc_total r = (\<Sum>e\<leftarrow>?es. ev_total ?x e)" by auto
    then show ?thesis
      unfolding y top_scope_sum [OF tot] by (force simp: rc_pkey_def)
  qed
  ultimately have "set (map (\<lambda>r. (rc_key r, rc_total r)) ?rows) = set (map ?c ?keys)"
    unfolding set_map [of "\<lambda>r. (rc_key r, rc_total r)"] by blast
  moreover have "distinct (map (\<lambda>r. (rc_key r, rc_total r)) ?rows)"
    using k by (auto simp: keyed_def distinct_map inj_on_def rc_pkey_def)
  moreover have "distinct (map ?c ?keys)" by (simp add: distinct_map inj_on_def)
  moreover have "inj_on ?k A" for A by (auto simp: inj_on_def)
  ultimately have srt: "sort_key ?k (map (\<lambda>r. (rc_key r, rc_total r)) ?rows) = sort_key ?k (map ?c ?keys)"
    by (intro sort_key_set_unique) auto
  have "map (\<lambda>r. (rc_key r, rc_total r)) (sort_key (\<lambda>r. (- rc_total r, rc_key r)) ?rows) =
      sort_key ?k (map (\<lambda>r. (rc_key r, rc_total r)) ?rows)"
    by (rule sort_key_map_commute) simp
  with srt show ?thesis
    by (simp add: top_counts_def grouped_top_def Let_def take_map [symmetric])
qed

section \<open>Properties\<close>

lemma log_run_from_upgrade: "req_ids d0 \<Longrightarrow> log_ok (log_run ops (request_rollups False d0))"
  by (intro log_run_ok request_rollups_ok)

text \<open>C1: after any history of recorded requests and prunings on an upgraded database, the
  statistics read from the counters are those a GROUP BY over the retained log would give: the hit
  statistics of every repository with a request, and the top lists of client addresses and paths,
  global or of one repository.\<close>
theorem request_statistics_exact:
  fixes ops :: "log_op list" and d0 :: db
  assumes "req_ids d0"
  defines "d \<equiv> log_run ops (request_rollups False d0)"
  defines "es \<equiv> request_events d"
  shows "set (get_request_hit_stats d) =
        (\<lambda>r. (r, int (count_where (\<lambda>e. rq_repo e = r) es),
                 int (count_where (\<lambda>e. rq_repo e = r \<and> rq_cache e = Some ''HIT'') es))) ` rq_repo ` set es \<and>
      get_top_client_ips repo limit d = grouped_top rq_ip limit (filter (in_scope repo) es) \<and>
      get_top_request_paths repo limit d = grouped_top (\<lambda>e. Some (rq_path e)) limit (filter (in_scope repo) es)"
proof (intro conjI)
  have ok: "rollups_ok d"
    using log_run_from_upgrade [OF assms(1)] by (simp add: d_def log_ok_def)
  show "set (get_request_hit_stats d) =
      (\<lambda>r. (r, int (count_where (\<lambda>e. rq_repo e = r) es),
               int (count_where (\<lambda>e. rq_repo e = r \<and> rq_cache e = Some ''HIT'') es))) ` rq_repo ` set es"
    unfolding es_def by (rule hit_stats_of_log [OF ok])
  show "get_top_client_ips repo limit d = grouped_top rq_ip limit (filter (in_scope repo) es)"
    unfolding es_def get_top_client_ips_def by (rule top_counts_of_log [OF ok]) (rule ev_total_ip)
  show "get_top_request_paths repo limit d = grouped_top (\<lambda>e. Some (rq_path e)) limit (filter (in_scope repo) es)"
    unfolding es_def get_top_request_paths_def
    by (rule top_counts_of_log [OF ok]) (simp add: ev_total_path)
qed

definition sample_request :: "str \<Rightarrow> str \<Rightarrow> request_in" where
  "sample_request repo path = \<lparr>ri_repo = Some repo, ri_ip = Some ''10.0.0.1'', ri_method = ''GET'',
     ri_path = path, ri_status = Some ''200'', ri_cache = Some ''HIT'', ri_pkey = None, ri_prepo = None\<rparr>"

definition sample_history :: "log_op list" where
  "sample_history = [Record 10 (sample_request ''a'' ''/x''), Record 90000 (sample_request ''a'' ''/y''), Prune 90000 1]"

lemma request_statistics_exact_witness:
  "req_ids empty_db \<and>
   set (get_request_hit_stats (log_run sample_history (request_rollups False empty_db))) =
   (\<lambda>r. (r, int (count_where (\<lambda>e. rq_repo e = r) (request_events (log_run sample_history (request_rollups False empty_db)))),
      int (count_where (\<lambda>e. rq_repo e = r \<and> rq_cache e = Some ''HIT'')
         (request_events (log_run sample_history (request_rollups False empty_db)))))) `
     rq_repo ` set (request_events (log_run sample_history (request_rollups False empty_db)))"
proof -
  have "req_ids empty_db" by (simp add: req_ids_def empty_db_def)
  with request_statistics_exact [of empty_db sample_history] show ?thesis by blast
qed

text \<open>Pruning by age removes exactly the requests older than the retention period, keeps the
  rest in order, returns how many it removed (however many transactions that took), and leaves the
  counters equal to the log.\<close>
theorem prune_requests_retention:
  assumes "log_ok d"
  shows "request_events (snd (prune_requests now days d)) =
           filter (\<lambda>e. rq_ts e \<ge> now - day_seconds * int days) (request_events d) \<and>
         fst (prune_requests now days d) = count_where (\<lambda>e. rq_ts e < now - day_seconds * int days) (request_events d) \<and>
         log_ok (snd (prune_requests now days d))"
  using assms delete_requests_exact [of d] prune_requests_ok [OF assms, of now days]
  by (auto simp: prune_requests_def Let_def case_prod_unfold log_ok_def delete_where_def not_less)

lemma prune_requests_retention_witness:
  "log_ok (record_request 10 (sample_request ''a'' ''/x'') empty_db) \<and>
   fst (prune_requests 90000 1 (record_request 10 (sample_request ''a'' ''/x'') empty_db)) = 1"
proof -
  have "log_ok empty_db"
    by (simp add: log_ok_def req_ids_def rollups_ok_def rollup_of_def empty_db_def
        ctotal_def chits_def htotal_def hhits_def lookup_def)
  then have ok: "log_ok (record_request 10 (sample_request ''a'' ''/x'') empty_db)"
    by (rule record_request_ok)
  have "request_events (record_request 10 (sample_request ''a'' ''/x'') empty_db) =
    [\<lparr>rq_id = 1, rq_ts = 10, rq_repo = Some ''a'', rq_ip = Some ''10.0.0.1'', rq_method = ''GET'',
      rq_path = ''/x'', rq_status = Some ''200'', rq_cache = Some ''HIT'', rq_pkey = None, rq_prepo = None\<rparr>]"
    by (simp add: record_request_def rollup_insert_def Let_def empty_db_def sample_request_def)
  with prune_requests_retention [OF ok, of 90000 1] ok show ?thesis
    by (simp add: count_where_def day_seconds_def)
qed

text \<open>Pruning by size keeps exactly the newest rows of the log (by timestamp, then lowest id),
  at most the given number, and leaves the counters equal to the log.\<close>
theorem prune_requests_by_size_newest:
  assumes "log_ok d"
  shows "set (request_events (snd (prune_requests_by_size m d))) =
           set (take m (sort_key (\<lambda>e. (- rq_ts e, rq_id e)) (request_events d))) \<and>
         length (request_events (snd (prune_requests_by_size m d))) = min m (length (request_events d)) \<and>
         log_ok (snd (prune_requests_by_size m d))"
proof -
  let ?d' = "snd (prune_requests_by_size m d)"
  let ?new = "take m (sort_key (\<lambda>e. (- rq_ts e, rq_id e)) (request_events d))"
  have A: "set (request_events ?d') = set ?new"
    using prune_requests_by_size_set assms by (simp add: log_ok_def newest_first_def)
  have ok: "log_ok ?d'" by (rule prune_requests_by_size_ok [OF assms])
  have "distinct (request_events d)" "distinct (request_events ?d')"
    using ok assms by (auto simp: log_ok_def req_ids_def keyed_def distinct_map)
  then have "length (request_events ?d') = card (set (request_events ?d'))"
    "card (set ?new) = min m (length (request_events d))"
    by (auto simp: distinct_card min.commute)
  with A ok show ?thesis by simp
qed

lemma prune_requests_by_size_newest_witness:
  "log_ok (log_run sample_history (request_rollups False empty_db)) \<and>
   length (request_events (snd (prune_requests_by_size 0 (log_run sample_history (request_rollups False empty_db))))) = 0"
proof -
  have "req_ids empty_db" by (simp add: req_ids_def empty_db_def)
  from log_run_from_upgrade [OF this] have "log_ok (log_run sample_history (request_rollups False empty_db))" .
  with prune_requests_by_size_newest [OF this, of 0] show ?thesis by simp
qed

end
