(* ===== verification/Store_Repositories.thy ===== *)
theory Store_Repositories
  imports Schema
begin

text \<open>
  \<open>storage/repositories.py\<close>: recording a parsed index as the current snapshot of a repository
  (with the diff against the previous one, the replacement work it creates and the revision of the
  catalog), the reads over it, retention of the change history, and the rows of one repository.
  The values of \<open>uuid4\<close> are the function \<open>fresh\<close> of the package key they are drawn for.
\<close>

section \<open>Snapshots\<close>

record snapshot =
  sn_repo :: str
  sn_packages :: "(str \<times> str) list"
  sn_names :: "(str \<times> str) list"
  sn_hashes :: "(str \<times> str) list"
  sn_signers :: "(str \<times> str) list"

record diff =
  df_repo :: str
  df_changed :: bool
  df_new :: "str list"
  df_removed :: "str list"
  df_removed_files :: "(str \<times> str) list"
  df_modified :: "str list"
  df_modified_files :: "(str \<times> str) list"

type_synonym previous = "(str \<times> str \<times> str option) list"

definition previous_of :: "str \<Rightarrow> db \<Rightarrow> previous" where
  "previous_of repo d =
     map (\<lambda>r. (pk_key r, pk_file r, pk_hash r)) (filter (\<lambda>r. pk_repo r = repo) (repo_packages d))"

definition is_modified :: "snapshot \<Rightarrow> previous \<Rightarrow> str \<Rightarrow> bool" where
  "is_modified s prev key =
     (case (map_of prev key, map_of (sn_packages s) key) of
        (Some (file, hash), Some file') \<Rightarrow>
          file' \<noteq> file \<or> (truthy hash \<and> truthy (map_of (sn_hashes s) key) \<and> hash \<noteq> map_of (sn_hashes s) key)
      | _ \<Rightarrow> False)"

definition hash_changed :: "snapshot \<Rightarrow> previous \<Rightarrow> str \<Rightarrow> bool" where
  "hash_changed s prev key =
     (case (map_of prev key, map_of (sn_packages s) key) of
        (Some (file, hash), Some file') \<Rightarrow> hash \<noteq> map_of (sn_hashes s) key
      | _ \<Rightarrow> False)"

definition new_keys :: "snapshot \<Rightarrow> previous \<Rightarrow> str list" where
  "new_keys s prev = sort (filter (\<lambda>k. k \<notin> fst ` set prev) (map fst (sn_packages s)))"

definition removed_keys :: "snapshot \<Rightarrow> previous \<Rightarrow> str list" where
  "removed_keys s prev = sort (filter (\<lambda>k. k \<notin> fst ` set (sn_packages s)) (map fst prev))"

definition modified_keys :: "snapshot \<Rightarrow> previous \<Rightarrow> str list" where
  "modified_keys s prev = sort (filter (is_modified s prev) (map fst (sn_packages s)))"

definition pr_replace :: "pending_replacement \<Rightarrow> pending_replacement \<Rightarrow> pending_replacement" where
  "pr_replace new old = old\<lparr>pr_targets := pr_targets new, pr_hash := pr_hash new,
     pr_revision := pr_revision new, pr_error := None\<rparr>"

definition min_owner :: "str \<Rightarrow> str \<Rightarrow> db \<Rightarrow> str option" where
  "min_owner file hash d =
     (case map pk_repo (filter (\<lambda>r. pk_file r = file \<and> pk_hash r = Some hash) (repo_packages d)) of
        [] \<Rightarrow> None | repos \<Rightarrow> Some (Min (set repos)))"

text \<open>One round of the loop over \<open>modified_keys\<close>: the locations that may still serve old bytes are
  queued for replacement, and an earlier successful warm no longer counts.\<close>

definition replacement_targets :: "snapshot \<Rightarrow> str \<Rightarrow> str \<Rightarrow> str option \<Rightarrow> db \<Rightarrow> (str \<times> str) list" where
  "replacement_targets s key old_file old_hash d =
     (let repo = sn_repo s;
          queued = (case lookup pr_pkey (repo, key) (pending_replacements d) of
                      None \<Rightarrow> [] | Some p \<Rightarrow> pr_targets p);
          shared = (if truthy old_hash
                    then (case min_owner old_file (the old_hash) d of
                            None \<Rightarrow> [] | Some r \<Rightarrow> if r \<noteq> [] then [(r, old_file)] else [])
                    else [])
      in sort (remdups (queued @ [(repo, old_file), (repo, the (map_of (sn_packages s) key))] @ shared)))"

definition queue_replacement :: "(str \<Rightarrow> str) \<Rightarrow> snapshot \<Rightarrow> previous \<Rightarrow> str \<Rightarrow> db \<Rightarrow> db" where
  "queue_replacement fresh s prev key d =
     (let (old_file, old_hash) = the (map_of prev key);
          row = \<lparr>pr_repo = sn_repo s, pr_key = key,
                 pr_targets = replacement_targets s key old_file old_hash d,
                 pr_hash = map_of (sn_hashes s) key, pr_revision = fresh key, pr_error = None\<rparr>
      in d\<lparr>pending_replacements := upsert pr_pkey pr_replace row (pending_replacements d),
           warmed_packages := delete_where (\<lambda>w. wm_repo w = sn_repo s \<and> wm_key w = key) (warmed_packages d)\<rparr>)"

definition rs_record :: "bool \<Rightarrow> bool \<Rightarrow> repo_state \<Rightarrow> repo_state \<Rightarrow> repo_state" where
  "rs_record changed catalog_changed new old = old\<lparr>
     rs_last_check := rs_last_check new,
     rs_changed_at := (if changed then rs_last_check new else rs_changed_at old),
     rs_etag := rs_etag new, rs_modified := rs_modified new, rs_count := rs_count new,
     rs_identity := rs_identity new,
     rs_revision := rs_revision old + (if catalog_changed then 1 else 0)\<rparr>"

definition pk_replace :: "repo_package \<Rightarrow> repo_package \<Rightarrow> repo_package" where
  "pk_replace new old =
     (if pk_name old \<noteq> pk_name new \<or> pk_file old \<noteq> pk_file new \<or> pk_hash old \<noteq> pk_hash new
      then old\<lparr>pk_name := pk_name new, pk_file := pk_file new, pk_hash := pk_hash new\<rparr> else old)"

definition package_rows :: "snapshot \<Rightarrow> repo_package list" where
  "package_rows s = map (\<lambda>(key, file). \<lparr>pk_repo = sn_repo s, pk_key = key, pk_name = map_of (sn_names s) key,
                                         pk_file = file, pk_hash = map_of (sn_hashes s) key\<rparr>) (sn_packages s)"

definition record_snapshot :: "stamp \<Rightarrow> (str \<Rightarrow> str) \<Rightarrow> str option \<Rightarrow> str option \<Rightarrow> str option
    \<Rightarrow> snapshot \<Rightarrow> db \<Rightarrow> diff \<times> db" where
  "record_snapshot now fresh etag modified identity s d =
     (let repo = sn_repo s;
          row = lookup rs_repo repo (repo_states d);
          prev = previous_of repo d;
          new = new_keys s prev; removed = removed_keys s prev; modif = modified_keys s prev;
          changed = (new \<noteq> [] \<or> removed \<noteq> [] \<or> modif \<noteq> []);
          catalog_changed = (changed \<or> list_ex (hash_changed s prev) (map fst prev));
          d1 = fold (queue_replacement fresh s prev) modif d;
          changed_at = (if changed then Some now else (case row of None \<Rightarrow> None | Some r \<Rightarrow> rs_changed_at r));
          state = \<lparr>rs_repo = repo, rs_last_check = Some now, rs_changed_at = changed_at, rs_etag = etag,
                   rs_modified = modified, rs_count = Some (length (sn_packages s)), rs_key_expires = None,
                   rs_key_known = False, rs_revision = 1, rs_identity = identity\<rparr>;
          d2 = d1\<lparr>repo_states := upsert rs_repo (rs_record changed catalog_changed) state (repo_states d1)\<rparr>;
          d3 = d2\<lparr>repo_packages :=
                 delete_where (\<lambda>r. pk_repo r = repo \<and> pk_key r \<in> set removed) (repo_packages d2)\<rparr>;
          d4 = d3\<lparr>repo_packages := fold (upsert pk_pkey pk_replace) (package_rows s) (repo_packages d3)\<rparr>;
          d5 = (if changed
                then d4\<lparr>repo_events := repo_events d4 @
                          [\<lparr>ev_id = Suc (repo_events_seq d4), ev_repo = repo, ev_ts = now, ev_new = new,
                            ev_removed = removed, ev_modified = modif\<rparr>],
                        repo_events_seq := Suc (repo_events_seq d4)\<rparr>
                else d4)
      in (\<lparr>df_repo = repo, df_changed = changed, df_new = new, df_removed = removed,
           df_removed_files = map (\<lambda>k. (k, fst (the (map_of prev k)))) removed, df_modified = modif,
           df_modified_files = map (\<lambda>k. (k, fst (the (map_of prev k)))) modif\<rparr>, d5))"

section \<open>Check state\<close>

definition get_index_meta :: "str \<Rightarrow> str option \<Rightarrow> db \<Rightarrow> str option \<times> str option" where
  "get_index_meta repo identity d =
     (case lookup rs_repo repo (repo_states d) of
        None \<Rightarrow> (None, None)
      | Some r \<Rightarrow> if identity \<noteq> None \<and> rs_identity r \<noteq> identity then (None, None)
                  else (rs_etag r, rs_modified r))"

definition get_snapshot_revisions :: "db \<Rightarrow> (str \<times> nat) list" where
  "get_snapshot_revisions d = map (\<lambda>r. (rs_repo r, rs_revision r)) (repo_states d)"

definition rs_expiry :: "repo_state \<Rightarrow> repo_state \<Rightarrow> repo_state" where
  "rs_expiry new old = old\<lparr>rs_key_expires := rs_key_expires new, rs_key_known := rs_key_known new\<rparr>"

definition record_key_expiry :: "str \<Rightarrow> str option \<Rightarrow> bool option \<Rightarrow> db \<Rightarrow> db" where
  "record_key_expiry repo expires known d =
     (let known = (case known of None \<Rightarrow> expires \<noteq> None | Some b \<Rightarrow> b);
          row = \<lparr>rs_repo = repo, rs_last_check = None, rs_changed_at = None, rs_etag = None, rs_modified = None,
                 rs_count = None, rs_key_expires = expires, rs_key_known = known, rs_revision = 0,
                 rs_identity = None\<rparr>
      in d\<lparr>repo_states := upsert rs_repo rs_expiry row (repo_states d)\<rparr>)"

definition touch_last_check :: "stamp \<Rightarrow> str \<Rightarrow> db \<Rightarrow> db" where
  "touch_last_check now repo d =
     d\<lparr>repo_states := update_where (\<lambda>r. rs_repo r = repo) (\<lambda>r. r\<lparr>rs_last_check := Some now\<rparr>) (repo_states d)\<rparr>"

record summary =
  su_last_check :: "stamp option"
  su_changed_at :: "stamp option"
  su_count :: "nat option"
  su_expires :: "str option"
  su_known :: bool

definition summary_of :: "repo_state \<Rightarrow> summary" where
  "summary_of r = \<lparr>su_last_check = rs_last_check r, su_changed_at = rs_changed_at r, su_count = rs_count r,
                   su_expires = rs_key_expires r, su_known = rs_key_known r\<rparr>"

text \<open>The dictionary per repository: the state columns (absent for orphaned warm rows) and, on
  request, the number of warmed packages.\<close>

definition get_repo_summaries :: "bool \<Rightarrow> db \<Rightarrow> (str \<times> summary option \<times> nat option) list" where
  "get_repo_summaries include_warmed d =
     (let states = map (\<lambda>r. (rs_repo r, summary_of r)) (repo_states d);
          warmed = (\<lambda>repo. count_where (\<lambda>w. wm_repo w = repo) (warmed_packages d))
      in if include_warmed
         then map (\<lambda>(repo, s). (repo, Some s, Some (warmed repo))) states @
              map (\<lambda>repo. (repo, None, Some (warmed repo)))
                (filter (\<lambda>repo. repo \<notin> fst ` set states) (remdups (map wm_repo (warmed_packages d))))
         else map (\<lambda>(repo, s). (repo, Some s, None)) states)"

definition newest_events :: "repo_event list \<Rightarrow> repo_event list" where
  "newest_events es = sort_key (\<lambda>e. (- ev_ts e, - int (ev_id e))) es"

record status =
  st_last_check :: "stamp option"
  st_changed_at :: "stamp option"
  st_new :: "str list"
  st_removed :: "str list"
  st_modified :: "str list"
  st_count :: "nat option"

definition get_status :: "str \<Rightarrow> db \<Rightarrow> status option" where
  "get_status repo d =
     (case lookup rs_repo repo (repo_states d) of
        None \<Rightarrow> None
      | Some r \<Rightarrow>
          Some (case newest_events (filter (\<lambda>e. ev_repo e = repo) (repo_events d)) of
             [] \<Rightarrow> \<lparr>st_last_check = rs_last_check r, st_changed_at = rs_changed_at r, st_new = [],
                    st_removed = [], st_modified = [], st_count = rs_count r\<rparr>
           | e # _ \<Rightarrow> \<lparr>st_last_check = rs_last_check r, st_changed_at = rs_changed_at r, st_new = ev_new e,
                       st_removed = ev_removed e, st_modified = ev_modified e, st_count = rs_count r\<rparr>))"

definition get_history :: "str \<Rightarrow> nat \<Rightarrow> db \<Rightarrow> (stamp \<times> str list \<times> str list \<times> str list) list" where
  "get_history repo limit d =
     map (\<lambda>e. (ev_ts e, ev_new e, ev_removed e, ev_modified e))
       (take limit (newest_events (filter (\<lambda>e. ev_repo e = repo) (repo_events d))))"

section \<open>Reading the catalog\<close>

definition get_names :: "str \<Rightarrow> db \<Rightarrow> (str \<times> str) list" where
  "get_names repo d =
     map (\<lambda>r. (pk_key r, the (pk_name r)))
       (filter (\<lambda>r. pk_repo r = repo \<and> pk_name r \<noteq> None) (repo_packages d))"

definition has_snapshot :: "str \<Rightarrow> db \<Rightarrow> bool" where
  "has_snapshot repo d =
     (case lookup rs_repo repo (repo_states d) of None \<Rightarrow> False | Some r \<Rightarrow> rs_last_check r \<noteq> None)"

definition get_packages :: "str \<Rightarrow> db \<Rightarrow> (str \<times> str) list option" where
  "get_packages repo d =
     (if has_snapshot repo d
      then Some (map (\<lambda>r. (pk_key r, pk_file r)) (filter (\<lambda>r. pk_repo r = repo) (repo_packages d)))
      else None)"

definition key_chunk :: nat where
  "key_chunk = 500"

function packages_by_chunks :: "str \<Rightarrow> db \<Rightarrow> str list \<Rightarrow> (str \<times> str) list \<Rightarrow> (str \<times> str) list" where
  "packages_by_chunks repo d keys result =
     (if keys = [] then result
      else packages_by_chunks repo d (drop key_chunk keys)
             (fold (\<lambda>r. AList.update (pk_key r) (pk_file r))
               (filter (\<lambda>r. pk_repo r = repo \<and> pk_key r \<in> set (take key_chunk keys)) (repo_packages d)) result))"
  by pat_completeness auto
termination
  by (relation "measure (\<lambda>(repo, d, keys, result). length keys)") (auto simp: key_chunk_def)

declare packages_by_chunks.simps [simp del]

text \<open>\<open>list(dict.fromkeys(...))\<close> keeps the first occurrence of every key.\<close>

definition unique :: "'a list \<Rightarrow> 'a list" where
  "unique xs = rev (remdups (rev xs))"

definition get_packages_by_keys :: "str \<Rightarrow> str list \<Rightarrow> db \<Rightarrow> (str \<times> str) list option" where
  "get_packages_by_keys repo keys d =
     (if \<not> has_snapshot repo d then None else Some (packages_by_chunks repo d (unique keys) []))"

section \<open>Retention and orphans\<close>

definition prune_events :: "stamp \<Rightarrow> nat \<Rightarrow> db \<Rightarrow> nat \<times> db" where
  "prune_events now retention_days d =
     (let cutoff = now - 86400 * int retention_days
      in (count_where (\<lambda>e. ev_ts e < cutoff) (repo_events d),
          d\<lparr>repo_events := delete_where (\<lambda>e. ev_ts e < cutoff) (repo_events d)\<rparr>))"

text \<open>The window function numbers the rows of a repository by falling timestamp; rows of the same
  second are numbered in rowid order, as the index on \<open>(repo_id, ts DESC)\<close> stores them.\<close>

definition row_number :: "repo_event list \<Rightarrow> repo_event \<Rightarrow> nat" where
  "row_number es e =
     Suc (length (takeWhile (\<lambda>x. ev_id x \<noteq> ev_id e)
       (sort_key (\<lambda>x. - ev_ts x) (filter (\<lambda>x. ev_repo x = ev_repo e) es))))"

definition prune_events_by_size :: "nat \<Rightarrow> db \<Rightarrow> nat \<times> db" where
  "prune_events_by_size max_rows d =
     (let ids = map ev_id (filter (\<lambda>e. row_number (repo_events d) e > max_rows) (repo_events d))
      in (count_where (\<lambda>e. ev_id e \<in> set ids) (repo_events d),
          d\<lparr>repo_events := delete_where (\<lambda>e. ev_id e \<in> set ids) (repo_events d)\<rparr>))"

definition repositories_ids :: "db \<Rightarrow> str list" where
  "repositories_ids d = remdups (map rs_repo (repo_states d) @ map pk_repo (repo_packages d) @
     map ev_repo (repo_events d) @ map pr_repo (pending_replacements d))"

definition repositories_row_counts :: "str \<Rightarrow> db \<Rightarrow> (str \<times> nat) list" where
  "repositories_row_counts repo d = filter (\<lambda>(t, n). n \<noteq> 0)
     [(''repo_state'', count_where (\<lambda>r. rs_repo r = repo) (repo_states d)),
      (''repo_packages'', count_where (\<lambda>r. pk_repo r = repo) (repo_packages d)),
      (''repo_events'', count_where (\<lambda>r. ev_repo r = repo) (repo_events d)),
      (''pending_replacements'', count_where (\<lambda>r. pr_repo r = repo) (pending_replacements d))]"

definition repositories_delete :: "str \<Rightarrow> db \<Rightarrow> (str \<times> nat) list \<times> db" where
  "repositories_delete repo d =
     (repositories_row_counts repo d,
      d\<lparr>repo_states := delete_where (\<lambda>r. rs_repo r = repo) (repo_states d),
        repo_packages := delete_where (\<lambda>r. pk_repo r = repo) (repo_packages d),
        repo_events := delete_where (\<lambda>r. ev_repo r = repo) (repo_events d),
        pending_replacements := delete_where (\<lambda>r. pr_repo r = repo) (pending_replacements d)\<rparr>)"

interpretation pr: upsert_table pr_pkey pr_replace
  by unfold_locales (simp add: pr_replace_def pr_pkey_def)

interpretation pk: upsert_table pk_pkey pk_replace
  by unfold_locales (simp add: pk_replace_def pk_pkey_def)

interpretation rs: upsert_table rs_repo "rs_record changed catalog_changed"
  by unfold_locales (simp add: rs_record_def)

interpretation rx: upsert_table rs_repo rs_expiry
  by unfold_locales (simp add: rs_expiry_def)

end
