(* ===== verification/Repositories_Props.thy ===== *)
theory Repositories_Props
  imports Store_Repositories
begin

text \<open>
  Recording a snapshot refines one assignment to an abstract catalog (a map from package keys to
  name, file and hash), and every by-product of it (diff, revision, queued replacements) is
  determined by the old and the new catalog.
\<close>

section \<open>The abstract catalog\<close>

definition catalog :: "str \<Rightarrow> db \<Rightarrow> str \<Rightarrow> (str option \<times> str \<times> str option) option" where
  "catalog repo d = (\<lambda>k. map_option (\<lambda>r. (pk_name r, pk_file r, pk_hash r))
                          (lookup pk_pkey (repo, k) (repo_packages d)))"

definition snapshot_catalog :: "snapshot \<Rightarrow> str \<Rightarrow> (str option \<times> str \<times> str option) option" where
  "snapshot_catalog s = (\<lambda>k. map_option (\<lambda>file. (map_of (sn_names s) k, file, map_of (sn_hashes s) k))
                              (map_of (sn_packages s) k))"

text \<open>Only the file and the hash are compared; the name is metadata.\<close>

definition contents :: "(str \<Rightarrow> (str option \<times> str \<times> str option) option) \<Rightarrow> str \<Rightarrow> (str \<times> str option) option" where
  "contents c = (\<lambda>k. map_option snd (c k))"

definition snapshot_ok :: "snapshot \<Rightarrow> bool" where
  "snapshot_ok s \<longleftrightarrow> distinct (map fst (sn_packages s))"

lemma map_of_rows:
  "map_of (map (\<lambda>r. (pk_key r, pk_file r, pk_hash r)) (filter (\<lambda>r. pk_repo r = repo) t)) k =
   map_option (\<lambda>r. (pk_file r, pk_hash r)) (lookup pk_pkey (repo, k) t)"
  by (induction t) (auto simp: lookup_def pk_pkey_def)

lemma map_of_previous: "map_of (previous_of repo d) k = contents (catalog repo d) k"
  unfolding previous_of_def map_of_rows by (simp add: contents_def catalog_def option.map_comp comp_def)

lemma previous_keys: "fst ` set (previous_of repo d) = dom (contents (catalog repo d))"
  by (simp add: dom_map_of_conv_image_fst [symmetric] map_of_previous [abs_def])

lemma contents_snapshot: "contents (snapshot_catalog s) k =
    map_option (\<lambda>file. (file, map_of (sn_hashes s) k)) (map_of (sn_packages s) k)"
  by (simp add: contents_def snapshot_catalog_def option.map_comp comp_def)

lemma dom_contents: "dom (contents c) = dom c"
  by (auto simp: contents_def)

lemma dom_snapshot: "dom (snapshot_catalog s) = fst ` set (sn_packages s)"
  by (auto simp: snapshot_catalog_def dom_map_of_conv_image_fst [symmetric])

section \<open>What one recording writes\<close>

lemma queue_frame [simp]:
  "repo_packages (queue_replacement fresh s prev k d) = repo_packages d"
  "repo_states (queue_replacement fresh s prev k d) = repo_states d"
  "repo_events (queue_replacement fresh s prev k d) = repo_events d"
  "repo_events_seq (queue_replacement fresh s prev k d) = repo_events_seq d"
  by (simp_all add: queue_replacement_def case_prod_unfold Let_def)

lemma fold_queue_frame [simp]:
  "repo_packages (fold (queue_replacement fresh s prev) ks d) = repo_packages d"
  "repo_states (fold (queue_replacement fresh s prev) ks d) = repo_states d"
  "repo_events (fold (queue_replacement fresh s prev) ks d) = repo_events d"
  "repo_events_seq (fold (queue_replacement fresh s prev) ks d) = repo_events_seq d"
  by (induction ks arbitrary: d) auto

definition changed_keys :: "snapshot \<Rightarrow> db \<Rightarrow> str list" where
  "changed_keys s d = (let prev = previous_of (sn_repo s) d in new_keys s prev @ removed_keys s prev @ modified_keys s prev)"

lemma recorded_packages:
  "repo_packages (snd (record_snapshot now fresh etag modified identity s d)) =
     fold (upsert pk_pkey pk_replace) (package_rows s)
       (delete_where (\<lambda>r. pk_repo r = sn_repo s \<and> pk_key r \<in> set (removed_keys s (previous_of (sn_repo s) d)))
          (repo_packages d))"
  by (simp add: record_snapshot_def Let_def)

lemma recorded_pending:
  "pending_replacements (snd (record_snapshot now fresh etag modified identity s d)) =
     pending_replacements (fold (queue_replacement fresh s (previous_of (sn_repo s) d))
        (modified_keys s (previous_of (sn_repo s) d)) d)"
  "warmed_packages (snd (record_snapshot now fresh etag modified identity s d)) =
     warmed_packages (fold (queue_replacement fresh s (previous_of (sn_repo s) d))
        (modified_keys s (previous_of (sn_repo s) d)) d)"
  by (simp_all add: record_snapshot_def Let_def)

lemma set_new_keys: "set (new_keys s (previous_of repo d)) = dom (snapshot_catalog s) - dom (catalog repo d)"
  by (auto simp: new_keys_def previous_keys dom_contents dom_snapshot)

lemma set_removed_keys: "set (removed_keys s (previous_of repo d)) = dom (catalog repo d) - dom (snapshot_catalog s)"
proof -
  have "set (removed_keys s (previous_of repo d)) = {k \<in> fst ` set (previous_of repo d). k \<notin> fst ` set (sn_packages s)}"
    by (auto simp: removed_keys_def)
  then show ?thesis by (auto simp: previous_keys dom_contents dom_snapshot)
qed

definition replaced :: "str \<times> str option \<Rightarrow> str \<times> str option \<Rightarrow> bool" where
  "replaced old new \<longleftrightarrow> fst old \<noteq> fst new \<or> (truthy (snd old) \<and> truthy (snd new) \<and> snd old \<noteq> snd new)"

lemma set_modified_keys:
  "set (modified_keys s (previous_of repo d)) =
     {k. \<exists>old new. contents (catalog repo d) k = Some old \<and> contents (snapshot_catalog s) k = Some new \<and> replaced old new}"
proof -
  have mem: "k \<in> fst ` set (sn_packages s) \<longleftrightarrow> map_of (sn_packages s) k \<noteq> None" for k
    by (metis dom_map_of_conv_image_fst domIff)
  have "k \<in> fst ` set (sn_packages s) \<and> is_modified s (previous_of repo d) k \<longleftrightarrow>
      (\<exists>old new. contents (catalog repo d) k = Some old \<and> contents (snapshot_catalog s) k = Some new \<and> replaced old new)" for k
    unfolding mem contents_snapshot
    by (cases "contents (catalog repo d) k"; cases "map_of (sn_packages s) k")
       (auto simp: is_modified_def map_of_previous replaced_def)
  then show ?thesis by (auto simp: modified_keys_def)
qed

lemma lookup_package_rows:
  "lookup pk_pkey (sn_repo s, k) (package_rows s) =
     map_option (\<lambda>file. \<lparr>pk_repo = sn_repo s, pk_key = k, pk_name = map_of (sn_names s) k,
                        pk_file = file, pk_hash = map_of (sn_hashes s) k\<rparr>) (map_of (sn_packages s) k)"
proof -
  have "lookup pk_pkey (sn_repo s, k) (map (\<lambda>(key, file). \<lparr>pk_repo = sn_repo s, pk_key = key,
          pk_name = map_of (sn_names s) key, pk_file = file, pk_hash = map_of (sn_hashes s) key\<rparr>) ps) =
        map_option (\<lambda>file. \<lparr>pk_repo = sn_repo s, pk_key = k, pk_name = map_of (sn_names s) k,
                        pk_file = file, pk_hash = map_of (sn_hashes s) k\<rparr>) (map_of ps k)" for ps
    by (induction ps) (auto simp: lookup_def pk_pkey_def)
  then show ?thesis by (simp add: package_rows_def)
qed

lemma package_rows_keys: "pk_pkey ` set (package_rows s) = Pair (sn_repo s) ` fst ` set (sn_packages s)"
  by (force simp: package_rows_def pk_pkey_def)

lemma keyed_package_rows: "snapshot_ok s \<Longrightarrow> keyed pk_pkey (package_rows s)"
proof -
  have "map pk_pkey (package_rows s) = map (Pair (sn_repo s)) (map fst (sn_packages s))"
    by (simp add: package_rows_def pk_pkey_def case_prod_unfold)
  then show "snapshot_ok s \<Longrightarrow> keyed pk_pkey (package_rows s)"
    unfolding keyed_def snapshot_ok_def by (simp only:) (simp add: distinct_map inj_on_def)
qed

lemma recorded_catalog:
  assumes "db_keys d" "snapshot_ok s"
  shows "catalog repo (snd (record_snapshot now fresh etag modified identity s d)) =
           (if repo = sn_repo s then snapshot_catalog s else catalog repo d)"
proof
  fix k
  let ?del = "delete_where (\<lambda>r. pk_repo r = sn_repo s \<and>
      pk_key r \<in> set (removed_keys s (previous_of (sn_repo s) d))) (repo_packages d)"
  have keyed: "keyed pk_pkey (repo_packages d)" using assms(1) by (simp add: db_keys_def)
  have "lookup pk_pkey (repo, k) (fold (upsert pk_pkey pk_replace) (package_rows s) ?del) =
      (if repo = sn_repo s then lookup pk_pkey (sn_repo s, k) (package_rows s) else lookup pk_pkey (repo, k) (repo_packages d))"
    (is "?l = ?r")
  proof (cases "repo = sn_repo s")
    case False
    then have "(repo, k) \<notin> pk_pkey ` set (package_rows s)" by (auto simp: package_rows_keys)
    with False show ?thesis
      by (auto simp: pk.lookup_fold_upsert_other lookup_delete [OF keyed] pk_pkey_def
          dest!: lookup_SomeD split: option.split)
  next
    case True
    show ?thesis
    proof (cases "map_of (sn_packages s) k")
      case None
      then have k: "k \<notin> dom (snapshot_catalog s)" by (auto simp: snapshot_catalog_def)
      then have "(repo, k) \<notin> pk_pkey ` set (package_rows s)"
        by (auto simp: package_rows_keys dom_snapshot)
      then have "?l = lookup pk_pkey (repo, k) ?del" by (rule pk.lookup_fold_upsert_other)
      also have "\<dots> = None"
      proof (cases "lookup pk_pkey (repo, k) (repo_packages d)")
        case None
        then show ?thesis by (simp add: lookup_delete [OF keyed])
      next
        case (Some r)
        then have "k \<in> dom (catalog (sn_repo s) d)" "pk_repo r = repo" "pk_key r = k"
          using True by (auto simp: catalog_def pk_pkey_def dest: lookup_SomeD)
        with Some k True show ?thesis by (simp add: lookup_delete [OF keyed] set_removed_keys)
      qed
      finally show ?thesis using True None by (simp add: lookup_package_rows)
    next
      case (Some path)
      define row where "row = \<lparr>pk_repo = sn_repo s, pk_key = k, pk_name = map_of (sn_names s) k,
          pk_file = path, pk_hash = map_of (sn_hashes s) k\<rparr>"
      have look: "lookup pk_pkey (sn_repo s, k) (package_rows s) = Some row"
        by (simp add: lookup_package_rows Some row_def)
      then have "row \<in> set (package_rows s)" "pk_pkey row = (repo, k)"
        using True by (auto dest: lookup_SomeD)
      from pk.lookup_fold_upsert [OF keyed_package_rows [OF assms(2)] this(1), of ?del] this(2)
      have "?l = Some (case lookup pk_pkey (repo, k) ?del of None \<Rightarrow> row | Some old \<Rightarrow> pk_replace row old)"
        by simp
      also have "\<dots> = Some row"
        using True by (auto simp: pk_replace_def row_def pk_pkey_def dest!: lookup_SomeD split: option.split)
      finally show ?thesis using True look by simp
    qed
  qed
  then show "catalog repo (snd (record_snapshot now fresh etag modified identity s d)) k =
      (if repo = sn_repo s then snapshot_catalog s else catalog repo d) k"
    by (simp add: catalog_def recorded_packages snapshot_catalog_def lookup_package_rows option.map_comp comp_def)
qed

section \<open>Queued replacements\<close>

lemma replacement_targets_cong:
  "lookup pr_pkey (sn_repo s, k) (pending_replacements d) = lookup pr_pkey (sn_repo s, k) (pending_replacements d') \<Longrightarrow>
   repo_packages d = repo_packages d' \<Longrightarrow>
   replacement_targets s k f h d = replacement_targets s k f h d'"
  by (simp add: replacement_targets_def min_owner_def)

definition queued_row :: "(str \<Rightarrow> str) \<Rightarrow> snapshot \<Rightarrow> previous \<Rightarrow> str \<Rightarrow> db \<Rightarrow> pending_replacement" where
  "queued_row fresh s prev k d = \<lparr>pr_repo = sn_repo s, pr_key = k,
     pr_targets = replacement_targets s k (fst (the (map_of prev k))) (snd (the (map_of prev k))) d,
     pr_hash = map_of (sn_hashes s) k, pr_revision = fresh k, pr_error = None\<rparr>"

lemma queue_lookup:
  "lookup pr_pkey x (pending_replacements (queue_replacement fresh s prev k d)) =
     (if x = (sn_repo s, k) then Some (queued_row fresh s prev k d) else lookup pr_pkey x (pending_replacements d))"
  by (auto simp: queue_replacement_def queued_row_def case_prod_unfold Let_def pr.lookup_upsert pr_pkey_def
      pr_replace_def dest!: lookup_SomeD split: option.split)

lemma queue_warmed:
  "warmed_packages (queue_replacement fresh s prev k d) =
     delete_where (\<lambda>w. wm_repo w = sn_repo s \<and> wm_key w = k) (warmed_packages d)"
  by (simp add: queue_replacement_def case_prod_unfold Let_def)

lemma fold_queue_lookup:
  "distinct ks \<Longrightarrow>
   lookup pr_pkey x (pending_replacements (fold (queue_replacement fresh s prev) ks d)) =
     (if fst x = sn_repo s \<and> snd x \<in> set ks then Some (queued_row fresh s prev (snd x) d)
      else lookup pr_pkey x (pending_replacements d))"
proof (induction ks arbitrary: d)
  case Nil
  then show ?case by simp
next
  case (Cons k ks)
  have row: "queued_row fresh s prev k' (queue_replacement fresh s prev k d) = queued_row fresh s prev k' d"
    if "k' \<noteq> k" for k'
    using that by (simp add: queued_row_def queue_lookup cong: replacement_targets_cong)
  with Cons show ?case by (cases x) (auto simp: queue_lookup)
qed

lemma fold_queue_warmed:
  "warmed_packages (fold (queue_replacement fresh s prev) ks d) =
     delete_where (\<lambda>w. wm_repo w = sn_repo s \<and> wm_key w \<in> set ks) (warmed_packages d)"
  by (induction ks arbitrary: d) (auto simp: queue_warmed delete_where_def intro: filter_cong)

lemma distinct_modified: "snapshot_ok s \<Longrightarrow> distinct (modified_keys s prev)"
  by (simp add: modified_keys_def snapshot_ok_def distinct_map_filter)

lemma distinct_new: "snapshot_ok s \<Longrightarrow> distinct (new_keys s prev)"
  by (simp add: new_keys_def snapshot_ok_def)

section \<open>Properties\<close>

text \<open>C2: recording a snapshot replaces the catalog of its repository by exactly the parsed index
  (every package with its name, file and hash, and no other), and no other repository's catalog
  changes.\<close>
theorem record_snapshot_refines:
  assumes "db_keys d" and "snapshot_ok s"
  shows "catalog repo (snd (record_snapshot now fresh etag modified identity s d)) =
           ((\<lambda>r. catalog r d)(sn_repo s := snapshot_catalog s)) repo"
  by (simp add: recorded_catalog [OF assms])

definition sample_snapshot :: snapshot where
  "sample_snapshot = \<lparr>sn_repo = ''a'', sn_packages = [(''p-1'', ''pool/p'')], sn_names = [(''p-1'', ''p'')],
     sn_hashes = [(''p-1'', ''00'')], sn_signers = []\<rparr>"

lemma sample_snapshot_ok: "snapshot_ok sample_snapshot"
  by (simp add: snapshot_ok_def sample_snapshot_def)

lemma record_snapshot_refines_witness:
  "catalog ''a'' (snd (record_snapshot 5 (\<lambda>_. ''u'') None None None sample_snapshot empty_db)) =
     snapshot_catalog sample_snapshot"
proof -
  have "sn_repo sample_snapshot = ''a''" by (simp add: sample_snapshot_def)
  with record_snapshot_refines [OF db_keys_empty sample_snapshot_ok] show ?thesis by simp
qed

text \<open>The diff a recording returns lists, sorted and without repetition, exactly the keys that
  appear, disappear or are replaced (another file, or another hash when both are known); it is
  marked changed, and one event with these lists is appended to the history, when and only when one
  of them is not empty.\<close>
theorem record_snapshot_diff:
  fixes now fresh etag modified identity
  assumes "db_keys d" and "snapshot_ok s"
  defines "old \<equiv> catalog (sn_repo s) d" and "new \<equiv> snapshot_catalog s"
  defines "result \<equiv> record_snapshot now fresh etag modified identity s d"
  shows "set (df_new (fst result)) = dom new - dom old \<and>
         set (df_removed (fst result)) = dom old - dom new \<and>
         set (df_modified (fst result)) =
           {k. \<exists>x y. contents old k = Some x \<and> contents new k = Some y \<and> replaced x y} \<and>
         sorted (df_new (fst result)) \<and> distinct (df_new (fst result)) \<and>
         sorted (df_removed (fst result)) \<and> distinct (df_removed (fst result)) \<and>
         sorted (df_modified (fst result)) \<and> distinct (df_modified (fst result)) \<and>
         (df_changed (fst result) \<longleftrightarrow> df_new (fst result) @ df_removed (fst result) @ df_modified (fst result) \<noteq> []) \<and>
         repo_events (snd result) = repo_events d @
           (if df_changed (fst result)
            then [\<lparr>ev_id = Suc (repo_events_seq d), ev_repo = sn_repo s, ev_ts = now, ev_new = df_new (fst result),
                   ev_removed = df_removed (fst result), ev_modified = df_modified (fst result)\<rparr>] else [])"
proof -
  let ?prev = "previous_of (sn_repo s) d"
  have keyed: "distinct (map fst ?prev)"
  proof -
    have "distinct (map pk_pkey (filter (\<lambda>r. pk_repo r = sn_repo s) (repo_packages d)))"
      using assms(1) by (simp add: db_keys_def keyed_def distinct_map_filter)
    then show ?thesis
      by (auto simp: previous_of_def distinct_map inj_on_def pk_pkey_def)
  qed
  have diff: "df_new (fst result) = new_keys s ?prev" "df_removed (fst result) = removed_keys s ?prev"
    "df_modified (fst result) = modified_keys s ?prev"
    "df_changed (fst result) = (new_keys s ?prev \<noteq> [] \<or> removed_keys s ?prev \<noteq> [] \<or> modified_keys s ?prev \<noteq> [])"
    by (simp_all add: result_def record_snapshot_def Let_def)
  have ev: "repo_events (snd result) = repo_events d @
      (if df_changed (fst result)
       then [\<lparr>ev_id = Suc (repo_events_seq d), ev_repo = sn_repo s, ev_ts = now, ev_new = new_keys s ?prev,
              ev_removed = removed_keys s ?prev, ev_modified = modified_keys s ?prev\<rparr>] else [])"
    unfolding diff(4) by (simp add: result_def record_snapshot_def Let_def)
  have "sorted (new_keys s ?prev)" "sorted (removed_keys s ?prev)" "sorted (modified_keys s ?prev)"
    by (simp_all add: new_keys_def removed_keys_def modified_keys_def)
  moreover have "distinct (removed_keys s ?prev)" using keyed by (simp add: removed_keys_def)
  ultimately show ?thesis
    unfolding ev diff old_def new_def set_new_keys set_removed_keys set_modified_keys
    using distinct_modified [OF assms(2)] distinct_new [OF assms(2)] by simp
qed

lemma record_snapshot_diff_witness:
  "db_keys empty_db \<and> snapshot_ok sample_snapshot \<and>
   set (df_new (fst (record_snapshot 5 (\<lambda>_. ''u'') None None None sample_snapshot empty_db))) = {''p-1''}"
proof -
  have "dom (snapshot_catalog sample_snapshot) = {''p-1''}"
    by (simp add: dom_snapshot sample_snapshot_def)
  moreover have "dom (catalog (sn_repo sample_snapshot) empty_db) = {}"
    by (simp add: catalog_def lookup_def empty_db_def)
  ultimately show ?thesis
    using record_snapshot_diff [OF db_keys_empty sample_snapshot_ok, of 5 "\<lambda>_. ''u''" None None None]
      sample_snapshot_ok by simp
qed

lemma catalog_changed_iff:
  fixes s d
  defines "prev \<equiv> previous_of (sn_repo s) d"
  shows "(new_keys s prev \<noteq> [] \<or> removed_keys s prev \<noteq> [] \<or> modified_keys s prev \<noteq> [] \<or>
          list_ex (hash_changed s prev) (map fst prev)) \<longleftrightarrow>
         contents (catalog (sn_repo s) d) \<noteq> contents (snapshot_catalog s)" (is "?L \<longleftrightarrow> ?old \<noteq> ?new")
proof -
  have emp: "xs \<noteq> [] \<longleftrightarrow> set xs \<noteq> {}" for xs :: "str list" by simp
  have pkgs: "map_of (sn_packages s) k = map_option fst (?new k)" for k
    by (simp add: contents_snapshot option.map_comp comp_def option.map_ident)
  have hash: "list_ex (hash_changed s prev) (map fst prev) \<longleftrightarrow>
      (\<exists>k x y. ?old k = Some x \<and> ?new k = Some y \<and> snd x \<noteq> snd y)"
  proof -
    have "hash_changed s prev k \<longleftrightarrow> (\<exists>x y. ?old k = Some x \<and> ?new k = Some y \<and> snd x \<noteq> snd y)" for k
      by (cases "?old k"; cases "map_of (sn_packages s) k")
         (auto simp: hash_changed_def prev_def map_of_previous contents_snapshot)
    moreover have "k \<in> fst ` set prev" if "?old k = Some x" for k x
      using that by (auto simp: prev_def previous_keys)
    ultimately show ?thesis unfolding list_ex_iff set_map by blast
  qed
  have "?L \<longleftrightarrow> (\<exists>k. (k \<in> dom ?new \<and> k \<notin> dom ?old) \<or> (k \<in> dom ?old \<and> k \<notin> dom ?new) \<or>
      (\<exists>x y. ?old k = Some x \<and> ?new k = Some y \<and> (replaced x y \<or> snd x \<noteq> snd y)))"
    unfolding emp hash unfolding prev_def set_new_keys set_removed_keys set_modified_keys dom_contents by blast
  also have "\<dots> \<longleftrightarrow> (\<exists>k. ?old k \<noteq> ?new k)"
  proof (rule ex_cong1)
    fix k
    show "((k \<in> dom ?new \<and> k \<notin> dom ?old) \<or> (k \<in> dom ?old \<and> k \<notin> dom ?new) \<or>
      (\<exists>x y. ?old k = Some x \<and> ?new k = Some y \<and> (replaced x y \<or> snd x \<noteq> snd y))) = (?old k \<noteq> ?new k)"
      by (cases "?old k"; cases "?new k") (auto simp: replaced_def prod_eq_iff)
  qed
  also have "\<dots> \<longleftrightarrow> ?old \<noteq> ?new" by (auto simp: fun_eq_iff)
  finally show ?thesis .
qed

lemma recorded_states:
  "repo_states (snd (record_snapshot now fresh etag modified identity s d)) =
     (let prev = previous_of (sn_repo s) d;
          changed = df_changed (fst (record_snapshot now fresh etag modified identity s d))
      in upsert rs_repo (rs_record changed (contents (catalog (sn_repo s) d) \<noteq> contents (snapshot_catalog s)))
           \<lparr>rs_repo = sn_repo s, rs_last_check = Some now,
            rs_changed_at = (if changed then Some now
               else (case lookup rs_repo (sn_repo s) (repo_states d) of None \<Rightarrow> None | Some r \<Rightarrow> rs_changed_at r)),
            rs_etag = etag, rs_modified = modified, rs_count = Some (length (sn_packages s)), rs_key_expires = None,
            rs_key_known = False, rs_revision = 1, rs_identity = identity\<rparr> (repo_states d))"
proof -
  let ?prev = "previous_of (sn_repo s) d"
  let ?ch = "df_changed (fst (record_snapshot now fresh etag modified identity s d))"
  have ch: "?ch \<longleftrightarrow> new_keys s ?prev \<noteq> [] \<or> removed_keys s ?prev \<noteq> [] \<or> modified_keys s ?prev \<noteq> []"
    by (simp add: record_snapshot_def Let_def)
  have "?ch \<or> list_ex (hash_changed s ?prev) (map fst ?prev) \<longleftrightarrow>
      contents (catalog (sn_repo s) d) \<noteq> contents (snapshot_catalog s)" (is "?cc \<longleftrightarrow> _")
    unfolding ch catalog_changed_iff [of s d, symmetric] by blast
  moreover have "repo_states (snd (record_snapshot now fresh etag modified identity s d)) =
      upsert rs_repo (rs_record ?ch ?cc)
           \<lparr>rs_repo = sn_repo s, rs_last_check = Some now,
            rs_changed_at = (if ?ch then Some now
               else (case lookup rs_repo (sn_repo s) (repo_states d) of None \<Rightarrow> None | Some r \<Rightarrow> rs_changed_at r)),
            rs_etag = etag, rs_modified = modified, rs_count = Some (length (sn_packages s)), rs_key_expires = None,
            rs_key_known = False, rs_revision = 1, rs_identity = identity\<rparr> (repo_states d)"
    unfolding ch by (simp add: record_snapshot_def Let_def)
  ultimately show ?thesis by (simp add: Let_def)
qed

text \<open>After a recording the repository's state row carries the time, headers, source and package
  count of the new index; its revision grows by exactly one if some file or hash of the catalog
  differs and stays the same otherwise (a first recording has revision 1), the time of the last
  change moves only with a reported change, and no other repository's row is touched.\<close>
theorem record_snapshot_revision:
  fixes now fresh etag modified identity
  assumes "db_keys d" and "snapshot_ok s"
  defines "result \<equiv> record_snapshot now fresh etag modified identity s d"
  defines "old_row \<equiv> lookup rs_repo (sn_repo s) (repo_states d)"
  shows "\<exists>r. lookup rs_repo (sn_repo s) (repo_states (snd result)) = Some r \<and>
           rs_last_check r = Some now \<and> rs_etag r = etag \<and> rs_modified r = modified \<and>
           rs_identity r = identity \<and> rs_count r = Some (card (dom (snapshot_catalog s))) \<and>
           rs_revision r = (case old_row of None \<Rightarrow> 1
              | Some r0 \<Rightarrow> rs_revision r0 +
                  (if contents (catalog (sn_repo s) d) = contents (snapshot_catalog s) then 0 else 1)) \<and>
           rs_changed_at r = (if df_changed (fst result) then Some now
              else Option.bind old_row rs_changed_at) \<and>
           (repo = sn_repo s \<or> lookup rs_repo repo (repo_states (snd result)) = lookup rs_repo repo (repo_states d))"
proof -
  have count: "length (sn_packages s) = card (dom (snapshot_catalog s))"
  proof -
    have "card (fst ` set (sn_packages s)) = length (map fst (sn_packages s))"
      using assms(2) distinct_card [of "map fst (sn_packages s)"] by (simp add: snapshot_ok_def)
    then show ?thesis by (simp add: dom_snapshot)
  qed
  show ?thesis
    unfolding result_def recorded_states Let_def rs.lookup_upsert old_row_def
    by (cases "lookup rs_repo (sn_repo s) (repo_states d)") (simp_all add: rs_record_def count)
qed

lemma record_snapshot_revision_witness:
  "\<exists>r. lookup rs_repo ''a'' (repo_states (snd (record_snapshot 5 (\<lambda>_. ''u'') None None None sample_snapshot empty_db))) = Some r \<and>
       rs_revision r = 1"
proof -
  have "sn_repo sample_snapshot = ''a''" "repo_states empty_db = []"
    by (simp_all add: sample_snapshot_def empty_db_def)
  with record_snapshot_revision [OF db_keys_empty sample_snapshot_ok, of 5 "\<lambda>_. ''u''" None None None]
  show ?thesis by (auto simp: lookup_def)
qed

text \<open>For every key the diff reports as modified, the recording leaves one queued replacement
  with a fresh revision, the new hash and no error, whose targets include everything already queued
  for the key, the old and the new location in the repository itself, and the least repository that
  shared the old file when its hash was known; an earlier successful warm of the key is forgotten.
  Nothing else is queued, dequeued or forgotten.\<close>
theorem record_snapshot_replacements:
  fixes now fresh etag modified identity
  assumes "db_keys d" and "snapshot_ok s"
  defines "result \<equiv> record_snapshot now fresh etag modified identity s d"
  defines "old \<equiv> contents (catalog (sn_repo s) d)"
  shows "lookup pr_pkey (repo, k) (pending_replacements (snd result)) =
           (if repo = sn_repo s \<and> k \<in> set (df_modified (fst result))
            then Some \<lparr>pr_repo = repo, pr_key = k,
                   pr_targets = sort (remdups
                     ((case lookup pr_pkey (repo, k) (pending_replacements d) of None \<Rightarrow> [] | Some p \<Rightarrow> pr_targets p) @
                      [(repo, fst (the (old k))), (repo, the (map_of (sn_packages s) k))] @
                      (case snd (the (old k)) of None \<Rightarrow> [] | Some h \<Rightarrow>
                         if h = [] then [] else (case min_owner (fst (the (old k))) h d of None \<Rightarrow> []
                           | Some r \<Rightarrow> if r \<noteq> [] then [(r, fst (the (old k)))] else [])))),
                   pr_hash = map_of (sn_hashes s) k, pr_revision = fresh k, pr_error = None\<rparr>
            else lookup pr_pkey (repo, k) (pending_replacements d)) \<and>
         warmed_packages (snd result) =
           filter (\<lambda>w. \<not> (wm_repo w = sn_repo s \<and> wm_key w \<in> set (df_modified (fst result)))) (warmed_packages d)"
proof -
  have m: "df_modified (fst result) = modified_keys s (previous_of (sn_repo s) d)"
    by (simp add: result_def record_snapshot_def Let_def)
  have shared: "(if truthy h then (case min_owner f (the h) d of None \<Rightarrow> [] | Some r \<Rightarrow> if r \<noteq> [] then [(r, f)] else []) else []) =
      (case h of None \<Rightarrow> [] | Some h \<Rightarrow> if h = [] then [] else
        (case min_owner f h d of None \<Rightarrow> [] | Some r \<Rightarrow> if r \<noteq> [] then [(r, f)] else []))" for f h
    by (cases h) auto
  have row: "queued_row fresh s (previous_of (sn_repo s) d) k d = \<lparr>pr_repo = sn_repo s, pr_key = k,
      pr_targets = sort (remdups
         ((case lookup pr_pkey (sn_repo s, k) (pending_replacements d) of None \<Rightarrow> [] | Some p \<Rightarrow> pr_targets p) @
          [(sn_repo s, fst (the (old k))), (sn_repo s, the (map_of (sn_packages s) k))] @
          (case snd (the (old k)) of None \<Rightarrow> [] | Some h \<Rightarrow>
             if h = [] then [] else (case min_owner (fst (the (old k))) h d of None \<Rightarrow> []
               | Some r \<Rightarrow> if r \<noteq> [] then [(r, fst (the (old k)))] else [])))),
      pr_hash = map_of (sn_hashes s) k, pr_revision = fresh k, pr_error = None\<rparr>"
    unfolding queued_row_def replacement_targets_def Let_def shared map_of_previous old_def ..
  have "lookup pr_pkey (repo, k) (pending_replacements (snd result)) =
      (if repo = sn_repo s \<and> k \<in> set (df_modified (fst result))
       then Some (queued_row fresh s (previous_of (sn_repo s) d) k d)
       else lookup pr_pkey (repo, k) (pending_replacements d))"
    unfolding m unfolding result_def recorded_pending
    by (subst fold_queue_lookup [OF distinct_modified [OF assms(2)]]) simp
  moreover have "warmed_packages (snd result) =
      filter (\<lambda>w. \<not> (wm_repo w = sn_repo s \<and> wm_key w \<in> set (df_modified (fst result)))) (warmed_packages d)"
    unfolding m unfolding result_def recorded_pending fold_queue_warmed delete_where_def ..
  ultimately show ?thesis unfolding row by (cases "repo = sn_repo s") simp_all
qed

definition sample_db :: db where
  "sample_db = empty_db\<lparr>repo_packages := [\<lparr>pk_repo = ''a'', pk_key = ''p-1'', pk_name = Some ''p'',
     pk_file = ''pool/old'', pk_hash = None\<rparr>]\<rparr>"

lemma sample_db_keys: "db_keys sample_db"
  by (simp add: sample_db_def db_keys_def empty_db_def keyed_def)

lemma sample_db_modified:
  "df_modified (fst (record_snapshot now fresh e m i sample_snapshot sample_db)) = [''p-1'']"
  by (simp add: record_snapshot_def Let_def modified_keys_def previous_of_def is_modified_def
      sample_snapshot_def sample_db_def)

lemma record_snapshot_replacements_witness:
  "map_option pr_revision (lookup pr_pkey (''a'', ''p-1'')
     (pending_replacements (snd (record_snapshot 5 (\<lambda>_. ''u'') None None None sample_snapshot sample_db)))) = Some ''u''"
  using record_snapshot_replacements [OF sample_db_keys sample_snapshot_ok, of "''a''" "''p-1''" 5 "\<lambda>_. ''u''" None None None]
  unfolding sample_db_modified by (simp add: sample_snapshot_def)

section \<open>Bounded queries\<close>

lemma fold_rows_map_of:
  assumes "distinct (map key rows)"
  shows "map_of (fold (\<lambda>r. AList.update (key r) (val r)) rows result) k =
         (case find (\<lambda>r. key r = k) rows of None \<Rightarrow> map_of result k | Some r \<Rightarrow> Some (val r))"
  using assms
proof (induction rows arbitrary: result)
  case Nil
  then show ?case by simp
next
  case (Cons r rows)
  then have "key r \<notin> key ` set rows" by simp
  then have "find (\<lambda>x. key x = key r) rows = None"
    unfolding find_None_iff by (metis imageI)
  with Cons show ?case by (auto simp: update_conv' split: option.split)
qed

lemma find_filter_key:
  "find (\<lambda>r. pk_key r = k) (filter (\<lambda>r. pk_repo r = repo \<and> pk_key r \<in> K) t) =
   (if k \<in> K then lookup pk_pkey (repo, k) t else None)"
  by (induction t) (auto simp: lookup_def pk_pkey_def)

lemma packages_by_chunks_map_of:
  assumes "keyed pk_pkey (repo_packages d)"
  shows "map_of (packages_by_chunks repo d keys result) k =
     (if k \<in> set keys \<and> catalog repo d k \<noteq> None then Some (fst (snd (the (catalog repo d k)))) else map_of result k)"
  using assms
proof (induction repo d keys result rule: packages_by_chunks.induct)
  case (1 repo d keys result)
  show ?case
  proof (cases "keys = []")
    case True
    then show ?thesis by (simp add: packages_by_chunks.simps)
  next
    case False
    let ?rows = "filter (\<lambda>r. pk_repo r = repo \<and> pk_key r \<in> set (take key_chunk keys)) (repo_packages d)"
    have "distinct (map pk_pkey ?rows)" using 1(2) by (simp add: keyed_def distinct_map_filter)
    then have "distinct (map pk_key ?rows)"
      by (auto simp: distinct_map inj_on_def pk_pkey_def)
    note rows = fold_rows_map_of [OF this, of pk_file result k, unfolded find_filter_key]
    have "packages_by_chunks repo d keys result =
        packages_by_chunks repo d (drop key_chunk keys) (fold (\<lambda>r. AList.update (pk_key r) (pk_file r)) ?rows result)"
      using False by (simp add: packages_by_chunks.simps [of repo d keys])
    moreover have "set keys = set (take key_chunk keys) \<union> set (drop key_chunk keys)"
      by (metis append_take_drop_id set_append)
    ultimately show ?thesis
      using rows 1(1) [OF False 1(2)] by (auto simp: catalog_def split: option.split)
  qed
qed

lemma set_unique [simp]: "set (unique xs) = set xs"
  by (simp add: unique_def)

text \<open>Fetching packages by keys in chunks of 500 gives the same dictionary as one query: for every
  requested key its file if the catalog has it, nothing for any other key, and no answer at all for
  a repository that was never checked.\<close>
theorem get_packages_by_keys_exact:
  assumes "db_keys d"
  shows "map_option map_of (get_packages_by_keys repo keys d) =
     (if has_snapshot repo d
      then Some (\<lambda>k. if k \<in> set keys then map_option (\<lambda>(name, file, hash). file) (catalog repo d k) else None)
      else None)"
proof -
  have "keyed pk_pkey (repo_packages d)" using assms by (simp add: db_keys_def)
  note chunks = packages_by_chunks_map_of [OF this, of repo "unique keys" "[]"]
  have "map_of (packages_by_chunks repo d (unique keys) []) k =
      (if k \<in> set keys then map_option (\<lambda>(name, file, hash). file) (catalog repo d k) else None)" for k
    unfolding chunks by (cases "catalog repo d k") auto
  then show ?thesis by (auto simp: get_packages_by_keys_def)
qed

lemma get_packages_by_keys_exact_witness:
  "get_packages_by_keys ''a'' [''x''] empty_db = None"
  using get_packages_by_keys_exact [OF db_keys_empty, of "''a''" "[''x'']"]
  by (simp add: has_snapshot_def empty_db_def lookup_def)

section \<open>History retention per repository\<close>

lemma takeWhile_nth_length:
  "distinct (map f xs) \<Longrightarrow> i < length xs \<Longrightarrow> length (takeWhile (\<lambda>x. f x \<noteq> f (xs ! i)) xs) = i"
proof (induction xs arbitrary: i)
  case Nil
  then show ?case by simp
next
  case (Cons x xs)
  then show ?case by (cases i) (auto simp: nth_mem)
qed

lemma row_number_take:
  assumes "keyed ev_id es" "e \<in> set es"
  defines "mine \<equiv> sort_key (\<lambda>x. - ev_ts x) (filter (\<lambda>x. ev_repo x = ev_repo e) es)"
  shows "row_number es e \<le> m \<longleftrightarrow> e \<in> set (take m mine)"
proof -
  have "distinct (map ev_id (filter (\<lambda>x. ev_repo x = ev_repo e) es))"
    using assms(1) by (simp add: keyed_def distinct_map_filter)
  then have d: "distinct (map ev_id mine)"
    by (simp add: mine_def distinct_map)
  have "e \<in> set mine" using assms(2) by (simp add: mine_def)
  then obtain i where i: "i < length mine" "e = mine ! i" by (auto simp: in_set_conv_nth)
  have "row_number es e = Suc i"
    unfolding row_number_def mine_def [symmetric]
    using takeWhile_nth_length [OF d i(1)] unfolding i(2) [symmetric] by simp
  moreover have "e \<in> set (take m mine) \<longleftrightarrow> i < m"
  proof
    assume "e \<in> set (take m mine)"
    then obtain j where "j < m" "j < length mine" "e = mine ! j" by (auto simp: in_set_conv_nth)
    moreover have "distinct mine" using d by (simp add: distinct_map)
    ultimately show "i < m" using i by (auto simp: nth_eq_iff_index_eq)
  next
    assume "i < m"
    with i show "e \<in> set (take m mine)" by (force simp: in_set_conv_nth)
  qed
  ultimately show ?thesis by auto
qed

text \<open>Capping the change history keeps, for every repository separately, exactly the given number
  of its newest events (all of them when there are fewer), and reports how many rows went.\<close>
theorem prune_events_by_size_per_repo:
  assumes "db_ids d"
  shows "set (filter (\<lambda>e. ev_repo e = repo) (repo_events (snd (prune_events_by_size m d)))) =
           set (take m (sort_key (\<lambda>e. - ev_ts e) (filter (\<lambda>e. ev_repo e = repo) (repo_events d)))) \<and>
         fst (prune_events_by_size m d) + length (repo_events (snd (prune_events_by_size m d))) = length (repo_events d)"
proof -
  let ?es = "repo_events d"
  let ?P = "\<lambda>e. ev_id e \<in> ev_id ` {e \<in> set ?es. row_number ?es e > m}"
  have k: "keyed ev_id ?es" using assms by (simp add: db_ids_def)
  then have inj: "inj_on ev_id (set ?es)" by (simp add: keyed_def distinct_map)
  have "?P e \<longleftrightarrow> row_number ?es e > m" if "e \<in> set ?es" for e
    using that inj by (auto simp: inj_on_def)
  moreover have "set (repo_events (snd (prune_events_by_size m d))) = {e \<in> set ?es. \<not> ?P e}"
    by (simp add: prune_events_by_size_def Let_def)
  ultimately have "e \<in> set (repo_events (snd (prune_events_by_size m d))) \<longleftrightarrow> e \<in> set ?es \<and> row_number ?es e \<le> m" for e
    by (metis (mono_tags, lifting) mem_Collect_eq not_less)
  moreover have "e \<in> set (take m (sort_key (\<lambda>e. - ev_ts e) (filter (\<lambda>e. ev_repo e = repo) ?es))) \<longleftrightarrow>
      e \<in> set ?es \<and> ev_repo e = repo \<and> row_number ?es e \<le> m" for e
  proof (cases "e \<in> set ?es \<and> ev_repo e = repo")
    case True
    then show ?thesis using row_number_take [OF k, of e m] by auto
  next
    case False
    then show ?thesis by (auto dest!: in_set_takeD)
  qed
  moreover have "fst (prune_events_by_size m d) + length (repo_events (snd (prune_events_by_size m d))) = length ?es"
    by (simp add: prune_events_by_size_def Let_def count_where_def delete_where_def sum_length_filter_compl)
  ultimately show ?thesis by auto
qed

lemma prune_events_by_size_per_repo_witness:
  "db_ids empty_db \<and> fst (prune_events_by_size 3 empty_db) = 0"
proof -
  have "repo_events empty_db = []" by (simp add: empty_db_def)
  with prune_events_by_size_per_repo [OF db_ids_empty, of "''a''" 3] show ?thesis by simp
qed

end
