(* ===== verification/Store_Cache.thy ===== *)
theory Store_Cache
  imports Store_Repositories
begin

text \<open>
  \<open>storage/cache.py\<close>: what was warmed and by whom, the demand (interest) that selects packages for
  automatic warming, bans, Nix closures, duplicate files across repositories, and the replacement
  queue.  \<open>randomblob\<close> is the function \<open>blob\<close> of the row it is drawn for.
\<close>

section \<open>Interest\<close>

definition interest_rows :: "str \<Rightarrow> str \<Rightarrow> str \<Rightarrow> db \<Rightarrow> package_interest list" where
  "interest_rows repo key identity d =
     concat (map (\<lambda>p. map (\<lambda>s. \<lparr>pi_repo = pk_repo p, pi_identity = identity, pi_name = the (pk_name p)\<rparr>)
         (filter (\<lambda>s. rs_repo s = pk_repo p \<and> rs_identity s = Some identity) (repo_states d)))
       (filter (\<lambda>p. pk_repo p = repo \<and> pk_key p = key \<and> truthy (pk_name p)) (repo_packages d)))"

definition record_interest :: "str \<Rightarrow> str list \<Rightarrow> str \<Rightarrow> db \<Rightarrow> db" where
  "record_interest repo keys identity d =
     d\<lparr>package_interests := fold (\<lambda>key. fold (insert_ignore pi_pkey) (interest_rows repo key identity d))
        keys (package_interests d)\<rparr>"

definition interested_keys :: "str \<Rightarrow> str \<Rightarrow> db \<Rightarrow> str list" where
  "interested_keys repo identity d =
     map pk_key (filter (\<lambda>p. pk_repo p = repo \<and>
         list_ex (\<lambda>i. pi_repo i = repo \<and> Some (pi_name i) = pk_name p \<and> pi_identity i = identity) (package_interests d) \<and>
         list_ex (\<lambda>s. rs_repo s = repo \<and> rs_identity s = Some identity) (repo_states d))
       (repo_packages d))"

definition record_artifact_interest :: "str \<Rightarrow> str \<Rightarrow> str \<Rightarrow> db \<Rightarrow> db" where
  "record_artifact_interest repo filename identity d =
     record_interest repo
       (map na_key (filter (\<lambda>a. na_repo a = repo \<and> na_file a = filename) (nix_artifacts d))) identity d"

section \<open>Nix closures\<close>

definition nt_replace :: "nix_trust \<Rightarrow> nix_trust \<Rightarrow> nix_trust" where
  "nt_replace new old = old\<lparr>nt_policy := nt_policy new\<rparr>"

definition update_nix_trust :: "(warmed_package \<Rightarrow> str) \<Rightarrow> str \<Rightarrow> bool \<Rightarrow> str list \<Rightarrow> str option \<Rightarrow> db \<Rightarrow> db" where
  "update_nix_trust blob repo verify keys source d =
     (let policy = (verify, sort (remdups keys), source) in
      case lookup nt_repo repo (nix_trusts d) of
        Some t \<Rightarrow> if nt_policy t = policy then d
          else d\<lparr>warmed_packages := update_where (\<lambda>w. wm_repo w = repo)
                   (\<lambda>w. w\<lparr>wm_status := ''failed'', wm_revision := blob w\<rparr>) (warmed_packages d),
                 nix_trusts := upsert nt_repo nt_replace \<lparr>nt_repo = repo, nt_policy = policy\<rparr> (nix_trusts d)\<rparr>
      | None \<Rightarrow> d\<lparr>warmed_packages := update_where (\<lambda>w. wm_repo w = repo)
                   (\<lambda>w. w\<lparr>wm_status := ''failed'', wm_revision := blob w\<rparr>) (warmed_packages d),
                 nix_trusts := upsert nt_repo nt_replace \<lparr>nt_repo = repo, nt_policy = policy\<rparr> (nix_trusts d)\<rparr>)"

definition has_artifact :: "str \<Rightarrow> str \<Rightarrow> db \<Rightarrow> bool" where
  "has_artifact repo key d = list_ex (\<lambda>a. na_repo a = repo \<and> na_key a = key) (nix_artifacts d)"

definition in_catalog :: "str \<Rightarrow> str \<Rightarrow> db \<Rightarrow> bool" where
  "in_catalog repo key d = list_ex (\<lambda>p. pk_repo p = repo \<and> pk_key p = key) (repo_packages d)"

definition is_warmed :: "str \<Rightarrow> str \<Rightarrow> db \<Rightarrow> bool" where
  "is_warmed repo key d = list_ex (\<lambda>w. wm_repo w = repo \<and> wm_key w = key) (warmed_packages d)"

definition nix_has_unknown_owners :: "str \<Rightarrow> str list \<Rightarrow> db \<Rightarrow> bool" where
  "nix_has_unknown_owners repo excluded d =
     list_ex (\<lambda>p. pk_repo p = repo \<and> \<not> has_artifact repo (pk_key p) d \<and> pk_key p \<notin> set excluded) (repo_packages d)"

definition na_replace :: "nix_artifact \<Rightarrow> nix_artifact \<Rightarrow> nix_artifact" where
  "na_replace new old = old\<lparr>na_hash := na_hash new, na_size := na_size new\<rparr>"

definition record_nix_artifacts :: "str \<Rightarrow> str \<Rightarrow> (str \<times> str option \<times> nat option) list \<Rightarrow> db \<Rightarrow> db" where
  "record_nix_artifacts repo key artifacts d =
     d\<lparr>nix_artifacts := fold (upsert na_pkey na_replace)
        (map (\<lambda>(file, hash, size). \<lparr>na_repo = repo, na_key = key, na_file = file, na_hash = hash, na_size = size\<rparr>)
          artifacts) (nix_artifacts d)\<rparr>"

definition get_nix_artifacts :: "str \<Rightarrow> str \<Rightarrow> db \<Rightarrow> (str \<times> str option \<times> nat option) list" where
  "get_nix_artifacts repo key d =
     map (\<lambda>a. (na_file a, na_hash a, na_size a)) (filter (\<lambda>a. na_repo a = repo \<and> na_key a = key) (nix_artifacts d))"

definition touch_nix_artifact :: "stamp \<Rightarrow> (warmed_package \<Rightarrow> str) \<Rightarrow> str \<Rightarrow> str \<Rightarrow> db \<Rightarrow> db" where
  "touch_nix_artifact now blob repo filename d =
     d\<lparr>warmed_packages := update_where
        (\<lambda>w. wm_repo w = repo \<and> wm_status w = ''ok'' \<and>
             list_ex (\<lambda>a. na_key a = wm_key w \<and> na_repo a = repo \<and> na_file a = filename) (nix_artifacts d))
        (\<lambda>w. w\<lparr>wm_at := now, wm_revision := blob w\<rparr>) (warmed_packages d)\<rparr>"

definition nix_shared_files :: "str \<Rightarrow> str list \<Rightarrow> db \<Rightarrow> str list" where
  "nix_shared_files repo excluded d =
     map na_file (filter (\<lambda>a. na_repo a = repo \<and> in_catalog repo (na_key a) d \<and> na_key a \<notin> set excluded)
       (nix_artifacts d))"

section \<open>Warmed packages\<close>

text \<open>\<open>source\<close> and the primary key stay as first written.\<close>

definition wm_replace :: "warmed_package \<Rightarrow> warmed_package \<Rightarrow> warmed_package" where
  "wm_replace new old = old\<lparr>wm_file := wm_file new, wm_at := wm_at new, wm_status := wm_status new,
     wm_http := wm_http new, wm_revision := wm_revision new\<rparr>"

definition record_warmed_package :: "stamp \<Rightarrow> str \<Rightarrow> str \<Rightarrow> str \<Rightarrow> str \<Rightarrow> bool \<Rightarrow> int option \<Rightarrow> str \<Rightarrow> db \<Rightarrow> db" where
  "record_warmed_package now blob repo key filename ok http source d =
     d\<lparr>warmed_packages := upsert wm_pkey wm_replace
        \<lparr>wm_repo = repo, wm_key = key, wm_file = filename, wm_at = now,
         wm_status = (if ok then ''ok'' else ''failed''), wm_http = http, wm_source = Some source,
         wm_revision = blob\<rparr> (warmed_packages d)\<rparr>"

definition get_warmed_packages :: "str \<Rightarrow> db \<Rightarrow> (str \<times> str \<times> stamp \<times> str \<times> int option) list" where
  "get_warmed_packages repo d =
     map (\<lambda>w. (wm_key w, wm_file w, wm_at w, wm_status w, wm_http w))
       (sort_key (\<lambda>w. - wm_at w) (filter (\<lambda>w. wm_repo w = repo) (warmed_packages d)))"

definition remove_warmed_package :: "str \<Rightarrow> str \<Rightarrow> db \<Rightarrow> bool \<times> db" where
  "remove_warmed_package repo key d =
     (is_warmed repo key d,
      d\<lparr>warmed_packages := delete_where (\<lambda>w. wm_repo w = repo \<and> wm_key w = key) (warmed_packages d)\<rparr>)"

fun remove_warmed_packages :: "str \<Rightarrow> str list \<Rightarrow> db \<Rightarrow> nat \<times> db" where
  "remove_warmed_packages repo [] d = (0, d)"
| "remove_warmed_packages repo (key # keys) d =
     (let n = count_where (\<lambda>w. wm_repo w = repo \<and> wm_key w = key) (warmed_packages d);
          (m, d') = remove_warmed_packages repo keys (snd (remove_warmed_package repo key d))
      in (n + m, d'))"

definition find_stale_warmed :: "str \<Rightarrow> db \<Rightarrow> (str \<times> str) list" where
  "find_stale_warmed repo d =
     sort_key fst (map (\<lambda>w. (wm_key w, wm_file w))
       (filter (\<lambda>w. wm_repo w = repo \<and> \<not> in_catalog repo (wm_key w) d) (warmed_packages d)))"

definition find_all_stale_warmed :: "db \<Rightarrow> (str \<times> str \<times> str) list" where
  "find_all_stale_warmed d =
     sort_key (\<lambda>(repo, key, file). (repo, key)) (map (\<lambda>w. (wm_repo w, wm_key w, wm_file w))
       (filter (\<lambda>w. \<not> in_catalog (wm_repo w) (wm_key w) d) (warmed_packages d)))"

definition cutoff_of :: "stamp \<Rightarrow> nat \<Rightarrow> stamp" where
  "cutoff_of now retention_days = now - 86400 * int retention_days"

function records_by_chunks :: "str \<Rightarrow> stamp option \<Rightarrow> db \<Rightarrow> str list \<Rightarrow> (str \<times> str \<times> str) list \<Rightarrow> (str \<times> str \<times> str) list" where
  "records_by_chunks repo cutoff d keys result =
     (if keys = [] then result
      else records_by_chunks repo cutoff d (drop key_chunk keys)
             (fold (\<lambda>w. AList.update (wm_key w) (wm_file w, wm_revision w))
               (filter (\<lambda>w. wm_repo w = repo \<and> wm_key w \<in> set (take key_chunk keys) \<and>
                            (case cutoff of None \<Rightarrow> True | Some c \<Rightarrow> wm_at w < c)) (warmed_packages d)) result))"
  by pat_completeness auto
termination
  by (relation "measure (\<lambda>(repo, cutoff, d, keys, result). length keys)") (auto simp: key_chunk_def)

declare records_by_chunks.simps [simp del]

definition get_warmed_records :: "stamp \<Rightarrow> str \<Rightarrow> str list \<Rightarrow> nat option \<Rightarrow> db \<Rightarrow> (str \<times> str \<times> str) list" where
  "get_warmed_records now repo keys retention_days d =
     records_by_chunks repo (map_option (cutoff_of now) retention_days) d (unique keys) []"

fun remove_purged_records :: "str \<Rightarrow> (str \<times> str \<times> str) list \<Rightarrow> str list \<Rightarrow> db \<Rightarrow> nat \<times> db" where
  "remove_purged_records repo records [] d = (0, d)"
| "remove_purged_records repo records (key # resolved) d =
     (case map_of records key of
        None \<Rightarrow> remove_purged_records repo records resolved d
      | Some (file, revision) \<Rightarrow>
          let P = (\<lambda>w. wm_repo w = repo \<and> wm_key w = key \<and> wm_revision w = revision);
              (m, d') = remove_purged_records repo records resolved
                          (d\<lparr>warmed_packages := delete_where P (warmed_packages d)\<rparr>)
          in (count_where P (warmed_packages d) + m, d'))"

definition prune_warmed_packages :: "stamp \<Rightarrow> nat \<Rightarrow> db \<Rightarrow> nat \<times> db" where
  "prune_warmed_packages now retention_days d =
     (let cutoff = cutoff_of now retention_days;
          d1 = d\<lparr>warmed_packages := delete_where (\<lambda>w. wm_at w < cutoff) (warmed_packages d)\<rparr>;
          d2 = d1\<lparr>nix_artifacts := delete_where
                 (\<lambda>a. \<not> in_catalog (na_repo a) (na_key a) d1 \<and> \<not> is_warmed (na_repo a) (na_key a) d1)
                 (nix_artifacts d1)\<rparr>
      in (count_where (\<lambda>w. wm_at w < cutoff) (warmed_packages d), d2))"

definition get_stale_warmed_packages :: "stamp \<Rightarrow> nat \<Rightarrow> db \<Rightarrow> (str \<times> str \<times> str) list" where
  "get_stale_warmed_packages now retention_days d =
     map (\<lambda>w. (wm_repo w, wm_key w, wm_file w))
       (filter (\<lambda>w. wm_at w < cutoff_of now retention_days) (warmed_packages d))"

section \<open>Duplicate files\<close>

text \<open>The CTE \<open>files\<close>: a path of a repository has an identity when all rows that name it agree on a
  known, non-empty hash.\<close>

definition file_hash :: "str \<times> str \<Rightarrow> db \<Rightarrow> str option" where
  "file_hash x d =
     (case map pk_hash (filter (\<lambda>p. (pk_repo p, pk_file p) = x) (repo_packages d)) of
        Some h # hs \<Rightarrow> if list_all (\<lambda>h'. h' = Some h) hs \<and> h \<noteq> [] then Some h else None
      | _ \<Rightarrow> None)"

definition hashed_files :: "db \<Rightarrow> (str \<times> str) list" where
  "hashed_files d = filter (\<lambda>x. file_hash x d \<noteq> None) (remdups (map (\<lambda>p. (pk_repo p, pk_file p)) (repo_packages d)))"

definition canonical_file :: "str \<times> str \<Rightarrow> db \<Rightarrow> str \<times> str" where
  "canonical_file x d = Min (set (filter (\<lambda>y. file_hash y d = file_hash x d) (hashed_files d)))"

definition find_duplicate_files :: "db \<Rightarrow> (str \<times> str \<times> str \<times> str) list" where
  "find_duplicate_files d =
     map (\<lambda>x. (fst x, fst (canonical_file x d), snd x, snd (canonical_file x d)))
       (sort (filter (\<lambda>x. x \<noteq> canonical_file x d) (hashed_files d)))"

definition iter_file_hashes :: "db \<Rightarrow> (str \<times> str \<times> str option) list" where
  "iter_file_hashes d = map (\<lambda>p. (pk_repo p, pk_file p, pk_hash p)) (repo_packages d)"

section \<open>Bans\<close>

definition ban_packages :: "stamp \<Rightarrow> str \<Rightarrow> str list \<Rightarrow> db \<Rightarrow> db" where
  "ban_packages now repo names d =
     (if names = [] then d
      else d\<lparr>prefetch_bans := fold (insert_ignore bn_pkey)
               (map (\<lambda>n. \<lparr>bn_repo = repo, bn_name = n, bn_at = now\<rparr>) names) (prefetch_bans d)\<rparr>)"

definition unban_packages :: "str \<Rightarrow> str list \<Rightarrow> db \<Rightarrow> db" where
  "unban_packages repo names d =
     (if names = [] then d
      else d\<lparr>prefetch_bans := delete_where (\<lambda>b. bn_repo b = repo \<and> bn_name b \<in> set names) (prefetch_bans d)\<rparr>)"

definition ban_package :: "stamp \<Rightarrow> str \<Rightarrow> str \<Rightarrow> db \<Rightarrow> db" where
  "ban_package now repo name d = ban_packages now repo [name] d"

definition unban_package :: "str \<Rightarrow> str \<Rightarrow> db \<Rightarrow> db" where
  "unban_package repo name d = unban_packages repo [name] d"

definition get_banned_packages :: "str \<Rightarrow> db \<Rightarrow> str list" where
  "get_banned_packages repo d = sort (map bn_name (filter (\<lambda>b. bn_repo b = repo) (prefetch_bans d)))"

definition get_ban_counts :: "db \<Rightarrow> (str \<times> nat) list" where
  "get_ban_counts d = map (\<lambda>repo. (repo, count_where (\<lambda>b. bn_repo b = repo) (prefetch_bans d)))
     (remdups (map bn_repo (prefetch_bans d)))"

section \<open>Replacement queue and rows of one repository\<close>

record pending_item =
  pq_key :: str
  pq_targets :: "(str \<times> str) list"
  pq_revision :: str
  pq_file :: "str option"
  pq_error :: "str option"
  pq_hash :: "str option"

definition get_pending_replacements :: "str \<Rightarrow> db \<Rightarrow> pending_item list" where
  "get_pending_replacements repo d =
     map (\<lambda>q. let p = lookup pk_pkey (pr_repo q, pr_key q) (repo_packages d);
                  digest = Option.bind p pk_hash
              in \<lparr>pq_key = pr_key q, pq_targets = pr_targets q, pq_revision = pr_revision q,
                  pq_file = map_option pk_file p, pq_error = pr_error q,
                  pq_hash = (if digest = None then pr_hash q else digest)\<rparr>)
       (filter (\<lambda>q. pr_repo q = repo) (pending_replacements d))"

definition get_pending_replacement_counts :: "db \<Rightarrow> (str \<times> nat) list" where
  "get_pending_replacement_counts d =
     map (\<lambda>repo. (repo, count_where (\<lambda>q. pr_repo q = repo) (pending_replacements d)))
       (remdups (map pr_repo (pending_replacements d)))"

definition finish_replacement :: "str \<Rightarrow> str \<Rightarrow> str \<Rightarrow> str option \<Rightarrow> db \<Rightarrow> db" where
  "finish_replacement repo key revision error d =
     (let P = (\<lambda>q. pr_repo q = repo \<and> pr_key q = key \<and> pr_revision q = revision) in
      case error of
        None \<Rightarrow> d\<lparr>pending_replacements := delete_where P (pending_replacements d)\<rparr>
      | Some e \<Rightarrow> d\<lparr>pending_replacements := update_where P (\<lambda>q. q\<lparr>pr_error := Some e\<rparr>) (pending_replacements d)\<rparr>)"

definition cache_ids :: "db \<Rightarrow> str list" where
  "cache_ids d = remdups (map wm_repo (warmed_packages d) @ map bn_repo (prefetch_bans d) @
     map na_repo (nix_artifacts d) @ map nt_repo (nix_trusts d) @ map pi_repo (package_interests d))"

definition cache_row_counts :: "str \<Rightarrow> db \<Rightarrow> (str \<times> nat) list" where
  "cache_row_counts repo d = filter (\<lambda>(t, n). n \<noteq> 0)
     [(''warmed_packages'', count_where (\<lambda>r. wm_repo r = repo) (warmed_packages d)),
      (''prefetch_bans'', count_where (\<lambda>r. bn_repo r = repo) (prefetch_bans d)),
      (''nix_artifacts'', count_where (\<lambda>r. na_repo r = repo) (nix_artifacts d)),
      (''nix_trust'', count_where (\<lambda>r. nt_repo r = repo) (nix_trusts d)),
      (''package_interest'', count_where (\<lambda>r. pi_repo r = repo) (package_interests d))]"

definition cache_delete :: "str \<Rightarrow> db \<Rightarrow> (str \<times> nat) list \<times> db" where
  "cache_delete repo d =
     (cache_row_counts repo d,
      d\<lparr>warmed_packages := delete_where (\<lambda>r. wm_repo r = repo) (warmed_packages d),
        prefetch_bans := delete_where (\<lambda>r. bn_repo r = repo) (prefetch_bans d),
        nix_artifacts := delete_where (\<lambda>r. na_repo r = repo) (nix_artifacts d),
        nix_trusts := delete_where (\<lambda>r. nt_repo r = repo) (nix_trusts d),
        package_interests := delete_where (\<lambda>r. pi_repo r = repo) (package_interests d)\<rparr>)"

interpretation wm: upsert_table wm_pkey wm_replace
  by unfold_locales (simp add: wm_replace_def wm_pkey_def)

interpretation na: upsert_table na_pkey na_replace
  by unfold_locales (simp add: na_replace_def na_pkey_def)

interpretation nt: upsert_table nt_repo nt_replace
  by unfold_locales (simp add: nt_replace_def)

end
