(* ===== verification/Cache_Props.thy ===== *)
theory Cache_Props
  imports Store_Cache
begin

text \<open>
  Correctness of the cache bookkeeping: canonical owners of duplicate files, demand bound to a
  source, removal of exactly the generation that was purged, and retention.
\<close>

section \<open>Duplicate files\<close>

lemma file_hash_iff:
  "file_hash x d = Some h \<longleftrightarrow>
     h \<noteq> [] \<and> (\<exists>p \<in> set (repo_packages d). (pk_repo p, pk_file p) = x) \<and>
     (\<forall>p \<in> set (repo_packages d). (pk_repo p, pk_file p) = x \<longrightarrow> pk_hash p = Some h)"
proof -
  let ?hs = "map pk_hash (filter (\<lambda>p. (pk_repo p, pk_file p) = x) (repo_packages d))"
  have shape: "file_hash x d = Some h \<longleftrightarrow> h \<noteq> [] \<and> ?hs \<noteq> [] \<and> set ?hs \<subseteq> {Some h}"
  proof (cases ?hs)
    case Nil
    then show ?thesis by (simp add: file_hash_def)
  next
    case (Cons a hs)
    show ?thesis
    proof (cases a)
      case None
      with Cons show ?thesis by (simp add: file_hash_def)
    next
      case (Some h')
      then show ?thesis unfolding file_hash_def Cons by (auto simp: list_all_iff subset_iff)
    qed
  qed
  have ne: "?hs \<noteq> [] \<longleftrightarrow> (\<exists>p \<in> set (repo_packages d). (pk_repo p, pk_file p) = x)"
    by (simp add: filter_empty_conv)
  have all: "set ?hs \<subseteq> {Some h} \<longleftrightarrow> (\<forall>p \<in> set (repo_packages d). (pk_repo p, pk_file p) = x \<longrightarrow> pk_hash p = Some h)"
    by auto
  show ?thesis unfolding shape ne all ..
qed

lemma set_hashed_files: "set (hashed_files d) = {x. file_hash x d \<noteq> None}"
proof -
  have "x \<in> set (map (\<lambda>p. (pk_repo p, pk_file p)) (repo_packages d))" if "file_hash x d = Some h" for x h
    using that unfolding file_hash_iff by auto
  then show ?thesis by (auto simp: hashed_files_def)
qed

lemma canonical_file_least:
  assumes "file_hash x d = Some h"
  shows "file_hash (canonical_file x d) d = Some h"
    and "file_hash y d = Some h \<Longrightarrow> canonical_file x d \<le> y"
proof -
  let ?S = "set (filter (\<lambda>y. file_hash y d = file_hash x d) (hashed_files d))"
  have mem: "y \<in> ?S \<longleftrightarrow> file_hash y d = Some h" for y
    using assms by (auto simp: set_hashed_files)
  have "x \<in> ?S" using assms unfolding mem by simp
  then have "?S \<noteq> {}" by (metis empty_iff)
  then have "canonical_file x d \<in> ?S"
    unfolding canonical_file_def by (intro Min_in finite_set)
  then show "file_hash (canonical_file x d) d = Some h" unfolding mem .
  show "canonical_file x d \<le> y" if "file_hash y d = Some h"
    using that unfolding canonical_file_def mem [symmetric] by (intro Min_le) auto
qed

lemma set_find_duplicates:
  "(r, c, f, cf) \<in> set (find_duplicate_files d) \<longleftrightarrow>
     file_hash (r, f) d \<noteq> None \<and> canonical_file (r, f) d = (c, cf) \<and> (r, f) \<noteq> (c, cf)"
proof -
  have "(r, c, f, cf) \<in> set (find_duplicate_files d) \<longleftrightarrow>
      (\<exists>x. file_hash x d \<noteq> None \<and> x \<noteq> canonical_file x d \<and>
         (r, c, f, cf) = (fst x, fst (canonical_file x d), snd x, snd (canonical_file x d)))"
    unfolding find_duplicate_files_def set_map set_sort set_filter set_hashed_files by blast
  also have "\<dots> \<longleftrightarrow> file_hash (r, f) d \<noteq> None \<and> canonical_file (r, f) d = (c, cf) \<and> (r, f) \<noteq> (c, cf)"
    by (metis prod.collapse prod.inject)
  finally show ?thesis .
qed

section \<open>Purged generations\<close>

definition purge_hit :: "str \<Rightarrow> (str \<times> str \<times> str) list \<Rightarrow> str list \<Rightarrow> warmed_package \<Rightarrow> bool" where
  "purge_hit repo records keys w \<longleftrightarrow> wm_repo w = repo \<and> wm_key w \<in> set keys \<and>
     (\<exists>file. map_of records (wm_key w) = Some (file, wm_revision w))"

lemma remove_purged_step:
  "remove_purged_records repo records (key # keys) d =
     (let hit = filter (purge_hit repo records [key]) (warmed_packages d);
          rest = remove_purged_records repo records keys
                   (d\<lparr>warmed_packages := filter (\<lambda>w. \<not> purge_hit repo records [key] w) (warmed_packages d)\<rparr>)
      in (length hit + fst rest, snd rest))"
proof (cases "map_of records key")
  case None
  then have no: "\<not> purge_hit repo records [key] w" for w by (simp add: purge_hit_def)
  have "d\<lparr>warmed_packages := warmed_packages d\<rparr> = d" by simp
  with None no show ?thesis by simp
next
  case (Some x)
  obtain f r where x: "x = (f, r)" by (cases x)
  have "purge_hit repo records [key] = (\<lambda>w. wm_repo w = repo \<and> wm_key w = key \<and> wm_revision w = r)"
    using Some x by (auto simp: purge_hit_def fun_eq_iff)
  then show ?thesis using Some x by (simp add: case_prod_unfold Let_def count_where_def delete_where_def)
qed

lemma remove_purged_rows:
  "warmed_packages (snd (remove_purged_records repo records keys d)) =
     filter (\<lambda>w. \<not> purge_hit repo records keys w) (warmed_packages d)"
proof (induction keys arbitrary: d)
  case Nil
  then show ?case by (simp add: purge_hit_def)
next
  case (Cons key keys)
  have "purge_hit repo records (key # keys) w \<longleftrightarrow> purge_hit repo records [key] w \<or> purge_hit repo records keys w" for w
    by (auto simp: purge_hit_def)
  then show ?case
    unfolding remove_purged_step Let_def snd_conv Cons.IH by (simp add: conj_commute)
qed

lemma remove_purged_count:
  "fst (remove_purged_records repo records keys d) +
     length (warmed_packages (snd (remove_purged_records repo records keys d))) = length (warmed_packages d)"
proof (induction keys arbitrary: d)
  case Nil
  then show ?case by simp
next
  case (Cons key keys)
  have "length (warmed_packages d) = length (filter (purge_hit repo records [key]) (warmed_packages d)) +
      length (filter (\<lambda>w. \<not> purge_hit repo records [key] w) (warmed_packages d))"
    by (rule sum_length_filter_compl [symmetric])
  with Cons.IH [of "d\<lparr>warmed_packages := filter (\<lambda>w. \<not> purge_hit repo records [key] w) (warmed_packages d)\<rparr>"]
  show ?case unfolding remove_purged_step Let_def fst_conv snd_conv by simp
qed

declare remove_purged_records.simps [simp del]

section \<open>Properties\<close>

text \<open>A reported duplicate names two different paths with the same known hash, of which the target
  is the least (repository, path) with that hash; every path with a known hash that is not the least
  owner is reported, and no target is itself reported as a duplicate, so routing along the report
  ends after one step.\<close>
theorem find_duplicate_files_canonical:
  "((r, c, f, cf) \<in> set (find_duplicate_files d) \<longleftrightarrow>
      (r, f) \<noteq> (c, cf) \<and> (\<exists>h. file_hash (r, f) d = Some h \<and> file_hash (c, cf) d = Some h \<and>
        (\<forall>y. file_hash y d = Some h \<longrightarrow> (c, cf) \<le> y))) \<and>
   \<not> ((r, c, f, cf) \<in> set (find_duplicate_files d) \<and> (c, c', cf, cf') \<in> set (find_duplicate_files d))"
proof -
  have least: "canonical_file (r, f) d = (c, cf)"
    if "file_hash (r, f) d = Some h" "file_hash (c, cf) d = Some h" "\<forall>y. file_hash y d = Some h \<longrightarrow> (c, cf) \<le> y"
    for r c f cf h
    using canonical_file_least [OF that(1)] that by (meson order_antisym)
  have A: "(r, c, f, cf) \<in> set (find_duplicate_files d) \<longleftrightarrow>
      (r, f) \<noteq> (c, cf) \<and> (\<exists>h. file_hash (r, f) d = Some h \<and> file_hash (c, cf) d = Some h \<and>
        (\<forall>y. file_hash y d = Some h \<longrightarrow> (c, cf) \<le> y))" for r c f cf
    unfolding set_find_duplicates using canonical_file_least [of "(r, f)" d] least
    by (metis not_None_eq)
  have "\<not> ((r, c, f, cf) \<in> set (find_duplicate_files d) \<and> (c, c', cf, cf') \<in> set (find_duplicate_files d))"
    unfolding A by (metis option.inject order_antisym)
  with A show ?thesis by blast
qed

definition twin_db :: db where
  "twin_db = empty_db\<lparr>repo_packages :=
     [\<lparr>pk_repo = ''b'', pk_key = ''p-1'', pk_name = Some ''p'', pk_file = ''x'', pk_hash = Some ''00''\<rparr>,
      \<lparr>pk_repo = ''a'', pk_key = ''p-1'', pk_name = Some ''p'', pk_file = ''y'', pk_hash = Some ''00''\<rparr>]\<rparr>"

lemma find_duplicate_files_canonical_witness:
  "(''b'', ''a'', ''x'', ''y'') \<in> set (find_duplicate_files twin_db)"
proof -
  have "file_hash (''b'', ''x'') twin_db = Some ''00''" "file_hash (''a'', ''y'') twin_db = Some ''00''"
    by (auto simp: file_hash_iff twin_db_def)
  moreover have "\<forall>y. file_hash y twin_db = Some ''00'' \<longrightarrow> (''a'', ''y'') \<le> y"
    by (auto simp: file_hash_iff twin_db_def less_eq_char_def)
  ultimately show ?thesis
    using find_duplicate_files_canonical [of "''b''" "''a''" "''x''" "''y''" twin_db] by auto
qed

text \<open>Forgetting purged records removes, for the resolved keys, exactly the rows still at the
  revision captured before the purge; a row warmed again meanwhile, and every other row, stays. The
  count returned is the number of rows removed.\<close>
theorem remove_purged_records_exact:
  "warmed_packages (snd (remove_purged_records repo records keys d)) =
     filter (\<lambda>w. \<not> (wm_repo w = repo \<and> wm_key w \<in> set keys \<and>
                    (\<exists>file. map_of records (wm_key w) = Some (file, wm_revision w)))) (warmed_packages d) \<and>
   fst (remove_purged_records repo records keys d) +
     length (warmed_packages (snd (remove_purged_records repo records keys d))) = length (warmed_packages d)"
  using remove_purged_rows remove_purged_count by (simp add: purge_hit_def)

lemma interest_rows_set:
  "i \<in> set (interest_rows repo key identity d) \<longleftrightarrow>
     (\<exists>p \<in> set (repo_packages d). pk_repo p = repo \<and> pk_key p = key \<and> truthy (pk_name p) \<and>
        i = \<lparr>pi_repo = repo, pi_identity = identity, pi_name = the (pk_name p)\<rparr>) \<and>
     (\<exists>s \<in> set (repo_states d). rs_repo s = repo \<and> rs_identity s = Some identity)"
  by (auto simp: interest_rows_def)

lemma set_insert_ignore: "set (insert_ignore key new t) \<subseteq> insert new (set t)"
  by (auto simp: insert_ignore_def)

lemma pi_pkey_inject: "pi_pkey a = pi_pkey b \<longleftrightarrow> a = b"
  by (cases a; cases b) (simp add: pi_pkey_def)

lemma set_insert_interest: "set (insert_ignore pi_pkey new t) = insert new (set t)"
  by (auto simp: insert_ignore_def pi_pkey_inject)

lemma set_fold_insert_interest: "set (fold (insert_ignore pi_pkey) news t) = set news \<union> set t"
  by (induction news arbitrary: t) (auto simp: set_insert_interest)

lemma record_interest_set:
  "set (package_interests (record_interest repo keys identity d)) =
     (\<Union>key \<in> set keys. set (interest_rows repo key identity d)) \<union> set (package_interests d)"
proof -
  have "set (fold (\<lambda>key. fold (insert_ignore pi_pkey) (interest_rows repo key identity d)) keys t) =
      (\<Union>key \<in> set keys. set (interest_rows repo key identity d)) \<union> set t" for t
    by (induction keys arbitrary: t) (auto simp: set_fold_insert_interest)
  then show ?thesis by (simp add: record_interest_def)
qed

lemma record_interest_frame [simp]:
  "repo_packages (record_interest repo keys identity d) = repo_packages d"
  "repo_states (record_interest repo keys identity d) = repo_states d"
  by (simp_all add: record_interest_def)

definition wanted :: "str \<Rightarrow> str \<Rightarrow> str \<Rightarrow> package_interest" where
  "wanted repo identity n = \<lparr>pi_repo = repo, pi_identity = identity, pi_name = n\<rparr>"

definition current_source :: "str \<Rightarrow> str \<Rightarrow> db \<Rightarrow> bool" where
  "current_source repo identity d \<longleftrightarrow>
     (\<exists>s \<in> set (repo_states d). rs_repo s = repo \<and> rs_identity s = Some identity)"

lemma wanted_iff:
  "list_ex (\<lambda>i. pi_repo i = repo \<and> Some (pi_name i) = x \<and> pi_identity i = identity) is \<longleftrightarrow>
   (\<exists>n. x = Some n \<and> wanted repo identity n \<in> set is)"
proof -
  have "(pi_repo i = repo \<and> Some (pi_name i) = x \<and> pi_identity i = identity) \<longleftrightarrow>
      (\<exists>n. x = Some n \<and> i = wanted repo identity n)" for i
    by (cases i) (auto simp: wanted_def)
  then have "(\<lambda>i. pi_repo i = repo \<and> Some (pi_name i) = x \<and> pi_identity i = identity) =
      (\<lambda>i. \<exists>n. x = Some n \<and> i = wanted repo identity n)" by (rule ext)
  then show ?thesis by (simp only: list_ex_iff) blast
qed

lemma interested_iff:
  "k \<in> set (interested_keys repo identity d) \<longleftrightarrow> current_source repo identity d \<and>
     (\<exists>p \<in> set (repo_packages d). pk_repo p = repo \<and> pk_key p = k \<and>
        (\<exists>n. pk_name p = Some n \<and> wanted repo identity n \<in> set (package_interests d)))"
proof -
  have "list_ex (\<lambda>s. rs_repo s = repo \<and> rs_identity s = Some identity) (repo_states d) \<longleftrightarrow> current_source repo identity d"
    by (simp add: list_ex_iff current_source_def)
  then have "set (interested_keys repo identity d) = pk_key ` {p \<in> set (repo_packages d). pk_repo p = repo \<and>
      (\<exists>n. pk_name p = Some n \<and> wanted repo identity n \<in> set (package_interests d)) \<and> current_source repo identity d}"
    by (simp add: interested_keys_def wanted_iff)
  then show ?thesis by (simp only:) auto
qed

lemma recorded_interest_iff:
  assumes "current_source repo identity d"
  shows "wanted repo identity n \<in> set (package_interests (record_interest repo keys identity d)) \<longleftrightarrow>
     (\<exists>q \<in> set (repo_packages d). pk_repo q = repo \<and> pk_key q \<in> set keys \<and> n \<noteq> [] \<and> pk_name q = Some n) \<or>
     wanted repo identity n \<in> set (package_interests d)"
proof -
  have "wanted repo identity n \<in> set (interest_rows repo key identity d) \<longleftrightarrow>
      (\<exists>q \<in> set (repo_packages d). pk_repo q = repo \<and> pk_key q = key \<and> n \<noteq> [] \<and> pk_name q = Some n)" for key
    using assms unfolding interest_rows_set current_source_def [symmetric]
    by (auto simp: wanted_def truthy_iff)
  then show ?thesis unfolding record_interest_set by auto
qed

text \<open>Demand follows names within one source.  After demand for some keys is recorded, the keys
  that count as wanted are those wanted before and, when the repository still has the recorded
  source, every current key whose non-empty name is the name of one of them; while the repository's
  source differs from the asked one, nothing is wanted.\<close>
theorem interest_bound_to_source:
  "(interested_keys repo identity d = [] \<or> current_source repo identity d) \<and>
   (k \<in> set (interested_keys repo identity (record_interest repo keys identity d)) \<longleftrightarrow>
     k \<in> set (interested_keys repo identity d) \<or>
     (current_source repo identity d \<and>
      (\<exists>p q. p \<in> set (repo_packages d) \<and> pk_repo p = repo \<and> pk_key p = k \<and> truthy (pk_name p) \<and>
        q \<in> set (repo_packages d) \<and> pk_repo q = repo \<and> pk_key q \<in> set keys \<and> pk_name q = pk_name p)))"
proof (intro conjI)
  show "interested_keys repo identity d = [] \<or> current_source repo identity d"
    using interested_iff [of _ repo identity d] by (metis list.set_intros(1) neq_Nil_conv)
  let ?d = "record_interest repo keys identity d"
  have src: "current_source repo identity ?d \<longleftrightarrow> current_source repo identity d"
    by (simp add: current_source_def)
  show "k \<in> set (interested_keys repo identity ?d) \<longleftrightarrow>
     k \<in> set (interested_keys repo identity d) \<or>
     (current_source repo identity d \<and>
      (\<exists>p q. p \<in> set (repo_packages d) \<and> pk_repo p = repo \<and> pk_key p = k \<and> truthy (pk_name p) \<and>
        q \<in> set (repo_packages d) \<and> pk_repo q = repo \<and> pk_key q \<in> set keys \<and> pk_name q = pk_name p))"
  proof (cases "current_source repo identity d")
    case False
    then show ?thesis by (simp add: interested_iff src)
  next
    case True
    note new = recorded_interest_iff [OF True]
    show ?thesis
      unfolding interested_iff src new record_interest_frame truthy_iff using True by fastforce
  qed
qed

text \<open>Retention of warm records deletes exactly the rows the preview lists as stale and counts
  them; of the known Nix closure files only those whose package is neither in the catalog nor still
  warmed are forgotten, and nothing else changes.\<close>
theorem prune_warmed_matches_preview:
  "fst (prune_warmed_packages now days d) = length (get_stale_warmed_packages now days d) \<and>
   {(wm_repo w, wm_key w, wm_file w) | w. w \<in> set (warmed_packages d) \<and> w \<notin> set (warmed_packages (snd (prune_warmed_packages now days d)))} =
     set (get_stale_warmed_packages now days d) \<and>
   nix_artifacts (snd (prune_warmed_packages now days d)) =
     filter (\<lambda>a. in_catalog (na_repo a) (na_key a) d \<or>
                 (\<exists>w \<in> set (warmed_packages d). wm_repo w = na_repo a \<and> wm_key w = na_key a \<and> cutoff_of now days \<le> wm_at w))
       (nix_artifacts d)"
proof (intro conjI)
  show "fst (prune_warmed_packages now days d) = length (get_stale_warmed_packages now days d)"
    by (simp add: prune_warmed_packages_def get_stale_warmed_packages_def Let_def count_where_def)
  have rows: "warmed_packages (snd (prune_warmed_packages now days d)) =
      delete_where (\<lambda>w. wm_at w < cutoff_of now days) (warmed_packages d)"
    by (simp add: prune_warmed_packages_def Let_def)
  show "{(wm_repo w, wm_key w, wm_file w) | w. w \<in> set (warmed_packages d) \<and> w \<notin> set (warmed_packages (snd (prune_warmed_packages now days d)))} =
     set (get_stale_warmed_packages now days d)"
    unfolding rows by (auto simp: get_stale_warmed_packages_def)
  show "nix_artifacts (snd (prune_warmed_packages now days d)) =
     filter (\<lambda>a. in_catalog (na_repo a) (na_key a) d \<or>
                 (\<exists>w \<in> set (warmed_packages d). wm_repo w = na_repo a \<and> wm_key w = na_key a \<and> cutoff_of now days \<le> wm_at w))
       (nix_artifacts d)"
    unfolding prune_warmed_packages_def Let_def
    by (simp add: delete_where_def in_catalog_def is_warmed_def list_ex_iff)
       (rule filter_cong, auto simp: not_less)
qed

lemma prune_warmed_matches_preview_witness:
  "fst (prune_warmed_packages 100 1 empty_db) = 0"
  using prune_warmed_matches_preview [of 100 1 empty_db]
  by (simp add: get_stale_warmed_packages_def empty_db_def)

text \<open>One recorded attempt: (time, revision, file, success, HTTP status, source).\<close>

fun warm_attempt :: "str \<Rightarrow> str \<Rightarrow> stamp \<times> str \<times> str \<times> bool \<times> int option \<times> str \<Rightarrow> db \<Rightarrow> db" where
  "warm_attempt repo key (now, blob, filename, ok, http, source) d =
     record_warmed_package now blob repo key filename ok http source d"

lemma warm_attempt_lookup:
  "lookup wm_pkey x (warmed_packages (warm_attempt repo key (now, blob, filename, ok, http, source) d)) =
     (if x = (repo, key) then Some \<lparr>wm_repo = repo, wm_key = key, wm_file = filename, wm_at = now,
         wm_status = (if ok then ''ok'' else ''failed''), wm_http = http,
         wm_source = (case lookup wm_pkey x (warmed_packages d) of None \<Rightarrow> Some source | Some w \<Rightarrow> wm_source w),
         wm_revision = blob\<rparr> else lookup wm_pkey x (warmed_packages d))"
proof (cases "lookup wm_pkey (repo, key) (warmed_packages d)")
  case None
  then show ?thesis by (auto simp: record_warmed_package_def wm.lookup_upsert wm_pkey_def)
next
  case (Some w)
  then have "wm_repo w = repo" "wm_key w = key" by (auto simp: wm_pkey_def dest: lookup_SomeD)
  with Some show ?thesis
    by (cases w) (auto simp: record_warmed_package_def wm.lookup_upsert wm_pkey_def wm_replace_def)
qed

text \<open>After any number of warm attempts of one package, its record shows the file, time, status
  and revision of the last attempt, but the source of the first one ever recorded; no other record
  changes.\<close>
theorem warmed_source_is_first:
  "let d' = fold (warm_attempt repo key) (as @ [(now, blob, filename, ok, http, source)]) d;
       first = (case lookup wm_pkey (repo, key) (warmed_packages d) of
                  Some w \<Rightarrow> wm_source w
                | None \<Rightarrow> Some (case as of [] \<Rightarrow> source | (t, b, f, k, h, s) # _ \<Rightarrow> s))
   in lookup wm_pkey x (warmed_packages d') =
        (if x = (repo, key)
         then Some \<lparr>wm_repo = repo, wm_key = key, wm_file = filename, wm_at = now,
                wm_status = (if ok then ''ok'' else ''failed''), wm_http = http, wm_source = first, wm_revision = blob\<rparr>
         else lookup wm_pkey x (warmed_packages d))"
proof -
  have other: "lookup wm_pkey x (warmed_packages (fold (warm_attempt repo key) as d)) = lookup wm_pkey x (warmed_packages d)"
    if "x \<noteq> (repo, key)" for as d
  proof (induction as arbitrary: d)
    case (Cons a as)
    then show ?case using that by (cases a) (simp add: warm_attempt_lookup del: warm_attempt.simps)
  qed simp
  have same: "Option.bind (lookup wm_pkey (repo, key) (warmed_packages (fold (warm_attempt repo key) as d))) wm_source =
      Option.bind (lookup wm_pkey (repo, key) (warmed_packages d)) wm_source"
    if "lookup wm_pkey (repo, key) (warmed_packages d) \<noteq> None" for as d
    using that
  proof (induction as arbitrary: d)
    case (Cons a as)
    then show ?case by (cases a) (auto simp: warm_attempt_lookup simp del: warm_attempt.simps)
  qed simp
  have some: "lookup wm_pkey (repo, key) (warmed_packages (fold (warm_attempt repo key) as d)) \<noteq> None"
    if "lookup wm_pkey (repo, key) (warmed_packages d) \<noteq> None \<or> as \<noteq> []" for as d
    using that
  proof (induction as arbitrary: d)
    case (Cons a as)
    then show ?case by (cases a) (simp add: warm_attempt_lookup del: warm_attempt.simps)
  qed simp
  let ?d1 = "fold (warm_attempt repo key) as d"
  have first: "(case lookup wm_pkey (repo, key) (warmed_packages ?d1) of None \<Rightarrow> Some source | Some w \<Rightarrow> wm_source w) =
      (case lookup wm_pkey (repo, key) (warmed_packages d) of Some w \<Rightarrow> wm_source w
       | None \<Rightarrow> Some (case as of [] \<Rightarrow> source | (t, b, f, k, h, s) # _ \<Rightarrow> s))"
  proof (cases "lookup wm_pkey (repo, key) (warmed_packages d)")
    case (Some w)
    with same [of d as] some [of d as] show ?thesis by auto
  next
    case None
    show ?thesis
    proof (cases as)
      case Nil
      with None show ?thesis by simp
    next
      case (Cons a rest)
      obtain t b f k h s where a: "a = (t, b, f, k, h, s)" by (cases a)
      have "lookup wm_pkey (repo, key) (warmed_packages (warm_attempt repo key a d)) \<noteq> None"
        by (simp add: a warm_attempt_lookup del: warm_attempt.simps)
      with same [OF this, of rest] some [of "warm_attempt repo key a d" rest] None Cons show ?thesis
        by (auto simp: a warm_attempt_lookup simp del: warm_attempt.simps)
    qed
  qed
  show ?thesis
    unfolding Let_def fold_append comp_def fold_simps warm_attempt_lookup first [symmetric]
    using other [of as d] by auto
qed

end
