(* ===== verification/Notifications.thy ===== *)
theory Notifications
  imports Store_Cache
begin

text \<open>
  \<open>storage/notifications.py\<close> and \<open>notifications.py\<close>: failure streaks per (repository, kind), the
  webhook events they cause, and the delivery loop with its retries.  A response is what the HTTP
  client reports for an attempt; the text of a message and the clock's reading of a
  \<open>Retry-After\<close> date are parameters.
\<close>

section \<open>Streaks\<close>

definition fs_bump :: "failure_state \<Rightarrow> failure_state \<Rightarrow> failure_state" where
  "fs_bump new old = old\<lparr>fs_count := fs_count old + 1, fs_error := fs_error new, fs_at := fs_at new\<rparr>"

definition bump_failure :: "stamp \<Rightarrow> str \<Rightarrow> str \<Rightarrow> str \<Rightarrow> db \<Rightarrow> (nat \<times> bool) \<times> db" where
  "bump_failure now repo kind message d =
     (let d' = d\<lparr>failure_states := upsert fs_pkey fs_bump
                   \<lparr>fs_repo = repo, fs_kind = kind, fs_count = 1, fs_error = Some message, fs_at = Some now,
                    fs_notified = False\<rparr> (failure_states d)\<rparr>
      in (case lookup fs_pkey (repo, kind) (failure_states d') of
            None \<Rightarrow> ((0, False), d') | Some r \<Rightarrow> ((fs_count r, fs_notified r), d')))"

definition mark_failure_notified :: "str \<Rightarrow> str \<Rightarrow> db \<Rightarrow> db" where
  "mark_failure_notified repo kind d =
     d\<lparr>failure_states := update_where (\<lambda>r. fs_repo r = repo \<and> fs_kind r = kind)
        (\<lambda>r. r\<lparr>fs_notified := True\<rparr>) (failure_states d)\<rparr>"

definition reset_failure :: "str \<Rightarrow> str \<Rightarrow> db \<Rightarrow> bool \<times> db" where
  "reset_failure repo kind d =
     (case lookup fs_pkey (repo, kind) (failure_states d) of
        None \<Rightarrow> (False, d)
      | Some r \<Rightarrow> (fs_notified r,
          d\<lparr>failure_states := delete_where (\<lambda>r. fs_repo r = repo \<and> fs_kind r = kind) (failure_states d)\<rparr>))"

definition notifications_ids :: "db \<Rightarrow> str list" where
  "notifications_ids d = remdups (map fs_repo (failure_states d))"

definition notifications_row_count :: "str \<Rightarrow> db \<Rightarrow> nat" where
  "notifications_row_count repo d = count_where (\<lambda>r. fs_repo r = repo) (failure_states d)"

definition notifications_delete :: "str \<Rightarrow> db \<Rightarrow> nat \<times> db" where
  "notifications_delete repo d =
     (notifications_row_count repo d,
      d\<lparr>failure_states := delete_where (\<lambda>r. fs_repo r = repo) (failure_states d)\<rparr>)"

definition get_failure_counts :: "db \<Rightarrow> ((str \<times> str) \<times> nat) list" where
  "get_failure_counts d = map (\<lambda>r. ((fs_repo r, fs_kind r), fs_count r)) (failure_states d)"

interpretation fs: upsert_table fs_pkey fs_bump
  by unfold_locales (simp add: fs_bump_def fs_pkey_def)

section \<open>Events\<close>

record notify_config =
  nc_url :: "str option"
  nc_events :: "str list"
  nc_threshold :: nat

record payload =
  pl_event :: str
  pl_repo :: str
  pl_kind :: str
  pl_status :: str
  pl_count :: "nat option"
  pl_message :: "str option"

definition enabled :: "notify_config \<Rightarrow> str \<Rightarrow> bool" where
  "enabled c event \<longleftrightarrow> truthy (nc_url c) \<and> event \<in> set (nc_events c)"

text \<open>\<open>emit\<close>: the payload goes to the delivery function, whose answer is the result; the second
  component says what was handed to delivery.\<close>

definition emit :: "notify_config \<Rightarrow> (payload \<Rightarrow> bool) \<Rightarrow> payload \<Rightarrow> bool \<times> payload list" where
  "emit c deliver p = (if enabled c (pl_event p) then (deliver p, [p]) else (False, []))"

definition record_failure_and_maybe_notify ::
    "notify_config \<Rightarrow> (payload \<Rightarrow> bool) \<Rightarrow> stamp \<Rightarrow> str \<Rightarrow> str \<Rightarrow> str \<Rightarrow> db \<Rightarrow> payload list \<times> db" where
  "record_failure_and_maybe_notify c deliver now repo kind message d =
     (let ((count, already), d1) = bump_failure now repo kind message d in
      if \<not> enabled c ''repository.failing'' \<or> already \<or> count < nc_threshold c then ([], d1)
      else let (sent, out) = emit c deliver
                 \<lparr>pl_event = ''repository.failing'', pl_repo = repo, pl_kind = kind, pl_status = ''failing'',
                  pl_count = Some count, pl_message = Some message\<rparr>
           in (out, if sent then mark_failure_notified repo kind d1 else d1))"

definition record_success_and_maybe_notify ::
    "notify_config \<Rightarrow> (payload \<Rightarrow> bool) \<Rightarrow> str \<Rightarrow> str \<Rightarrow> db \<Rightarrow> payload list \<times> db" where
  "record_success_and_maybe_notify c deliver repo kind d =
     (let (was_notified, d1) = reset_failure repo kind d in
      if \<not> was_notified \<or> \<not> enabled c ''repository.recovered'' then ([], d1)
      else (snd (emit c deliver \<lparr>pl_event = ''repository.recovered'', pl_repo = repo, pl_kind = kind,
                   pl_status = ''recovered'', pl_count = None, pl_message = None\<rparr>), d1))"

section \<open>Delivery\<close>

datatype outcome = Response int "str option" | Transport_error

datatype delivery_event = Post nat | Sleep rat

text \<open>\<open>dates\<close> gives the seconds until an HTTP date, \<open>None\<close> where parsing raises.\<close>

definition retry_delay :: "(str \<Rightarrow> rat option) \<Rightarrow> str option \<Rightarrow> nat \<Rightarrow> rat" where
  "retry_delay dates value attempt =
     (let delay = of_nat (2 ^ attempt) in
      if truthy value
      then (case (if isascii (the value) \<and> isdigit (the value) then map_option of_nat (int_of_digits (the value))
                  else dates (the value)) of
              Some seconds \<Rightarrow> max delay seconds | None \<Rightarrow> delay)
      else delay)"

fun send_loop :: "(str \<Rightarrow> rat option) \<Rightarrow> (nat \<Rightarrow> outcome) \<Rightarrow> nat list \<Rightarrow> bool \<times> delivery_event list" where
  "send_loop dates post [] = (False, [])"
| "send_loop dates post (attempt # rest) =
     (let retry = (\<lambda>retry_after.
            if attempt = 2 then (False, [Post attempt])
            else let delay = retry_delay dates retry_after attempt in
                 if delay > 30 then (False, [Post attempt])
                 else let (sent, events) = send_loop dates post rest in (sent, Post attempt # Sleep delay # events))
      in case post attempt of
           Response status retry_after \<Rightarrow>
             if 200 \<le> status \<and> status < 300 then (True, [Post attempt])
             else if status \<noteq> 429 \<and> \<not> (500 \<le> status \<and> status < 600) then (False, [Post attempt])
             else retry retry_after
         | Transport_error \<Rightarrow> retry None)"

definition send :: "(str \<Rightarrow> rat option) \<Rightarrow> (nat \<Rightarrow> outcome) \<Rightarrow> bool \<times> delivery_event list" where
  "send dates post = send_loop dates post [0, 1, 2]"

section \<open>Streak lemmas\<close>

lemma bump_lookup:
  "lookup fs_pkey x (failure_states (snd (bump_failure now repo kind message d))) =
     (if x = (repo, kind)
      then Some \<lparr>fs_repo = repo, fs_kind = kind,
              fs_count = (case lookup fs_pkey x (failure_states d) of None \<Rightarrow> 1 | Some r \<Rightarrow> fs_count r + 1),
              fs_error = Some message, fs_at = Some now,
              fs_notified = (case lookup fs_pkey x (failure_states d) of None \<Rightarrow> False | Some r \<Rightarrow> fs_notified r)\<rparr>
      else lookup fs_pkey x (failure_states d))"
proof (cases "lookup fs_pkey (repo, kind) (failure_states d)")
  case None
  then show ?thesis
    by (auto simp: bump_failure_def Let_def fs.lookup_upsert fs_pkey_def split: option.split)
next
  case (Some r)
  then have "fs_repo r = repo" "fs_kind r = kind" by (auto simp: fs_pkey_def dest: lookup_SomeD)
  with Some show ?thesis
    by (cases r) (auto simp: bump_failure_def Let_def fs.lookup_upsert fs_pkey_def fs_bump_def split: option.split)
qed

lemma bump_result:
  "fst (bump_failure now repo kind message d) =
     (case lookup fs_pkey (repo, kind) (failure_states d) of
        None \<Rightarrow> (1, False) | Some r \<Rightarrow> (fs_count r + 1, fs_notified r))"
  by (auto simp: bump_failure_def Let_def fs.lookup_upsert fs_pkey_def fs_bump_def split: option.split)

lemma mark_lookup:
  "lookup fs_pkey x (failure_states (mark_failure_notified repo kind d)) =
     map_option (\<lambda>r. if x = (repo, kind) then r\<lparr>fs_notified := True\<rparr> else r) (lookup fs_pkey x (failure_states d))"
  by (cases "lookup fs_pkey x (failure_states d)")
     (auto simp: mark_failure_notified_def lookup_update fs_pkey_def dest: lookup_SomeD)

text \<open>What the streak of one pair looks like: absent, or its count and whether it was announced.\<close>

definition streak :: "str \<times> str \<Rightarrow> db \<Rightarrow> (nat \<times> bool) option" where
  "streak x d = map_option (\<lambda>r. (fs_count r, fs_notified r)) (lookup fs_pkey x (failure_states d))"

definition announce :: "notify_config \<Rightarrow> nat \<times> bool \<Rightarrow> bool" where
  "announce c s \<longleftrightarrow> enabled c ''repository.failing'' \<and> \<not> snd s \<and> nc_threshold c \<le> fst s"

definition failing_payload :: "str \<times> str \<Rightarrow> nat \<Rightarrow> str \<Rightarrow> payload" where
  "failing_payload x count message = \<lparr>pl_event = ''repository.failing'', pl_repo = fst x, pl_kind = snd x,
     pl_status = ''failing'', pl_count = Some count, pl_message = Some message\<rparr>"

definition bumped :: "(nat \<times> bool) option \<Rightarrow> nat \<times> bool" where
  "bumped s = (case s of None \<Rightarrow> (1, False) | Some (n, b) \<Rightarrow> (n + 1, b))"

lemma failure_step:
  fixes c deliver now repo kind message d
  defines "r \<equiv> record_failure_and_maybe_notify c deliver now repo kind message d"
  defines "s \<equiv> bumped (streak (repo, kind) d)"
  defines "p \<equiv> failing_payload (repo, kind) (fst s) message"
  shows "fst r = (if announce c s then [p] else [])"
    and "streak x (snd r) =
      (if x = (repo, kind) then Some (fst s, snd s \<or> (announce c s \<and> deliver p)) else streak x d)"
proof -
  have s: "fst (bump_failure now repo kind message d) = s"
    unfolding bump_result s_def bumped_def streak_def by (simp split: option.split)
  obtain d1 where d1: "bump_failure now repo kind message d = (s, d1)"
    using s by (metis prod.collapse)
  have st: "streak x d1 = (if x = (repo, kind) then Some s else streak x d)" for x
    using bump_lookup [of x now repo kind message d] unfolding d1 s_def bumped_def streak_def
    by (auto split: option.split)
  have mark: "streak x (mark_failure_notified repo kind d1) =
      (if x = (repo, kind) then Some (fst s, True) else streak x d)" for x
    using st [of x] unfolding streak_def mark_lookup
    by (cases "lookup fs_pkey x (failure_states d1)") (auto split: if_splits)
  show "fst r = (if announce c s then [p] else [])"
    by (cases s) (auto simp: r_def record_failure_and_maybe_notify_def d1 announce_def emit_def p_def
        failing_payload_def Let_def)
  show "streak x (snd r) =
      (if x = (repo, kind) then Some (fst s, snd s \<or> (announce c s \<and> deliver p)) else streak x d)"
    using st [of x] mark [of x]
    by (cases s) (auto simp: r_def record_failure_and_maybe_notify_def d1 announce_def emit_def p_def
        failing_payload_def Let_def)
qed

lemma success_step:
  fixes c deliver repo kind d
  defines "r \<equiv> record_success_and_maybe_notify c deliver repo kind d"
  assumes "keyed fs_pkey (failure_states d)"
  shows "fst r = (if (\<exists>n. streak (repo, kind) d = Some (n, True)) \<and> enabled c ''repository.recovered''
           then [\<lparr>pl_event = ''repository.recovered'', pl_repo = repo, pl_kind = kind, pl_status = ''recovered'',
                  pl_count = None, pl_message = None\<rparr>] else [])"
    and "streak x (snd r) = (if x = (repo, kind) then None else streak x d)"
    and "keyed fs_pkey (failure_states (snd r))"
proof -
  let ?d = "snd (reset_failure repo kind d)"
  have db: "snd r = ?d"
    by (simp add: r_def record_success_and_maybe_notify_def case_prod_unfold Let_def)
  have b: "fst (reset_failure repo kind d) \<longleftrightarrow> (\<exists>n. streak (repo, kind) d = Some (n, True))"
    by (auto simp: reset_failure_def streak_def split: option.split)
  show "fst r = (if (\<exists>n. streak (repo, kind) d = Some (n, True)) \<and> enabled c ''repository.recovered''
           then [\<lparr>pl_event = ''repository.recovered'', pl_repo = repo, pl_kind = kind, pl_status = ''recovered'',
                  pl_count = None, pl_message = None\<rparr>] else [])"
    unfolding b [symmetric]
    by (simp add: r_def record_success_and_maybe_notify_def case_prod_unfold Let_def emit_def)
  have del: "failure_states ?d = delete_where (\<lambda>r. fs_repo r = repo \<and> fs_kind r = kind) (failure_states d)"
  proof (cases "lookup fs_pkey (repo, kind) (failure_states d)")
    case None
    then have "delete_where (\<lambda>r. fs_repo r = repo \<and> fs_kind r = kind) (failure_states d) = failure_states d"
      by (auto simp: delete_where_def filter_id_conv lookup_None_iff fs_pkey_def image_iff)
    with None show ?thesis by (simp add: reset_failure_def)
  next
    case (Some a)
    then show ?thesis by (simp add: reset_failure_def)
  qed
  show "streak x (snd r) = (if x = (repo, kind) then None else streak x d)"
    unfolding db streak_def del
    by (cases x) (auto simp: lookup_delete [OF assms(2)] fs_pkey_def dest!: lookup_SomeD split: option.split)
  show "keyed fs_pkey (failure_states (snd r))"
    unfolding db del using assms(2) by (rule keyed_delete)
qed

end
