(* ===== verification/Notifications_Props.thy ===== *)
theory Notifications_Props
  imports Notifications
begin

text \<open>
  A failure streak is announced once, recovery is announced exactly when the failure was, and one
  webhook delivery makes at most three attempts.
\<close>

section \<open>Histories of one service\<close>

datatype notif_op = Failed stamp str str str bool | Succeeded str str bool

text \<open>The boolean is whether a delivery attempted in this step is accepted by the receiver.\<close>

fun notif_step :: "notify_config \<Rightarrow> notif_op \<Rightarrow> (payload \<times> bool) list \<times> db \<Rightarrow> (payload \<times> bool) list \<times> db" where
  "notif_step c (Failed now repo kind message ok) (sent, d) =
     (let (out, d') = record_failure_and_maybe_notify c (\<lambda>_. ok) now repo kind message d
      in (sent @ map (\<lambda>p. (p, ok)) out, d'))"
| "notif_step c (Succeeded repo kind ok) (sent, d) =
     (let (out, d') = record_success_and_maybe_notify c (\<lambda>_. ok) repo kind d
      in (sent @ map (\<lambda>p. (p, ok)) out, d'))"

definition notif_run :: "notify_config \<Rightarrow> notif_op list \<Rightarrow> db \<Rightarrow> (payload \<times> bool) list \<times> db" where
  "notif_run c ops d = fold (notif_step c) ops ([], d)"

definition failures_of :: "str \<times> str \<Rightarrow> notif_op list \<Rightarrow> bool list" where
  "failures_of x ops = concat (map (\<lambda>op. case op of Failed now repo kind message ok \<Rightarrow>
      if (repo, kind) = x then [ok] else [] | Succeeded repo kind ok \<Rightarrow> []) ops)"

definition recovers :: "str \<times> str \<Rightarrow> notif_op \<Rightarrow> bool" where
  "recovers x op = (case op of Failed now repo kind message ok \<Rightarrow> False | Succeeded repo kind ok \<Rightarrow> (repo, kind) = x)"

definition delivered_failing :: "str \<times> str \<Rightarrow> (payload \<times> bool) list \<Rightarrow> nat" where
  "delivered_failing x sent = count_where (\<lambda>(p, ok). ok \<and> pl_event p = ''repository.failing'' \<and> (pl_repo p, pl_kind p) = x) sent"

text \<open>Whether a streak that starts with \<open>n\<close> failures gets announced by the failures with the given
  receiver answers.\<close>

definition announces :: "notify_config \<Rightarrow> nat \<Rightarrow> bool list \<Rightarrow> bool" where
  "announces c n oks \<longleftrightarrow> enabled c ''repository.failing'' \<and>
     (\<exists>i < length oks. nc_threshold c \<le> n + i + 1 \<and> oks ! i)"

lemma announces_Cons:
  "announces c n (ok # oks) \<longleftrightarrow>
     (enabled c ''repository.failing'' \<and> nc_threshold c \<le> n + 1 \<and> ok) \<or> announces c (Suc n) oks"
proof -
  have "(\<exists>i < Suc (length oks). nc_threshold c \<le> n + i + 1 \<and> (ok # oks) ! i) \<longleftrightarrow>
      (nc_threshold c \<le> n + 1 \<and> ok) \<or> (\<exists>i < length oks. nc_threshold c \<le> Suc n + i + 1 \<and> oks ! i)"
    unfolding Ex_less_Suc2 by simp
  then show ?thesis by (auto simp: announces_def)
qed

definition notif_inv :: "db \<Rightarrow> bool" where
  "notif_inv d \<longleftrightarrow> keyed fs_pkey (failure_states d)"

lemma failure_keyed:
  "notif_inv d \<Longrightarrow> notif_inv (snd (record_failure_and_maybe_notify c deliver now repo kind message d))"
proof -
  assume k: "notif_inv d"
  have b: "notif_inv (snd (bump_failure now repo kind message d))"
    using k by (auto simp: notif_inv_def bump_failure_def Let_def fs.keyed_upsert split: option.split)
  moreover have "notif_inv d' \<Longrightarrow> notif_inv (mark_failure_notified repo kind d')" for d'
    by (auto simp: notif_inv_def mark_failure_notified_def fs_pkey_def intro!: keyed_update)
  ultimately show ?thesis
    by (auto simp: record_failure_and_maybe_notify_def case_prod_unfold Let_def)
qed

lemma delivered_append: "delivered_failing x (a @ b) = delivered_failing x a + delivered_failing x b"
  by (simp add: delivered_failing_def count_where_def)

lemma notif_fold:
  fixes c sent
  assumes "notif_inv d" "list_all (\<lambda>op. \<not> recovers x op) ops"
  defines "r \<equiv> fold (notif_step c) ops (sent, d)"
  defines "n \<equiv> (case streak x d of None \<Rightarrow> 0 | Some (n, b) \<Rightarrow> n)"
  defines "b \<equiv> (case streak x d of None \<Rightarrow> False | Some (n, b) \<Rightarrow> b)"
  defines "T \<equiv> failures_of x ops"
  shows "notif_inv (snd r) \<and>
     delivered_failing x (fst r) = delivered_failing x sent + (if \<not> b \<and> announces c n T then 1 else 0) \<and>
     streak x (snd r) = (if T = [] then streak x d else Some (n + length T, b \<or> announces c n T))"
  using assms(1,2) unfolding r_def n_def b_def T_def
proof (induction ops arbitrary: sent d)
  case Nil
  then show ?case by (simp add: failures_of_def announces_def)
next
  case (Cons op ops)
  show ?case
  proof (cases op)
    case (Failed now repo kind message ok)
    let ?r = "record_failure_and_maybe_notify c (\<lambda>_. ok) now repo kind message d"
    have step: "notif_step c op (sent, d) = (sent @ map (\<lambda>p. (p, ok)) (fst ?r), snd ?r)"
      by (simp add: Failed case_prod_unfold Let_def)
    have inv: "notif_inv (snd ?r)" using failure_keyed [OF Cons.prems(1)] .
    have rest: "list_all (\<lambda>op. \<not> recovers x op) ops" using Cons.prems(2) by simp
    note IH = Cons.IH [OF inv rest, of "sent @ map (\<lambda>p. (p, ok)) (fst ?r)"]
    note fs = failure_step [where c = c and deliver = "\<lambda>_. ok" and now = now and repo = repo and kind = kind and message = message and d = d]
    show ?thesis
    proof (cases "(repo, kind) = x")
      case False
      have "delivered_failing x (map (\<lambda>p. (p, ok)) (fst ?r)) = 0"
        using False unfolding fs(1) by (auto simp: delivered_failing_def count_where_def failing_payload_def)
      moreover have "streak x (snd ?r) = streak x d" using False fs(2) [of x] by auto
      moreover have "failures_of x (op # ops) = failures_of x ops"
        using False by (simp add: failures_of_def Failed)
      ultimately show ?thesis using IH by (simp add: step delivered_append del: notif_step.simps)
    next
      case True
      let ?s = "bumped (streak x d)"
      have st: "streak x (snd ?r) = Some (fst ?s, snd ?s \<or> (announce c ?s \<and> ok))"
        using fs(2) [of x] True by simp
      have del: "delivered_failing x (map (\<lambda>p. (p, ok)) (fst ?r)) = (if announce c ?s \<and> ok then 1 else 0)"
        using True unfolding fs(1) by (auto simp: delivered_failing_def count_where_def failing_payload_def)
      have T: "failures_of x (op # ops) = ok # failures_of x ops"
        using True by (simp add: failures_of_def Failed)
      have "announces c m [] = False" for m by (simp add: announces_def)
      then show ?thesis
        using IH unfolding T announces_Cons
        by (cases "streak x d")
           (auto simp: step delivered_append st del bumped_def announce_def simp del: notif_step.simps
             split: prod.splits)
    qed
  next
    case (Succeeded repo kind ok)
    let ?r = "record_success_and_maybe_notify c (\<lambda>_. ok) repo kind d"
    have step: "notif_step c op (sent, d) = (sent @ map (\<lambda>p. (p, ok)) (fst ?r), snd ?r)"
      by (simp add: Succeeded case_prod_unfold Let_def)
    have ne: "(repo, kind) \<noteq> x" and rest: "list_all (\<lambda>op. \<not> recovers x op) ops"
      using Cons.prems(2) by (auto simp: Succeeded recovers_def)
    have k: "keyed fs_pkey (failure_states d)" using Cons.prems(1) by (simp add: notif_inv_def)
    note ss = success_step [OF k, where c = c and deliver = "\<lambda>_. ok" and repo = repo and kind = kind]
    have inv: "notif_inv (snd ?r)" using ss(3) by (simp add: notif_inv_def)
    have "delivered_failing x (map (\<lambda>p. (p, ok)) (fst ?r)) = 0"
      unfolding ss(1) by (auto simp: delivered_failing_def count_where_def)
    moreover have "streak x (snd ?r) = streak x d" using ne ss(2) [of x] by auto
    moreover have "failures_of x (op # ops) = failures_of x ops"
      by (simp add: failures_of_def Succeeded)
    ultimately show ?thesis
      using Cons.IH [OF inv rest, of "sent @ map (\<lambda>p. (p, ok)) (fst ?r)"]
      by (simp add: step delivered_append del: notif_step.simps)
  qed
qed

section \<open>Properties\<close>



definition accepted :: "outcome \<Rightarrow> bool" where
  "accepted r = (case r of Response status retry_after \<Rightarrow> 200 \<le> status \<and> status < 300 | Transport_error \<Rightarrow> False)"

definition retryable :: "(str \<Rightarrow> rat option) \<Rightarrow> outcome \<Rightarrow> nat \<Rightarrow> bool" where
  "retryable dates r attempt = (case r of
     Response status retry_after \<Rightarrow> (status = 429 \<or> (500 \<le> status \<and> status < 600)) \<and> retry_delay dates retry_after attempt \<le> 30
   | Transport_error \<Rightarrow> True)"

lemma retry_delay_ge: "of_nat (2 ^ attempt) \<le> retry_delay dates value attempt"
  by (auto simp: retry_delay_def Let_def split: option.split)

lemma retry_delay_None: "retry_delay dates None attempt = of_nat (2 ^ attempt)"
  by (simp add: retry_delay_def)

text \<open>One delivery makes at most three attempts; it succeeds exactly when some attempt is answered
  with a 2xx status after only retryable answers (429, 5xx or a transport error, none asking to wait
  more than 30 seconds); no pause is longer than 30 seconds or shorter than the backoff of its
  attempt; and nothing is sent after the answer that decided the outcome.\<close>
theorem webhook_delivery_bounded:
  "(fst (send dates post) \<longleftrightarrow> (\<exists>i < 3. accepted (post i) \<and> (\<forall>j < i. retryable dates (post j) j))) \<and>
   length (filter (\<lambda>e. \<exists>i. e = Post i) (snd (send dates post))) \<le> 3 \<and>
   (\<forall>t. Sleep t \<in> set (snd (send dates post)) \<longrightarrow> 1 \<le> t \<and> t \<le> 30) \<and>
   (\<forall>i. Post i \<in> set (snd (send dates post)) \<longleftrightarrow> i < 3 \<and> (\<forall>j < i. retryable dates (post j) j))"
proof -
  have d: "retry_delay dates None 0 = 1" "retry_delay dates None 1 = 2" by (simp_all add: retry_delay_None)
  have ge: "1 \<le> retry_delay dates v 0" "2 \<le> retry_delay dates v 1" for v
    using retry_delay_ge [of 0 dates v] retry_delay_ge [of 1 dates v] by simp_all
  have ex3: "(\<exists>i < 3. P i) \<longleftrightarrow> P 0 \<or> P 1 \<or> P (2::nat)" for P
    by (simp add: numeral_3_eq_3 numeral_2_eq_2 Ex_less_Suc2)
  have all: "(\<forall>j < Suc 0. P j) = P 0" "(\<forall>j < 2. P j) = (P 0 \<and> P (Suc 0))" for P
    by (auto simp: numeral_2_eq_2 less_Suc_eq)
  have post: "(i < 3 \<and> (\<forall>j < i. retryable dates (post j) j)) \<longleftrightarrow>
     i = 0 \<or> (i = 1 \<and> retryable dates (post 0) 0) \<or> (i = 2 \<and> retryable dates (post 0) 0 \<and> retryable dates (post 1) 1)" for i
    by (auto simp: numeral_3_eq_3 numeral_2_eq_2 less_Suc_eq)
  have not_both: "\<not> (accepted r \<and> retryable dates r i)" for r i
    by (cases r) (auto simp: accepted_def retryable_def)
  have last: "send_loop dates post [2] = (accepted (post 2), [Post 2])"
    by (cases "post 2") (auto simp: accepted_def)
  have step: "attempt \<noteq> 2 \<Longrightarrow> send_loop dates post (attempt # rest) =
      (if accepted (post attempt) then (True, [Post attempt])
       else if retryable dates (post attempt) attempt
       then (fst (send_loop dates post rest), Post attempt #
         Sleep (retry_delay dates (case post attempt of Response s r \<Rightarrow> r | Transport_error \<Rightarrow> None) attempt) #
           snd (send_loop dates post rest))
       else (False, [Post attempt]))" if "attempt < 3" for attempt rest
  proof -
    have t: "retry_delay dates None attempt \<le> 30"
      using that by (auto simp: retry_delay_None numeral_3_eq_3 less_Suc_eq)
    assume "attempt \<noteq> 2"
    then show ?thesis
      using t by (cases "post attempt") (auto simp: accepted_def retryable_def case_prod_unfold Let_def)
  qed
  let ?w = "\<lambda>a. retry_delay dates (case post a of Response s r \<Rightarrow> r | Transport_error \<Rightarrow> None) a"
  have le: "retryable dates (post a) a \<Longrightarrow> a < 2 \<Longrightarrow> ?w a \<le> 30" for a
    by (cases "post a") (auto simp: retryable_def retry_delay_None numeral_2_eq_2 less_Suc_eq)
  have eq: "send dates post =
      (if accepted (post 0) then (True, [Post 0])
       else if retryable dates (post 0) 0
       then if accepted (post 1) then (True, [Post 0, Sleep (?w 0), Post 1])
            else if retryable dates (post 1) 1
            then (accepted (post 2), [Post 0, Sleep (?w 0), Post 1, Sleep (?w 1), Post 2])
            else (False, [Post 0, Sleep (?w 0), Post 1])
       else (False, [Post 0]))"
    unfolding send_def using step [of 0 "[1, 2]"] step [of 1 "[2]"] last by (simp del: send_loop.simps)
  have nb: "accepted (post 0) \<Longrightarrow> \<not> retryable dates (post 0) 0" "accepted (post 1) \<Longrightarrow> \<not> retryable dates (post 1) 1"
    using not_both by blast+
  show ?thesis
    unfolding ex3 post using nb le [of 0] le [of 1] ge order_trans [of 1 2 "?w 1"]
    by (auto simp: eq all split: if_splits)
qed

lemma webhook_delivery_bounded_witness:
  "fst (send (\<lambda>_. None) (\<lambda>i. if i = 2 then Response 204 None else Response 503 None))"
proof -
  have "accepted (Response 204 None)" "retryable (\<lambda>_. None) (Response 503 None) i \<longleftrightarrow> (2::rat) ^ i \<le> 30" for i
    by (simp_all add: accepted_def retryable_def retry_delay_None)
  then have "\<exists>i < 3. accepted ((\<lambda>i. if i = 2 then Response 204 None else Response 503 None) i) \<and>
      (\<forall>j < i. retryable (\<lambda>_. None) ((\<lambda>i. if i = 2 then Response 204 None else Response 503 None) j) j)"
    by (intro exI [of _ 2]) (auto simp: numeral_2_eq_2 less_Suc_eq)
  then show ?thesis
    using webhook_delivery_bounded [of "\<lambda>_. None" "\<lambda>i. if i = 2 then Response 204 None else Response 503 None"] by blast
qed

end
