(* ===== verification/Store_Access.thy ===== *)
theory Store_Access
  imports Schema
begin

text \<open>
  \<open>storage/access.py\<close>: admin sessions and host tokens.  The digest and the CSRF derivation are
  parameters, the random secrets arguments.
\<close>

definition session_seconds :: rat where
  "session_seconds = 12 * 60 * 60"

record session_info =
  si_fingerprint :: str
  si_csrf :: str
  si_expires :: rat

section \<open>Sessions\<close>

definition create_session :: "(str \<Rightarrow> str) \<Rightarrow> (str \<Rightarrow> str) \<Rightarrow> rat \<Rightarrow> str \<Rightarrow> str \<Rightarrow> bool \<Rightarrow> db \<Rightarrow> (str \<times> session_info) \<times> db" where
  "create_session digest csrf now secret password_hash secure d =
     (let fingerprint = digest password_hash;
          kept = delete_where (\<lambda>r. se_expires r \<le> now \<or> se_fingerprint r \<noteq> fingerprint) (admin_sessions d);
          row = \<lparr>se_secret = digest secret, se_fingerprint = fingerprint, se_expires = now + session_seconds, se_secure = secure\<rparr>
      in ((secret, \<lparr>si_fingerprint = fingerprint, si_csrf = csrf secret, si_expires = now + session_seconds\<rparr>),
          d\<lparr>admin_sessions := kept @ [row]\<rparr>))"

definition session :: "(str \<Rightarrow> str) \<Rightarrow> (str \<Rightarrow> str) \<Rightarrow> rat \<Rightarrow> str \<Rightarrow> str option \<Rightarrow> bool \<Rightarrow> db \<Rightarrow> session_info option" where
  "session digest csrf now secret password_hash secure d =
     (if \<not> truthy password_hash \<or> secret = [] \<or> length secret > 128 then None
      else case lookup se_secret (digest secret) (admin_sessions d) of
             None \<Rightarrow> None
           | Some r \<Rightarrow>
               if se_expires r \<le> now \<or> (se_secure r \<and> \<not> secure) then None
               else if se_fingerprint r \<noteq> digest (the password_hash) then None
               else Some \<lparr>si_fingerprint = se_fingerprint r, si_csrf = csrf secret, si_expires = se_expires r\<rparr>)"

definition logout :: "(str \<Rightarrow> str) \<Rightarrow> str \<Rightarrow> db \<Rightarrow> db" where
  "logout digest secret d = d\<lparr>admin_sessions := delete_where (\<lambda>r. se_secret r = digest secret) (admin_sessions d)\<rparr>"

section \<open>Host tokens\<close>

datatype access_error = Bad_name | Bad_expiry | Bad_repo_ids

text \<open>\<open>None\<close> for \<open>repo_ids\<close> grants all repositories.\<close>

definition create_token :: "(str \<Rightarrow> str) \<Rightarrow> rat \<Rightarrow> str \<Rightarrow> str \<Rightarrow> str \<Rightarrow> rat option \<Rightarrow> str list option \<Rightarrow> db
    \<Rightarrow> access_error + (host_token \<times> db)" where
  "create_token digest now token_id random name expires repo_ids d =
     (if strip name = [] \<or> length name > 128 then Inl Bad_name
      else if (case expires of None \<Rightarrow> False | Some e \<Rightarrow> \<not> (now < e \<and> e < 253402300799)) then Inl Bad_expiry
      else if (case repo_ids of None \<Rightarrow> False
               | Some ids \<Rightarrow> length ids > 10000 \<or> list_ex (\<lambda>r. r = [] \<or> length r > 256) ids) then Inl Bad_repo_ids
      else let row = \<lparr>tk_id = token_id, tk_name = strip name, tk_secret = digest (''rw_'' @ random), tk_created = now,
                      tk_expires = expires, tk_last_used = None, tk_revoked = None,
                      tk_repo_ids = map_option (\<lambda>ids. sort (remdups ids)) repo_ids\<rparr>
           in Inr (row, d\<lparr>host_tokens := host_tokens d @ [row]\<rparr>))"

definition tokens :: "db \<Rightarrow> host_token list" where
  "tokens d = sort_key (\<lambda>t. - tk_created t) (host_tokens d)"

definition revoke_token :: "rat \<Rightarrow> str \<Rightarrow> db \<Rightarrow> bool \<times> db" where
  "revoke_token now token_id d =
     (list_ex (\<lambda>t. tk_id t = token_id) (host_tokens d),
      d\<lparr>host_tokens := update_where (\<lambda>t. tk_id t = token_id)
         (\<lambda>t. t\<lparr>tk_revoked := (case tk_revoked t of None \<Rightarrow> Some now | Some r \<Rightarrow> Some r)\<rparr>) (host_tokens d)\<rparr>)"

text \<open>The scope of an accepted token, with the approximate time of last use written back.\<close>

definition token_access :: "(str \<Rightarrow> str) \<Rightarrow> rat \<Rightarrow> str \<Rightarrow> db \<Rightarrow> str list option option \<times> db" where
  "token_access digest now secret d =
     (if \<not> starts_with ''rw_'' secret \<or> length secret > 128 then (None, d)
      else case lookup tk_secret (digest secret) (host_tokens d) of
             None \<Rightarrow> (None, d)
           | Some t \<Rightarrow>
               if tk_revoked t \<noteq> None \<or> (case tk_expires t of None \<Rightarrow> False | Some e \<Rightarrow> e \<le> now) then (None, d)
               else (Some (tk_repo_ids t),
                     if (case tk_last_used t of None \<Rightarrow> True | Some u \<Rightarrow> u < now - 60)
                     then d\<lparr>host_tokens := update_where
                            (\<lambda>r. tk_id r = tk_id t \<and> tk_revoked r = None \<and>
                                 (case tk_last_used r of None \<Rightarrow> True | Some u \<Rightarrow> u < now - 60))
                            (\<lambda>r. r\<lparr>tk_last_used := Some now\<rparr>) (host_tokens d)\<rparr>
                     else d))"

section \<open>Histories\<close>

datatype access_op =
    Login rat str str bool
  | Logout str
  | Create_token rat str str str "rat option" "str list option"
  | Revoke rat str
  | Use rat str

fun access_step :: "(str \<Rightarrow> str) \<Rightarrow> (str \<Rightarrow> str) \<Rightarrow> access_op \<Rightarrow> db \<Rightarrow> db" where
  "access_step dg cs (Login now secret password secure) d = snd (create_session dg cs now secret password secure d)"
| "access_step dg cs (Logout secret) d = logout dg secret d"
| "access_step dg cs (Create_token now i random name expires ids) d =
     (case create_token dg now i random name expires ids d of Inl e \<Rightarrow> d | Inr (row, d') \<Rightarrow> d')"
| "access_step dg cs (Revoke now i) d = snd (revoke_token now i d)"
| "access_step dg cs (Use now secret) d = snd (token_access dg now secret d)"

lemma update_where_member:
  "r \<in> set (update_where P f t) \<Longrightarrow> \<exists>x \<in> set t. r = (if P x then f x else x)"
  by (auto simp: update_where_def)

lemma lookup_update_where:
  "(\<And>r. key (f r) = key r) \<Longrightarrow> lookup key k (update_where P f t) = map_option (\<lambda>r. if P r then f r else r) (lookup key k t)"
  by (rule lookup_update)

text \<open>What an existing token's row may become: only its revocation can be set (once) and its last use
  moved; identity, scope and expiry never change.\<close>

definition token_later :: "host_token \<Rightarrow> host_token \<Rightarrow> bool" where
  "token_later t t' \<longleftrightarrow> tk_id t' = tk_id t \<and> tk_secret t' = tk_secret t \<and> tk_repo_ids t' = tk_repo_ids t \<and>
     tk_expires t' = tk_expires t \<and> (tk_revoked t \<noteq> None \<longrightarrow> tk_revoked t' = tk_revoked t)"

lemma token_later_refl: "token_later t t"
  by (simp add: token_later_def)

lemma token_later_trans: "token_later a b \<Longrightarrow> token_later b c \<Longrightarrow> token_later a c"
  by (auto simp: token_later_def)

lemma access_step_token:
  assumes "lookup tk_secret s (host_tokens d) = Some t"
  shows "\<exists>t'. lookup tk_secret s (host_tokens (access_step dg cs op d)) = Some t' \<and> token_later t t'"
proof (cases op)
  case (Create_token now i random name expires ids)
  then show ?thesis
    using assms by (auto simp: create_token_def Let_def lookup_append_new token_later_refl)
next
  case (Revoke now i)
  then show ?thesis
    using assms by (simp add: revoke_token_def lookup_update) (auto simp: token_later_def split: option.split)
next
  case (Use now secret)
  then show ?thesis
    using assms by (auto simp: token_access_def lookup_update token_later_def split: option.split)
next
  case (Login now secret password secure)
  then show ?thesis using assms by (simp add: create_session_def Let_def token_later_refl)
next
  case (Logout secret)
  then show ?thesis using assms by (simp add: logout_def token_later_refl)
qed

lemma access_run_token:
  "lookup tk_secret s (host_tokens d) = Some t \<Longrightarrow>
   \<exists>t'. lookup tk_secret s (host_tokens (fold (access_step dg cs) ops d)) = Some t' \<and> token_later t t'"
proof (induction ops arbitrary: d t)
  case Nil
  then show ?case by (auto simp: token_later_refl)
next
  case (Cons op ops)
  from access_step_token [OF Cons.prems, of dg cs op] obtain t1
    where "lookup tk_secret s (host_tokens (access_step dg cs op d)) = Some t1" "token_later t t1" by blast
  with Cons.IH [of "access_step dg cs op d" t1] show ?case by (auto intro: token_later_trans)
qed

section \<open>Properties\<close>

text \<open>C4: a revoked host token is dead for good: whatever logins, logouts, token creations, revocations
  and uses follow, presenting its secret is refused and changes nothing.\<close>
theorem revoked_token_stays_dead:
  assumes "lookup tk_secret (dg secret) (host_tokens d) = Some t" and "tk_id t = i"
  shows "token_access dg now secret (fold (access_step dg cs) ops (snd (revoke_token rt i d))) =
           (None, fold (access_step dg cs) ops (snd (revoke_token rt i d)))"
proof -
  let ?d = "snd (revoke_token rt i d)"
  have "\<exists>t'. lookup tk_secret (dg secret) (host_tokens ?d) = Some t' \<and> tk_revoked t' \<noteq> None"
    using assms by (simp add: revoke_token_def lookup_update) (auto split: option.split)
  then obtain t' where t': "lookup tk_secret (dg secret) (host_tokens ?d) = Some t'" "tk_revoked t' \<noteq> None" by blast
  from access_run_token [OF t'(1), of dg cs ops] obtain t''
    where "lookup tk_secret (dg secret) (host_tokens (fold (access_step dg cs) ops ?d)) = Some t''" "token_later t' t''"
    by blast
  with t'(2) show ?thesis by (auto simp: token_access_def token_later_def)
qed

definition sample_token :: host_token where
  "sample_token = \<lparr>tk_id = ''i'', tk_name = ''n'', tk_secret = ''rw_s'', tk_created = 0, tk_expires = None,
     tk_last_used = None, tk_revoked = None, tk_repo_ids = None\<rparr>"

lemma revoked_token_stays_dead_witness:
  "fst (token_access (\<lambda>s. s) 9 ''rw_s''
     (fold (access_step (\<lambda>s. s) (\<lambda>s. s)) [Revoke 7 ''i'', Use 8 ''rw_s'']
       (snd (revoke_token 5 ''i'' (empty_db\<lparr>host_tokens := [sample_token]\<rparr>))))) = None"
proof -
  have "lookup tk_secret ''rw_s'' (host_tokens (empty_db\<lparr>host_tokens := [sample_token]\<rparr>)) = Some sample_token"
    by (simp add: lookup_def sample_token_def)
  moreover have "tk_id sample_token = ''i''" by (simp add: sample_token_def)
  ultimately show ?thesis
    using revoked_token_stays_dead [of "\<lambda>s. s" "''rw_s''" _ sample_token "''i''" 9 "\<lambda>s. s"
        "[Revoke 7 ''i'', Use 8 ''rw_s'']" 5] by simp
qed

text \<open>A token keeps its scope: at any later moment its secret is either refused or granted exactly
  the repositories it was created with, and never after its expiry.\<close>
theorem token_scope_fixed:
  assumes "create_token dg now i random name expires ids d = Inr (row, d')"
    and "lookup tk_secret (dg (''rw_'' @ random)) (host_tokens d) = None"
  shows "fst (token_access dg later (''rw_'' @ random) (fold (access_step dg cs) ops d')) \<in>
           (if (\<exists>e. expires = Some e \<and> e \<le> later) then {None}
            else {None, Some (map_option (\<lambda>ids. sort (remdups ids)) ids)})"
proof -
  have row: "row = \<lparr>tk_id = i, tk_name = strip name, tk_secret = dg (''rw_'' @ random), tk_created = now,
      tk_expires = expires, tk_last_used = None, tk_revoked = None,
      tk_repo_ids = map_option (\<lambda>ids. sort (remdups ids)) ids\<rparr>"
    and d': "host_tokens d' = host_tokens d @ [row]"
    using assms(1) by (auto simp: create_token_def Let_def split: if_splits)
  have "lookup tk_secret (dg (''rw_'' @ random)) (host_tokens d') = Some row"
    using assms(2) by (simp add: d' lookup_append_new row)
  from access_run_token [OF this, of dg cs ops] obtain t where
    "lookup tk_secret (dg (''rw_'' @ random)) (host_tokens (fold (access_step dg cs) ops d')) = Some t" "token_later row t"
    by blast
  then show ?thesis by (auto simp: token_access_def token_later_def row split: option.splits)
qed

lemma token_scope_fixed_witness:
  "fst (token_access (\<lambda>s. s) 99 (''rw_'' @ ''s'') (fold (access_step (\<lambda>s. s) (\<lambda>s. s)) [Use 8 ''rw_s'']
     (snd (projr (create_token (\<lambda>s. s) 5 ''i'' ''s'' ''host'' (Some 50) (Some [''b'', ''a'']) empty_db))))) = None"
proof -
  let ?r = "create_token (\<lambda>s. s) 5 ''i'' ''s'' ''host'' (Some 50) (Some [''b'', ''a'']) empty_db"
  have "strip ''host'' \<noteq> []" by code_simp
  then have "?r = Inr (fst (projr ?r), snd (projr ?r))"
    by (simp add: create_token_def Let_def)
  then have ok: "?r = Inr (fst (projr ?r), snd (projr ?r))" by simp
  have "lookup tk_secret (''rw_'' @ ''s'') (host_tokens empty_db) = None"
    by (simp add: lookup_def empty_db_def)
  from token_scope_fixed [OF ok this, of 99 "\<lambda>s. s" "[Use 8 ''rw_s'']"] show ?thesis by simp
qed

text \<open>A session opened by a login is accepted later exactly while it has not expired, for the same
  password and over a connection that satisfies its security flag; a login with another password
  ends every session of the old one, and logging out ends it for good.\<close>
theorem session_lifetime:
  fixes cs now secure
  assumes "secret \<noteq> []" and "length secret \<le> 128" and "password \<noteq> []"
    and "lookup se_secret (dg secret) (admin_sessions d) = None"
  defines "d1 \<equiv> snd (create_session dg cs now secret password secure d)"
  shows "(session dg cs later secret (Some password) https d1 \<noteq> None \<longleftrightarrow>
            later < now + 43200 \<and> (secure \<longrightarrow> https)) \<and>
         (dg other \<noteq> dg password \<longrightarrow> session dg cs later secret (Some other) https d1 = None) \<and>
         (dg other \<noteq> dg password \<and> dg secret2 \<noteq> dg secret \<longrightarrow>
            session dg cs later secret (Some password) https (snd (create_session dg cs t secret2 other s2 d1)) = None) \<and>
         session dg cs later secret (Some password) https (logout dg secret d1) = None"
proof -
  let ?row = "\<lparr>se_secret = dg secret, se_fingerprint = dg password, se_expires = now + session_seconds, se_secure = secure\<rparr>"
  let ?kept = "delete_where (\<lambda>r. se_expires r \<le> now \<or> se_fingerprint r \<noteq> dg password) (admin_sessions d)"
  have none: "\<forall>r \<in> set (admin_sessions d). se_secret r \<noteq> dg secret"
    using assms(4) unfolding lookup_None_iff by (metis imageI)
  have d1: "admin_sessions d1 = ?kept @ [?row]" by (simp add: d1_def create_session_def Let_def)
  have look: "lookup se_secret (dg secret) (admin_sessions d1) = Some ?row"
  proof -
    have "lookup se_secret (dg secret) ?kept = None" using none by (auto simp: lookup_None_iff)
    then show ?thesis by (simp add: d1 lookup_append_new)
  qed
  have gone: "lookup se_secret (dg secret) (admin_sessions (logout dg secret d1)) = None"
    by (auto simp: logout_def lookup_None_iff)
  have gone2: "session dg cs later secret (Some password) https (snd (create_session dg cs t secret2 other s2 d1)) = None"
    if "dg other \<noteq> dg password" "dg secret2 \<noteq> dg secret"
  proof -
    have "lookup se_secret (dg secret) (admin_sessions (snd (create_session dg cs t secret2 other s2 d1))) = None"
      unfolding lookup_None_iff using that none by (auto simp: create_session_def Let_def d1)
    then show ?thesis by (simp add: session_def)
  qed
  have "session_seconds = 43200" by (simp add: session_seconds_def)
  then show ?thesis
    using assms(1-3) look gone gone2 by (auto simp: session_def not_le)
qed

lemma session_lifetime_witness:
  "session (\<lambda>s. s) (\<lambda>s. s) 43199 ''k'' (Some ''pw'') False (snd (create_session (\<lambda>s. s) (\<lambda>s. s) 0 ''k'' ''pw'' False empty_db)) \<noteq> None"
proof -
  have "lookup se_secret ''k'' (admin_sessions empty_db) = None" by (simp add: lookup_def empty_db_def)
  with session_lifetime [where secret = "''k''" and password = "''pw''" and dg = "\<lambda>s. s" and d = empty_db
      and later = 43199 and https = False and cs = "\<lambda>s. s" and now = 0 and secure = False]
  show ?thesis by simp
qed

end
