(* ===== verification/Store_Queries.thy ===== *)
theory Store_Queries
  imports Store_Cache
begin

text \<open>
  \<open>storage/queries.py\<close>: keyset pagination with cursors bound to a resource and a filter, and the
  catalog evidence read for completeness and cleanup reports.  A cursor is its decoded content (the
  base64 and JSON wrapping is the library's); the FTS index only narrows candidates of the
  predicate below and is left out.
\<close>

section \<open>Pages\<close>

datatype page_kind = Packages | Warmed | Requests

datatype cursor_key = Package_after str | Warmed_after stamp str | Request_after nat | No_key

record cursor =
  cu_kind :: page_kind
  cu_repo :: "str option"
  cu_q :: str
  cu_after :: cursor_key

datatype page_error = Bad_limit | Bad_cursor

definition sql_lower :: "str \<Rightarrow> str" where
  "sql_lower s = map (\<lambda>c. if ascii_upper c then char_of (code c + 32) else c) s"

definition instr_lower :: "str \<Rightarrow> str \<Rightarrow> bool" where
  "instr_lower s q = contains (sql_lower q) (sql_lower s)"

text \<open>One page of rows ordered by a key: the rows behind the cursor, one more than asked for to learn
  whether another page follows, and the key of the last row shown as the next cursor.\<close>

definition page_of :: "bool \<Rightarrow> ('r \<Rightarrow> 'k::linorder) \<Rightarrow> nat \<Rightarrow> 'k option \<Rightarrow> 'r list \<Rightarrow> 'r list \<times> 'k option" where
  "page_of asc key limit after rows =
     (let behind = filter (\<lambda>r. case after of None \<Rightarrow> True | Some k \<Rightarrow> if asc then k < key r else key r < k) rows;
          sorted = (if asc then sort_key key behind else rev (sort_key key behind));
          got = take (limit + 1) sorted;
          items = take limit got
      in (items, if length got > limit then Some (key (last items)) else None))"

definition check_request :: "page_kind \<Rightarrow> str option \<Rightarrow> str \<Rightarrow> nat \<Rightarrow> cursor option \<Rightarrow> (cursor_key \<Rightarrow> 'k option)
    \<Rightarrow> page_error + 'k option" where
  "check_request kind repo q limit cursor parse =
     (if \<not> (1 \<le> limit \<and> limit \<le> 200) \<or> length q > 200 then Inl Bad_limit
      else case cursor of
             None \<Rightarrow> Inr None
           | Some c \<Rightarrow> if cu_kind c = kind \<and> cu_repo c = repo \<and> cu_q c = q
                       then (case parse (cu_after c) of None \<Rightarrow> Inl Bad_cursor | Some k \<Rightarrow> Inr (Some k))
                       else Inl Bad_cursor)"

definition make_cursor :: "page_kind \<Rightarrow> str option \<Rightarrow> str \<Rightarrow> ('k \<Rightarrow> cursor_key) \<Rightarrow> 'k option \<Rightarrow> cursor option" where
  "make_cursor kind repo q wrap = map_option (\<lambda>k. \<lparr>cu_kind = kind, cu_repo = repo, cu_q = q, cu_after = wrap k\<rparr>)"

definition package_rows_for :: "str option \<Rightarrow> str \<Rightarrow> db \<Rightarrow> repo_package list" where
  "package_rows_for repo q d =
     filter (\<lambda>r. (case repo of None \<Rightarrow> True | Some i \<Rightarrow> pk_repo r = i) \<and>
                 (q = [] \<or> instr_lower (pk_key r) q \<or> instr_lower (case pk_name r of None \<Rightarrow> [] | Some n \<Rightarrow> n) q))
       (repo_packages d)"

definition warmed_rows_for :: "str option \<Rightarrow> str \<Rightarrow> db \<Rightarrow> warmed_package list" where
  "warmed_rows_for repo q d =
     filter (\<lambda>r. (case repo of None \<Rightarrow> True | Some i \<Rightarrow> wm_repo r = i) \<and>
                 (q = [] \<or> instr_lower (wm_key r) q \<or> instr_lower (wm_file r) q)) (warmed_packages d)"

definition request_rows_for :: "str option \<Rightarrow> db \<Rightarrow> request_event list" where
  "request_rows_for repo d =
     filter (\<lambda>r. case repo of None \<Rightarrow> True | Some i \<Rightarrow> rq_repo r = Some i) (request_events d)"

definition page_result :: "page_kind \<Rightarrow> str option \<Rightarrow> str \<Rightarrow> nat \<Rightarrow> cursor option \<Rightarrow> (cursor_key \<Rightarrow> 'k option)
    \<Rightarrow> ('k \<Rightarrow> cursor_key) \<Rightarrow> bool \<Rightarrow> ('r \<Rightarrow> 'k::linorder) \<Rightarrow> 'r list \<Rightarrow> page_error + ('r list \<times> cursor option)" where
  "page_result kind repo q limit cursor parse wrap asc key rows =
     (case check_request kind repo q limit cursor parse of
        Inl e \<Rightarrow> Inl e
      | Inr after \<Rightarrow> (let (items, next_key) = page_of asc key limit after rows
                     in Inr (items, make_cursor kind repo q wrap next_key)))"

definition get_packages_page :: "str option \<Rightarrow> str \<Rightarrow> nat \<Rightarrow> cursor option \<Rightarrow> db \<Rightarrow> page_error + (repo_package list \<times> cursor option)" where
  "get_packages_page repo q limit cursor d =
     page_result Packages repo q limit cursor (\<lambda>k. case k of Package_after s \<Rightarrow> Some s | _ \<Rightarrow> None) Package_after
       True pk_key (package_rows_for repo q d)"

definition get_warmed_page :: "str option \<Rightarrow> str \<Rightarrow> nat \<Rightarrow> cursor option \<Rightarrow> db \<Rightarrow> page_error + (warmed_package list \<times> cursor option)" where
  "get_warmed_page repo q limit cursor d =
     page_result Warmed repo q limit cursor (\<lambda>k. case k of Warmed_after t s \<Rightarrow> Some (t, s) | _ \<Rightarrow> None)
       (\<lambda>(t, s). Warmed_after t s) False (\<lambda>w. (wm_at w, wm_key w)) (warmed_rows_for repo q d)"

definition get_requests_page :: "str option \<Rightarrow> str \<Rightarrow> nat \<Rightarrow> cursor option \<Rightarrow> db \<Rightarrow> page_error + (request_event list \<times> cursor option)" where
  "get_requests_page repo q limit cursor d =
     page_result Requests repo q limit cursor (\<lambda>k. case k of Request_after n \<Rightarrow> Some n | _ \<Rightarrow> None) Request_after
       False rq_id (request_rows_for repo d)"

section \<open>Catalog evidence\<close>

record catalog_state =
  ct_last_check :: "stamp option"
  ct_identity :: "str option"
  ct_packages :: "(str \<times> str) list"
  ct_pending :: "str list"
  ct_artifacts :: "(str \<times> str list) list"
  ct_warmed :: "str list"

definition completeness_catalog :: "bool \<Rightarrow> str \<Rightarrow> db \<Rightarrow> catalog_state" where
  "completeness_catalog include_warmed repo d =
     (let state = lookup rs_repo repo (repo_states d);
          arts = filter (\<lambda>a. na_repo a = repo) (nix_artifacts d)
      in \<lparr>ct_last_check = Option.bind state rs_last_check, ct_identity = Option.bind state rs_identity,
          ct_packages = map (\<lambda>p. (pk_key p, pk_file p)) (filter (\<lambda>p. pk_repo p = repo) (repo_packages d)),
          ct_pending = map pr_key (filter (\<lambda>r. pr_repo r = repo) (pending_replacements d)),
          ct_artifacts = map (\<lambda>k. (k, remdups (map na_file (filter (\<lambda>a. na_key a = k) arts)))) (remdups (map na_key arts)),
          ct_warmed = (if include_warmed then remdups (map wm_file (filter (\<lambda>w. wm_repo w = repo) (warmed_packages d))) else [])\<rparr>)"

definition completeness_catalogs :: "str list \<Rightarrow> bool \<Rightarrow> db \<Rightarrow> (str \<times> catalog_state) list" where
  "completeness_catalogs repos include_warmed d =
     map (\<lambda>r. (r, completeness_catalog include_warmed r d)) (unique repos)"

record cleanup_row =
  cl_repo :: str
  cl_key :: str
  cl_file :: str
  cl_last_check :: "stamp option"
  cl_identity :: "str option"
  cl_pending :: bool
  cl_warmed :: bool
  cl_artifact :: bool

definition cleanup_rows_of :: "str \<Rightarrow> db \<Rightarrow> cleanup_row list" where
  "cleanup_rows_of repo d =
     (let state = lookup rs_repo repo (repo_states d);
          row = (\<lambda>k f p w a. \<lparr>cl_repo = repo, cl_key = k, cl_file = f,
                   cl_last_check = Option.bind state rs_last_check, cl_identity = Option.bind state rs_identity,
                   cl_pending = p, cl_warmed = w, cl_artifact = a\<rparr>)
      in map (\<lambda>p. row (pk_key p) (pk_file p)
                (list_ex (\<lambda>r. pr_repo r = repo \<and> pr_key r = pk_key p) (pending_replacements d))
                (list_ex (\<lambda>w. wm_repo w = repo \<and> wm_key w = pk_key p \<and> wm_status w = ''ok'') (warmed_packages d)) False)
           (filter (\<lambda>p. pk_repo p = repo) (repo_packages d)) @
         map (\<lambda>a. row (na_key a) (na_file a) False False True)
           (filter (\<lambda>a. na_repo a = repo \<and> in_catalog repo (na_key a) d) (nix_artifacts d)))"

definition cleanup_rows :: "str list \<Rightarrow> db \<Rightarrow> cleanup_row list" where
  "cleanup_rows repos d = concat (map (\<lambda>r. cleanup_rows_of r d) repos)"

section \<open>Walking all pages\<close>

text \<open>A client that follows \<open>next_cursor\<close> until there is none.\<close>

fun walk :: "nat \<Rightarrow> (cursor option \<Rightarrow> page_error + ('r list \<times> cursor option)) \<Rightarrow> cursor option \<Rightarrow> (page_error + 'r list) option" where
  "walk 0 page c = None"
| "walk (Suc n) page c =
     (case page c of
        Inl e \<Rightarrow> Some (Inl e)
      | Inr (items, None) \<Rightarrow> Some (Inr items)
      | Inr (items, Some c') \<Rightarrow> map_option (map_sum id ((@) items)) (walk n page (Some c')))"

definition ordered :: "bool \<Rightarrow> ('r \<Rightarrow> 'k::linorder) \<Rightarrow> 'r list \<Rightarrow> 'r list" where
  "ordered asc key rows = (if asc then sort_key key rows else rev (sort_key key rows))"

lemma sort_key_filter_eq:
  fixes key :: "'r \<Rightarrow> 'k::linorder"
  assumes "distinct (map key rows)"
  shows "sort_key key (filter P rows) = filter P (sort_key key rows)"
proof (rule map_sorted_distinct_set_unique)
  show "inj_on key (set (sort_key key (filter P rows)) \<union> set (filter P (sort_key key rows)))"
    using assms by (auto simp: distinct_map intro: inj_on_subset)
  show "sorted (map key (filter P (sort_key key rows)))" by (rule sorted_filter) simp
qed (use assms in \<open>auto simp: distinct_map_filter distinct_map intro: inj_on_subset\<close>)

lemma ordered_filter:
  "distinct (map key rows) \<Longrightarrow> ordered asc key (filter P rows) = filter P (ordered asc key rows)"
  by (simp add: ordered_def sort_key_filter_eq rev_filter)

definition behind :: "bool \<Rightarrow> 'k::linorder option \<Rightarrow> 'k \<Rightarrow> bool" where
  "behind asc after k = (case after of None \<Rightarrow> True | Some a \<Rightarrow> if asc then a < k else k < a)"

lemma page_of_ordered:
  assumes "distinct (map key rows)"
  shows "page_of asc key limit after rows =
    (let rest = filter (\<lambda>r. behind asc after (key r)) (ordered asc key rows)
     in (take limit rest, if length rest > limit then Some (key (last (take limit rest))) else None))"
proof -
  have "(if asc then sort_key key (filter (\<lambda>r. behind asc after (key r)) rows)
         else rev (sort_key key (filter (\<lambda>r. behind asc after (key r)) rows))) =
      filter (\<lambda>r. behind asc after (key r)) (ordered asc key rows)"
    using ordered_filter [OF assms, of asc "\<lambda>r. behind asc after (key r)"] by (simp add: ordered_def)
  then show ?thesis
    by (auto simp: page_of_def Let_def behind_def [symmetric] min_def)
qed

text \<open>Rows strictly after the last one shown are exactly the remaining ones.\<close>

lemma behind_strict:
  assumes "sorted_wrt (\<lambda>a b. behind asc (Some (key a)) (key b)) xs" "n < length xs"
  shows "filter (\<lambda>r. behind asc (Some (key (xs ! n))) (key r)) xs = drop (Suc n) xs"
proof -
  have split: "xs = take (Suc n) xs @ drop (Suc n) xs" by simp
  have less: "i < j \<Longrightarrow> j < length xs \<Longrightarrow> behind asc (Some (key (xs ! i))) (key (xs ! j))" for i j
    using assms(1) by (simp add: sorted_wrt_iff_nth_less)
  have a: "filter (\<lambda>r. behind asc (Some (key (xs ! n))) (key r)) (take (Suc n) xs) = []"
  proof -
    have "\<not> behind asc (Some (key (xs ! n))) (key (xs ! i))" if "i \<le> n" for i
      using less [of i n] that assms(2) by (cases "i = n") (auto simp: behind_def split: if_splits)
    then show ?thesis using assms(2) by (auto simp: filter_empty_conv in_set_conv_nth)
  qed
  have b: "filter (\<lambda>r. behind asc (Some (key (xs ! n))) (key r)) (drop (Suc n) xs) = drop (Suc n) xs"
    using less [of n] assms(2) by (auto simp: filter_id_conv in_set_conv_nth)
  have "filter (\<lambda>r. behind asc (Some (key (xs ! n))) (key r)) (take (Suc n) xs @ drop (Suc n) xs) = drop (Suc n) xs"
    by (simp only: filter_append a b append_Nil)
  then show ?thesis by simp
qed

lemma ordered_strict:
  fixes key :: "'r \<Rightarrow> 'k::linorder"
  assumes "distinct (map key rows)"
  shows "sorted_wrt (\<lambda>a b. behind asc (Some (key a)) (key b)) (ordered asc key rows)"
proof -
  have "distinct (map key (sort_key key rows))" using assms by (simp add: distinct_map)
  then have "sorted_wrt (<) (map key (sort_key key rows))" by (simp add: strict_sorted_iff)
  then show ?thesis
    by (cases asc) (auto simp: ordered_def behind_def sorted_wrt_map sorted_wrt_rev)
qed

lemma walk_pages:
  fixes key :: "'r \<Rightarrow> 'k::linorder" and asc kind repo
  assumes dist: "distinct (map key rows)" and parse: "\<And>k. parse (wrap k) = Some k"
    and limit: "1 \<le> limit" "limit \<le> 200" "length q \<le> 200"
  defines "page \<equiv> \<lambda>c. page_result kind repo q limit c parse wrap asc key rows"
  shows "length (filter (\<lambda>r. behind asc after (key r)) (ordered asc key rows)) < n \<Longrightarrow>
    walk n page (make_cursor kind repo q wrap after) =
      Some (Inr (filter (\<lambda>r. behind asc after (key r)) (ordered asc key rows)))"
proof (induction n arbitrary: after)
  case 0
  then show ?case by simp
next
  case (Suc n)
  let ?rest = "\<lambda>after. filter (\<lambda>r. behind asc after (key r)) (ordered asc key rows)"
  have check: "check_request kind repo q limit (make_cursor kind repo q wrap after) parse = Inr after"
    using limit by (cases after) (auto simp: check_request_def make_cursor_def parse)
  have page: "page (make_cursor kind repo q wrap after) =
      Inr (take limit (?rest after), make_cursor kind repo q wrap
        (if length (?rest after) > limit then Some (key (last (take limit (?rest after)))) else None))"
    by (simp add: page_def page_result_def check page_of_ordered [OF dist] Let_def)
  show ?case
  proof (cases "length (?rest after) > limit")
    case False
    then show ?thesis using page by (simp add: make_cursor_def)
  next
    case True
    let ?last = "last (take limit (?rest after))"
    have last: "?last = ?rest after ! (limit - 1)"
    proof -
      have len: "length (take limit (?rest after)) = limit" using True by simp
      then have "take limit (?rest after) \<noteq> []" using limit(1) by (metis list.size(3) not_one_le_zero)
      then have "?last = take limit (?rest after) ! (limit - 1)" using last_conv_nth [of "take limit (?rest after)"] unfolding len by blast
      then show ?thesis using limit(1) by simp
    qed
    have srt: "sorted_wrt (\<lambda>a b. behind asc (Some (key a)) (key b)) (?rest after)"
      by (rule sorted_wrt_filter [OF ordered_strict [OF dist]])
    have trans: "behind asc after (key r)" if "behind asc (Some (key ?last)) (key r)" for r
    proof -
      have "?last \<in> set (?rest after)" unfolding last using True limit(1) by (intro nth_mem) arith
      then have "behind asc after (key ?last)" by simp
      with that show ?thesis by (cases after) (auto simp: behind_def split: if_splits)
    qed
    have "?rest (Some (key ?last)) = filter (\<lambda>r. behind asc (Some (key ?last)) (key r)) (?rest after)"
      unfolding filter_filter by (rule filter_cong [OF refl]) (use trans in blast)
    also have "\<dots> = drop limit (?rest after)"
      using behind_strict [OF srt, of "limit - 1"] True limit(1) unfolding last by simp
    finally have next_rest: "?rest (Some (key ?last)) = drop limit (?rest after)" .
    moreover have "length (?rest (Some (key ?last))) < n"
      using Suc.prems limit(1) True unfolding next_rest by simp
    ultimately have "walk n page (make_cursor kind repo q wrap (Some (key ?last))) = Some (Inr (drop limit (?rest after)))"
      using Suc.IH by simp
    with True show ?thesis using page by (simp add: make_cursor_def)
  qed
qed

section \<open>Properties\<close>

definition page_ok :: "nat \<Rightarrow> str \<Rightarrow> bool" where
  "page_ok limit q \<longleftrightarrow> 1 \<le> limit \<and> limit \<le> 200 \<and> length q \<le> 200"



text \<open>A cursor is honoured only for the resource, repository and search text it was issued for; any
  other use of it is refused, as is a page size outside 1 to 200 or a search text over 200 characters.\<close>
theorem cursor_bound_to_filter:
  "(get_packages_page repo q limit (Some c) d = Inl Bad_cursor \<longleftrightarrow>
      page_ok limit q \<and> \<not> (cu_kind c = Packages \<and> cu_repo c = repo \<and> cu_q c = q \<and> (\<exists>s. cu_after c = Package_after s))) \<and>
   (get_warmed_page repo q limit (Some c) d = Inl Bad_cursor \<longleftrightarrow>
      page_ok limit q \<and> \<not> (cu_kind c = Warmed \<and> cu_repo c = repo \<and> cu_q c = q \<and> (\<exists>t s. cu_after c = Warmed_after t s))) \<and>
   (get_requests_page repo q limit (Some c) d = Inl Bad_cursor \<longleftrightarrow>
      page_ok limit q \<and> \<not> (cu_kind c = Requests \<and> cu_repo c = repo \<and> cu_q c = q \<and> (\<exists>n. cu_after c = Request_after n))) \<and>
   (get_packages_page repo q limit any d = Inl Bad_limit \<longleftrightarrow> \<not> page_ok limit q)"
proof -
  have bad: "page_result kind repo q limit (Some c) parse wrap asc key rows = Inl Bad_cursor \<longleftrightarrow>
      page_ok limit q \<and> \<not> (cu_kind c = kind \<and> cu_repo c = repo \<and> cu_q c = q \<and> parse (cu_after c) \<noteq> None)"
    for kind parse wrap asc and key :: "'r \<Rightarrow> 'k::linorder" and rows
  proof (cases "page_ok limit q \<and> cu_kind c = kind \<and> cu_repo c = repo \<and> cu_q c = q")
    case True
    then have "page_ok limit q" "cu_kind c = kind" "cu_repo c = repo" "cu_q c = q" by auto
    then show ?thesis
      by (cases "parse (cu_after c)")
         (simp_all add: page_result_def check_request_def page_ok_def case_prod_unfold Let_def)
  next
    case False
    then show ?thesis
      by (auto simp: page_result_def check_request_def page_ok_def)
  qed
  have lim: "page_result kind repo q limit any parse wrap asc key rows = Inl Bad_limit \<longleftrightarrow> \<not> page_ok limit q"
    for kind parse wrap asc and key :: "'r \<Rightarrow> 'k::linorder" and rows
  proof (cases any)
    case None
    then show ?thesis by (auto simp: page_result_def check_request_def page_ok_def case_prod_unfold Let_def)
  next
    case (Some c)
    then show ?thesis
      by (cases "parse (cu_after c)")
         (auto simp: page_result_def check_request_def page_ok_def case_prod_unfold Let_def)
  qed
  have parse: "(case k of Package_after s \<Rightarrow> Some s | _ \<Rightarrow> None) \<noteq> None \<longleftrightarrow> (\<exists>s. k = Package_after s)"
    "(case k of Warmed_after t s \<Rightarrow> Some (t, s) | _ \<Rightarrow> None) \<noteq> None \<longleftrightarrow> (\<exists>t s. k = Warmed_after t s)"
    "(case k of Request_after n \<Rightarrow> Some n | _ \<Rightarrow> None) \<noteq> None \<longleftrightarrow> (\<exists>n. k = Request_after n)" for k
    by (cases k; simp)+
  show ?thesis
    unfolding get_packages_page_def get_warmed_page_def get_requests_page_def bad lim parse by blast
qed

end
