(* ===== verification/Bandwidth.thy ===== *)
theory Bandwidth
  imports PyString Complex_Main
begin

text \<open>
  \<open>bandwidth.py\<close>: the weekly schedule of limits and the shared token-bucket budget.  Bytes, credits
  and times are rationals (the code uses floats); an infinite credit is a constructor.  The local
  time of the schedule is the minute of the week, and whether a time zone exists is a parameter.
\<close>

section \<open>Schedule\<close>

datatype schedule_error = Bad_limit_value | Bad_time | Unknown_zone | Too_many_windows | Bad_days | Empty_window | Overlap

record window =
  bw_days :: "str list option"
  bw_start :: str
  bw_end :: str
  bw_limit :: "rat option"

definition day_names :: "str list" where
  "day_names = [''mon'', ''tue'', ''wed'', ''thu'', ''fri'', ''sat'', ''sun'']"

definition validate_limit :: "rat option \<Rightarrow> bool" where
  "validate_limit v = (case v of None \<Rightarrow> True | Some r \<Rightarrow> r > 0)"

definition minute :: "bool \<Rightarrow> str \<Rightarrow> schedule_error + int" where
  "minute end_time value =
     (if end_time \<and> value = ''24:00'' then Inr 1440
      else if length value \<noteq> 5 \<or> value ! 2 \<noteq> CHR '':'' then Inl Bad_time
      else let hour = take 2 value; part = drop 3 value in
           if \<not> isascii hour \<or> \<not> isascii part \<or> \<not> isdigit hour \<or> \<not> isdigit part then Inl Bad_time
           else if nat_of_digits hour > 23 \<or> nat_of_digits part > 59 then Inl Bad_time
           else Inr (int (nat_of_digits hour) * 60 + int (nat_of_digits part)))"

definition duration_of :: "int \<Rightarrow> int \<Rightarrow> int" where
  "duration_of s e = (let d = (e - s) mod 1440 in if d = 0 then 1440 else d)"

definition days_of :: "window \<Rightarrow> str list" where
  "days_of w = (case bw_days w of None \<Rightarrow> day_names | Some ds \<Rightarrow> ds)"

fun day_index :: "str list \<Rightarrow> str \<Rightarrow> int" where
  "day_index [] d = 0"
| "day_index (x # xs) d = (if x = d then 0 else 1 + day_index xs d)"

definition slots_of :: "str \<Rightarrow> int \<Rightarrow> int \<Rightarrow> int list" where
  "slots_of day start duration =
     map (\<lambda>offset. (day_index day_names day * 1440 + start + offset) mod 10080) [0..duration - 1]"

fun occupy_days :: "str list \<Rightarrow> int \<Rightarrow> int \<Rightarrow> int list \<Rightarrow> schedule_error + int list" where
  "occupy_days [] start duration occupied = Inr occupied"
| "occupy_days (day # days) start duration occupied =
     (let slots = slots_of day start duration in
      if list_ex (\<lambda>s. s \<in> set occupied) slots then Inl Overlap
      else occupy_days days start duration (occupied @ slots))"

definition check_window :: "window \<Rightarrow> int list \<Rightarrow> schedule_error + int list" where
  "check_window w occupied =
     (if \<not> validate_limit (bw_limit w) then Inl Bad_limit_value
      else if days_of w = [] \<or> list_ex (\<lambda>d. d \<notin> set day_names) (days_of w) \<or> \<not> distinct (days_of w) then Inl Bad_days
      else case minute False (bw_start w) of
             Inl e \<Rightarrow> Inl e
           | Inr s \<Rightarrow> (case minute True (bw_end w) of
               Inl e \<Rightarrow> Inl e
             | Inr e \<Rightarrow> if s = e then Inl Empty_window else occupy_days (days_of w) s (duration_of s e) occupied))"

fun check_windows :: "window list \<Rightarrow> int list \<Rightarrow> schedule_error + int list" where
  "check_windows [] occupied = Inr occupied"
| "check_windows (w # ws) occupied =
     (case check_window w occupied of Inl e \<Rightarrow> Inl e | Inr occ \<Rightarrow> check_windows ws occ)"

definition validate_schedule :: "(str \<Rightarrow> bool) \<Rightarrow> window list \<Rightarrow> str \<Rightarrow> schedule_error + int list" where
  "validate_schedule zone_known schedule zone =
     (if zone \<noteq> ''UTC'' \<and> \<not> zone_known zone then Inl Unknown_zone
      else if length schedule > 64 then Inl Too_many_windows
      else check_windows schedule [])"

text \<open>\<open>position\<close> is the minute of the local week.\<close>

definition covers :: "window \<Rightarrow> int \<Rightarrow> schedule_error + bool" where
  "covers w position =
     (case minute False (bw_start w) of
        Inl e \<Rightarrow> Inl e
      | Inr s \<Rightarrow> (case minute True (bw_end w) of
          Inl e \<Rightarrow> Inl e
        | Inr e \<Rightarrow> Inr (list_ex (\<lambda>d. (position - (day_index day_names d * 1440 + s)) mod 10080 < duration_of s e) (days_of w))))"

fun scheduled_limit :: "window list \<Rightarrow> rat option \<Rightarrow> int \<Rightarrow> schedule_error + rat option" where
  "scheduled_limit [] limit position = Inr limit"
| "scheduled_limit (w # ws) limit position =
     (case covers w position of
        Inl e \<Rightarrow> Inl e
      | Inr True \<Rightarrow> Inr (bw_limit w)
      | Inr False \<Rightarrow> scheduled_limit ws limit position)"

section \<open>Buckets\<close>

datatype credit = Unlimited | Credit rat

record bucket =
  bk_updated :: rat
  bk_rate :: "rat option"
  bk_credit :: credit

definition new_bucket :: "rat \<Rightarrow> bucket" where
  "new_bucket now = \<lparr>bk_updated = now, bk_rate = None, bk_credit = Credit 0\<rparr>"

definition refill :: "rat option \<Rightarrow> rat \<Rightarrow> bucket \<Rightarrow> bucket" where
  "refill rate now b =
     b\<lparr>bk_credit := (case rate of
          None \<Rightarrow> Unlimited
        | Some r \<Rightarrow> if rate \<noteq> bk_rate b then Credit 0
                    else Credit (case bk_credit b of
                           Unlimited \<Rightarrow> r * (1/10)
                         | Credit c \<Rightarrow> min (r * (1/10)) (c + max 0 (now - bk_updated b) * r))),
       bk_rate := rate, bk_updated := now\<rparr>"

fun up_to :: "rat \<Rightarrow> credit \<Rightarrow> rat" where
  "up_to x Unlimited = x"
| "up_to x (Credit c) = min x c"

fun spend :: "rat \<Rightarrow> credit \<Rightarrow> credit" where
  "spend x Unlimited = Unlimited"
| "spend x (Credit c) = Credit (c - x)"

section \<open>The budget\<close>

record bw_request =
  br_id :: nat
  br_repo :: str
  br_remaining :: rat
  br_fallback :: "rat option"

record budget =
  bu_requests :: "bw_request list"
  bu_buckets :: "(str option \<times> bucket) list"

text \<open>The rate of every waiting repository: its configured limit, or its own fallback when the
  configuration no longer has it; two handles of one repository share the stricter rate.\<close>

definition stricter :: "rat option \<Rightarrow> rat option \<Rightarrow> rat option" where
  "stricter previous rate =
     (case previous of None \<Rightarrow> rate
      | Some p \<Rightarrow> (case rate of None \<Rightarrow> Some p | Some r \<Rightarrow> if p < r then Some p else Some r))"

definition request_rates :: "rat option \<Rightarrow> (str \<times> rat option) list \<Rightarrow> bw_request list \<Rightarrow> (str option \<times> rat option) list" where
  "request_rates global_rate repo_rates requests =
     fold (\<lambda>r rates.
         let rate = (case map_of repo_rates (br_repo r) of None \<Rightarrow> br_fallback r | Some x \<Rightarrow> x);
             previous = (case map_of rates (Some (br_repo r)) of None \<Rightarrow> None | Some x \<Rightarrow> x)
         in AList.update (Some (br_repo r)) (stricter previous rate) rates)
       requests [(None, global_rate)]"

definition bucket_of :: "rat \<Rightarrow> 'k \<Rightarrow> ('k \<times> bucket) list \<Rightarrow> bucket" where
  "bucket_of now k buckets = (case map_of buckets k of None \<Rightarrow> new_bucket now | Some b \<Rightarrow> b)"

definition refill_all :: "rat \<Rightarrow> (str option \<times> rat option) list \<Rightarrow> (str option \<times> bucket) list \<Rightarrow> (str option \<times> bucket) list" where
  "refill_all now rates buckets =
     fold (\<lambda>(k, rate) bs. AList.update k (refill rate now (bucket_of now k bs)) bs) rates buckets"

text \<open>One turn of each waiter; the first component lists the bytes granted and to whom.\<close>

fun serve :: "rat \<Rightarrow> bw_request list \<Rightarrow> bw_request list \<Rightarrow> (str option \<times> bucket) list
    \<Rightarrow> (str \<times> rat) list \<times> bw_request list \<times> (str option \<times> bucket) list" where
  "serve now [] kept bs = ([], kept, bs)"
| "serve now (r # rs) kept bs =
     (let common = bucket_of now None bs;
          specific = bucket_of now (Some (br_repo r)) bs;
          allowance = up_to (up_to (br_remaining r) (bk_credit common)) (bk_credit specific);
          r' = r\<lparr>br_remaining := br_remaining r - allowance\<rparr>;
          bs1 = AList.update None (common\<lparr>bk_credit := spend allowance (bk_credit common)\<rparr>) bs;
          bs2 = AList.update (Some (br_repo r)) (specific\<lparr>bk_credit := spend allowance (bk_credit specific)\<rparr>) bs1;
          (grants, kept', bs3) = serve now rs (if br_remaining r' > 0 then kept @ [r'] else kept) bs2
      in ((br_repo r, allowance) # grants, kept', bs3))"

definition drop_idle :: "rat \<Rightarrow> bw_request list \<Rightarrow> (str option \<times> bucket) list \<Rightarrow> (str option \<times> bucket) list" where
  "drop_idle now requests bs =
     filter (\<lambda>(k, b). \<not> (k \<noteq> None \<and> k \<notin> Some ` br_repo ` set requests \<and> now - bk_updated b > 60)) bs"

definition budget_step :: "rat \<Rightarrow> rat option \<Rightarrow> (str \<times> rat option) list \<Rightarrow> budget \<Rightarrow> (str \<times> rat) list \<times> budget" where
  "budget_step now global_rate repo_rates st =
     (let rates = request_rates global_rate repo_rates (bu_requests st);
          bs = refill_all now rates (bu_buckets st);
          (grants, kept, bs') = serve now (bu_requests st) [] bs;
          requests = rotate1 kept
      in (grants, \<lparr>bu_requests = requests, bu_buckets = drop_idle now requests bs'\<rparr>))"

text \<open>\<open>consume\<close>: a request joins the queue, steps are taken until it is served, and it leaves the queue
  in any case; a call for no bytes does nothing.\<close>

definition enqueue :: "nat \<Rightarrow> str \<Rightarrow> rat \<Rightarrow> rat option \<Rightarrow> budget \<Rightarrow> budget" where
  "enqueue i repo n fallback st =
     (if n \<le> 0 then st
      else st\<lparr>bu_requests := bu_requests st @ [\<lparr>br_id = i, br_repo = repo, br_remaining = n, br_fallback = fallback\<rparr>]\<rparr>)"

definition leave :: "nat \<Rightarrow> budget \<Rightarrow> budget" where
  "leave i st = st\<lparr>bu_requests := filter (\<lambda>r. br_id r \<noteq> i) (bu_requests st)\<rparr>"

definition served :: "nat \<Rightarrow> budget \<Rightarrow> bool" where
  "served i st = (\<not> list_ex (\<lambda>r. br_id r = i) (bu_requests st))"

end
