(* ===== verification/Bandwidth_Props.thy ===== *)
theory Bandwidth_Props
  imports Bandwidth
begin

text \<open>
  A validated schedule names at most one window for every minute of the week, and the budget never
  grants more than rate times elapsed time, globally and per repository.
\<close>

section \<open>Schedule windows\<close>

lemma duration_range: "1 \<le> duration_of s e \<and> duration_of s e \<le> 1440"
proof -
  have "0 \<le> (e - s) mod 1440" "(e - s) mod 1440 < 1440" by simp_all
  then show ?thesis by (auto simp: duration_of_def Let_def)
qed

lemma slots_iff:
  assumes "0 \<le> p" "p < 10080" "1 \<le> dur" "dur \<le> 1440"
  shows "p \<in> set (slots_of day s dur) \<longleftrightarrow> (p - (day_index day_names day * 1440 + s)) mod 10080 < dur"
proof
  let ?b = "day_index day_names day * 1440 + s"
  assume "p \<in> set (slots_of day s dur)"
  then obtain off where off: "0 \<le> off" "off < dur" and p: "p = (?b + off) mod 10080"
    by (auto simp: slots_of_def)
  have "(p - ?b) mod 10080 = (?b + off - ?b) mod 10080"
    unfolding p by (rule mod_diff_left_eq)
  also have "\<dots> = off mod 10080" by simp
  also have "\<dots> = off" using off assms by simp
  finally show "(p - ?b) mod 10080 < dur" using off by simp
next
  let ?b = "day_index day_names day * 1440 + s"
  let ?off = "(p - ?b) mod 10080"
  assume less: "?off < dur"
  have "(?b + ?off) mod 10080 = (?b + (p - ?b)) mod 10080" by (rule mod_add_right_eq)
  also have "\<dots> = p" using assms by simp
  finally have "p = (?b + ?off) mod 10080" by simp
  moreover have "0 \<le> ?off" by simp
  ultimately show "p \<in> set (slots_of day s dur)"
    using less unfolding slots_of_def set_map by (intro image_eqI [of _ _ ?off]) auto
qed

definition window_slots :: "window \<Rightarrow> int set" where
  "window_slots w = (case (minute False (bw_start w), minute True (bw_end w)) of
     (Inr s, Inr e) \<Rightarrow> (\<Union>d \<in> set (days_of w). set (slots_of d s (duration_of s e))) | _ \<Rightarrow> {})"

lemma occupy_days_ok:
  "occupy_days days s dur occ = Inr occ' \<Longrightarrow>
     set occ' = set occ \<union> (\<Union>d \<in> set days. set (slots_of d s dur)) \<and>
     (\<forall>d \<in> set days. set occ \<inter> set (slots_of d s dur) = {})"
proof (induction days arbitrary: occ)
  case Nil
  then show ?case by simp
next
  case (Cons d days)
  let ?slots = "slots_of d s dur"
  have free: "set occ \<inter> set ?slots = {}" and rest: "occupy_days days s dur (occ @ ?slots) = Inr occ'"
    using Cons.prems by (auto simp: Let_def list_ex_iff split: if_splits)
  from Cons.IH [OF rest] free show ?case by auto
qed

lemma check_window_ok:
  assumes "check_window w occ = Inr occ'"
  shows "set occ' = set occ \<union> window_slots w \<and> set occ \<inter> window_slots w = {} \<and>
    (\<exists>s e. minute False (bw_start w) = Inr s \<and> minute True (bw_end w) = Inr e)"
  using assms occupy_days_ok
  by (auto simp: check_window_def window_slots_def split: if_splits sum.splits) blast+

lemma check_windows_disjoint:
  "check_windows ws occ = Inr occ' \<Longrightarrow>
     (\<forall>w \<in> set ws. set occ \<inter> window_slots w = {} \<and>
        (\<exists>s e. minute False (bw_start w) = Inr s \<and> minute True (bw_end w) = Inr e)) \<and>
     (\<forall>i j. i < j \<longrightarrow> j < length ws \<longrightarrow> window_slots (ws ! i) \<inter> window_slots (ws ! j) = {})"
proof (induction ws arbitrary: occ)
  case Nil
  then show ?case by simp
next
  case (Cons w ws)
  obtain occ1 where w: "check_window w occ = Inr occ1" and ws: "check_windows ws occ1 = Inr occ'"
    using Cons.prems by (auto split: sum.splits)
  note w_ok = check_window_ok [OF w]
  note IH = Cons.IH [OF ws]
  have "window_slots ((w # ws) ! i) \<inter> window_slots ((w # ws) ! j) = {}" if "i < j" "j < length (w # ws)" for i j
    using that IH w_ok by (cases i; cases j) (auto simp: nth_mem)
  with IH w_ok show ?case by auto
qed

lemma covers_iff:
  assumes "minute False (bw_start w) = Inr s" "minute True (bw_end w) = Inr e" "0 \<le> p" "p < 10080"
  shows "covers w p = Inr (p \<in> window_slots w)"
  using assms duration_range [of s e] by (auto simp: covers_def window_slots_def list_ex_iff slots_iff)

lemma scheduled_limit_first:
  "(\<And>w. w \<in> set ws \<Longrightarrow> \<exists>b. covers w p = Inr b) \<Longrightarrow>
   scheduled_limit ws limit p =
     Inr (case find (\<lambda>w. covers w p = Inr True) ws of Some w \<Rightarrow> bw_limit w | None \<Rightarrow> limit)"
proof (induction ws)
  case Nil
  then show ?case by simp
next
  case (Cons w ws)
  then obtain b where b: "covers w p = Inr b" by (metis list.set_intros(1))
  have "scheduled_limit ws limit p =
     Inr (case find (\<lambda>w. covers w p = Inr True) ws of Some w \<Rightarrow> bw_limit w | None \<Rightarrow> limit)"
    by (rule Cons.IH) (simp add: Cons.prems)
  with b show ?case by (cases b) auto
qed

text \<open>In a schedule that passed validation no minute of the week belongs to two windows, so the
  limit in force never depends on the order of the windows: it is the limit of the window that
  covers the minute, or the default when none does, and looking it up cannot fail.\<close>
theorem schedule_unambiguous:
  assumes "validate_schedule zone_known schedule zone = Inr occ" and "0 \<le> p" and "p < 10080"
  shows "(\<forall>w \<in> set schedule. covers w p = Inr True \<longrightarrow> scheduled_limit schedule limit p = Inr (bw_limit w)) \<and>
         ((\<forall>w \<in> set schedule. covers w p \<noteq> Inr True) \<longrightarrow> scheduled_limit schedule limit p = Inr limit) \<and>
         (\<forall>i j. i < j \<longrightarrow> j < length schedule \<longrightarrow> \<not> (covers (schedule ! i) p = Inr True \<and> covers (schedule ! j) p = Inr True))"
proof -
  have "check_windows schedule [] = Inr occ"
    using assms(1) by (simp add: validate_schedule_def split: if_splits)
  note ok = check_windows_disjoint [OF this]
  have cov: "covers w p = Inr (p \<in> window_slots w)" if "w \<in> set schedule" for w
    using ok that covers_iff [OF _ _ assms(2,3)] by blast
  have unique: "i = j" if "i < length schedule" "j < length schedule"
    "p \<in> window_slots (schedule ! i)" "p \<in> window_slots (schedule ! j)" for i j
    using ok that by (metis disjoint_iff linorder_neqE_nat)
  have first: "scheduled_limit schedule limit p =
     Inr (case find (\<lambda>w. covers w p = Inr True) schedule of Some w \<Rightarrow> bw_limit w | None \<Rightarrow> limit)"
    by (rule scheduled_limit_first) (use cov in blast)
  have "find (\<lambda>w. covers w p = Inr True) schedule = Some w" if w: "w \<in> set schedule" "covers w p = Inr True" for w
  proof -
    obtain v where v: "find (\<lambda>w. covers w p = Inr True) schedule = Some v"
      using w find_None_iff [of "\<lambda>w. covers w p = Inr True" schedule]
      by (cases "find (\<lambda>w. covers w p = Inr True) schedule") auto
    then have "v \<in> set schedule" "covers v p = Inr True" by (auto simp: find_Some_iff)
    moreover obtain i where i: "i < length schedule" "schedule ! i = w" using w(1) by (meson in_set_conv_nth)
    moreover obtain j where j: "j < length schedule" "schedule ! j = v"
      using \<open>v \<in> set schedule\<close> by (meson in_set_conv_nth)
    moreover have "p \<in> window_slots w" "p \<in> window_slots v"
      using cov w \<open>v \<in> set schedule\<close> \<open>covers v p = Inr True\<close> by auto
    ultimately have "v = w" using unique [of i j] by blast
    with v show ?thesis by simp
  qed
  moreover have "find (\<lambda>w. covers w p = Inr True) schedule = None" if "\<forall>w \<in> set schedule. covers w p \<noteq> Inr True"
    using that by (simp add: find_None_iff)
  moreover have "\<not> (covers (schedule ! i) p = Inr True \<and> covers (schedule ! j) p = Inr True)" if "i < j" "j < length schedule" for i j
    using unique [of i j] cov [of "schedule ! i"] cov [of "schedule ! j"] that by auto
  ultimately show ?thesis using first by auto
qed

definition night :: window where
  "night = \<lparr>bw_days = Some [''mon''], bw_start = ''22:00'', bw_end = ''06:00'', bw_limit = Some 5\<rparr>"

lemma schedule_unambiguous_witness:
  "scheduled_limit [night] None 1400 = Inr (Some 5)"
proof -
  have m: "minute False ''22:00'' = Inr 1320" "minute True ''06:00'' = Inr 360" by code_simp+
  have "check_window night [] = Inr (slots_of ''mon'' 1320 480)"
    by (simp add: check_window_def night_def m days_of_def validate_limit_def day_names_def duration_of_def Let_def list_ex_iff)
  then have "validate_schedule (\<lambda>_. False) [night] ''UTC'' = Inr (slots_of ''mon'' 1320 480)"
    by (simp add: validate_schedule_def)
  note sched = schedule_unambiguous [OF this, of 1400 None]
  have "covers night 1400 = Inr True"
    by (simp add: covers_def night_def m days_of_def day_names_def duration_of_def Let_def)
  then show ?thesis using sched by (simp add: night_def del: scheduled_limit.simps)
qed

section \<open>Accounting\<close>

definition bucket_ok :: "bucket \<Rightarrow> bool" where
  "bucket_ok b \<longleftrightarrow> (case bk_credit b of Unlimited \<Rightarrow> True | Credit c \<Rightarrow> 0 \<le> c)"

definition buckets_ok :: "(str option \<times> bucket) list \<Rightarrow> bool" where
  "buckets_ok bs \<longleftrightarrow> distinct (map fst bs) \<and> (\<forall>k b. map_of bs k = Some b \<longrightarrow> bucket_ok b)"

definition requests_ok :: "bw_request list \<Rightarrow> bool" where
  "requests_ok rs \<longleftrightarrow> (\<forall>r \<in> set rs. 0 < br_remaining r \<and> validate_limit (br_fallback r))"

text \<open>What one key (the whole service, or one repository) was granted.\<close>

definition granted :: "str option \<Rightarrow> (str \<times> rat) list \<Rightarrow> rat" where
  "granted k grants = (\<Sum>(repo, n)\<leftarrow>grants. if k = None \<or> k = Some repo then n else 0)"

lemma granted_simps [simp]:
  "granted k [] = 0"
  "granted k ((repo, n) # gs) = (if k = None \<or> k = Some repo then n else 0) + granted k gs"
  "granted k (a @ b) = granted k a + granted k b"
  by (simp_all add: granted_def)

lemma up_to_range: "0 \<le> x \<Longrightarrow> (case c of Unlimited \<Rightarrow> True | Credit y \<Rightarrow> 0 \<le> y) \<Longrightarrow>
    0 \<le> up_to x c \<and> up_to x c \<le> x \<and> (case c of Unlimited \<Rightarrow> True | Credit y \<Rightarrow> up_to x c \<le> y)"
  by (cases c) auto

lemma bucket_ok_new [simp]: "bucket_ok (new_bucket now)"
  by (simp add: bucket_ok_def new_bucket_def)

lemma bucket_of_ok: "buckets_ok bs \<Longrightarrow> bucket_ok (bucket_of now k bs)"
  by (auto simp: buckets_ok_def bucket_of_def split: option.split)

lemma bucket_ok_spend:
  assumes "bucket_ok b" "a \<le> x" "a = up_to x (bk_credit b)"
  shows "bucket_ok (b\<lparr>bk_credit := spend a (bk_credit b)\<rparr>)"
  using assms by (cases "bk_credit b") (auto simp: bucket_ok_def)

definition same_bucket :: "bucket \<Rightarrow> bucket \<Rightarrow> rat \<Rightarrow> bool" where
  "same_bucket b b' n \<longleftrightarrow> bk_rate b' = bk_rate b \<and> bk_updated b' = bk_updated b \<and> bk_credit b' = spend n (bk_credit b)"

lemma spend_spend: "spend b (spend a c) = spend (a + b) c"
  by (cases c) auto

lemma spend_zero [simp]: "spend 0 c = c"
  by (cases c) auto

lemma same_bucket_trans: "same_bucket a b x \<Longrightarrow> same_bucket b c y \<Longrightarrow> same_bucket a c (x + y)"
  by (simp add: same_bucket_def spend_spend)

lemma serve_ok:
  assumes "buckets_ok bs" "requests_ok rs" "requests_ok kept"
    "map_of bs None \<noteq> None" "\<forall>r \<in> set rs. map_of bs (Some (br_repo r)) \<noteq> None"
  shows "buckets_ok (snd (snd (serve now rs kept bs))) \<and> requests_ok (fst (snd (serve now rs kept bs))) \<and>
    (\<forall>k b. map_of bs k = Some b \<longrightarrow> (\<exists>b'. map_of (snd (snd (serve now rs kept bs))) k = Some b' \<and>
         same_bucket b b' (granted k (fst (serve now rs kept bs)))))"
  using assms
proof (induction rs arbitrary: kept bs)
  case Nil
  then show ?case by (auto simp: same_bucket_def)
next
  case (Cons r rs)
  obtain common where common: "map_of bs None = Some common" using Cons.prems(4) by auto
  obtain specific where specific: "map_of bs (Some (br_repo r)) = Some specific" using Cons.prems(5) by auto
  define a where "a = up_to (up_to (br_remaining r) (bk_credit common)) (bk_credit specific)"
  define r' where "r' = r\<lparr>br_remaining := br_remaining r - a\<rparr>"
  define bs2 where "bs2 = AList.update (Some (br_repo r)) (specific\<lparr>bk_credit := spend a (bk_credit specific)\<rparr>)
      (AList.update None (common\<lparr>bk_credit := spend a (bk_credit common)\<rparr>) bs)"
  define kept2 where "kept2 = (if br_remaining r' > 0 then kept @ [r'] else kept)"
  have ok: "bucket_ok common" "bucket_ok specific" "distinct (map fst bs)"
    using Cons.prems(1) common specific by (auto simp: buckets_ok_def)
  have rem: "0 < br_remaining r" "validate_limit (br_fallback r)" using Cons.prems(2) by (auto simp: requests_ok_def)
  have a: "0 \<le> a" "case bk_credit common of Unlimited \<Rightarrow> True | Credit c \<Rightarrow> a \<le> c"
    "case bk_credit specific of Unlimited \<Rightarrow> True | Credit c \<Rightarrow> a \<le> c"
    using up_to_range [of "br_remaining r" "bk_credit common"]
      up_to_range [of "up_to (br_remaining r) (bk_credit common)" "bk_credit specific"] ok rem
    by (auto simp: a_def bucket_ok_def split: credit.splits)
  have eq: "serve now (r # rs) kept bs = ((br_repo r, a) # fst (serve now rs kept2 bs2), snd (serve now rs kept2 bs2))"
    by (simp add: bucket_of_def common specific Let_def case_prod_unfold a_def r'_def bs2_def kept2_def)
  have map2: "map_of bs2 k = (if k = Some (br_repo r) then Some (specific\<lparr>bk_credit := spend a (bk_credit specific)\<rparr>)
      else if k = None then Some (common\<lparr>bk_credit := spend a (bk_credit common)\<rparr>) else map_of bs k)" for k
    by (simp add: bs2_def update_conv')
  have bs2: "buckets_ok bs2"
  proof -
    have "distinct (map fst bs2)" using ok(3) by (simp add: bs2_def distinct_update)
    moreover have "bucket_ok (common\<lparr>bk_credit := spend a (bk_credit common)\<rparr>)"
      "bucket_ok (specific\<lparr>bk_credit := spend a (bk_credit specific)\<rparr>)"
      using a by (auto simp: bucket_ok_def split: credit.splits)
    ultimately show ?thesis
      using Cons.prems(1) by (auto simp: buckets_ok_def map2)
  qed
  have "requests_ok rs" "requests_ok kept2"
    using Cons.prems(2,3) rem by (auto simp: requests_ok_def kept2_def r'_def)
  moreover have "map_of bs2 None \<noteq> None" "\<forall>r \<in> set rs. map_of bs2 (Some (br_repo r)) \<noteq> None"
    using Cons.prems(5) by (auto simp: map2)
  ultimately have IH: "buckets_ok (snd (snd (serve now rs kept2 bs2))) \<and> requests_ok (fst (snd (serve now rs kept2 bs2))) \<and>
    (\<forall>k b. map_of bs2 k = Some b \<longrightarrow> (\<exists>b'. map_of (snd (snd (serve now rs kept2 bs2))) k = Some b' \<and>
         same_bucket b b' (granted k (fst (serve now rs kept2 bs2)))))"
    by (rule Cons.IH [OF bs2])
  have "\<exists>b'. map_of (snd (snd (serve now rs kept2 bs2))) k = Some b' \<and>
      same_bucket b b' (granted k ((br_repo r, a) # fst (serve now rs kept2 bs2)))" if b: "map_of bs k = Some b" for k b
  proof -
    let ?n = "if k = None \<or> k = Some (br_repo r) then a else 0"
    obtain b1 where b1: "map_of bs2 k = Some b1" "same_bucket b b1 ?n"
    proof (cases "k = Some (br_repo r)")
      case True
      with b specific show ?thesis by (intro that [of "specific\<lparr>bk_credit := spend a (bk_credit specific)\<rparr>"])
          (auto simp: map2 same_bucket_def)
    next
      case False
      show ?thesis
      proof (cases "k = None")
        case True
        with b common show ?thesis by (intro that [of "common\<lparr>bk_credit := spend a (bk_credit common)\<rparr>"])
            (auto simp: map2 same_bucket_def)
      next
        case ne: False
        with False b show ?thesis by (intro that [of b]) (auto simp: map2 same_bucket_def)
      qed
    qed
    then obtain b' where "map_of (snd (snd (serve now rs kept2 bs2))) k = Some b'"
      "same_bucket b1 b' (granted k (fst (serve now rs kept2 bs2)))" using IH by blast
    with same_bucket_trans [OF b1(2)] show ?thesis by auto
  qed
  with IH show ?case unfolding eq by simp
qed

lemma serve_grants_to:
  "fst ` set (fst (serve now rs kept bs)) \<subseteq> br_repo ` set rs"
  by (induction rs arbitrary: kept bs) (auto simp: Let_def case_prod_unfold)

lemma serve_dom:
  "dom (map_of (snd (snd (serve now rs kept bs)))) \<subseteq> insert None (Some ` br_repo ` set rs) \<union> dom (map_of bs)"
proof (induction rs arbitrary: kept bs)
  case Nil
  then show ?case by auto
next
  case (Cons r rs)
  have "\<exists>kept2 x y. snd (snd (serve now (r # rs) kept bs)) =
      snd (snd (serve now rs kept2 (AList.update (Some (br_repo r)) x (AList.update None y bs))))"
    by (simp add: Let_def case_prod_unfold) blast
  then obtain kept2 x y where eq: "snd (snd (serve now (r # rs) kept bs)) =
      snd (snd (serve now rs kept2 (AList.update (Some (br_repo r)) x (AList.update None y bs))))" by blast
  show ?case
    unfolding eq using Cons.IH [of kept2 "AList.update (Some (br_repo r)) x (AList.update None y bs)"]
    by (auto simp: update_conv' split: if_splits)
qed

lemma granted_none: "k \<noteq> None \<Longrightarrow> k \<notin> Some ` fst ` set grants \<Longrightarrow> granted k grants = 0"
  by (induction grants) auto

section \<open>Rates and refills\<close>

lemma refill_all_map_of:
  "distinct (map fst rates) \<Longrightarrow>
   map_of (refill_all now rates bs) k =
     (case map_of rates k of None \<Rightarrow> map_of bs k | Some rate \<Rightarrow> Some (refill rate now (bucket_of now k bs)))"
proof (induction rates arbitrary: bs)
  case Nil
  then show ?case by (simp add: refill_all_def)
next
  case (Cons x rates)
  obtain k' rate where x: "x = (k', rate)" by (cases x)
  let ?bs = "AList.update k' (refill rate now (bucket_of now k' bs)) bs"
  have "map_of rates k' = None" using Cons.prems x by (simp add: map_of_eq_None_iff)
  moreover have "map_of (refill_all now rates ?bs) k =
     (case map_of rates k of None \<Rightarrow> map_of ?bs k | Some rate \<Rightarrow> Some (refill rate now (bucket_of now k ?bs)))"
    using Cons by simp
  moreover have "refill_all now (x # rates) bs = refill_all now rates ?bs" by (simp add: refill_all_def x)
  ultimately show ?case by (auto simp: x update_conv' bucket_of_def split: option.split)
qed

lemma refill_all_distinct: "distinct (map fst bs) \<Longrightarrow> distinct (map fst (refill_all now rates bs))"
  unfolding refill_all_def by (induction rates arbitrary: bs) (auto intro: distinct_update)

lemma refill_ok:
  assumes "bucket_ok b" "validate_limit rate"
  shows "bucket_ok (refill rate now b)"
proof (cases rate)
  case None
  then show ?thesis by (simp add: bucket_ok_def refill_def)
next
  case (Some r)
  then have "0 < r" using assms(2) by (simp add: validate_limit_def)
  then have "0 \<le> max 0 (now - bk_updated b) * r" by simp
  with Some \<open>0 < r\<close> assms(1) show ?thesis
    by (auto simp: bucket_ok_def refill_def split: credit.splits)
qed

lemma stricter_ok: "validate_limit p \<Longrightarrow> validate_limit r \<Longrightarrow> validate_limit (stricter p r)"
  by (auto simp: stricter_def validate_limit_def split: option.splits)

lemma request_rates_ok:
  fixes g rr rs
  defines "rates \<equiv> request_rates g rr rs"
  assumes "validate_limit g" "\<forall>x \<in> snd ` set rr. validate_limit x" "requests_ok rs"
  shows "distinct (map fst rates) \<and> map_of rates None = Some g \<and> (\<forall>k x. map_of rates k = Some x \<longrightarrow> validate_limit x) \<and>
    (\<forall>repo. map_of rates (Some repo) \<noteq> None \<longleftrightarrow> repo \<in> br_repo ` set rs) \<and>
    (\<forall>repo x. map_of rr repo = Some (Some x) \<longrightarrow> repo \<in> br_repo ` set rs \<longrightarrow> map_of rates (Some repo) = Some (Some x))"
proof -
  let ?f = "\<lambda>r rates. let rate = (case map_of rr (br_repo r) of None \<Rightarrow> br_fallback r | Some x \<Rightarrow> x);
             previous = (case map_of rates (Some (br_repo r)) of None \<Rightarrow> None | Some x \<Rightarrow> x)
         in AList.update (Some (br_repo r)) (stricter previous rate) rates"
  have rr: "validate_limit x" if "map_of rr repo = Some x" for repo x
    using assms(3) map_of_SomeD [OF that] by force
  have "distinct (map fst rates') \<and> map_of rates' None = Some g \<and> (\<forall>k x. map_of rates' k = Some x \<longrightarrow> validate_limit x) \<and>
    (\<forall>repo. map_of rates' (Some repo) \<noteq> None \<longleftrightarrow> repo \<in> A \<union> br_repo ` set rs) \<and>
    (\<forall>repo x. map_of rr repo = Some (Some x) \<longrightarrow> repo \<in> A \<union> br_repo ` set rs \<longrightarrow> map_of rates' (Some repo) = Some (Some x))"
    if "rates' = fold ?f rs rates0" "distinct (map fst rates0)" "map_of rates0 None = Some g"
      "\<forall>k x. map_of rates0 k = Some x \<longrightarrow> validate_limit x" "\<forall>repo. map_of rates0 (Some repo) \<noteq> None \<longleftrightarrow> repo \<in> A"
      "\<forall>repo x. map_of rr repo = Some (Some x) \<longrightarrow> repo \<in> A \<longrightarrow> map_of rates0 (Some repo) = Some (Some x)"
      "requests_ok rs" for rates0 A rates'
    using that
  proof (induction rs arbitrary: rates0 A)
    case Nil
    then show ?case by simp
  next
    case (Cons r rs)
    let ?rates1 = "?f r rates0"
    let ?rate = "case map_of rr (br_repo r) of None \<Rightarrow> br_fallback r | Some x \<Rightarrow> x"
    let ?prev = "case map_of rates0 (Some (br_repo r)) of None \<Rightarrow> None | Some x \<Rightarrow> x"
    have m1: "map_of ?rates1 k = (if k = Some (br_repo r) then Some (stricter ?prev ?rate) else map_of rates0 k)" for k
      by (simp add: Let_def update_conv')
    have "validate_limit ?rate" using Cons.prems(7) rr by (auto simp: requests_ok_def split: option.split)
    moreover have "validate_limit ?prev"
      using Cons.prems(4) by (cases "map_of rates0 (Some (br_repo r))") (simp add: validate_limit_def, simp)
    ultimately have vl: "validate_limit (stricter ?prev ?rate)" by (rule stricter_ok [rotated])
    have same: "stricter ?prev ?rate = Some x" if "map_of rr (br_repo r) = Some (Some x)" for x
    proof (cases "br_repo r \<in> A")
      case True
      then have "map_of rates0 (Some (br_repo r)) = Some (Some x)" using Cons.prems(6) that by blast
      with that show ?thesis by (simp add: stricter_def)
    next
      case False
      then have "map_of rates0 (Some (br_repo r)) = None" using Cons.prems(5) by blast
      with that show ?thesis by (simp add: stricter_def)
    qed
    have 1: "rates' = fold ?f rs ?rates1" using Cons.prems(1) by simp
    have 2: "distinct (map fst ?rates1)" using Cons.prems(2) by (simp add: Let_def distinct_update)
    have 3: "map_of ?rates1 None = Some g" using Cons.prems(3) unfolding m1 by simp
    have 4: "\<forall>k x. map_of ?rates1 k = Some x \<longrightarrow> validate_limit x" using Cons.prems(4) vl unfolding m1 by auto
    have 5: "\<forall>repo. map_of ?rates1 (Some repo) \<noteq> None \<longleftrightarrow> repo \<in> insert (br_repo r) A"
      using Cons.prems(5) unfolding m1 by auto
    have 6: "\<forall>repo x. map_of rr repo = Some (Some x) \<longrightarrow> repo \<in> insert (br_repo r) A \<longrightarrow> map_of ?rates1 (Some repo) = Some (Some x)"
      using Cons.prems(6) same unfolding m1 by auto
    have 7: "requests_ok rs" using Cons.prems(7) by (simp add: requests_ok_def)
    show ?case using Cons.IH [OF 1 2 3 4 5 6 7] by auto
  qed
  note rates = this
  have "rates = fold ?f rs [(None, g)]" by (simp add: rates_def request_rates_def)
  moreover have "distinct (map fst [(None :: str option, g)])" "map_of [(None, g)] None = Some g" by simp_all
  moreover have "\<forall>k x. map_of [(None :: str option, g)] k = Some x \<longrightarrow> validate_limit x" using assms(2) by simp
  moreover have "\<forall>repo :: str. map_of [(None, g)] (Some repo) \<noteq> None \<longleftrightarrow> repo \<in> {}" by simp
  moreover have "\<forall>repo x. map_of rr repo = Some (Some x) \<longrightarrow> repo \<in> {} \<longrightarrow> map_of [(None, g)] (Some repo) = Some (Some x)" by simp
  ultimately show ?thesis
    using rates [of rates "[(None, g)]" "{}"] assms(4) unfolding Un_empty_left by blast
qed

section \<open>Rate bound\<close>

datatype budget_op =
    Join nat str rat "rat option"
  | Leave nat
  | Tick rat "rat option" "(str \<times> rat option) list"

fun budget_run :: "budget_op list \<Rightarrow> rat \<times> budget \<Rightarrow> (str \<times> rat) list \<times> rat \<times> budget" where
  "budget_run [] (t, st) = ([], t, st)"
| "budget_run (Join i repo n fb # ops) (t, st) = budget_run ops (t, enqueue i repo n fb st)"
| "budget_run (Leave i # ops) (t, st) = budget_run ops (t, leave i st)"
| "budget_run (Tick now g rr # ops) (t, st) =
     (let (grants, st1) = budget_step now g rr st; (more, res) = budget_run ops (now, st1)
      in (grants @ more, res))"

text \<open>Time does not run backwards, all limits are valid ones, and the key in question is limited to at
  most \<open>r\<close> bytes per second throughout.\<close>

definition limited_to :: "str option \<Rightarrow> rat \<Rightarrow> rat option \<Rightarrow> (str \<times> rat option) list \<Rightarrow> bool" where
  "limited_to k r g rr = (case k of
     None \<Rightarrow> (case g of None \<Rightarrow> False | Some x \<Rightarrow> x \<le> r)
   | Some repo \<Rightarrow> (case map_of rr repo of Some (Some x) \<Rightarrow> x \<le> r | _ \<Rightarrow> False))"

fun run_ok :: "str option \<Rightarrow> rat \<Rightarrow> rat \<Rightarrow> budget_op list \<Rightarrow> bool" where
  "run_ok k r t [] = True"
| "run_ok k r t (Join i repo n fb # ops) = (validate_limit fb \<and> run_ok k r t ops)"
| "run_ok k r t (Leave i # ops) = run_ok k r t ops"
| "run_ok k r t (Tick now g rr # ops) =
     (t \<le> now \<and> validate_limit g \<and> list_all (\<lambda>(i, x). validate_limit x) rr \<and> limited_to k r g rr \<and> run_ok k r now ops)"

text \<open>Everything granted plus the credit left is covered by the time the bucket has seen.\<close>

definition covered :: "str option \<Rightarrow> rat \<Rightarrow> rat \<Rightarrow> rat \<Rightarrow> rat \<Rightarrow> (str option \<times> bucket) list \<Rightarrow> bool" where
  "covered k r t0 t G bs = (t0 \<le> t \<and> (case map_of bs k of
     None \<Rightarrow> G \<le> r * (t - t0)
   | Some b \<Rightarrow> bk_updated b \<le> t \<and> t0 \<le> bk_updated b \<and>
       (\<exists>c x. bk_credit b = Credit c \<and> 0 \<le> c \<and> bk_rate b = Some x \<and> 0 < x \<and> x \<le> r \<and>
          G + c \<le> r * (bk_updated b - t0))))"

lemma covered_bound:
  assumes "covered k r t0 t G bs" "0 < r"
  shows "G \<le> r * (t - t0)"
proof (cases "map_of bs k")
  case None
  with assms(1) show ?thesis by (simp add: covered_def)
next
  case (Some b)
  with assms(1) obtain c where c: "0 \<le> c" "bk_updated b \<le> t" "G + c \<le> r * (bk_updated b - t0)"
    by (auto simp: covered_def)
  have "r * (bk_updated b - t0) \<le> r * (t - t0)" using c(2) assms(2) by (intro mult_left_mono) auto
  with c show ?thesis by linarith
qed

lemma covered_refill:
  assumes cov: "covered k r t0 t G bs" and r: "0 < r" and t: "t \<le> now" and x: "0 < x" "x \<le> r"
  shows "\<exists>c. bk_credit (refill (Some x) now (bucket_of now k bs)) = Credit c \<and> 0 \<le> c \<and> G + c \<le> r * (now - t0)"
proof -
  have bound: "G \<le> r * (now - t0)"
  proof -
    have "r * (t - t0) \<le> r * (now - t0)" using t r by (intro mult_left_mono) auto
    with covered_bound [OF cov r] show ?thesis by linarith
  qed
  show ?thesis
  proof (cases "map_of bs k")
    case None
    then show ?thesis using bound by (simp add: bucket_of_def new_bucket_def refill_def)
  next
    case (Some b)
    with cov obtain c y where b: "bk_credit b = Credit c" "0 \<le> c" "bk_rate b = Some y" "0 < y" "y \<le> r"
      "bk_updated b \<le> t" "G + c \<le> r * (bk_updated b - t0)"
      by (auto simp: covered_def)
    show ?thesis
    proof (cases "x = y")
      case False
      with Some b bound show ?thesis by (simp add: bucket_of_def refill_def)
    next
      case True
      let ?e = "now - bk_updated b"
      let ?c = "min (x * (1/10)) (c + max 0 ?e * x)"
      have e: "0 \<le> ?e" using b(6) t by linarith
      have "max 0 ?e * x \<le> r * ?e"
        using e x by (simp add: mult.commute [of r] mult_left_mono)
      moreover have "r * ?e = r * (now - t0) - r * (bk_updated b - t0)" by (simp add: algebra_simps)
      ultimately have "G + ?c \<le> r * (now - t0)" using b(7) by linarith
      moreover have "0 \<le> ?c" using b(2) x e by simp
      ultimately show ?thesis using True Some b by (simp add: bucket_of_def refill_def)
    qed
  qed
qed

lemma drop_idle_map_of:
  assumes "distinct (map fst bs)"
  shows "map_of (drop_idle now rs bs) k =
    (case map_of bs k of None \<Rightarrow> None
     | Some b \<Rightarrow> if k \<noteq> None \<and> k \<notin> Some ` br_repo ` set rs \<and> now - bk_updated b > 60 then None else Some b)"
  using assms
  by (induction bs) (auto simp: drop_idle_def map_of_eq_None_iff image_iff split: option.splits)

lemma buckets_ok_drop: "buckets_ok bs \<Longrightarrow> buckets_ok (drop_idle now rs bs)"
  by (auto simp: buckets_ok_def drop_idle_map_of distinct_map_filter split: option.splits if_splits)
     (simp add: drop_idle_def distinct_map_filter)

lemma budget_step_ok:
  fixes now g rr st
  defines "res \<equiv> budget_step now g rr st"
  assumes st: "buckets_ok (bu_buckets st)" "requests_ok (bu_requests st)"
    and lim: "validate_limit g" "list_all (\<lambda>(i, x). validate_limit x) rr" "limited_to k r g rr"
    and cov: "covered k r t0 t G (bu_buckets st)" and r: "0 < r" and t: "t \<le> now"
  shows "buckets_ok (bu_buckets (snd res)) \<and> requests_ok (bu_requests (snd res)) \<and>
    covered k r t0 now (G + granted k (fst res)) (bu_buckets (snd res))"
proof -
  let ?rs = "bu_requests st"
  let ?rates = "request_rates g rr ?rs"
  let ?bs = "refill_all now ?rates (bu_buckets st)"
  let ?s = "serve now ?rs [] ?bs"
  have "\<forall>x \<in> snd ` set rr. validate_limit x" using lim(2) by (auto simp: list_all_iff)
  note rates = request_rates_ok [OF lim(1) this st(2)]
  have rN: "map_of ?rates None = Some g"
    and rV: "map_of ?rates k = Some x \<Longrightarrow> validate_limit x"
    and rM: "map_of ?rates (Some repo) \<noteq> None \<longleftrightarrow> repo \<in> br_repo ` set ?rs"
    and rX: "map_of rr repo = Some (Some y) \<Longrightarrow> repo \<in> br_repo ` set ?rs \<Longrightarrow> map_of ?rates (Some repo) = Some (Some y)"
    for k repo x y using rates by blast+
  have map: "map_of ?bs k = (case map_of ?rates k of None \<Rightarrow> map_of (bu_buckets st) k
      | Some rate \<Rightarrow> Some (refill rate now (bucket_of now k (bu_buckets st))))" for k
    using rates by (intro refill_all_map_of) blast
  have bs: "buckets_ok ?bs"
    unfolding buckets_ok_def
  proof (intro conjI allI impI)
    show "distinct (map fst ?bs)" using st(1) by (auto simp: buckets_ok_def intro: refill_all_distinct)
    fix k b assume "map_of ?bs k = Some b"
    with st(1) rV show "bucket_ok b"
      unfolding map by (auto simp: buckets_ok_def intro: refill_ok bucket_of_ok [OF st(1)] split: option.splits)
  qed
  have dom: "map_of ?bs None \<noteq> None" "\<forall>r \<in> set ?rs. map_of ?bs (Some (br_repo r)) \<noteq> None"
  proof -
    show "map_of ?bs None \<noteq> None" using rN unfolding map by simp
    show "\<forall>r \<in> set ?rs. map_of ?bs (Some (br_repo r)) \<noteq> None"
    proof
      fix r assume "r \<in> set ?rs"
      then have "map_of ?rates (Some (br_repo r)) \<noteq> None" using rM by blast
      then show "map_of ?bs (Some (br_repo r)) \<noteq> None" unfolding map by auto
    qed
  qed
  have "requests_ok []" by (simp add: requests_ok_def)
  note serve = serve_ok [OF bs st(2) this dom]
  have res: "fst res = fst ?s" "bu_requests (snd res) = rotate1 (fst (snd ?s))"
    "bu_buckets (snd res) = drop_idle now (rotate1 (fst (snd ?s))) (snd (snd ?s))"
    by (simp_all add: res_def budget_step_def Let_def case_prod_unfold)
  have ok: "buckets_ok (bu_buckets (snd res))" unfolding res using serve by (intro buckets_ok_drop) blast
  have req: "requests_ok (bu_requests (snd res))" unfolding res using serve by (simp add: requests_ok_def)
  have t0: "t0 \<le> now" using cov t by (auto simp: covered_def)
  have covs: "covered k r t0 now (G + granted k (fst ?s)) (snd (snd ?s))"
  proof (cases "map_of ?bs k")
    case None
    then have k: "map_of ?rates k = None" "map_of (bu_buckets st) k = None"
      unfolding map by (auto split: option.splits)
    then obtain repo where k_repo: "k = Some repo" using rN by (cases k) auto
    have repo: "k = Some repo" "repo \<notin> br_repo ` set ?rs"
      using k_repo k(1) rM [of repo] by auto
    then have g0: "granted k (fst ?s) = 0"
      using serve_grants_to [of now ?rs "[]" ?bs] by (intro granted_none) auto
    have G: "G \<le> r * (now - t0)"
    proof -
      have "r * (t - t0) \<le> r * (now - t0)" using t r by (intro mult_left_mono) auto
      with covered_bound [OF cov r] show ?thesis by linarith
    qed
    show ?thesis
    proof (cases "map_of (snd (snd ?s)) k")
      case None
      then show ?thesis using G g0 t0 by (simp add: covered_def)
    next
      case (Some b)
      then have "k \<in> dom (map_of (snd (snd ?s)))" by blast
      moreover have "k \<notin> dom (map_of ?bs)" using \<open>map_of ?bs k = None\<close> by blast
      moreover note serve_dom [of now ?rs "[]" ?bs]
      ultimately show ?thesis using repo by auto
    qed
  next
    case (Some b)
    then obtain b' where b': "map_of (snd (snd ?s)) k = Some b'" "same_bucket b b' (granted k (fst ?s))"
      using serve by blast
    have "bucket_ok b'" using serve b'(1) by (auto simp: buckets_ok_def)
    have "\<exists>c x. bk_credit b = Credit c \<and> bk_rate b = Some x \<and> 0 < x \<and> x \<le> r \<and> t0 \<le> bk_updated b \<and> bk_updated b \<le> now \<and>
        G + c \<le> r * (bk_updated b - t0)"
    proof (cases "map_of ?rates k")
      case None
      then have "map_of (bu_buckets st) k = Some b" using Some unfolding map by simp
      with cov t show ?thesis by (force simp: covered_def)
    next
      case rate: (Some rate)
      have "\<exists>x. rate = Some x \<and> 0 < x \<and> x \<le> r"
      proof (cases k)
        case None
        with rN rate lim(1,3) show ?thesis by (auto simp: limited_to_def validate_limit_def split: option.splits)
      next
        case (Some repo)
        then obtain x where x: "map_of rr repo = Some (Some x)" "x \<le> r"
          using lim(3) by (auto simp: limited_to_def split: option.splits)
        moreover have "repo \<in> br_repo ` set ?rs" using rM [of repo] rate Some by blast
        ultimately have "map_of ?rates k = Some (Some x)" using rX Some by blast
        with rate rV [of k "Some x"] x show ?thesis by (auto simp: validate_limit_def)
      qed
      then obtain x where x: "rate = Some x" "0 < x" "x \<le> r" by blast
      have b: "b = refill (Some x) now (bucket_of now k (bu_buckets st))" using Some rate x unfolding map by simp
      from covered_refill [OF cov r t x(2,3)] x t0 show ?thesis
        unfolding b by (auto simp: refill_def)
    qed
    then obtain c x where c: "bk_credit b = Credit c" "bk_rate b = Some x" "0 < x" "x \<le> r" "t0 \<le> bk_updated b"
      "bk_updated b \<le> now" "G + c \<le> r * (bk_updated b - t0)" by blast
    with b' \<open>bucket_ok b'\<close> t0 show ?thesis
      by (auto simp: covered_def same_bucket_def bucket_ok_def)
  qed
  have "distinct (map fst (snd (snd ?s)))" using serve by (auto simp: buckets_ok_def)
  note drop = drop_idle_map_of [OF this, of now "rotate1 (fst (snd ?s))" k]
  have "covered k r t0 now (G + granted k (fst ?s)) (drop_idle now (rotate1 (fst (snd ?s))) (snd (snd ?s)))"
  proof (cases "map_of (drop_idle now (rotate1 (fst (snd ?s))) (snd (snd ?s))) k")
    case None
    then show ?thesis using covered_bound [OF covs r] t0 by (simp add: covered_def)
  next
    case (Some b)
    then have "map_of (snd (snd ?s)) k = Some b" unfolding drop by (auto split: option.splits if_splits)
    with covs Some show ?thesis by (simp add: covered_def)
  qed
  with ok req show ?thesis by (simp add: res(1,3))
qed

lemma budget_run_ok:
  assumes "buckets_ok (bu_buckets st)" "requests_ok (bu_requests st)" "run_ok k r t ops"
    "covered k r t0 t G (bu_buckets st)" "0 < r"
  shows "G + granted k (fst (budget_run ops (t, st))) \<le> r * (fst (snd (budget_run ops (t, st))) - t0)"
  using assms(1-4)
proof (induction ops arbitrary: t st G)
  case Nil
  then show ?case using covered_bound [OF _ assms(5)] by simp
next
  case (Cons op ops)
  show ?case
  proof (cases op)
    case (Join i repo n fb)
    have "requests_ok (bu_requests (enqueue i repo n fb st))"
      using Cons.prems(2,3) Join by (auto simp: requests_ok_def enqueue_def)
    then show ?thesis using Cons.IH [of "enqueue i repo n fb st" t G] Cons.prems Join by (simp add: enqueue_def)
  next
    case (Leave i)
    then show ?thesis using Cons.IH [of "leave i st" t G] Cons.prems by (simp add: leave_def requests_ok_def)
  next
    case (Tick now g rr)
    let ?res = "budget_step now g rr st"
    have pre: "validate_limit g" "list_all (\<lambda>(i, x). validate_limit x) rr" "limited_to k r g rr" "t \<le> now" "run_ok k r now ops"
      using Cons.prems(3) Tick by auto
    note step = budget_step_ok [OF Cons.prems(1,2) pre(1-3) Cons.prems(4) assms(5) pre(4)]
    have "G + granted k (fst ?res) + granted k (fst (budget_run ops (now, snd ?res))) \<le>
        r * (fst (snd (budget_run ops (now, snd ?res))) - t0)"
      using Cons.IH [OF _ _ pre(5)] step by blast
    then show ?thesis by (simp add: Tick Let_def case_prod_unfold add.assoc)
  qed
qed

text \<open>C6: a fresh budget never grants more than limit times elapsed time: over any sequence of joining,
  leaving and accounting steps with non-decreasing clock readings, in which the global limit (or the
  configured limit of one repository) never exceeds \<open>r\<close> bytes per second, all bytes granted by the
  whole service (or to that repository) are at most \<open>r\<close> times the time between the start and the last
  step, whatever other limits, handles and reconfigurations do.\<close>
theorem bandwidth_bound:
  assumes "0 < r" and "run_ok k r t ops"
  shows "granted k (fst (budget_run ops (t, \<lparr>bu_requests = [], bu_buckets = []\<rparr>))) \<le>
           r * (fst (snd (budget_run ops (t, \<lparr>bu_requests = [], bu_buckets = []\<rparr>))) - t)"
  using budget_run_ok [of "\<lparr>bu_requests = [], bu_buckets = []\<rparr>" k r t ops t 0] assms
  by (simp add: buckets_ok_def requests_ok_def covered_def)

lemma bandwidth_bound_witness:
  "granted None (fst (budget_run [Join 0 ''a'' 100 None, Tick 0 (Some 10) [], Tick (1/20) (Some 10) []]
     (0, \<lparr>bu_requests = [], bu_buckets = []\<rparr>))) \<le> 10 * (1/20)"
  using bandwidth_bound [of 10 None 0 "[Join 0 ''a'' 100 None, Tick 0 (Some 10) [], Tick (1/20) (Some 10) []]"]
  by (simp add: validate_limit_def limited_to_def case_prod_unfold Let_def)

end
