(* ===== verification/Slots.thy ===== *)
theory Slots
  imports Prelude
begin

text \<open>
  The resizable slot pool of \<open>operations/slots.py\<close>.  One event loop runs the tasks, so the code
  between two awaits is one step: \<open>hold_attempt\<close> is one round of the loop in \<open>_hold\<close> (admission, or
  clearing the event and waiting), \<open>hold_release\<close> its \<open>finally\<close>.  \<open>asyncio.Event.set\<close> wakes every
  waiting task, which then tests the capacity again.
\<close>

datatype kind = Check | Warm

datatype task = Trying kind | Waiting kind | Holding kind | Done kind

record slots =
  sl_size :: nat
  sl_check :: nat
  sl_warm :: nat
  sl_changed :: bool
  sl_tasks :: "task list"

fun wake :: "task \<Rightarrow> task" where
  "wake (Waiting k) = Trying k"
| "wake t = t"

definition set_changed :: "slots \<Rightarrow> slots" where
  "set_changed s = (if sl_changed s then s else s\<lparr>sl_changed := True, sl_tasks := map wake (sl_tasks s)\<rparr>)"

definition slots_resize :: "nat \<Rightarrow> slots \<Rightarrow> slots option" where
  "slots_resize n s =
     (if n < 1 then None
      else if n \<noteq> sl_size s then Some (set_changed (s\<lparr>sl_size := n\<rparr>)) else Some s)"

definition new_slots :: "nat \<Rightarrow> slots option" where
  "new_slots n = slots_resize n \<lparr>sl_size = 0, sl_check = 0, sl_warm = 0, sl_changed = False, sl_tasks = []\<rparr>"

definition active :: "slots \<Rightarrow> kind \<Rightarrow> nat" where
  "active s k = (case k of Check \<Rightarrow> sl_check s | Warm \<Rightarrow> sl_warm s)"

definition slot_limit :: "nat \<Rightarrow> kind \<Rightarrow> nat" where
  "slot_limit n k = (case k of Check \<Rightarrow> n | Warm \<Rightarrow> max 1 (n - (n + 3) div 4))"

definition available :: "slots \<Rightarrow> kind \<Rightarrow> bool" where
  "available s k \<longleftrightarrow>
     (if sl_check s + sl_warm s \<ge> max 2 (sl_size s) then False
      else active s k < slot_limit (sl_size s) k)"

definition add_active :: "kind \<Rightarrow> slots \<Rightarrow> slots" where
  "add_active k s = (case k of Check \<Rightarrow> s\<lparr>sl_check := sl_check s + 1\<rparr> | Warm \<Rightarrow> s\<lparr>sl_warm := sl_warm s + 1\<rparr>)"

definition sub_active :: "kind \<Rightarrow> slots \<Rightarrow> slots" where
  "sub_active k s = (case k of Check \<Rightarrow> s\<lparr>sl_check := sl_check s - 1\<rparr> | Warm \<Rightarrow> s\<lparr>sl_warm := sl_warm s - 1\<rparr>)"

definition set_task :: "nat \<Rightarrow> task \<Rightarrow> slots \<Rightarrow> slots" where
  "set_task i t s = s\<lparr>sl_tasks := (sl_tasks s)[i := t]\<rparr>"

definition hold_attempt :: "nat \<Rightarrow> kind \<Rightarrow> slots \<Rightarrow> slots" where
  "hold_attempt i k s =
     (if \<not> available s k then set_task i (Waiting k) (s\<lparr>sl_changed := False\<rparr>)
      else add_active k (set_task i (Holding k) s))"

definition hold_release :: "nat \<Rightarrow> kind \<Rightarrow> slots \<Rightarrow> slots" where
  "hold_release i k s = set_changed (sub_active k (set_task i (Done k) s))"

text \<open>The steps of the pool: a task arrives, makes an attempt, finishes (by success, error or
  cancellation while it holds a slot), is cancelled while it does not hold one; or the pool is resized.\<close>

datatype slot_op = Arrive kind | Attempt nat | Finish nat | Cancel nat | Resize nat

inductive slot_step :: "slot_op \<Rightarrow> slots \<Rightarrow> slots \<Rightarrow> bool" where
  arrive: "slot_step (Arrive k) s (s\<lparr>sl_tasks := sl_tasks s @ [Trying k]\<rparr>)"
| attempt: "i < length (sl_tasks s) \<Longrightarrow> sl_tasks s ! i = Trying k \<Longrightarrow> slot_step (Attempt i) s (hold_attempt i k s)"
| finish: "i < length (sl_tasks s) \<Longrightarrow> sl_tasks s ! i = Holding k \<Longrightarrow> slot_step (Finish i) s (hold_release i k s)"
| cancel: "i < length (sl_tasks s) \<Longrightarrow> sl_tasks s ! i \<in> {Trying k, Waiting k} \<Longrightarrow>
    slot_step (Cancel i) s (set_task i (Done k) s)"
| resize: "slots_resize n s = Some s' \<Longrightarrow> slot_step (Resize n) s s'"

inductive slot_run :: "nat \<Rightarrow> slot_op list \<Rightarrow> slots \<Rightarrow> bool" for n where
  start: "new_slots n = Some s \<Longrightarrow> slot_run n [] s"
| more: "slot_run n ops s \<Longrightarrow> slot_step op s s' \<Longrightarrow> slot_run n (ops @ [op]) s'"

inductive_cases slot_stepE: "slot_step op s s'"

section \<open>Invariants\<close>

lemma count_list_update:
  "i < length xs \<Longrightarrow>
   count_list (xs[i := y]) x + (if xs ! i = x then 1 else 0) = count_list xs x + (if y = x then 1 else 0)"
proof (induction xs arbitrary: i)
  case Nil
  then show ?case by simp
next
  case (Cons z zs)
  then show ?case by (cases i) (fastforce split: if_splits)+
qed

lemma count_wake [simp]: "count_list (map wake ts) (Holding k) = count_list ts (Holding k)"
proof (induction ts)
  case Nil
  then show ?case by simp
next
  case (Cons t ts)
  then show ?case by (cases t) auto
qed

lemma wake_not_waiting [simp]: "Waiting k \<notin> set (map wake ts)"
proof
  assume "Waiting k \<in> set (map wake ts)"
  then obtain t where "Waiting k = wake t" by auto
  then show False by (cases t) auto
qed

definition slots_inv :: "slots \<Rightarrow> bool" where
  "slots_inv s \<longleftrightarrow> 1 \<le> sl_size s \<and>
     (\<forall>k. count_list (sl_tasks s) (Holding k) = active s k) \<and>
     (\<forall>k. Waiting k \<in> set (sl_tasks s) \<longrightarrow> \<not> sl_changed s \<and> \<not> available s k)"

lemma available_cong:
  "sl_size s = sl_size s' \<Longrightarrow> sl_check s = sl_check s' \<Longrightarrow> sl_warm s = sl_warm s' \<Longrightarrow> available s k = available s' k"
  by (cases k) (simp_all add: available_def active_def)

lemma active_set_task [simp]: "active (set_task i t s) k = active s k"
  by (cases k) (simp_all add: active_def set_task_def)

lemma changed_update [simp]: "active (s\<lparr>sl_changed := b\<rparr>) k = active s k" "available (s\<lparr>sl_changed := b\<rparr>) k = available s k"
  by (cases k; simp add: active_def available_def)+

lemma active_add: "active (add_active k s) k' = active s k' + (if k = k' then 1 else 0)"
  by (cases k; cases k') (simp_all add: active_def add_active_def)

lemma active_sub: "active (sub_active k s) k' = active s k' - (if k = k' then 1 else 0)"
  by (cases k; cases k') (simp_all add: active_def sub_active_def)

lemma tasks_add [simp]: "sl_tasks (add_active k s) = sl_tasks s" "sl_size (add_active k s) = sl_size s"
    "sl_changed (add_active k s) = sl_changed s"
  by (cases k; simp add: add_active_def)+

lemma tasks_sub [simp]: "sl_tasks (sub_active k s) = sl_tasks s" "sl_size (sub_active k s) = sl_size s"
    "sl_changed (sub_active k s) = sl_changed s"
  by (cases k; simp add: sub_active_def)+

lemma tasks_set [simp]: "sl_tasks (set_task i t s) = (sl_tasks s)[i := t]" "sl_size (set_task i t s) = sl_size s"
    "sl_changed (set_task i t s) = sl_changed s" "sl_check (set_task i t s) = sl_check s" "sl_warm (set_task i t s) = sl_warm s"
  by (simp_all add: set_task_def)

lemma available_set_task [simp]: "available (set_task i t s) k = available s k"
  by (rule available_cong) simp_all

text \<open>Setting the event restores the waiting part of the invariant whatever the capacity now is.\<close>

lemma set_changed_parts [simp]:
  "sl_size (set_changed s) = sl_size s" "active (set_changed s) k = active s k"
  "sl_check (set_changed s) = sl_check s" "sl_warm (set_changed s) = sl_warm s"
  "count_list (sl_tasks (set_changed s)) (Holding k) = count_list (sl_tasks s) (Holding k)"
  by (cases k; simp add: set_changed_def active_def)+

lemma set_changed_inv:
  assumes "1 \<le> sl_size s" "\<And>k. count_list (sl_tasks s) (Holding k) = active s k"
    and "\<And>k. sl_changed s \<Longrightarrow> Waiting k \<notin> set (sl_tasks s)"
  shows "slots_inv (set_changed s)"
proof -
  have "Waiting k \<notin> set (sl_tasks (set_changed s))" for k
    using assms(3) by (cases "sl_changed s") (simp_all add: set_changed_def del: set_map)
  then show ?thesis using assms(1,2) by (simp add: slots_inv_def)
qed

lemma available_add_mono: "available (add_active k s) k' \<Longrightarrow> available s k'"
  by (cases k; cases k') (auto simp: available_def active_def add_active_def split: if_splits)

lemma waiting_update: "Waiting k \<in> set (ts[i := t]) \<Longrightarrow> t = Waiting k \<or> Waiting k \<in> set ts"
  using set_update_subset_insert by fast

lemma slots_inv_step:
  assumes "slot_step op s s'" and inv: "slots_inv s"
  shows "slots_inv s'"
  using assms(1)
proof cases
  case (arrive k)
  have "available s' k' = available s k'" for k' by (rule available_cong) (simp_all add: arrive)
  moreover have "active s' k' = active s k'" for k' by (cases k') (simp_all add: arrive active_def)
  ultimately show ?thesis using inv by (simp add: slots_inv_def arrive)
next
  case (attempt i k)
  show ?thesis
  proof (cases "available s k")
    case True
    then have s': "s' = add_active k (set_task i (Holding k) s)" using attempt by (simp add: hold_attempt_def)
    have "count_list (sl_tasks s') (Holding k') = active s' k'" for k'
      using count_list_update [of i "sl_tasks s" "Holding k" "Holding k'"] attempt(3,4) inv
      by (auto simp: s' active_add slots_inv_def split: if_splits)
    moreover have "\<not> sl_changed s \<and> \<not> available s' k'" if "Waiting k' \<in> set (sl_tasks s')" for k'
      using that inv available_add_mono [of k "set_task i (Holding k) s" k'] waiting_update
      by (fastforce simp: s' slots_inv_def)
    ultimately show ?thesis using inv s' by (simp add: slots_inv_def)
  next
    case False
    then have s': "s' = set_task i (Waiting k) (s\<lparr>sl_changed := False\<rparr>)" using attempt by (simp add: hold_attempt_def)
    have av: "available s' k' = available s k'" "active s' k' = active s k'" for k'
      by (simp_all add: s')
    have "count_list (sl_tasks s') (Holding k') = active s' k'" for k'
      using count_list_update [of i "sl_tasks s" "Waiting k" "Holding k'"] attempt(3,4) inv
      by (auto simp: s' av slots_inv_def split: if_splits)
    moreover have "\<not> available s' k'" if "Waiting k' \<in> set (sl_tasks s')" for k'
      using that inv False waiting_update [of k' "sl_tasks s" i "Waiting k"] by (auto simp: av s' slots_inv_def)
    ultimately show ?thesis using inv s' by (simp add: slots_inv_def)
  qed
next
  case (finish i k)
  let ?t = "sub_active k (set_task i (Done k) s)"
  have "count_list (sl_tasks ?t) (Holding k') = active ?t k'" for k'
    using count_list_update [of i "sl_tasks s" "Done k" "Holding k'"] finish(3,4) inv
    by (auto simp: active_sub slots_inv_def split: if_splits)
  moreover have "Waiting k' \<notin> set (sl_tasks ?t)" if "sl_changed ?t" for k'
    using that inv waiting_update [of k' "sl_tasks s" i "Done k"] by (auto simp: slots_inv_def)
  ultimately have "slots_inv (set_changed ?t)" using inv by (intro set_changed_inv) (auto simp: slots_inv_def)
  then show ?thesis by (simp add: finish hold_release_def)
next
  case (cancel i k)
  have "count_list (sl_tasks s') (Holding k') = active s' k'" for k'
    using count_list_update [of i "sl_tasks s" "Done k" "Holding k'"] cancel(2-4) inv
    by (auto simp: slots_inv_def split: if_splits)
  then show ?thesis
    using inv waiting_update [of _ "sl_tasks s" i "Done k"] by (auto simp: cancel(2) slots_inv_def)
next
  case (resize n)
  show ?thesis
  proof (cases "n = sl_size s")
    case True
    then show ?thesis using resize inv by (simp add: slots_resize_def split: if_splits)
  next
    case False
    then have n: "1 \<le> n" and s': "s' = set_changed (s\<lparr>sl_size := n\<rparr>)"
      using resize by (auto simp: slots_resize_def split: if_splits)
    have "active (s\<lparr>sl_size := n\<rparr>) k = active s k" for k by (cases k) (simp_all add: active_def)
    then have "slots_inv (set_changed (s\<lparr>sl_size := n\<rparr>))"
      using inv n by (intro set_changed_inv) (auto simp: slots_inv_def)
    then show ?thesis by (simp add: s')
  qed
qed

lemma new_slots_inv: "new_slots n = Some s \<Longrightarrow> slots_inv s \<and> sl_size s = n \<and> sl_check s = 0 \<and> sl_warm s = 0"
  by (auto simp: new_slots_def slots_resize_def set_changed_def slots_inv_def active_def split: if_splits kind.split)

lemma slots_inv_run: "slot_run n ops s \<Longrightarrow> slots_inv s"
  by (induction rule: slot_run.induct) (auto intro: slots_inv_step dest: new_slots_inv)

section \<open>Properties\<close>

text \<open>C8: no wakeup is lost.  A task only waits while its kind really has no capacity, so some other
  task holds a slot and will set the event when it finishes; and the counters are exactly the
  numbers of holders.\<close>
theorem no_lost_wakeup:
  assumes "slot_run n ops s"
  shows "sl_check s = count_list (sl_tasks s) (Holding Check) \<and> sl_warm s = count_list (sl_tasks s) (Holding Warm) \<and>
         (\<forall>k. Waiting k \<in> set (sl_tasks s) \<longrightarrow>
            \<not> sl_changed s \<and> \<not> available s k \<and> (\<exists>k'. Holding k' \<in> set (sl_tasks s)))"
proof -
  note inv = slots_inv_run [OF assms, unfolded slots_inv_def]
  have counts: "count_list (sl_tasks s) (Holding Check) = sl_check s" "count_list (sl_tasks s) (Holding Warm) = sl_warm s"
    using inv by (simp_all add: active_def)
  have "\<exists>k'. Holding k' \<in> set (sl_tasks s)" if "Waiting k \<in> set (sl_tasks s)" for k
  proof -
    have "\<not> available s k" using inv that by blast
    then have "sl_check s + sl_warm s \<noteq> 0"
      using inv by (cases k) (auto simp: available_def active_def slot_limit_def split: if_splits)
    then have "count_list (sl_tasks s) (Holding Check) \<noteq> 0 \<or> count_list (sl_tasks s) (Holding Warm) \<noteq> 0"
      using counts by simp
    then show ?thesis using count_notin by metis
  qed
  then show ?thesis using inv counts by simp
qed

text \<open>While the size stays at \<open>n\<close>, every run keeps the three limits.\<close>

definition limits :: "nat \<Rightarrow> slots \<Rightarrow> bool" where
  "limits n s \<longleftrightarrow> sl_size s = n \<and> sl_check s + sl_warm s \<le> max 2 n \<and> sl_check s \<le> n \<and> sl_warm s \<le> max 1 (n - (n + 3) div 4)"

lemma limits_step:
  assumes "slot_step op s s'" "limits n s" "\<And>m. op \<noteq> Resize m"
  shows "limits n s'"
  using assms(1)
proof cases
  case (attempt i k)
  then show ?thesis using assms(2)
    by (cases k) (auto simp: limits_def hold_attempt_def available_def active_def add_active_def slot_limit_def split: if_splits)
next
  case (finish i k)
  then show ?thesis using assms(2) by (cases k) (auto simp: limits_def hold_release_def sub_active_def)
qed (use assms in \<open>auto simp: limits_def\<close>)

lemma limits_run: "slot_run n ops s \<Longrightarrow> \<forall>m. Resize m \<notin> set ops \<Longrightarrow> limits n s"
proof (induction rule: slot_run.induct)
  case (start s)
  then show ?case by (auto simp: limits_def dest: new_slots_inv)
next
  case (more ops s op s')
  then show ?case by (intro limits_step [OF more.hyps(2)]) auto
qed

text \<open>In a pool of size \<open>n\<close> that is not resized, at most \<open>max 2 n\<close> operations run at once, and warming
  can never keep index checks out: as long as no check runs, a check is admitted at once.\<close>
theorem checks_never_starved:
  assumes "slot_run n ops s" and "\<forall>m. Resize m \<notin> set ops"
  shows "sl_check s + sl_warm s \<le> max 2 n \<and> sl_check s \<le> n \<and> (sl_check s = 0 \<longrightarrow> available s Check) \<and>
         (2 \<le> n \<longrightarrow> sl_warm s + 1 \<le> n)"
proof -
  have l: "limits n s" using limits_run assms by blast
  have n: "1 \<le> n" using slots_inv_run [OF assms(1)] l by (simp add: slots_inv_def limits_def)
  have "n - (n + 3) div 4 < n" using n by simp
  then show ?thesis using l n by (auto simp: limits_def available_def active_def slot_limit_def)
qed

definition sample_ops :: "slot_op list" where
  "sample_ops = [Arrive Warm, Arrive Warm, Attempt 0, Attempt 1]"

definition sample_slots :: slots where
  "sample_slots = \<lparr>sl_size = 2, sl_check = 0, sl_warm = 1, sl_changed = False, sl_tasks = [Holding Warm, Waiting Warm]\<rparr>"

lemma sample_run: "slot_run 2 sample_ops sample_slots"
proof -
  let ?s = "\<lambda>w c ts. \<lparr>sl_size = 2, sl_check = 0, sl_warm = w, sl_changed = c, sl_tasks = ts\<rparr>"
  have "slot_run 2 [] (?s 0 True [])"
    by (rule slot_run.start) (simp add: new_slots_def slots_resize_def set_changed_def)
  from slot_run.more [OF this slot_step.arrive [of Warm]]
  have "slot_run 2 [Arrive Warm] (?s 0 True [Trying Warm])" by simp
  from slot_run.more [OF this slot_step.arrive [of Warm]]
  have "slot_run 2 [Arrive Warm, Arrive Warm] (?s 0 True [Trying Warm, Trying Warm])" by simp
  from slot_run.more [OF this slot_step.attempt [of 0 _ Warm]]
  have "slot_run 2 [Arrive Warm, Arrive Warm, Attempt 0] (?s 1 True [Holding Warm, Trying Warm])"
    by (simp add: hold_attempt_def available_def active_def slot_limit_def add_active_def set_task_def)
  from slot_run.more [OF this slot_step.attempt [of 1 _ Warm]] show ?thesis
    by (simp add: hold_attempt_def available_def active_def slot_limit_def add_active_def set_task_def
        sample_ops_def sample_slots_def)
qed

lemma no_lost_wakeup_witness:
  "slot_run 2 sample_ops sample_slots \<and> Waiting Warm \<in> set (sl_tasks sample_slots) \<and> \<not> available sample_slots Warm"
proof -
  have "Waiting Warm \<in> set (sl_tasks sample_slots)" by (simp add: sample_slots_def)
  then show ?thesis using no_lost_wakeup [OF sample_run] sample_run by blast
qed

lemma checks_never_starved_witness: "slot_run 2 sample_ops sample_slots \<and> available sample_slots Check"
proof -
  have "\<forall>m. Resize m \<notin> set sample_ops" by (simp add: sample_ops_def)
  from checks_never_starved [OF sample_run this] show ?thesis using sample_run by (simp add: sample_slots_def)
qed

end
