(* ===== verification/Config_Types.thy ===== *)
theory Config_Types
  imports Bandwidth
begin

text \<open>
  The configuration values of \<open>config/models.py\<close>.  A URL field holds the parts \<open>urlsplit\<close> yields
  (\<open>None\<close> where it raises); every field has its declared type, so the run-time type tests of the
  code have no counterpart.
\<close>

record url =
  u_scheme :: str
  u_netloc :: str
  u_host :: "str option"
  u_user :: "str option"
  u_password :: "str option"
  u_port_ok :: bool
  u_path :: str
  u_query :: str
  u_fragment :: str

record repo_config =
  rp_id :: str
  rp_type :: str
  rp_upstream :: "url option"
  rp_arch :: str
  rp_prefetch :: bool
  rp_repo_name :: "str option"
  rp_distribution :: "str option"
  rp_component :: "str option"
  rp_verify :: bool
  rp_apk_backend :: str
  rp_apk_keys :: "str option"
  rp_keyring :: "str option"
  rp_interval :: "int option"
  rp_bandwidth :: "rat option"
  rp_group :: "str option"
  rp_template :: "str option"
  rp_variables :: "(str \<times> str) list"
  rp_nix_source :: "url option"
  rp_nix_attributes :: "str list"
  rp_nix_keys :: "str list"
  rp_nix_timeout :: int
  rp_nix_max_paths :: int
  rp_whitelist :: "str list"
  rp_blacklist :: "str list"

record syslog_config =
  sy_enabled :: bool
  sy_bind :: str
  sy_port :: int

record nginx_config =
  ng_enabled :: bool
  ng_listen :: str
  ng_server_name :: str
  ng_resolvers :: "str list"
  ng_cache_max_size :: str
  ng_key_version :: str
  ng_index_ttl :: int
  ng_package_ttl :: int
  ng_cache_dir :: "str option"
  ng_enable_purge :: bool
  ng_enable_dedup :: bool
  ng_enable_probe :: bool

record config =
  cf_interval :: int
  cf_base_url :: str
  cf_repos :: "repo_config list"
  cf_event_days :: int
  cf_request_days :: int
  cf_warmed_days :: int
  cf_event_rows :: "int option"
  cf_request_rows :: "int option"
  cf_syslog :: syslog_config
  cf_nginx :: nginx_config
  cf_prefetch_concurrency :: int
  cf_check_concurrency :: int
  cf_public_url :: "str option"
  cf_webhook_url :: "str option"
  cf_notify_after :: int
  cf_notify_events :: "str list"
  cf_bandwidth :: "rat option"
  cf_timezone :: str
  cf_schedule :: "window list"
  cf_key_warning_days :: int

datatype config_error = Config_error str

definition find_repo :: "config \<Rightarrow> str \<Rightarrow> repo_config option" where
  "find_repo c i = find (\<lambda>r. rp_id r = i) (cf_repos c)"

definition browse_base_url :: "config \<Rightarrow> str" where
  "browse_base_url c = (if truthy (cf_public_url c) then the (cf_public_url c) else cf_base_url c)"

definition effective_check_interval :: "config \<Rightarrow> repo_config \<Rightarrow> int" where
  "effective_check_interval c r = (case rp_interval r of None \<Rightarrow> cf_interval c | Some i \<Rightarrow> i)"

text \<open>What binds HTTP validators and demand to a source: \<open>digest\<close> is the SHA-256 of the JSON text of these
  fields, in which the keys of every object are sorted.\<close>

type_synonym identity_fields =
  "(str \<times> url option \<times> str \<times> str option \<times> str option \<times> str option) \<times>
   (str option \<times> (str \<times> str) list \<times> url option \<times> str list)"

definition catalog_fields :: "repo_config \<Rightarrow> identity_fields" where
  "catalog_fields r =
     ((rp_type r, rp_upstream r, rp_arch r, rp_repo_name r, rp_distribution r, rp_component r),
      (rp_template r, sort_key fst (rp_variables r), rp_nix_source r, rp_nix_attributes r))"

definition catalog_identity :: "(identity_fields \<Rightarrow> str) \<Rightarrow> repo_config \<Rightarrow> str" where
  "catalog_identity digest r = digest (catalog_fields r)"

end
