(* ===== verification/Url_Templates.thy ===== *)
theory Url_Templates
  imports Config_Types
begin

text \<open>
  \<open>url_templates.py\<close>: expansion of a repository's local path template.  A replacement field runs to
  the next closing brace; of the fields \<open>string.Formatter\<close> accepts, only a plain name (or a name
  with an empty format) can name a value, and everything else is refused.
\<close>

definition segment_char :: "char \<Rightarrow> bool" where
  "segment_char c \<longleftrightarrow> ascii_alnum c \<or> c \<in> set ''_+~.-''"

definition path_char :: "char \<Rightarrow> bool" where
  "path_char c \<longleftrightarrow> segment_char c \<or> c = CHR ''/''"

definition safe_segment :: "str \<Rightarrow> bool" where
  "safe_segment v \<longleftrightarrow> all_in segment_char v \<and> v \<noteq> ''.'' \<and> v \<noteq> ''..''"

definition template_fields :: "str list" where
  "template_fields = [''id'', ''type'', ''repo_name'', ''arch'', ''distribution'', ''component'']"

definition standard_values :: "repo_config \<Rightarrow> (str \<times> str option) list" where
  "standard_values r = [(''id'', Some (rp_id r)), (''type'', Some (rp_type r)), (''repo_name'', rp_repo_name r),
     (''arch'', Some (rp_arch r)), (''distribution'', rp_distribution r), (''component'', rp_component r)]"

definition variable_name :: "str \<Rightarrow> bool" where
  "variable_name n \<longleftrightarrow> (case n of [] \<Rightarrow> False
     | c # cs \<Rightarrow> ascii_lower c \<and> list_all (\<lambda>c. ascii_lower c \<or> ascii_digit c \<or> c = CHR ''_'') cs)"

definition variables_error :: "(str \<times> str) list \<Rightarrow> config_error option" where
  "variables_error vs =
     (if list_ex (\<lambda>(n, v). \<not> variable_name n \<or> n \<in> set template_fields) vs
      then Some (Config_error ''url_variables: name'')
      else if list_ex (\<lambda>(n, v). \<not> safe_segment v) vs then Some (Config_error ''url_variables: value'')
      else None)"

definition template_values :: "repo_config \<Rightarrow> str \<Rightarrow> str option option" where
  "template_values r n =
     (case map_of (rp_variables r) n of Some v \<Rightarrow> Some (Some v) | None \<Rightarrow> map_of (standard_values r) n)"

definition field_value :: "(str \<Rightarrow> str option option) \<Rightarrow> str \<Rightarrow> config_error + str" where
  "field_value values field =
     (let name = (if field \<noteq> [] \<and> last field = CHR '':'' then butlast field else field) in
      case values name of
        None \<Rightarrow> Inl (Config_error ''url_template: unknown variable'')
      | Some None \<Rightarrow> Inl (Config_error ''url_template: missing field'')
      | Some (Some v) \<Rightarrow> if safe_segment v then Inr v else Inl (Config_error ''url_template: invalid segment''))"

fun expand_parts :: "(str \<Rightarrow> str option option) \<Rightarrow> str option \<Rightarrow> str \<Rightarrow> config_error + str" where
  "expand_parts values None [] = Inr []"
| "expand_parts values (Some f) [] = Inl (Config_error ''url_template: braces'')"
| "expand_parts values (Some f) (c # s) =
     (if c = CHR ''}''
      then (case field_value values f of
              Inl e \<Rightarrow> Inl e | Inr v \<Rightarrow> map_sum id ((@) v) (expand_parts values None s))
      else expand_parts values (Some (f @ [c])) s)"
| "expand_parts values None [c] =
     (if c = CHR ''{'' \<or> c = CHR ''}'' then Inl (Config_error ''url_template: braces'') else Inr [c])"
| "expand_parts values None (c # d # s) =
     (if c = CHR ''{'' then (if d = CHR ''{'' then map_sum id ((#) c) (expand_parts values None s)
                             else expand_parts values (Some []) (d # s))
      else if c = CHR ''}'' then (if d = CHR ''}'' then map_sum id ((#) c) (expand_parts values None s)
                                  else Inl (Config_error ''url_template: braces''))
      else map_sum id ((#) c) (expand_parts values None (d # s)))"

definition safe_path :: "str \<Rightarrow> bool" where
  "safe_path p \<longleftrightarrow> length p \<ge> 2 \<and> hd p = CHR ''/'' \<and> list_all path_char p \<and> \<not> contains ''//'' p \<and>
     ''.'' \<notin> set (split_on (CHR ''/'') p) \<and> ''..'' \<notin> set (split_on (CHR ''/'') p)"

definition expand :: "repo_config \<Rightarrow> config_error + str option" where
  "expand r =
     (case variables_error (rp_variables r) of
        Some e \<Rightarrow> Inl e
      | None \<Rightarrow>
        (case rp_template r of
           None \<Rightarrow> if rp_variables r \<noteq> [] then Inl (Config_error ''url_variables requires url_template'') else Inr None
         | Some t \<Rightarrow>
             if t = [] \<or> length t > 1024 then Inl (Config_error ''url_template: length'')
             else (case expand_parts (template_values r) None t of
                     Inl e \<Rightarrow> Inl e
                   | Inr parts \<Rightarrow> (let path = rstrip_char (CHR ''/'') parts in
                       if safe_path path then Inr (Some path) else Inl (Config_error ''url_template: path'')))))"

section \<open>Paths and their segments\<close>

lemma contains_iff: "contains p s \<longleftrightarrow> (\<exists>a b. s = a @ p @ b)"
proof (induction s)
  case Nil
  then show ?case by auto
next
  case (Cons c s)
  show ?case
  proof
    assume "contains p (c # s)"
    then consider "starts_with p (c # s)" | "contains p s" by auto
    then show "\<exists>a b. c # s = a @ p @ b"
    proof cases
      case 1
      then obtain t where "c # s = p @ t" by (auto simp: starts_with_iff)
      then have "c # s = [] @ p @ t" by simp
      then show ?thesis by blast
    next
      case 2
      then obtain a b where "s = a @ p @ b" using Cons.IH by blast
      then have "c # s = (c # a) @ p @ b" by simp
      then show ?thesis by blast
    qed
  next
    assume "\<exists>a b. c # s = a @ p @ b"
    then obtain a b where ab: "c # s = a @ p @ b" by blast
    show "contains p (c # s)"
    proof (cases a)
      case Nil
      with ab have "starts_with p (c # s)" by simp
      then show ?thesis by simp
    next
      case (Cons x xs)
      with ab have "s = xs @ p @ b" by simp
      then show ?thesis using Cons.IH by auto
    qed
  qed
qed

lemma join_append:
  "xs \<noteq> [] \<Longrightarrow> ys \<noteq> [] \<Longrightarrow> join sep (xs @ ys) = join sep xs @ sep @ join sep ys"
proof (induction xs)
  case Nil
  then show ?case by simp
next
  case (Cons x xs)
  show ?case
  proof (cases xs)
    case Nil
    with Cons.prems(2) show ?thesis by (cases ys) auto
  next
    case (Cons y zs)
    with Cons.IH Cons.prems(2) show ?thesis by simp
  qed
qed

lemma empty_segment:
  assumes "[] \<in> set (split_on c s)"
  shows "s = [] \<or> (\<exists>t. s = c # t) \<or> (\<exists>t. s = t @ [c]) \<or> contains [c, c] s"
proof -
  obtain a b where split: "split_on c s = a @ [] # b" using assms by (meson split_list)
  have s: "s = join [c] (a @ [] # b)" using split_on_join [of c s] split by simp
  show ?thesis
  proof (cases "a = []"; cases "b = []")
    assume "a = []" "b = []"
    then show ?thesis using s by simp
  next
    assume "a = []" "b \<noteq> []"
    then have "s = c # join [c] b" using s by (cases b) auto
    then show ?thesis by blast
  next
    assume "a \<noteq> []" "b = []"
    then have "s = join [c] a @ [c]" using s join_append [of a "[[]]" "[c]"] by simp
    then show ?thesis by blast
  next
    assume ab: "a \<noteq> []" "b \<noteq> []"
    then have "s = join [c] a @ [c] @ join [c] ([] # b)" using s join_append [of a "[] # b" "[c]"] by simp
    also have "join [c] ([] # b) = c # join [c] b" using ab by (cases b) auto
    finally have "s = join [c] a @ [c, c] @ join [c] b" by simp
    then show ?thesis unfolding contains_iff by blast
  qed
qed

lemma rstrip_char_last: "rstrip_char c s \<noteq> t @ [c]"
proof
  assume "rstrip_char c s = t @ [c]"
  then have "rev (rev (dropWhile (\<lambda>x. x = c) (rev s))) = rev (t @ [c])" by (simp add: rstrip_char_def)
  then have eq: "dropWhile (\<lambda>x. x = c) (rev s) = c # rev t" by simp
  then have "hd (dropWhile (\<lambda>x. x = c) (rev s)) \<noteq> c" using hd_dropWhile [of "\<lambda>x. x = c" "rev s"] by simp
  with eq show False by simp
qed

lemma split_on_chars: "w \<in> set (split_on c s) \<Longrightarrow> list_all P s \<Longrightarrow> list_all P w"
  using set_split_on [of w c s] by (auto simp: list_all_iff)

section \<open>Properties\<close>

text \<open>An accepted path template can only produce an absolute path of safe segments: a slash followed
  by one or more non-empty segments joined by single slashes, each made of letters, digits and
  \<open>_+~.-\<close> only and none of them \<open>.\<close> or \<open>..\<close>; so no variable can add a segment, climb out of the
  prefix or reach nginx syntax.\<close>
theorem expand_safe:
  assumes "expand r = Inr (Some path)"
  shows "\<exists>segments. segments \<noteq> [] \<and> path = CHR ''/'' # join ''/'' segments \<and> list_all safe_segment segments"
proof -
  obtain parts where path: "path = rstrip_char (CHR ''/'') parts" and safe: "safe_path path"
    using assms by (auto simp: expand_def Let_def split: option.splits sum.splits if_splits)
  obtain t where t: "path = CHR ''/'' # t" "t \<noteq> []"
    using safe by (cases path; cases "tl path") (auto simp: safe_path_def)
  let ?segs = "split_on (CHR ''/'') t"
  have sub: "set ?segs \<subseteq> set (split_on (CHR ''/'') path)" using t by auto
  have no_slash: "\<not> contains ''//'' path" using safe by (simp add: safe_path_def)
  have "[] \<notin> set ?segs"
  proof
    assume "[] \<in> set ?segs"
    then consider u where "t = CHR ''/'' # u" | u where "t = u @ ''/''" | "contains ''//'' t"
      using empty_segment [of "CHR ''/''" t] t by blast
    then show False
    proof cases
      case 1
      then have "path = [] @ ''//'' @ u" using t by simp
      then show ?thesis using no_slash unfolding contains_iff by blast
    next
      case 2
      then have "path = (CHR ''/'' # u) @ ''/''" using t by simp
      then show ?thesis using path rstrip_char_last by metis
    next
      case 3
      then show ?thesis using no_slash t by simp
    qed
  qed
  moreover have "list_all segment_char w" if "w \<in> set ?segs" for w
  proof -
    have "list_all path_char t" using safe t by (simp add: safe_path_def)
    then have "list_all path_char w" by (rule split_on_chars [OF that])
    moreover have "CHR ''/'' \<notin> set w" by (rule split_on_no_sep [OF that])
    ultimately show ?thesis by (auto simp: list_all_iff path_char_def)
  qed
  moreover have "''.'' \<notin> set ?segs" "''..'' \<notin> set ?segs" using safe sub by (auto simp: safe_path_def)
  ultimately have "list_all safe_segment ?segs"
    unfolding list_all_iff by (auto simp: safe_segment_def all_in_def list_all_iff)
  moreover have "path = CHR ''/'' # join ''/'' ?segs" using t by (simp add: split_on_join)
  ultimately show ?thesis by (intro exI [of _ ?segs]) simp
qed

definition sample_repo :: repo_config where
  "sample_repo = \<lparr>rp_id = ''core'', rp_type = ''pacman'', rp_upstream = None, rp_arch = ''x86_64'', rp_prefetch = True,
     rp_repo_name = Some ''core'', rp_distribution = None, rp_component = None, rp_verify = False,
     rp_apk_backend = ''openssl'', rp_apk_keys = None, rp_keyring = None, rp_interval = None, rp_bandwidth = None,
     rp_group = None, rp_template = Some ''/m/{id}/'', rp_variables = [], rp_nix_source = None, rp_nix_attributes = [],
     rp_nix_keys = [], rp_nix_timeout = 600, rp_nix_max_paths = 500000, rp_whitelist = [], rp_blacklist = []\<rparr>"

lemma expand_safe_witness:
  "expand sample_repo = Inr (Some ''/m/core'') \<and>
   (\<exists>segments. segments \<noteq> [] \<and> ''/m/core'' = CHR ''/'' # join ''/'' segments \<and> list_all safe_segment segments)"
proof -
  have "expand sample_repo = Inr (Some ''/m/core'')" by code_simp
  with expand_safe [OF this] show ?thesis by blast
qed

end
