(* ===== verification/Config.thy ===== *)
theory Config
  imports Url_Templates
begin

text \<open>
  The validation in \<open>config/models.py\<close>, in the order of the code: the first violated rule is the
  error.  Configuration objects only exist once their validation passed.
\<close>

definition is_false :: "str \<Rightarrow> config_error option" where
  "is_false msg = Some (Config_error msg)"

text \<open>Rules are checked in turn until one fails.\<close>

fun first_error :: "(bool \<times> str) list \<Rightarrow> config_error option" where
  "first_error [] = None"
| "first_error ((bad, msg) # rules) = (if bad then is_false msg else first_error rules)"

lemma first_error_None: "first_error rules = None \<longleftrightarrow> list_all (\<lambda>(bad, msg). \<not> bad) rules"
  by (induction rules rule: first_error.induct) (auto simp: is_false_def)

definition integer_in :: "int \<Rightarrow> int \<Rightarrow> int \<Rightarrow> bool" where
  "integer_in minimum maximum value \<longleftrightarrow> minimum \<le> value \<and> value \<le> maximum"

definition max_integer :: int where
  "max_integer = 2 ^ 31 - 1"

section \<open>Patterns\<close>

definition valid_patterns :: "str list \<Rightarrow> bool" where
  "valid_patterns ps \<longleftrightarrow> length ps \<le> 128 \<and>
     list_all (\<lambda>p. p \<noteq> [] \<and> length p \<le> 256 \<and> p = strip p \<and> list_all (\<lambda>c. \<not> (code c < 32 \<or> code c = 127)) p) ps"

section \<open>Repositories\<close>

definition repo_types :: "str list" where
  "repo_types = [''pacman'', ''apt'', ''apk'', ''dnf'', ''apt-rpm'', ''xbps'', ''nix'', ''gentoo'', ''slackware'']"

definition word_char :: "char \<Rightarrow> bool" where
  "word_char c \<longleftrightarrow> ascii_alnum c \<or> c = CHR ''_''"

definition nix_system :: "str \<Rightarrow> bool" where
  "nix_system a \<longleftrightarrow> list_ex (\<lambda>os. ends_with os a \<and> all_in word_char (take (length a - length os) a)) [''-linux'', ''-darwin'']"

definition nix_attribute :: "str \<Rightarrow> bool" where
  "nix_attribute a \<longleftrightarrow> list_all (\<lambda>p. case p of [] \<Rightarrow> False
      | c # cs \<Rightarrow> (word_char c \<and> \<not> ascii_digit c) \<and> list_all (\<lambda>c. word_char c \<or> c \<in> set ''+-'') cs) (split_on CHR ''.'' a)"

definition nix_key :: "str \<Rightarrow> bool" where
  "nix_key k \<longleftrightarrow> (case split_on CHR '':'' k of
     [name, body] \<Rightarrow> all_in (\<lambda>c. word_char c \<or> c \<in> set ''.-'') name \<and> length body = 44 \<and>
       list_all (\<lambda>c. ascii_alnum c \<or> c \<in> set ''+/'') (take 43 body) \<and> last body = CHR ''=''
   | _ \<Rightarrow> False)"

definition plain_source :: "url \<Rightarrow> bool" where
  "plain_source u \<longleftrightarrow> u_scheme u \<in> set [''http'', ''https''] \<and> truthy (u_host u) \<and> \<not> truthy (u_user u) \<and>
     \<not> truthy (u_password u) \<and> u_fragment u = []"

definition component_name :: "str \<Rightarrow> bool" where
  "component_name s \<longleftrightarrow> all_in (\<lambda>c. word_char c \<or> c = CHR ''-'') s"

definition basic_rules :: "repo_config \<Rightarrow> (bool \<times> str) list" where
  "basic_rules r =
     [(case rp_interval r of None \<Rightarrow> False | Some i \<Rightarrow> \<not> integer_in 1 max_integer i, ''check_interval''),
      (\<not> valid_patterns (rp_whitelist r), ''prefetch_whitelist''),
      (\<not> valid_patterns (rp_blacklist r), ''prefetch_blacklist''),
      (\<not> validate_limit (rp_bandwidth r), ''prefetch_bandwidth_limit'')]"

definition nix_rules :: "repo_config \<Rightarrow> (bool \<times> str) list" where
  "nix_rules r =
     (if rp_type r = ''nix'' then
        [(case rp_nix_source r of None \<Rightarrow> True | Some u \<Rightarrow> \<not> plain_source u, ''nix_source''),
         (\<not> nix_system (rp_arch r), ''Nix arch''),
         (\<not> list_all nix_attribute (rp_nix_attributes r), ''nix_attributes''),
         (\<not> list_all nix_key (rp_nix_keys r), ''nix_public_keys''),
         (rp_nix_timeout r < 1, ''nix_timeout''), (rp_nix_max_paths r < 1, ''nix_max_paths'')] else [])"

definition type_rules :: "repo_config \<Rightarrow> (bool \<times> str) list" where
  "type_rules r =
     [(rp_type r = ''pacman'' \<and> \<not> truthy (rp_repo_name r), ''repo_name''),
      (rp_type r = ''apt'' \<and> \<not> (truthy (rp_distribution r) \<and> truthy (rp_component r)), ''distribution and component''),
      (rp_type r = ''apt-rpm'' \<and> (case rp_component r of None \<Rightarrow> True | Some c \<Rightarrow> \<not> component_name c), ''apt-rpm component''),
      (rp_type r = ''apt-rpm'' \<and> \<not> component_name (rp_arch r), ''apt-rpm arch''),
      (rp_type r = ''slackware'' \<and> rp_component r \<notin> set [None, Some ''patches'', Some ''extra'', Some ''pasture'', Some ''testing''],
       ''slackware component''),
      (rp_type r = ''gentoo'' \<and> rp_verify r, ''verify_signature gentoo''),
      (rp_apk_backend r \<notin> set [''openssl'', ''apk-tools''], ''apk_signature_backend''),
      (case rp_apk_keys r of None \<Rightarrow> False | Some k \<Rightarrow> strip k = [], ''apk_keys_dir'')]"

definition trust_rules :: "repo_config \<Rightarrow> (bool \<times> str) list" where
  "trust_rules r =
     (if rp_verify r then
        (if rp_type r = ''nix'' then [(rp_nix_keys r = [], ''requires nix_public_keys'')]
         else if rp_type r = ''apk'' then [(\<not> truthy (rp_apk_keys r), ''requires apk_keys_dir'')]
         else if rp_type r = ''xbps'' then [(True, ''verify_signature xbps'')]
         else [(\<not> truthy (rp_keyring r), ''requires keyring_path'')]) else [])"

definition validate_repo :: "repo_config \<Rightarrow> config_error option" where
  "validate_repo r =
     (case first_error (basic_rules r) of
        Some e \<Rightarrow> Some e
      | None \<Rightarrow>
        (case expand r of
           Inl e \<Rightarrow> Some e
         | Inr _ \<Rightarrow> first_error ((rp_type r \<notin> set repo_types, ''unknown type'') # nix_rules r @ type_rules r @ trust_rules r)))"

section \<open>Nginx\<close>

definition ipv4 :: "str \<Rightarrow> bool" where
  "ipv4 s \<longleftrightarrow> (let parts = split_on CHR ''.'' s in length parts = 4 \<and>
     list_all (\<lambda>p. all_in ascii_digit p \<and> length p \<le> 3 \<and> (hd p = CHR ''0'' \<longrightarrow> length p = 1) \<and> nat_of_digits p \<le> 255) parts)"

definition listen_parts :: "str \<Rightarrow> (str \<times> str) option" where
  "listen_parts s =
     (let parts = split_on CHR '':'' s in
      if length parts = 1 then Some ([], s)
      else if length parts = 2 \<and> all_in (\<lambda>c. ascii_digit c \<or> c = CHR ''.'') (parts ! 0) then Some (parts ! 0, parts ! 1)
      else None)"

definition valid_listen :: "str \<Rightarrow> bool" where
  "valid_listen s \<longleftrightarrow> (case listen_parts s of None \<Rightarrow> False
     | Some (host, port) \<Rightarrow> all_in ascii_digit port \<and> length port \<le> 5 \<and> (host = [] \<or> ipv4 host) \<and>
         1 \<le> nat_of_digits port \<and> nat_of_digits port \<le> 65535)"

definition cache_size :: "str \<Rightarrow> bool" where
  "cache_size s \<longleftrightarrow> length s \<ge> 2 \<and> ascii_digit (hd s) \<and> hd s \<noteq> CHR ''0'' \<and> last s \<in> set ''mg'' \<and>
     list_all ascii_digit (butlast s) \<and> length (butlast s) \<le> 7"

definition cache_dir_ok :: "str \<Rightarrow> bool" where
  "cache_dir_ok s \<longleftrightarrow> length s \<ge> 2 \<and> hd s = CHR ''/'' \<and>
     list_all (\<lambda>c. word_char c \<or> c \<in> set ''./+-'') s \<and> ''..'' \<notin> set (split_on CHR ''/'' s)"

definition validate_nginx :: "nginx_config \<Rightarrow> config_error option" where
  "validate_nginx n = first_error
     [(\<not> valid_listen (ng_listen n), ''nginx.listen''),
      (ng_resolvers n = [] \<or> \<not> list_all ipv4 (ng_resolvers n), ''nginx: resolvers''),
      (\<not> all_in (\<lambda>c. word_char c \<or> c \<in> set ''.-'') (ng_server_name n), ''nginx.server_name''),
      (\<not> cache_size (ng_cache_max_size n), ''nginx.cache_max_size''),
      (\<not> (list_all (\<lambda>c. word_char c \<or> c = CHR ''-'') (ng_key_version n) \<and> length (ng_key_version n) \<le> 64), ''nginx.cache_key_version''),
      (\<not> integer_in 1 31536000 (ng_index_ttl n), ''nginx: TTL''),
      (\<not> integer_in 1 31536000 (ng_package_ttl n), ''nginx: TTL''),
      (case ng_cache_dir n of None \<Rightarrow> False | Some d \<Rightarrow> \<not> cache_dir_ok d, ''nginx.cache_dir'')]"

section \<open>The whole configuration\<close>

definition webhook_events :: "str list" where
  "webhook_events = [''repository.failing'', ''repository.recovered'', ''repository.changed'', ''warm.started'', ''warm.completed'']"

definition validate_config :: "(str \<Rightarrow> bool) \<Rightarrow> config \<Rightarrow> config_error option" where
  "validate_config zone_known c = first_error
     (map (\<lambda>i. (\<not> integer_in 1 max_integer i, ''integer''))
        [cf_interval c, cf_prefetch_concurrency c, cf_check_concurrency c, cf_notify_after c] @
      map (\<lambda>i. (case i of None \<Rightarrow> False | Some i \<Rightarrow> \<not> integer_in 1 max_integer i, ''rows'')) [cf_event_rows c, cf_request_rows c] @
      map (\<lambda>i. (\<not> integer_in 1 365000 i, ''days'')) [cf_event_days c, cf_request_days c, cf_warmed_days c] @
      [(\<not> integer_in 0 365000 (cf_key_warning_days c), ''key_expiry_warning_days''),
       (list_ex (\<lambda>e. e \<notin> set webhook_events) (cf_notify_events c) \<or> \<not> distinct (cf_notify_events c), ''notify_events''),
       (\<not> validate_limit (cf_bandwidth c), ''prefetch_bandwidth_limit''),
       (isl (validate_schedule zone_known (cf_schedule c) (cf_timezone c)), ''prefetch_bandwidth_schedule'')])"

text \<open>\<open>load_config\<close> after the YAML is read and the defaults are in place: every repository, unique
  ids, the sections, the whole, and last the nginx configuration, whose renderer is a parameter.\<close>

definition strip_urls :: "config \<Rightarrow> config" where
  "strip_urls c = c\<lparr>cf_base_url := rstrip_char CHR ''/'' (cf_base_url c),
     cf_public_url := (if truthy (cf_public_url c) then map_option (rstrip_char CHR ''/'') (cf_public_url c) else None),
     cf_webhook_url := (if truthy (cf_webhook_url c) then cf_webhook_url c else None)\<rparr>"

definition load_config :: "(str \<Rightarrow> bool) \<Rightarrow> (config \<Rightarrow> config_error option) \<Rightarrow> config \<Rightarrow> config_error + config" where
  "load_config zone_known render raw =
     (case find (\<lambda>r. validate_repo r \<noteq> None) (cf_repos raw) of
        Some r \<Rightarrow> Inl (the (validate_repo r))
      | None \<Rightarrow>
          if \<not> distinct (map rp_id (cf_repos raw)) then Inl (Config_error ''duplicate repo id'')
          else let c = strip_urls raw in
            case validate_nginx (cf_nginx c) of
              Some e \<Rightarrow> Inl e
            | None \<Rightarrow>
                (case validate_config zone_known c of
                   Some e \<Rightarrow> Inl e
                 | None \<Rightarrow>
                     if ng_enabled (cf_nginx c) \<or> list_ex (\<lambda>r. rp_template r \<noteq> None) (cf_repos c)
                     then (case render c of Some e \<Rightarrow> Inl e | None \<Rightarrow> Inr c)
                     else Inr c))"

section \<open>Properties\<close>

lemma load_config_ok:
  assumes "load_config zk render c = Inr c'"
  shows "c' = strip_urls c" "r \<in> set (cf_repos c) \<Longrightarrow> validate_repo r = None" "distinct (map rp_id (cf_repos c))"
    "validate_nginx (cf_nginx c) = None" "validate_config zk c' = None" "cf_repos c' = cf_repos c"
proof -
  show c': "c' = strip_urls c" using assms by (auto simp: load_config_def Let_def split: option.splits if_splits)
  show "r \<in> set (cf_repos c) \<Longrightarrow> validate_repo r = None" "distinct (map rp_id (cf_repos c))" "validate_config zk c' = None"
    using assms c' by (auto simp: load_config_def Let_def find_None_iff split: option.splits if_splits)
  show "validate_nginx (cf_nginx c) = None"
    using assms by (auto simp: load_config_def Let_def strip_urls_def split: option.splits if_splits)
  show "cf_repos c' = cf_repos c" by (simp add: c' strip_urls_def)
qed

lemma validate_repo_parts:
  assumes "validate_repo r = None"
  shows "list_all (\<lambda>(bad, msg). \<not> bad) (basic_rules r)" "\<exists>x. expand r = Inr x" "rp_type r \<in> set repo_types"
    "list_all (\<lambda>(bad, msg). \<not> bad) (type_rules r)" "list_all (\<lambda>(bad, msg). \<not> bad) (trust_rules r)"
proof -
  have basic: "first_error (basic_rules r) = None" using assms by (auto simp: validate_repo_def split: option.splits)
  then obtain x where x: "expand r = Inr x" using assms by (auto simp: validate_repo_def split: sum.splits)
  have "first_error ((rp_type r \<notin> set repo_types, ''unknown type'') # nix_rules r @ type_rules r @ trust_rules r) = None"
    using assms basic x by (simp add: validate_repo_def del: first_error.simps)
  then show "rp_type r \<in> set repo_types" "list_all (\<lambda>(bad, msg). \<not> bad) (type_rules r)"
    "list_all (\<lambda>(bad, msg). \<not> bad) (trust_rules r)"
    unfolding first_error_None by simp_all
  show "list_all (\<lambda>(bad, msg). \<not> bad) (basic_rules r)" using basic unfolding first_error_None .
  show "\<exists>x. expand r = Inr x" using x by blast
qed

lemma validate_repo_rules:
  assumes "validate_repo r = None"
  shows "rp_verify r \<Longrightarrow> rp_type r \<noteq> ''gentoo'' \<and> rp_type r \<noteq> ''xbps'' \<and>
       (if rp_type r = ''nix'' then rp_nix_keys r \<noteq> [] else if rp_type r = ''apk'' then truthy (rp_apk_keys r) else truthy (rp_keyring r))"
    and "rp_type r = ''apt'' \<Longrightarrow> truthy (rp_distribution r) \<and> truthy (rp_component r)"
    and "rp_type r = ''pacman'' \<Longrightarrow> truthy (rp_repo_name r)"
    and "rp_interval r = Some i \<Longrightarrow> 1 \<le> i"
proof -
  note parts = validate_repo_parts [OF assms]
  have t: "rp_type r = ''apt'' \<Longrightarrow> truthy (rp_distribution r) \<and> truthy (rp_component r)"
    "rp_type r = ''pacman'' \<Longrightarrow> truthy (rp_repo_name r)" "\<not> (rp_type r = ''gentoo'' \<and> rp_verify r)"
    using parts(4) by (simp_all add: type_rules_def)
  show "rp_type r = ''apt'' \<Longrightarrow> truthy (rp_distribution r) \<and> truthy (rp_component r)" by (rule t(1))
  show "rp_type r = ''pacman'' \<Longrightarrow> truthy (rp_repo_name r)" by (rule t(2))
  show "rp_interval r = Some i \<Longrightarrow> 1 \<le> i" using parts(1) by (simp add: basic_rules_def integer_in_def)
  show "rp_type r \<noteq> ''gentoo'' \<and> rp_type r \<noteq> ''xbps'' \<and>
       (if rp_type r = ''nix'' then rp_nix_keys r \<noteq> [] else if rp_type r = ''apk'' then truthy (rp_apk_keys r) else truthy (rp_keyring r))"
    if v: "rp_verify r"
  proof -
    have "rp_type r \<noteq> ''gentoo''" using t(3) v by blast
    moreover have "rp_type r \<noteq> ''xbps''" using parts(5) v by (auto simp: trust_rules_def)
    moreover have "if rp_type r = ''nix'' then rp_nix_keys r \<noteq> [] else if rp_type r = ''apk'' then truthy (rp_apk_keys r) else truthy (rp_keyring r)"
      using parts(5) v by (cases "rp_type r = ''nix''"; cases "rp_type r = ''apk''"; cases "rp_type r = ''xbps''") (simp_all add: trust_rules_def)
    ultimately show ?thesis by blast
  qed
qed

lemma find_by_id:
  "distinct (map f xs) \<Longrightarrow> r \<in> set xs \<Longrightarrow> find (\<lambda>x. f x = f r) xs = Some r"
proof (induction xs)
  case Nil
  then show ?case by simp
next
  case (Cons x xs)
  then show ?case by (cases "x = r") (auto simp: image_iff)
qed

lemma config_interval: "validate_config zk c = None \<Longrightarrow> 1 \<le> cf_interval c"
  by (simp add: validate_config_def is_false_def integer_in_def split: if_splits)


definition sample_nginx :: nginx_config where
  "sample_nginx = \<lparr>ng_enabled = False, ng_listen = ''8080'', ng_server_name = ''repo-cache.local'', ng_resolvers = [''127.0.0.53''],
     ng_cache_max_size = ''100g'', ng_key_version = [], ng_index_ttl = 300, ng_package_ttl = 15552000, ng_cache_dir = None,
     ng_enable_purge = False, ng_enable_dedup = False, ng_enable_probe = False\<rparr>"

definition sample_config :: "repo_config list \<Rightarrow> config" where
  "sample_config repos = \<lparr>cf_interval = 300, cf_base_url = ''http://127.0.0.1:8080'', cf_repos = repos, cf_event_days = 90,
     cf_request_days = 7, cf_warmed_days = 180, cf_event_rows = None, cf_request_rows = None,
     cf_syslog = \<lparr>sy_enabled = True, sy_bind = ''127.0.0.1'', sy_port = 1514\<rparr>, cf_nginx = sample_nginx,
     cf_prefetch_concurrency = 8, cf_check_concurrency = 8, cf_public_url = None, cf_webhook_url = None,
     cf_notify_after = 3, cf_notify_events = [], cf_bandwidth = None, cf_timezone = ''UTC'', cf_schedule = [],
     cf_key_warning_days = 30\<rparr>"


end
