(* ===== verification/Routing.thy ===== *)
theory Routing
  imports Config
begin

text \<open>
  \<open>routing.py\<close>: the local prefix of every repository, the routes nginx serves, and the literal
  cache keys.  A \<open>ValueError\<close> of the code is the same error value as a \<open>ConfigError\<close> here.
\<close>

section \<open>Percent encoding\<close>

definition hex_digit :: "nat \<Rightarrow> char" where
  "hex_digit n = ''0123456789ABCDEF'' ! n"

definition percent :: "nat \<Rightarrow> str" where
  "percent n = [CHR ''%'', hex_digit (n div 16), hex_digit (n mod 16)]"

definition quote_char :: "char \<Rightarrow> str" where
  "quote_char c =
     (if ascii_alnum c \<or> c \<in> set ''_.-~'' then [c]
      else if code c < 128 then percent (code c)
      else percent (192 + code c div 64) @ percent (128 + code c mod 64))"

definition quote :: "str \<Rightarrow> str" where
  "quote s = concat (map quote_char s)"

section \<open>Prefixes\<close>

definition route_error :: "config_error + 'a" where
  "route_error = Inl (Config_error ''route'')"

definition url_of :: "repo_config \<Rightarrow> config_error + url" where
  "url_of r = (case rp_upstream r of None \<Rightarrow> route_error | Some u \<Rightarrow> Inr u)"

definition apt_prefix :: "repo_config \<Rightarrow> config_error + str" where
  "apt_prefix r = bind (expand r) (\<lambda>custom.
     case custom of
       Some p \<Rightarrow> Inr p
     | None \<Rightarrow> bind (url_of r) (\<lambda>upstream.
         let path = rstrip_char CHR ''/'' (u_path upstream) in
         if u_host upstream = Some ''security.ubuntu.com'' \<and> path = ''/ubuntu'' then Inr ''/ubuntu-security''
         else let parts = split_on CHR ''/'' (rstrip_char CHR ''/'' (lstrip_char CHR ''/'' path)) in
           if u_host upstream = Some ''ppa.launchpadcontent.net'' \<and> length parts = 3 \<and> parts ! 2 = ''ubuntu''
           then Inr (''/ppa-'' @ parts ! 0 @ ''-'' @ parts ! 1)
           else Inr path))"

definition apt_rpm_prefix :: "repo_config \<Rightarrow> config_error + str" where
  "apt_rpm_prefix r = bind (expand r) (\<lambda>custom.
     if truthy custom then Inr (the custom) else Inr (''/apt-rpm/'' @ quote (rp_id r)))"

definition repo_prefix :: "repo_config \<Rightarrow> config_error + str" where
  "repo_prefix r = bind (expand r) (\<lambda>custom.
     if custom \<noteq> None \<and> rp_type r \<notin> set [''apt'', ''apt-rpm''] then Inr (the custom)
     else if rp_type r = ''pacman'' then Inr (''/arch/'' @ opt_str (rp_repo_name r) @ ''/os/'' @ rp_arch r)
     else if rp_type r = ''apt-rpm'' then bind (apt_rpm_prefix r) (\<lambda>p. Inr (p @ ''/RPMS.'' @ opt_str (rp_component r)))
     else if rp_type r = ''dnf'' then Inr (''/rpm/'' @ quote (rp_id r))
     else if rp_type r \<in> set [''gentoo'', ''slackware''] then Inr (''/'' @ rp_type r @ ''/'' @ quote (rp_id r))
     else if rp_type r = ''xbps'' then Inr (''/xbps/'' @ quote (rp_id r))
     else if rp_type r = ''apt'' then bind (apt_prefix r) (\<lambda>p. Inr (p @ ''/pool/'' @ opt_str (rp_component r)))
     else if rp_type r = ''nix'' then Inr (''/nix/'' @ rp_id r)
     else if rp_type r = ''apk''
       then bind (url_of r) (\<lambda>u. Inr (rstrip_char CHR ''/'' (u_path u) @ ''/'' @ rp_arch r))
     else route_error)"

definition package_prefix :: "repo_config \<Rightarrow> config_error + str" where
  "package_prefix r =
     (if rp_type r = ''apt-rpm'' then apt_rpm_prefix r
      else if rp_type r = ''apt'' then apt_prefix r
      else repo_prefix r)"

definition package_path :: "repo_config \<Rightarrow> str \<Rightarrow> config_error + str" where
  "package_path r filename = bind (package_prefix r) (\<lambda>p. Inr (p @ ''/'' @ filename))"

definition warm_url :: "config \<Rightarrow> repo_config \<Rightarrow> str \<Rightarrow> config_error + str" where
  "warm_url c r filename = bind (package_path r filename) (\<lambda>p. Inr (cf_base_url c @ p))"

definition purge_url :: "config \<Rightarrow> repo_config \<Rightarrow> str \<Rightarrow> config_error + str" where
  "purge_url c r filename = bind (package_path r filename) (\<lambda>p. Inr (cf_base_url c @ ''/purge'' @ p))"

section \<open>Routes\<close>

record route =
  ro_scheme :: str
  ro_host :: str
  ro_remote :: str
  ro_ttl :: int

definition safe_uri :: "str \<Rightarrow> config_error + str" where
  "safe_uri v =
     (if v = [] \<or> hd v \<noteq> CHR ''/'' \<or> \<not> list_all path_char v \<or>
         ''.'' \<in> set (split_on CHR ''/'' v) \<or> ''..'' \<in> set (split_on CHR ''/'' v)
      then route_error else Inr v)"

text \<open>\<open>re.fullmatch('[A-Za-z0-9.-]+(?::[0-9]{1,5})?', netloc)\<close>\<close>

definition plain_netloc :: "str \<Rightarrow> bool" where
  "plain_netloc s \<longleftrightarrow> (case split_on CHR '':'' s of
      [host] \<Rightarrow> all_in (\<lambda>c. ascii_alnum c \<or> c \<in> set ''.-'') host
    | [host, port] \<Rightarrow> all_in (\<lambda>c. ascii_alnum c \<or> c \<in> set ''.-'') host \<and> all_in ascii_digit port \<and> length port \<le> 5
    | _ \<Rightarrow> False)"

definition plain_upstream :: "url \<Rightarrow> bool" where
  "plain_upstream u \<longleftrightarrow> \<not> (u_scheme u \<notin> set [''http'', ''https''] \<or> \<not> truthy (u_host u) \<or> truthy (u_user u) \<or>
     truthy (u_password u) \<or> u_query u \<noteq> [] \<or> u_fragment u \<noteq> [] \<or> \<not> plain_netloc (u_netloc u))"

definition with_slash :: "str \<Rightarrow> str" where
  "with_slash p = rstrip_char CHR ''/'' p @ ''/''"

definition local_prefix :: "repo_config \<Rightarrow> config_error + str" where
  "local_prefix r =
     (if rp_type r = ''apt-rpm'' then bind (apt_rpm_prefix r) (\<lambda>p. safe_uri (with_slash p))
      else if rp_type r = ''apt'' then bind (apt_prefix r) (\<lambda>p. safe_uri (with_slash p))
      else bind (repo_prefix r) (\<lambda>p. safe_uri (with_slash p)))"

definition remote_prefix :: "repo_config \<Rightarrow> url \<Rightarrow> config_error + str" where
  "remote_prefix r u = bind (safe_uri (with_slash (u_path u))) (\<lambda>remote.
     if rp_type r = ''apk'' then safe_uri (remote @ rp_arch r @ ''/'') else Inr remote)"

text \<open>The local prefix and the route of one repository, before it is compared with the others.\<close>

definition route_of :: "config \<Rightarrow> repo_config \<Rightarrow> config_error + (str \<times> route)" where
  "route_of c r =
     bind (url_of r) (\<lambda>u.
       if \<not> plain_upstream u then route_error
       else if \<not> u_port_ok u then route_error
       else bind (remote_prefix r u) (\<lambda>remote. bind (local_prefix r) (\<lambda>local.
         if local = ''/'' then route_error
         else let ttl = min (ng_index_ttl (cf_nginx c)) (effective_check_interval c r) in
           if ttl < 1 then route_error
           else Inr (local, \<lparr>ro_scheme = u_scheme u, ro_host = u_netloc u, ro_remote = remote, ro_ttl = ttl\<rparr>))))"

type_synonym route_table = "(str \<times> route) list \<times> (str \<times> str) list"

definition same_origin :: "route \<Rightarrow> route \<Rightarrow> bool" where
  "same_origin a b \<longleftrightarrow> ro_scheme a = ro_scheme b \<and> ro_host a = ro_host b \<and> ro_remote a = ro_remote b"

definition add_route :: "config \<Rightarrow> repo_config \<Rightarrow> route_table \<Rightarrow> config_error + route_table" where
  "add_route c r t = (case t of (routes, kinds) \<Rightarrow>
     bind (route_of c r) (\<lambda>(local, rt).
       if map_of kinds local \<noteq> None \<and> map_of kinds local \<noteq> Some (rp_type r) then route_error
       else let kinds' = AList.update local (rp_type r) kinds in
         case map_of routes local of
           None \<Rightarrow> Inr (AList.update local rt routes, kinds')
         | Some previous \<Rightarrow>
             if \<not> same_origin previous rt then route_error
             else Inr (AList.update local (rt\<lparr>ro_ttl := min (ro_ttl rt) (ro_ttl previous)\<rparr>) routes, kinds')))"

fun add_routes :: "config \<Rightarrow> repo_config list \<Rightarrow> route_table \<Rightarrow> config_error + route_table" where
  "add_routes c [] t = Inr t"
| "add_routes c (r # rs) t = bind (add_route c r t) (add_routes c rs)"

fun overlapping :: "str list \<Rightarrow> bool" where
  "overlapping [] = False"
| "overlapping (a # rest) = (list_ex (starts_with a) rest \<or> overlapping rest)"

definition compute_routes :: "config \<Rightarrow> config_error + (str \<times> (str \<times> route) list \<times> (str \<times> str) list)" where
  "compute_routes c =
     bind (add_routes c (cf_repos c) ([], [])) (\<lambda>(routes, kinds).
       if overlapping (sort (map fst routes)) then route_error
       else Inr (if ng_key_version (cf_nginx c) = [] then [] else ng_key_version (cf_nginx c) @ '':'', routes, kinds))"

section \<open>Cache keys\<close>

record key_builder =
  kb_prefix :: str
  kb_routes :: "(str \<times> route) list"
  kb_dedup :: bool

definition make_key_builder :: "config \<Rightarrow> config_error + key_builder" where
  "make_key_builder c = bind (compute_routes c) (\<lambda>(key_prefix, routes, kinds).
     Inr \<lparr>kb_prefix = key_prefix, kb_routes = routes, kb_dedup = ng_enable_dedup (cf_nginx c)\<rparr>)"

record bound_key =
  bk_base :: str
  bk_local :: str
  bk_remote :: str
  bk_dedup :: bool

definition for_repo :: "key_builder \<Rightarrow> repo_config \<Rightarrow> config_error + bound_key" where
  "for_repo b r = bind (package_prefix r) (\<lambda>p.
     let local = p @ ''/'' in
     case find (\<lambda>(route, _). starts_with route local) (kb_routes b) of
       None \<Rightarrow> route_error
     | Some (route, rt) \<Rightarrow> Inr \<lparr>bk_base = kb_prefix b @ ''http'' @ ro_host rt, bk_local = local,
         bk_remote = ro_remote rt @ drop (length route) local, bk_dedup = kb_dedup b\<rparr>)"

definition cache_key :: "bound_key \<Rightarrow> bool option \<Rightarrow> str \<Rightarrow> str" where
  "cache_key k dedup filename =
     bk_base k @ (if (case dedup of None \<Rightarrow> bk_dedup k | Some d \<Rightarrow> d) then bk_remote k else bk_local k) @ filename"

definition compute_cache_key :: "config \<Rightarrow> repo_config \<Rightarrow> str \<Rightarrow> config_error + str" where
  "compute_cache_key c r filename =
     bind (make_key_builder c) (\<lambda>b. bind (for_repo b r) (\<lambda>k. Inr (cache_key k None filename)))"

lemma route_error_neq [simp]: "route_error \<noteq> Inr x" "Inr x \<noteq> route_error"
  by (simp_all add: route_error_def)

section \<open>Properties\<close>

lemma rstrip_char_parts:
  obtains k where "p = rstrip_char c p @ replicate k c"
proof -
  have "p = rstrip_char c p @ rev (takeWhile (\<lambda>x. x = c) (rev p))"
    unfolding rstrip_char_def by (metis rev_append rev_rev_ident takeWhile_dropWhile_id)
  moreover have "takeWhile (\<lambda>x. x = c) q = replicate (length (takeWhile (\<lambda>x. x = c) q)) c" for q
    by (induction q) auto
  ultimately show ?thesis using that by (metis rev_replicate)
qed

lemma with_slash_prefix: "starts_with (with_slash p) (p @ ''/'')"
proof -
  obtain k where k: "p = rstrip_char CHR ''/'' p @ replicate k CHR ''/''" using rstrip_char_parts .
  have "p @ ''/'' = rstrip_char CHR ''/'' p @ replicate (Suc k) CHR ''/''"
    using k by (metis append.assoc replicate_append_same replicate_Suc)
  then have "p @ ''/'' = with_slash p @ replicate k CHR ''/''" by (simp add: with_slash_def)
  then show ?thesis by (metis starts_with_append)
qed

lemma safe_uri_Inr: "safe_uri v = Inr w \<longleftrightarrow> w = v \<and> v \<noteq> [] \<and> hd v = CHR ''/'' \<and> list_all path_char v \<and>
    ''.'' \<notin> set (split_on CHR ''/'' v) \<and> ''..'' \<notin> set (split_on CHR ''/'' v)"
  by (auto simp: safe_uri_def route_error_def)

lemma local_prefix_Inr:
  "local_prefix r = Inr l \<longleftrightarrow> (\<exists>p. package_prefix r = Inr p \<and> safe_uri (with_slash p) = Inr l)"
  by (auto simp: local_prefix_def package_prefix_def bind_Inr)

lemma local_of_package:
  "local_prefix r = Inr l \<Longrightarrow> package_prefix r = Inr p \<Longrightarrow> l = with_slash p \<and> starts_with l (p @ ''/'')"
  by (auto simp: local_prefix_Inr safe_uri_Inr with_slash_prefix)

text \<open>Sorted lists that pass the check have no two elements of which one is a prefix of the other.\<close>

lemma prefix_less_eq: "prefix a b \<Longrightarrow> a \<le> (b :: str)"
  by (induction a arbitrary: b) (auto simp: prefix_def)

lemma overlapping_sorted:
  "sorted xs \<Longrightarrow> distinct xs \<Longrightarrow> \<not> overlapping xs \<Longrightarrow> a \<in> set xs \<Longrightarrow> b \<in> set xs \<Longrightarrow> prefix a b \<Longrightarrow> a = b"
proof (induction xs)
  case Nil
  then show ?case by simp
next
  case (Cons x xs)
  have later: "\<not> prefix x y" if "y \<in> set xs" for y
    using Cons.prems(3) that by (auto simp: list_ex_iff starts_with_prefix)
  consider "a = x" "b = x" | "a = x" "b \<in> set xs" | "a \<in> set xs" "b = x" | "a \<in> set xs" "b \<in> set xs"
    using Cons.prems(4,5) by auto
  then show ?case
  proof cases
    case 2
    then show ?thesis using later Cons.prems(6) by blast
  next
    case 3
    then have "x \<le> a" "a \<le> x" using Cons.prems(1,6) prefix_less_eq by auto
    then show ?thesis using 3 by simp
  next
    case 4
    then show ?thesis using Cons by simp
  qed simp
qed

text \<open>What the loop of \<open>compute_routes\<close> keeps for every repository it has accepted.\<close>

definition routed :: "config \<Rightarrow> route_table \<Rightarrow> repo_config \<Rightarrow> bool" where
  "routed c t r \<longleftrightarrow> (\<exists>l rt rt'. route_of c r = Inr (l, rt) \<and> map_of (fst t) l = Some rt' \<and> same_origin rt rt' \<and>
      ro_ttl rt' \<le> ro_ttl rt \<and> 1 \<le> ro_ttl rt' \<and> map_of (snd t) l = Some (rp_type r))"

definition routes_inv :: "config \<Rightarrow> route_table \<Rightarrow> bool" where
  "routes_inv c t \<longleftrightarrow> distinct (map fst (fst t)) \<and>
     (\<forall>l rt. map_of (fst t) l = Some rt \<longrightarrow> 1 \<le> ro_ttl rt \<and> (\<exists>r rt'. r \<in> set (cf_repos c) \<and> route_of c r = Inr (l, rt')))"

lemma route_of_ttl: "route_of c r = Inr (l, rt) \<Longrightarrow> 1 \<le> ro_ttl rt"
  by (auto simp: route_of_def bind_Inr Let_def split: if_splits)

lemma add_route_cases:
  assumes "add_route c r t = Inr t'"
  obtains l rt new where "route_of c r = Inr (l, rt)" "t' = (AList.update l new (fst t), AList.update l (rp_type r) (snd t))"
    "same_origin rt new" "ro_ttl new \<le> ro_ttl rt"
    "\<And>k. map_of (snd t) l = Some k \<Longrightarrow> k = rp_type r"
    "\<And>old. map_of (fst t) l = Some old \<Longrightarrow> same_origin old new \<and> ro_ttl new = min (ro_ttl rt) (ro_ttl old)"
    "map_of (fst t) l = None \<Longrightarrow> new = rt"
proof -
  obtain l rt where rt: "route_of c r = Inr (l, rt)" using assms by (auto simp: add_route_def bind_Inr split: prod.splits)
  show ?thesis
  proof (cases "map_of (fst t) l")
    case None
    show ?thesis
      by (rule that [OF rt, of rt]) (use assms rt None in \<open>auto simp: add_route_def bind_def same_origin_def Let_def split: prod.splits if_splits\<close>)
  next
    case (Some old)
    show ?thesis
      by (rule that [OF rt, of "rt\<lparr>ro_ttl := min (ro_ttl rt) (ro_ttl old)\<rparr>"])
        (use assms rt Some in \<open>auto simp: add_route_def bind_def same_origin_def Let_def split: prod.splits if_splits\<close>)
  qed
qed

lemma add_route_inv:
  assumes "add_route c r t = Inr t'" "routes_inv c t" "r \<in> set (cf_repos c)"
  shows "routes_inv c t'" and "routed c t' r" and "routed c t q \<Longrightarrow> routed c t' q"
proof -
  obtain l rt new where rt: "route_of c r = Inr (l, rt)" and t': "t' = (AList.update l new (fst t), AList.update l (rp_type r) (snd t))"
    and new: "same_origin rt new" "ro_ttl new \<le> ro_ttl rt" and kind: "\<And>k. map_of (snd t) l = Some k \<Longrightarrow> k = rp_type r"
    and old: "\<And>old. map_of (fst t) l = Some old \<Longrightarrow> same_origin old new \<and> ro_ttl new = min (ro_ttl rt) (ro_ttl old)"
    and none: "map_of (fst t) l = None \<Longrightarrow> new = rt"
    using add_route_cases [OF assms(1)] by blast
  have ttl: "1 \<le> ro_ttl new"
  proof (cases "map_of (fst t) l")
    case None
    then show ?thesis using none route_of_ttl [OF rt] by simp
  next
    case (Some before)
    then have "1 \<le> ro_ttl before" using assms(2) by (simp add: routes_inv_def)
    then show ?thesis using old [OF Some] route_of_ttl [OF rt] by simp
  qed
  show "routes_inv c t'"
    using assms(2,3) ttl rt unfolding routes_inv_def t' by (auto simp: update_conv' distinct_update)
  show "routed c t' r" using rt new ttl by (auto simp: routed_def t' update_conv')
  show "routed c t' q" if q: "routed c t q"
  proof -
    obtain m qr qr' where m: "route_of c q = Inr (m, qr)" "map_of (fst t) m = Some qr'" "same_origin qr qr'"
      "ro_ttl qr' \<le> ro_ttl qr" "1 \<le> ro_ttl qr'" "map_of (snd t) m = Some (rp_type q)"
      using q by (auto simp: routed_def)
    show ?thesis
    proof (cases "m = l")
      case True
      then show ?thesis using m old [of qr'] kind [of "rp_type q"] ttl
        by (auto simp: routed_def t' update_conv' same_origin_def)
    next
      case False
      then show ?thesis using m by (auto simp: routed_def t' update_conv')
    qed
  qed
qed

lemma add_routes_inv:
  "add_routes c rs t = Inr t' \<Longrightarrow> routes_inv c t \<Longrightarrow> set rs \<subseteq> set (cf_repos c) \<Longrightarrow>
   routes_inv c t' \<and> (\<forall>q. q \<in> set rs \<or> routed c t q \<longrightarrow> routed c t' q)"
proof (induction rs arbitrary: t)
  case Nil
  then show ?case by simp
next
  case (Cons r rs)
  then obtain u where u: "add_route c r t = Inr u" "add_routes c rs u = Inr t'" by (auto simp: bind_Inr)
  have r: "r \<in> set (cf_repos c)" using Cons.prems(3) by simp
  note one = add_route_inv [OF u(1) Cons.prems(2) r]
  show ?case using Cons.IH [OF u(2) one(1)] Cons.prems(3) one(2,3) by auto
qed

lemma compute_routes_inv:
  assumes "compute_routes c = Inr (kp, routes, kinds)"
  shows "routes_inv c (routes, kinds)" and "r \<in> set (cf_repos c) \<Longrightarrow> routed c (routes, kinds) r"
    and "a \<in> fst ` set routes \<Longrightarrow> b \<in> fst ` set routes \<Longrightarrow> prefix a b \<Longrightarrow> a = b"
proof -
  have loop: "add_routes c (cf_repos c) ([], []) = Inr (routes, kinds)" and no: "\<not> overlapping (sort (map fst routes))"
    using assms by (auto simp: compute_routes_def bind_Inr split: if_splits)
  have "routes_inv c ([], [])" by (simp add: routes_inv_def)
  note all = add_routes_inv [OF loop this subset_refl]
  show inv: "routes_inv c (routes, kinds)" using all by blast
  show "r \<in> set (cf_repos c) \<Longrightarrow> routed c (routes, kinds) r" using all by blast
  have "distinct (sort (map fst routes))" using inv by (simp add: routes_inv_def)
  then show "a \<in> fst ` set routes \<Longrightarrow> b \<in> fst ` set routes \<Longrightarrow> prefix a b \<Longrightarrow> a = b"
    using overlapping_sorted [OF sorted_sort _ no, of a b] by simp
qed

lemma routes_serve_every:
  assumes "compute_routes c = Inr (kp, routes, kinds)" and "r \<in> set (cf_repos c)"
  shows "\<exists>l u remote rt. local_prefix r = Inr l \<and> rp_upstream r = Some u \<and> remote_prefix r u = Inr remote \<and>
      map_of routes l = Some rt \<and> map_of kinds l = Some (rp_type r) \<and> ro_scheme rt = u_scheme u \<and>
      ro_host rt = u_netloc u \<and> ro_remote rt = remote \<and>
      1 \<le> ro_ttl rt \<and> ro_ttl rt \<le> ng_index_ttl (cf_nginx c) \<and> ro_ttl rt \<le> effective_check_interval c r \<and>
      (\<forall>m \<in> fst ` set routes. prefix l m \<or> prefix m l \<longrightarrow> m = l)"
proof -
  obtain l rt rt' where own: "route_of c r = Inr (l, rt)" "map_of routes l = Some rt'" "same_origin rt rt'"
    "ro_ttl rt' \<le> ro_ttl rt" "1 \<le> ro_ttl rt'" "map_of kinds l = Some (rp_type r)"
    using compute_routes_inv(2) [OF assms] by (auto simp: routed_def)
  obtain u remote where parts: "rp_upstream r = Some u" "remote_prefix r u = Inr remote" "local_prefix r = Inr l"
      "rt = \<lparr>ro_scheme = u_scheme u, ro_host = u_netloc u, ro_remote = remote,
             ro_ttl = min (ng_index_ttl (cf_nginx c)) (effective_check_interval c r)\<rparr>"
    using own(1) by (auto simp: route_of_def url_of_def bind_Inr Let_def split: option.splits if_splits)
  have mem: "l \<in> fst ` set routes" using own(2) by (metis domI dom_map_of_conv_image_fst)
  have sole: "m = l" if "m \<in> fst ` set routes" "prefix l m \<or> prefix m l" for m
    using that(2) compute_routes_inv(3) [OF assms(1) that(1) mem] compute_routes_inv(3) [OF assms(1) mem that(1)] by blast
  have "ro_scheme rt' = u_scheme u" "ro_host rt' = u_netloc u" "ro_remote rt' = remote"
    "ro_ttl rt' \<le> ng_index_ttl (cf_nginx c)" "ro_ttl rt' \<le> effective_check_interval c r"
    using own(3,4) parts(4) by (simp_all add: same_origin_def)
  then show ?thesis using parts(1-3) own(2,5,6) sole
    by (intro exI [of _ l] exI [of _ u] exI [of _ remote] exI [of _ rt']) simp
qed

lemma find_own_route:
  assumes "distinct (map fst routes)" "map_of routes l = Some rt" "starts_with l path"
    and "\<And>a b. a \<in> fst ` set routes \<Longrightarrow> b \<in> fst ` set routes \<Longrightarrow> prefix a b \<Longrightarrow> a = b"
  shows "find (\<lambda>(route, _). starts_with route path) routes = Some (l, rt)"
proof -
  have mem: "(l, rt) \<in> set routes" using assms(2) by (rule map_of_SomeD)
  then have "find (\<lambda>(route, _). starts_with route path) routes \<noteq> None"
    using assms(3) by (auto simp: find_None_iff)
  then obtain m rt' where found: "find (\<lambda>(route, _). starts_with route path) routes = Some (m, rt')" by auto
  then have m: "(m, rt') \<in> set routes" "starts_with m path"
    by (auto simp: find_Some_iff) (metis nth_mem)
  have "prefix m path" "prefix l path" using m(2) assms(3) by (simp_all add: starts_with_prefix)
  then have "prefix m l \<or> prefix l m" by (auto dest: prefix_same_cases)
  moreover have "m \<in> fst ` set routes" "l \<in> fst ` set routes" using m(1) mem by force+
  ultimately have "m = l" using assms(4) [of m l] assms(4) [of l m] by blast
  then have "map_of routes l = Some rt'" using m(1) assms(1) by simp
  with found \<open>m = l\<close> assms(2) show ?thesis by simp
qed

lemma for_repo_own:
  assumes "make_key_builder c = Inr b" and "r \<in> set (cf_repos c)"
  shows "\<exists>p l u remote. package_prefix r = Inr p \<and> local_prefix r = Inr l \<and> rp_upstream r = Some u \<and>
      remote_prefix r u = Inr remote \<and> plain_upstream u \<and> l \<in> fst ` set (kb_routes b) \<and> l \<noteq> [] \<and> hd l = CHR ''/'' \<and>
      starts_with l (p @ ''/'') \<and>
      for_repo b r = Inr \<lparr>bk_base = kb_prefix b @ ''http'' @ u_netloc u, bk_local = p @ ''/'',
         bk_remote = remote @ drop (length l) (p @ ''/''), bk_dedup = ng_enable_dedup (cf_nginx c)\<rparr>"
proof -
  obtain kp routes kinds where rts: "compute_routes c = Inr (kp, routes, kinds)"
    and b: "b = \<lparr>kb_prefix = kp, kb_routes = routes, kb_dedup = ng_enable_dedup (cf_nginx c)\<rparr>"
    using assms(1) by (auto simp: make_key_builder_def bind_Inr)
  obtain l u remote rt where own: "local_prefix r = Inr l" "rp_upstream r = Some u" "remote_prefix r u = Inr remote"
      "map_of routes l = Some rt" "ro_host rt = u_netloc u" "ro_remote rt = remote"
    using routes_serve_every [OF rts assms(2)] by blast
  obtain p where p: "package_prefix r = Inr p" using own(1) by (auto simp: local_prefix_Inr)
  have start: "starts_with l (p @ ''/'')" using local_of_package [OF own(1) p] by blast
  have "distinct (map fst routes)" using compute_routes_inv(1) [OF rts] by (simp add: routes_inv_def)
  from find_own_route [OF this own(4) start] compute_routes_inv(3) [OF rts]
  have "find (\<lambda>(route, _). starts_with route (p @ ''/'')) routes = Some (l, rt)" by blast
  then have "for_repo b r = Inr \<lparr>bk_base = kp @ ''http'' @ u_netloc u, bk_local = p @ ''/'',
      bk_remote = remote @ drop (length l) (p @ ''/''), bk_dedup = ng_enable_dedup (cf_nginx c)\<rparr>"
    using p own(5,6) by (simp add: for_repo_def bind_def b Let_def)
  moreover have "plain_upstream u"
    using compute_routes_inv(2) [OF rts assms(2)] own(2)
    by (auto simp: routed_def route_of_def url_of_def bind_Inr split: if_splits)
  moreover have "l \<noteq> []" "hd l = CHR ''/''" using own(1) by (auto simp: local_prefix_Inr safe_uri_Inr)
  moreover have "l \<in> fst ` set routes" using own(4) by (metis domI dom_map_of_conv_image_fst)
  ultimately show ?thesis using own p start by (auto simp: b)
qed

lemma netloc_no_slash: "plain_netloc s \<Longrightarrow> CHR ''/'' \<notin> set s"
proof -
  assume "plain_netloc s"
  then have "\<forall>w \<in> set (split_on CHR '':'' s). list_all (\<lambda>c. c \<noteq> CHR ''/'') w"
    by (auto simp: plain_netloc_def all_in_def list_all_iff ascii_alnum_def ascii_digit_def ascii_lower_def ascii_upper_def
        split: list.splits)
  then have "\<forall>w \<in> set (split_on CHR '':'' s). CHR ''/'' \<notin> set w" by (auto simp: list_all_iff)
  moreover have "CHR ''/'' \<notin> set (join '':'' vs)" if "\<forall>w \<in> set vs. CHR ''/'' \<notin> set w" for vs
    using that by (induction "'':''" vs rule: join.induct) auto
  ultimately have "CHR ''/'' \<notin> set (join '':'' (split_on CHR '':'' s))" by blast
  then show ?thesis by (simp add: split_on_join)
qed

text \<open>C9: a configuration with routes serves every repository: its local prefix is a route of its own
  type to its own upstream, whose index lifetime is positive and at most the configured lifetime and
  the repository's check interval; and no route is a prefix of another, so a request belongs to
  at most one of them.\<close>
theorem routes_serve_every_repository:
  assumes "compute_routes c = Inr (kp, routes, kinds)" and "r \<in> set (cf_repos c)"
  shows "\<exists>l u remote rt. local_prefix r = Inr l \<and> rp_upstream r = Some u \<and> remote_prefix r u = Inr remote \<and>
      map_of routes l = Some rt \<and> map_of kinds l = Some (rp_type r) \<and> ro_scheme rt = u_scheme u \<and>
      ro_host rt = u_netloc u \<and> ro_remote rt = remote \<and>
      1 \<le> ro_ttl rt \<and> ro_ttl rt \<le> ng_index_ttl (cf_nginx c) \<and> ro_ttl rt \<le> effective_check_interval c r \<and>
      (\<forall>m \<in> fst ` set routes. prefix l m \<or> prefix m l \<longrightarrow> m = l)"
  by (rule routes_serve_every [OF assms])

text \<open>A slash ends the host name, so the host and the path of a key can be read back from it.\<close>

lemma host_path_inject:
  assumes "h @ CHR ''/'' # x = h' @ CHR ''/'' # x'" "CHR ''/'' \<notin> set h" "CHR ''/'' \<notin> set h'"
  shows "h = h' \<and> x = x'"
proof -
  have "takeWhile (\<lambda>c. c \<noteq> CHR ''/'') (h @ CHR ''/'' # x) = takeWhile (\<lambda>c. c \<noteq> CHR ''/'') (h' @ CHR ''/'' # x')"
    by (simp only: assms(1))
  moreover have "takeWhile (\<lambda>c. c \<noteq> CHR ''/'') (g @ CHR ''/'' # y) = g" if "CHR ''/'' \<notin> set g" for g y
    using that by (induction g) auto
  ultimately have "h = h'" using assms(2,3) by metis
  with assms(1) show ?thesis by simp
qed

lemma host_path_keys:
  assumes "CHR ''/'' \<notin> set h" "CHR ''/'' \<notin> set h'" "p \<noteq> []" "hd p = CHR ''/''" "p' \<noteq> []" "hd p' = CHR ''/''"
  shows "h @ p = h' @ p' \<longleftrightarrow> h = h' \<and> p = p'"
proof -
  obtain x x' where "p = CHR ''/'' # x" "p' = CHR ''/'' # x'" using assms by (metis list.collapse)
  then show ?thesis using host_path_inject [of h x h' x'] assms(1,2) by auto
qed

lemma plain_host: "plain_upstream u \<Longrightarrow> CHR ''/'' \<notin> set (u_netloc u)"
  by (auto simp: plain_upstream_def dest: netloc_no_slash)

lemma remote_prefix_start: "remote_prefix r u = Inr m \<Longrightarrow> m \<noteq> [] \<and> hd m = CHR ''/''"
  by (auto simp: remote_prefix_def bind_Inr safe_uri_Inr split: if_splits)

text \<open>C10: cache keys neither collide nor split.  Every repository of the configuration gets a key builder; keys on the
  local basis of two repositories with different local prefixes are never equal; and two keys on the
  deduplicated basis are equal exactly when host and remote path are.\<close>
theorem cache_keys_separate:
  assumes "make_key_builder c = Inr b" and "r \<in> set (cf_repos c)" and "q \<in> set (cf_repos c)"
  shows "\<exists>k m u v. for_repo b r = Inr k \<and> for_repo b q = Inr m \<and> rp_upstream r = Some u \<and> rp_upstream q = Some v \<and>
      (local_prefix r \<noteq> local_prefix q \<longrightarrow> cache_key k (Some False) f \<noteq> cache_key m (Some False) g) \<and>
      (cache_key k (Some True) f = cache_key m (Some True) g \<longleftrightarrow>
         u_netloc u = u_netloc v \<and> bk_remote k @ f = bk_remote m @ g)"
proof -
  obtain kp routes kinds where rts: "compute_routes c = Inr (kp, routes, kinds)" "kb_routes b = routes"
    using assms(1) by (auto simp: make_key_builder_def bind_Inr)
  obtain p l u remote where r: "package_prefix r = Inr p" "local_prefix r = Inr l" "rp_upstream r = Some u"
      "remote_prefix r u = Inr remote" "plain_upstream u" "l \<in> fst ` set (kb_routes b)" "l \<noteq> []" "hd l = CHR ''/''"
      "starts_with l (p @ ''/'')" "for_repo b r = Inr \<lparr>bk_base = kb_prefix b @ ''http'' @ u_netloc u, bk_local = p @ ''/'',
         bk_remote = remote @ drop (length l) (p @ ''/''), bk_dedup = ng_enable_dedup (cf_nginx c)\<rparr>"
    using for_repo_own [OF assms(1,2)] by blast
  obtain p' l' u' remote' where q: "package_prefix q = Inr p'" "local_prefix q = Inr l'" "rp_upstream q = Some u'"
      "remote_prefix q u' = Inr remote'" "plain_upstream u'" "l' \<in> fst ` set (kb_routes b)" "l' \<noteq> []" "hd l' = CHR ''/''"
      "starts_with l' (p' @ ''/'')" "for_repo b q = Inr \<lparr>bk_base = kb_prefix b @ ''http'' @ u_netloc u', bk_local = p' @ ''/'',
         bk_remote = remote' @ drop (length l') (p' @ ''/''), bk_dedup = ng_enable_dedup (cf_nginx c)\<rparr>"
    using for_repo_own [OF assms(1,3)] by blast
  note hosts = plain_host [OF r(5)] plain_host [OF q(5)]
  obtain x y where xy: "p @ ''/'' = l @ x" "p' @ ''/'' = l' @ y" using r(9) q(9) by (auto simp: starts_with_iff)
  have local: "p @ ''/'' @ f \<noteq> p' @ ''/'' @ g" if "l \<noteq> l'"
  proof
    assume "p @ ''/'' @ f = p' @ ''/'' @ g"
    then have same: "l @ x @ f = l' @ y @ g" using xy by (metis append.assoc)
    have "prefix l (l @ x @ f)" "prefix l' (l @ x @ f)" by (simp, simp add: same)
    then have "prefix l l' \<or> prefix l' l" by (rule prefix_same_cases)
    then show False using compute_routes_inv(3) [OF rts(1)] r(6) q(6) rts(2) that by metis
  qed
  have both: "u_netloc u @ p @ ''/'' @ f = u_netloc u' @ p' @ ''/'' @ g \<longleftrightarrow>
      u_netloc u = u_netloc u' \<and> p @ ''/'' @ f = p' @ ''/'' @ g"
  proof (rule host_path_keys [OF hosts])
    have e: "p @ ''/'' @ f = l @ x @ f" "p' @ ''/'' @ g = l' @ y @ g" using xy by (metis append.assoc)+
    show "hd (p @ ''/'' @ f) = CHR ''/''" unfolding e using r(7,8) by simp
    show "hd (p' @ ''/'' @ g) = CHR ''/''" unfolding e using q(7,8) by simp
  qed simp_all
  have far: "u_netloc u @ (remote @ z) @ f = u_netloc u' @ (remote' @ z') @ g \<longleftrightarrow>
      u_netloc u = u_netloc u' \<and> (remote @ z) @ f = (remote' @ z') @ g" for z z'
    by (rule host_path_keys [OF hosts]) (use remote_prefix_start [OF r(4)] remote_prefix_start [OF q(4)] in simp_all)
  show ?thesis
    using r(2,3,10) q(2,3,10) local both far [of "drop (length l) (p @ ''/'')" "drop (length l') (p' @ ''/'')"]
    by (auto simp: cache_key_def)
qed

section \<open>A configuration with two repositories\<close>

definition sample_upstream :: url where
  "sample_upstream = \<lparr>u_scheme = ''https'', u_netloc = ''mirror.org'', u_host = Some ''mirror.org'', u_user = None,
     u_password = None, u_port_ok = True, u_path = ''/arch/core'', u_query = [], u_fragment = []\<rparr>"

definition sample_core :: repo_config where
  "sample_core = sample_repo\<lparr>rp_upstream := Some sample_upstream, rp_template := None\<rparr>"

definition sample_alpine :: repo_config where
  "sample_alpine = sample_core\<lparr>rp_id := ''alpine'', rp_type := ''apk''\<rparr>"

definition sample_site :: config where
  "sample_site = sample_config [sample_core, sample_alpine]"

definition sample_builder :: key_builder where
  "sample_builder = \<lparr>kb_prefix = [], kb_routes =
     [(''/arch/core/os/x86_64/'', \<lparr>ro_scheme = ''https'', ro_host = ''mirror.org'', ro_remote = ''/arch/core/'', ro_ttl = 300\<rparr>),
      (''/arch/core/x86_64/'', \<lparr>ro_scheme = ''https'', ro_host = ''mirror.org'', ro_remote = ''/arch/core/x86_64/'', ro_ttl = 300\<rparr>)],
     kb_dedup = False\<rparr>"

lemma sample_site_builder: "make_key_builder sample_site = Inr sample_builder"
  by code_simp

lemma routes_serve_every_repository_witness:
  "\<exists>l rt. local_prefix sample_core = Inr l \<and> map_of (kb_routes sample_builder) l = Some rt \<and> 1 \<le> ro_ttl rt"
proof -
  obtain kp routes kinds where rts: "compute_routes sample_site = Inr (kp, routes, kinds)" "routes = kb_routes sample_builder"
    using sample_site_builder by (auto simp: make_key_builder_def bind_Inr sample_builder_def)
  have "sample_core \<in> set (cf_repos sample_site)" by (simp add: sample_site_def sample_config_def)
  from routes_serve_every_repository [OF rts(1) this] rts(2) show ?thesis by blast
qed

lemma cache_keys_separate_witness:
  "\<exists>k m. for_repo sample_builder sample_core = Inr k \<and> for_repo sample_builder sample_alpine = Inr m \<and>
     cache_key k (Some False) ''a'' \<noteq> cache_key m (Some False) ''a''"
proof -
  have mem: "sample_core \<in> set (cf_repos sample_site)" "sample_alpine \<in> set (cf_repos sample_site)"
    by (simp_all add: sample_site_def sample_config_def)
  have "local_prefix sample_core \<noteq> local_prefix sample_alpine" by code_simp
  with cache_keys_separate [OF sample_site_builder mem] show ?thesis by blast
qed

end
