(* ===== verification/Warming_Policy.thy ===== *)
theory Warming_Policy
  imports Config_Types Store_Cache
begin

text \<open>
  \<open>warming_policy.py\<close>: which packages of a repository may be prefetched.  The patterns are those of
  \<open>fnmatch\<close>; \<open>glob_tokens\<close> reads a pattern the way \<open>fnmatch.translate\<close> does (an unclosed bracket is a
  plain character, an empty range disappears, a leading exclamation mark of what remains negates),
  and \<open>glob_match\<close> is the match of the regular expression against the whole name.
\<close>

datatype class_item = One char | Range char char

datatype token = Star | Any_char | Plain char | Class bool "class_item list"

text \<open>The characters between the brackets, and the text after the closing one.\<close>

definition class_split :: "str \<Rightarrow> (str \<times> str) option" where
  "class_split s =
     (let (a, s1) = (case s of [] \<Rightarrow> ([], []) | c # t \<Rightarrow> if c = CHR ''!'' then ([c], t) else ([], s));
          (b, s2) = (case s1 of [] \<Rightarrow> ([], []) | c # t \<Rightarrow> if c = CHR '']'' then ([c], t) else ([], s1))
      in map_option (\<lambda>(m, rest). (a @ b @ m, rest)) (partition_at '']'' s2))"

fun class_items :: "str \<Rightarrow> class_item list" where
  "class_items [] = []"
| "class_items [x] = [One x]"
| "class_items [x, y] = [One x, One y]"
| "class_items (x # y # z # s) =
     (if y = CHR ''-'' then Range x z # class_items s else One x # class_items (y # z # s))"

definition item_nonempty :: "class_item \<Rightarrow> bool" where
  "item_nonempty i = (case i of One c \<Rightarrow> True | Range a b \<Rightarrow> code a \<le> code b)"

definition class_token :: "str \<Rightarrow> token" where
  "class_token stuff =
     (let items = filter item_nonempty
            (case stuff of c # s \<Rightarrow> if c = CHR ''!'' then One c # class_items s else class_items stuff | [] \<Rightarrow> [])
      in case items of
           One c # rest \<Rightarrow> if c = CHR ''!'' then Class True rest else Class False items
         | Range a b # rest \<Rightarrow> if a = CHR ''!'' then Class True (One (CHR ''-'') # One b # rest) else Class False items
         | [] \<Rightarrow> Class False [])"

lemma partition_at_length: "partition_at sep s = Some (a, b) \<Longrightarrow> length b \<le> length s"
  by (induction sep s arbitrary: a b rule: partition_at.induct) (fastforce split: if_splits)+

lemma class_split_length: "class_split s = Some (stuff, rest) \<Longrightarrow> length rest \<le> length s"
  by (auto simp: class_split_def Let_def split: list.splits if_splits dest!: partition_at_length)

function glob_tokens :: "str \<Rightarrow> token list" where
  "glob_tokens [] = []"
| "glob_tokens (c # s) =
     (if c = CHR ''*'' then Star # glob_tokens s
      else if c = CHR ''?'' then Any_char # glob_tokens s
      else if c = CHR ''['' then
        (case class_split s of
           None \<Rightarrow> Plain c # glob_tokens s
         | Some (stuff, rest) \<Rightarrow> class_token stuff # glob_tokens rest)
      else Plain c # glob_tokens s)"
  by pat_completeness auto

termination
  by (relation "measure length") (auto dest: class_split_length)

definition item_has :: "char \<Rightarrow> class_item \<Rightarrow> bool" where
  "item_has c i = (case i of One a \<Rightarrow> c = a | Range a b \<Rightarrow> code a \<le> code c \<and> code c \<le> code b)"

definition char_matches :: "token \<Rightarrow> char \<Rightarrow> bool" where
  "char_matches t c = (case t of Star \<Rightarrow> True | Any_char \<Rightarrow> True | Plain a \<Rightarrow> c = a
     | Class negated items \<Rightarrow> (negated \<noteq> list_ex (item_has c) items))"

fun match_tokens :: "token list \<Rightarrow> str \<Rightarrow> bool" where
  "match_tokens [] s = (s = [])"
| "match_tokens (Star # ts) [] = match_tokens ts []"
| "match_tokens (Star # ts) (c # s) = (match_tokens ts (c # s) \<or> match_tokens (Star # ts) s)"
| "match_tokens (t # ts) [] = False"
| "match_tokens (t # ts) (c # s) = (char_matches t c \<and> match_tokens ts s)"

definition glob_match :: "str \<Rightarrow> str \<Rightarrow> bool" where
  "glob_match pattern name = match_tokens (glob_tokens pattern) name"

section \<open>The policy of one operation\<close>

record warming_policy =
  po_whitelist :: "str list"
  po_blacklist :: "str list"
  po_banned :: "str list"
  po_filtered :: bool
  po_names :: "(str \<times> str) list"

definition make_policy :: "repo_config \<Rightarrow> db \<Rightarrow> warming_policy" where
  "make_policy r d =
     (let banned = get_banned_packages (rp_id r) d;
          filtered = (rp_whitelist r \<noteq> [] \<or> rp_blacklist r \<noteq> [] \<or> banned \<noteq> [])
      in \<lparr>po_whitelist = rp_whitelist r, po_blacklist = rp_blacklist r, po_banned = banned, po_filtered = filtered,
          po_names = (if filtered then get_names (rp_id r) d else [])\<rparr>)"

definition allows :: "warming_policy \<Rightarrow> str \<Rightarrow> bool" where
  "allows p key =
     (if \<not> po_filtered p then True
      else (case map_of (po_names p) key of
              None \<Rightarrow> False
            | Some name \<Rightarrow>
                if name = [] \<or> name \<in> set (po_banned p) then False
                else \<not> list_ex (\<lambda>g. glob_match g name) (po_blacklist p) \<and>
                     (po_whitelist p = [] \<or> list_ex (\<lambda>g. glob_match g name) (po_whitelist p))))"

section \<open>Properties\<close>

text \<open>The words a token stands for: a star any word, every other token one character.\<close>

definition token_words :: "token \<Rightarrow> str set" where
  "token_words t = (if t = Star then UNIV else {[c] | c. char_matches t c})"

fun glob_language :: "token list \<Rightarrow> str set" where
  "glob_language [] = {[]}"
| "glob_language (t # ts) = {u @ v | u v. u \<in> token_words t \<and> v \<in> glob_language ts}"

lemma star_language: "s \<in> glob_language (Star # ts) \<longleftrightarrow> (\<exists>u v. s = u @ v \<and> v \<in> glob_language ts)"
  by (auto simp: token_words_def)

lemma suffix_cases: "(\<exists>u v. c # s = u @ v \<and> v \<in> L) \<longleftrightarrow> c # s \<in> L \<or> (\<exists>u v. s = u @ v \<and> v \<in> L)"
  unfolding Cons_eq_append_conv by blast

lemma single_language:
  assumes "t \<noteq> Star"
  shows "[] \<notin> glob_language (t # ts)" and "c # s \<in> glob_language (t # ts) \<longleftrightarrow> char_matches t c \<and> s \<in> glob_language ts"
proof -
  show "[] \<notin> glob_language (t # ts)" using assms by (auto simp: token_words_def)
  have "c # s \<in> glob_language (t # ts)" if "char_matches t c" "s \<in> glob_language ts"
    using that assms by (simp add: token_words_def) (rule exI [of _ "[c]"], simp)
  then show "c # s \<in> glob_language (t # ts) \<longleftrightarrow> char_matches t c \<and> s \<in> glob_language ts"
    using assms by (auto simp: token_words_def)
qed

lemma match_tokens_language: "match_tokens ts s \<longleftrightarrow> s \<in> glob_language ts"
proof (induction ts s rule: match_tokens.induct)
  case (1 s)
  then show ?case by simp
next
  case (2 ts)
  then show ?case unfolding star_language by simp
next
  case (3 ts c s)
  have "c # s \<in> glob_language (Star # ts) \<longleftrightarrow> c # s \<in> glob_language ts \<or> s \<in> glob_language (Star # ts)"
    unfolding star_language by (rule suffix_cases)
  with 3 show ?case by simp
qed (simp_all add: single_language del: glob_language.simps(2))

lemma plain_pattern:
  "list_all (\<lambda>c. c \<notin> set ''*?['') p \<Longrightarrow> glob_language (glob_tokens p) = {p}"
  by (induction p) (auto simp: token_words_def char_matches_def)

text \<open>The decision of a policy that filters.  A package is allowed exactly when the catalog has a
  name for its key, the name is not banned, it lies in the language of no blacklist pattern, and, if
  there is a whitelist, in the language of one of its patterns.\<close>
theorem policy_decision:
  assumes "db_keys d" and "po_filtered (make_policy r d)"
  shows "allows (make_policy r d) key \<longleftrightarrow>
     (\<exists>p \<in> set (repo_packages d). pk_repo p = rp_id r \<and> pk_key p = key \<and>
        (\<exists>name. pk_name p = Some name \<and> name \<noteq> [] \<and>
           (\<nexists>b. b \<in> set (prefetch_bans d) \<and> bn_repo b = rp_id r \<and> bn_name b = name) \<and>
           (\<nexists>g. g \<in> set (rp_blacklist r) \<and> name \<in> glob_language (glob_tokens g)) \<and>
           (rp_whitelist r = [] \<or> (\<exists>g \<in> set (rp_whitelist r). name \<in> glob_language (glob_tokens g)))))"
proof -
  let ?p = "make_policy r d"
  have fields: "po_whitelist ?p = rp_whitelist r" "po_blacklist ?p = rp_blacklist r"
    "set (po_banned ?p) = {bn_name b |b. b \<in> set (prefetch_bans d) \<and> bn_repo b = rp_id r}"
    "po_names ?p = get_names (rp_id r) d"
    using assms(2) by (auto simp: make_policy_def get_banned_packages_def Let_def)
  have "keyed pk_pkey (repo_packages d)" using assms(1) by (simp add: db_keys_def)
  then have "distinct (map fst (get_names (rp_id r) d))"
    by (auto simp: get_names_def keyed_def pk_pkey_def distinct_map inj_on_def o_def)
  then have names: "map_of (po_names ?p) key = Some name \<longleftrightarrow>
      (\<exists>q \<in> set (repo_packages d). pk_repo q = rp_id r \<and> pk_key q = key \<and> pk_name q = Some name)" for name
    unfolding fields(4) map_of_eq_Some_iff by (force simp: get_names_def)
  have "allows ?p key \<longleftrightarrow> (\<exists>name. map_of (po_names ?p) key = Some name \<and> name \<noteq> [] \<and> name \<notin> set (po_banned ?p) \<and>
      \<not> list_ex (\<lambda>g. glob_match g name) (rp_blacklist r) \<and>
      (rp_whitelist r = [] \<or> list_ex (\<lambda>g. glob_match g name) (rp_whitelist r)))"
    using assms(2) fields(1,2) by (auto simp: allows_def split: option.split)
  also have "\<dots> \<longleftrightarrow> (\<exists>name. (\<exists>q \<in> set (repo_packages d). pk_repo q = rp_id r \<and> pk_key q = key \<and> pk_name q = Some name) \<and>
      name \<noteq> [] \<and> (\<nexists>b. b \<in> set (prefetch_bans d) \<and> bn_repo b = rp_id r \<and> bn_name b = name) \<and>
      (\<nexists>g. g \<in> set (rp_blacklist r) \<and> name \<in> glob_language (glob_tokens g)) \<and>
      (rp_whitelist r = [] \<or> (\<exists>g \<in> set (rp_whitelist r). name \<in> glob_language (glob_tokens g))))"
    unfolding names fields(3) list_ex_iff glob_match_def match_tokens_language by blast
  finally show ?thesis by blast
qed

lemma keys_fold_insert_ignore:
  "key ` set (fold (insert_ignore key) news t) = key ` set news \<union> key ` set t"
proof (induction news arbitrary: t)
  case (Cons n news)
  have "key ` set (insert_ignore key n t) = insert (key n) (key ` set t)" by (auto simp: insert_ignore_def)
  with Cons show ?case by simp
qed simp

lemma fold_insert_ignore_set: "set t \<subseteq> set (fold (insert_ignore key) news t)"
proof (induction news arbitrary: t)
  case (Cons n news)
  have "set t \<subseteq> set (insert_ignore key n t)" by (rule insert_ignore_set)
  with Cons [of "insert_ignore key n t"] show ?case by simp
qed simp

lemma banned_after:
  assumes "names \<noteq> []"
  shows "set names \<subseteq> set (get_banned_packages repo (ban_packages now repo names d))"
proof
  fix n
  assume n: "n \<in> set names"
  have "(repo, n) \<in> bn_pkey ` set (map (\<lambda>n. \<lparr>bn_repo = repo, bn_name = n, bn_at = now\<rparr>) names)"
    using n by (force simp: bn_pkey_def)
  then have "(repo, n) \<in> bn_pkey ` set (prefetch_bans (ban_packages now repo names d))"
    using assms unfolding ban_packages_def by (simp add: keys_fold_insert_ignore del: set_map)
  then obtain b where "b \<in> set (prefetch_bans (ban_packages now repo names d))" "bn_repo b = repo" "bn_name b = n"
    by (auto simp: bn_pkey_def)
  then show "n \<in> set (get_banned_packages repo (ban_packages now repo names d))"
    by (force simp: get_banned_packages_def)
qed

text \<open>A ban takes effect with the next operation and only ever narrows: after names are banned in a
  repository, no package with one of these names is allowed there, every package allowed there was
  allowed before, and no other repository's policy changes.\<close>
theorem ban_is_final:
  assumes "db_keys d" and "names \<noteq> []"
  shows "(\<forall>p n. p \<in> set (repo_packages d) \<longrightarrow> pk_repo p = rp_id r \<longrightarrow> pk_name p = Some n \<longrightarrow> n \<in> set names \<longrightarrow>
            \<not> allows (make_policy r (ban_packages now (rp_id r) names d)) (pk_key p)) \<and>
         (\<forall>key. allows (make_policy r (ban_packages now (rp_id r) names d)) key \<longrightarrow> allows (make_policy r d) key) \<and>
         (\<forall>q. rp_id q \<noteq> rp_id r \<longrightarrow> make_policy q (ban_packages now (rp_id r) names d) = make_policy q d)"
proof (intro conjI)
  let ?d = "ban_packages now (rp_id r) names d"
  have banned: "set names \<subseteq> set (get_banned_packages (rp_id r) ?d)" using banned_after [OF assms(2)] .
  have mono: "b \<in> set (prefetch_bans ?d)" if "b \<in> set (prefetch_bans d)" for b
    using that fold_insert_ignore_set unfolding ban_packages_def by fastforce
  have old: "set (get_banned_packages (rp_id r) d) \<subseteq> set (get_banned_packages (rp_id r) ?d)"
    using mono by (auto simp: get_banned_packages_def)
  have cat: "get_names repo ?d = get_names repo d" for repo by (simp add: get_names_def ban_packages_def)
  have pol: "make_policy r ?d = \<lparr>po_whitelist = rp_whitelist r, po_blacklist = rp_blacklist r,
      po_banned = get_banned_packages (rp_id r) ?d, po_filtered = True, po_names = get_names (rp_id r) d\<rparr>"
    using banned assms(2) by (auto simp: make_policy_def Let_def cat)
  have keyed: "keyed pk_pkey (repo_packages d)" using assms(1) by (simp add: db_keys_def)
  then have distinct: "distinct (map fst (get_names (rp_id r) d))"
    by (auto simp: get_names_def keyed_def pk_pkey_def distinct_map inj_on_def o_def)
  show "\<forall>p n. p \<in> set (repo_packages d) \<longrightarrow> pk_repo p = rp_id r \<longrightarrow> pk_name p = Some n \<longrightarrow> n \<in> set names \<longrightarrow>
      \<not> allows (make_policy r ?d) (pk_key p)"
  proof (intro allI impI)
    fix p n
    assume p: "p \<in> set (repo_packages d)" "pk_repo p = rp_id r" "pk_name p = Some n" "n \<in> set names"
    have "(pk_key p, n) \<in> set (get_names (rp_id r) d)"
      using p by (force simp: get_names_def)
    then have "map_of (get_names (rp_id r) d) (pk_key p) = Some n" using distinct by simp
    then show "\<not> allows (make_policy r ?d) (pk_key p)" using p(4) banned unfolding pol by (auto simp: allows_def)
  qed
  show "\<forall>key. allows (make_policy r ?d) key \<longrightarrow> allows (make_policy r d) key"
    using old unfolding pol by (auto simp: allows_def make_policy_def Let_def split: option.splits if_splits)
  have "filter (\<lambda>b. bn_repo b = repo) (fold (insert_ignore bn_pkey) (map (\<lambda>n. \<lparr>bn_repo = rp_id r, bn_name = n, bn_at = now\<rparr>) ns) t)
      = filter (\<lambda>b. bn_repo b = repo) t" if "repo \<noteq> rp_id r" for repo ns t
    using that by (induction ns arbitrary: t) (auto simp: insert_ignore_def)
  then have "get_banned_packages (rp_id q) ?d = get_banned_packages (rp_id q) d" if "rp_id q \<noteq> rp_id r" for q :: repo_config
    using that by (simp add: get_banned_packages_def ban_packages_def)
  then show "\<forall>q. rp_id q \<noteq> rp_id r \<longrightarrow> make_policy q ?d = make_policy q d"
    by (simp add: make_policy_def Let_def cat)
qed

definition sample_names :: db where
  "sample_names = empty_db\<lparr>repo_packages :=
     [\<lparr>pk_repo = ''core'', pk_key = ''bash-5'', pk_name = Some ''bash'', pk_file = ''bash-5.zst'', pk_hash = None\<rparr>,
      \<lparr>pk_repo = ''core'', pk_key = ''zsh-1'', pk_name = Some ''zsh'', pk_file = ''zsh-1.zst'', pk_hash = None\<rparr>]\<rparr>"

definition sample_rules :: repo_config where
  "sample_rules = \<lparr>rp_id = ''core'', rp_type = ''pacman'', rp_upstream = None, rp_arch = ''x86_64'', rp_prefetch = True,
     rp_repo_name = Some ''core'', rp_distribution = None, rp_component = None, rp_verify = False,
     rp_apk_backend = ''openssl'', rp_apk_keys = None, rp_keyring = None, rp_interval = None, rp_bandwidth = None,
     rp_group = None, rp_template = None, rp_variables = [], rp_nix_source = None, rp_nix_attributes = [],
     rp_nix_keys = [], rp_nix_timeout = 600, rp_nix_max_paths = 500000, rp_whitelist = [''[a-c]*h''], rp_blacklist = []\<rparr>"

lemma sample_names_keys: "db_keys sample_names"
  by (simp add: sample_names_def db_keys_def empty_db_def keyed_def pk_pkey_def)

lemma policy_decision_witness:
  "allows (make_policy sample_rules sample_names) ''bash-5'' \<and> \<not> allows (make_policy sample_rules sample_names) ''zsh-1'' \<and>
   (\<exists>p \<in> set (repo_packages sample_names). pk_key p = ''bash-5'')"
proof -
  have yes: "allows (make_policy sample_rules sample_names) ''bash-5''" by code_simp
  moreover have "\<not> allows (make_policy sample_rules sample_names) ''zsh-1''" by code_simp
  moreover have filtered: "po_filtered (make_policy sample_rules sample_names)"
    by (simp add: make_policy_def sample_rules_def Let_def)
  moreover have "\<exists>p \<in> set (repo_packages sample_names). pk_key p = ''bash-5''"
    using policy_decision [THEN iffD1, OF sample_names_keys filtered yes] by blast
  ultimately show ?thesis by blast
qed

lemma ban_is_final_witness:
  "db_keys sample_names \<and> \<not> allows (make_policy sample_rules (ban_packages 7 ''core'' [''bash''] sample_names)) ''bash-5''"
proof -
  let ?p = "\<lparr>pk_repo = ''core'', pk_key = ''bash-5'', pk_name = Some ''bash'', pk_file = ''bash-5.zst'', pk_hash = None\<rparr>"
  have p: "?p \<in> set (repo_packages sample_names)" by (simp add: sample_names_def)
  have i: "rp_id sample_rules = ''core''" by (simp add: sample_rules_def)
  have "[''bash''] \<noteq> ([] :: str list)" by simp
  from ban_is_final [OF sample_names_keys this, of sample_rules 7] p i
  have "\<not> allows (make_policy sample_rules (ban_packages 7 ''core'' [''bash''] sample_names)) (pk_key ?p)" by fastforce
  then show ?thesis using sample_names_keys by simp
qed

end
