(* ===== verification/Warm.thy ===== *)
theory Warm
  imports Routing Warming_Policy Notifications "HOL-Library.Multiset"
begin

text \<open>
  \<open>operations/warm.py\<close> and \<open>cache/purge.py\<close>: downloading selected packages through the cache, and
  removing cached files.  The environment of an operation holds what is outside the program: one
  reading of the clock, the digest, the answers of the HTTP client, the order in which concurrent
  downloads finish, whether the scheduler still admits an automatic download when its turn comes,
  and the Nix backend of \<open>cache/nix.py\<close>, which is not modelled.
\<close>

section \<open>Webhook events of operations\<close>

datatype hook =
    Streak payload
  | Changed str nat nat nat nat
  | Warm_started str str nat nat bool
  | Warm_completed str str nat nat bool str "(nat \<times> nat \<times> nat) option"

definition notify_of :: "config \<Rightarrow> notify_config" where
  "notify_of c = \<lparr>nc_url = cf_webhook_url c, nc_events = cf_notify_events c, nc_threshold = nat (cf_notify_after c)\<rparr>"

definition emit_hook :: "config \<Rightarrow> str \<Rightarrow> hook \<Rightarrow> hook list" where
  "emit_hook c event h = (if enabled (notify_of c) event then [h] else [])"

section \<open>Environment\<close>

type_synonym warm_task = "str \<times> str \<times> str"
type_synonym outcomes = "(str \<times> bool) list"

datatype purge_answer = Status nat | Request_failed str

record env =
  en_now :: stamp
  en_digest :: "identity_fields \<Rightarrow> str"
  en_deliver :: "payload \<Rightarrow> bool"
  en_blob :: "str \<Rightarrow> str"
  en_operation :: str
  en_admit :: "str \<Rightarrow> bool"
  en_download :: "str \<Rightarrow> str option \<Rightarrow> bool \<times> int option"
  en_order :: "warm_task list \<Rightarrow> warm_task list"
  en_purge :: "str \<Rightarrow> purge_answer"
  en_purge_raw :: "repo_config \<Rightarrow> (str \<times> str) list \<Rightarrow> (str \<times> str) list"
  en_nix_warm :: "repo_config \<Rightarrow> (str \<times> str) list \<Rightarrow> bool \<Rightarrow> db \<Rightarrow> (config_error + outcomes) \<times> hook list \<times> db"
  en_nix_purge :: "repo_config \<Rightarrow> (str \<times> str) list \<Rightarrow> db \<Rightarrow> (config_error + (str \<times> str) list) \<times> db"

abbreviation identity_of :: "env \<Rightarrow> repo_config \<Rightarrow> str" where
  "identity_of e r \<equiv> catalog_identity (en_digest e) r"

section \<open>Warming\<close>

fun warm_tasks :: "config \<Rightarrow> repo_config \<Rightarrow> warming_policy \<Rightarrow> (str \<times> str) list \<Rightarrow> config_error + warm_task list" where
  "warm_tasks c r p [] = Inr []"
| "warm_tasks c r p ((key, filename) # rest) =
     (if filename = [] then warm_tasks c r p rest
      else if \<not> allows p key then warm_tasks c r p rest
      else bind (warm_url c r filename) (\<lambda>url. bind (warm_tasks c r p rest) (\<lambda>ts. Inr ((key, filename, url) # ts))))"

text \<open>One download: the outcomes, the failed keys in the order of failing, and the database.\<close>

definition run_task :: "env \<Rightarrow> repo_config \<Rightarrow> bool \<Rightarrow> (str \<times> str) list \<Rightarrow> warm_task
    \<Rightarrow> outcomes \<times> str list \<times> db \<Rightarrow> outcomes \<times> str list \<times> db" where
  "run_task e r force expected task st =
     (case (task, st) of ((key, filename, url), (outcomes, failed, d)) \<Rightarrow>
        if \<not> force \<and> \<not> en_admit e key then st
        else let digest = map_of expected key;
                 (ok, http) = en_download e url (if truthy digest then digest else None)
             in (AList.update key ok outcomes, if ok then failed else failed @ [key],
                 record_warmed_package (en_now e) (en_blob e key) (rp_id r) key filename ok http ''prefetch'' d))"

definition warm_message :: "str list \<Rightarrow> nat \<Rightarrow> str" where
  "warm_message failed n = show_nat (length failed) @ ''/'' @ show_nat n @
     '' packages failed to warm in this run (e.g.: '' @ hd failed @ '')''"

definition demanded :: "env \<Rightarrow> repo_config \<Rightarrow> bool \<Rightarrow> warm_task list \<Rightarrow> db \<Rightarrow> db" where
  "demanded e r force tasks d = (if force then record_interest (rp_id r) (map fst tasks) (identity_of e r) d else d)"

text \<open>After the last download: one failing package lengthens the streak of the run, none ends it.\<close>

definition finish_run :: "env \<Rightarrow> config \<Rightarrow> repo_config \<Rightarrow> nat \<Rightarrow> outcomes \<times> str list \<times> db
    \<Rightarrow> (config_error + outcomes) \<times> hook list \<times> db" where
  "finish_run e c r n st =
     (case st of (outcomes, failed, d) \<Rightarrow>
        if outcomes = [] then (Inr [], [], d)
        else let (out, d') =
               (if failed \<noteq> []
                then record_failure_and_maybe_notify (notify_of c) (en_deliver e) (en_now e) (rp_id r) ''prefetch''
                       (warm_message failed n) d
                else record_success_and_maybe_notify (notify_of c) (en_deliver e) (rp_id r) ''prefetch'' d)
             in (Inr outcomes, map Streak out, d'))"

definition warm_run :: "env \<Rightarrow> config \<Rightarrow> repo_config \<Rightarrow> (str \<times> str) list \<Rightarrow> bool \<Rightarrow> (str \<times> str) list \<Rightarrow> db
    \<Rightarrow> (config_error + outcomes) \<times> hook list \<times> db" where
  "warm_run e c r packages force expected d =
     (if rp_type r = ''nix'' then en_nix_warm e r packages force d
      else if \<not> force \<and> \<not> rp_prefetch r then (Inr [], [], d)
      else case warm_tasks c r (make_policy r d) packages of
        Inl err \<Rightarrow> (Inl err, [], d)
      | Inr tasks \<Rightarrow>
          if tasks = [] then (Inr [], [], d)
          else finish_run e c r (length tasks)
                 (fold (run_task e r force expected) (en_order e tasks) ([], [], demanded e r force tasks d)))"

definition warm_cache :: "env \<Rightarrow> config \<Rightarrow> repo_config \<Rightarrow> (str \<times> str) list \<Rightarrow> bool \<Rightarrow> (str \<times> str) list \<Rightarrow> db
    \<Rightarrow> (config_error + outcomes) \<times> hook list \<times> db" where
  "warm_cache e c r packages force expected d =
     (if packages = [] \<or> (\<not> force \<and> \<not> rp_prefetch r) \<or>
         \<not> list_ex (enabled (notify_of c)) [''warm.started'', ''warm.completed'']
      then warm_run e c r packages force expected d
      else let selected = filter (\<lambda>(key, path). path \<noteq> [] \<and> allows (make_policy r d) key) packages in
        if selected = [] then warm_run e c r packages force expected d
        else let start = emit_hook c ''warm.started''
                   (Warm_started (rp_id r) (en_operation e) (length packages) (length selected) force);
                 completed = Warm_completed (rp_id r) (en_operation e) (length packages) (length selected) force;
                 (result, hooks, d') = warm_run e c r selected force expected d
             in case result of
                  Inl err \<Rightarrow> (Inl err, start @ hooks @ emit_hook c ''warm.completed'' (completed ''error'' None), d')
                | Inr outcomes \<Rightarrow>
                    let succeeded = length (filter snd outcomes);
                        failed = length outcomes - succeeded;
                        status = (if failed \<noteq> 0 \<and> succeeded \<noteq> 0 then ''partial'' else if failed \<noteq> 0 then ''failed'' else ''completed'')
                    in (Inr outcomes, start @ hooks @ emit_hook c ''warm.completed''
                          (completed status (Some (succeeded, failed, length packages - length outcomes))), d'))"

record warm_report =
  wr_warmed :: "str list"
  wr_failed :: "str list"
  wr_skipped :: "str list"
  wr_not_found :: "str list"

definition warm_selected :: "env \<Rightarrow> config \<Rightarrow> repo_config \<Rightarrow> str list \<Rightarrow> db
    \<Rightarrow> (config_error + warm_report) \<times> hook list \<times> db" where
  "warm_selected e c r requested d =
     (let known = (case get_packages_by_keys (rp_id r) requested d of None \<Rightarrow> [] | Some ps \<Rightarrow> ps);
          to_warm = dict_of (concat (map (\<lambda>k. case map_of known k of None \<Rightarrow> [] | Some f \<Rightarrow> [(k, f)]) requested));
          not_found = filter (\<lambda>k. map_of known k = None) requested;
          (result, hooks, d') = (if to_warm \<noteq> [] then warm_cache e c r to_warm True [] d else (Inr [], [], d))
      in (case result of
            Inl err \<Rightarrow> (Inl err, hooks, d')
          | Inr outcomes \<Rightarrow> (Inr \<lparr>wr_warmed = sort (map fst (filter snd outcomes)),
              wr_failed = sort (map fst (filter (\<lambda>x. \<not> snd x) outcomes)),
              wr_skipped = sort (filter (\<lambda>k. k \<notin> fst ` set outcomes) (map fst to_warm)),
              wr_not_found = not_found\<rparr>, hooks, d')))"

section \<open>Purging\<close>

definition purge_outcome :: "purge_answer \<Rightarrow> str" where
  "purge_outcome a = (case a of
      Status n \<Rightarrow> if n = 200 then ''purged'' else if n = 404 then ''not_cached'' else ''error (HTTP '' @ show_nat n @ '')''
    | Request_failed detail \<Rightarrow> ''error ('' @ detail @ '')'')"

text \<open>The requests are independent of each other, so the result does not depend on their order.\<close>

fun purge_batch :: "env \<Rightarrow> config \<Rightarrow> repo_config \<Rightarrow> (str \<times> str) list \<Rightarrow> config_error + (str \<times> str) list" where
  "purge_batch e c r [] = Inr []"
| "purge_batch e c r ((key, filename) # items) =
     bind (purge_url c r filename) (\<lambda>url. bind (purge_batch e c r items) (\<lambda>results.
       Inr ((key, purge_outcome (en_purge e url)) # results)))"

definition purge_removed :: "env \<Rightarrow> config \<Rightarrow> repo_config \<Rightarrow> (str \<times> str) list \<Rightarrow> config_error + (str \<times> str) list" where
  "purge_removed e c r removed =
     (if \<not> ng_enable_purge (cf_nginx c) \<or> removed = [] then Inr [] else purge_batch e c r removed)"

definition purge_selected :: "env \<Rightarrow> config \<Rightarrow> repo_config \<Rightarrow> (str \<times> str) list \<Rightarrow> config_error + (str \<times> str) list" where
  "purge_selected e c r items = purge_batch e c r items"

section \<open>What a run records\<close>

lemma warm_tasks_mem:
  "warm_tasks c r p packages = Inr tasks \<Longrightarrow> (key, filename, url) \<in> set tasks \<Longrightarrow>
   (key, filename) \<in> set packages \<and> filename \<noteq> [] \<and> allows p key \<and> warm_url c r filename = Inr url"
  by (induction packages arbitrary: tasks) (auto simp: bind_Inr split: if_splits)

lemma warm_tasks_keys:
  "warm_tasks c r p packages = Inr tasks \<Longrightarrow> map fst tasks = map fst (filter (\<lambda>(k, f). f \<noteq> [] \<and> allows p k) packages)"
  by (induction packages arbitrary: tasks) (auto simp: bind_Inr split: if_splits)

lemma warmed_lookup:
  "lookup wm_pkey x (warmed_packages (record_warmed_package now blob repo key filename ok http source d)) =
     (if x = (repo, key)
      then Some (let new = \<lparr>wm_repo = repo, wm_key = key, wm_file = filename, wm_at = now,
              wm_status = (if ok then ''ok'' else ''failed''), wm_http = http, wm_source = Some source, wm_revision = blob\<rparr>
           in case lookup wm_pkey x (warmed_packages d) of None \<Rightarrow> new | Some old \<Rightarrow> wm_replace new old)
      else lookup wm_pkey x (warmed_packages d))"
  by (auto simp: record_warmed_package_def wm.lookup_upsert wm_pkey_def Let_def)

definition shows_attempt :: "repo_config \<Rightarrow> str \<Rightarrow> str \<Rightarrow> bool \<Rightarrow> db \<Rightarrow> bool" where
  "shows_attempt r key filename ok d \<longleftrightarrow> (\<exists>w. lookup wm_pkey (rp_id r, key) (warmed_packages d) = Some w \<and>
     wm_file w = filename \<and> wm_status w = (if ok then ''ok'' else ''failed''))"

lemma shows_recorded: "shows_attempt r key filename ok (record_warmed_package now blob (rp_id r) key filename ok http source d)"
  by (simp add: shows_attempt_def warmed_lookup Let_def wm_replace_def split: option.split)

lemma run_task_cases:
  "run_task e r force expected (key, filename, url) (outcomes, failed, d) = (outcomes, failed, d) \<or>
   (\<exists>ok http failed'. run_task e r force expected (key, filename, url) (outcomes, failed, d) =
      (AList.update key ok outcomes, failed',
       record_warmed_package (en_now e) (en_blob e key) (rp_id r) key filename ok http ''prefetch'' d))"
proof (cases "\<not> force \<and> \<not> en_admit e key")
  case True
  then show ?thesis by (simp add: run_task_def)
next
  case False
  obtain ok http where "en_download e url (if truthy (map_of expected key) then map_of expected key else None) = (ok, http)"
    by (metis prod.collapse)
  then have "run_task e r force expected (key, filename, url) (outcomes, failed, d) =
      (AList.update key ok outcomes, if ok then failed else failed @ [key],
       record_warmed_package (en_now e) (en_blob e key) (rp_id r) key filename ok http ''prefetch'' d)"
    unfolding run_task_def Let_def prod.case if_not_P [OF False] by simp
  then show ?thesis by blast
qed

lemma run_task_other:
  assumes "run_task e r force expected (key, filename, url) (outcomes, failed, d) = (outcomes', failed', d')"
  shows "(\<forall>k. k \<noteq> key \<longrightarrow> map_of outcomes' k = map_of outcomes k) \<and>
   (\<forall>x. x \<noteq> (rp_id r, key) \<longrightarrow> lookup wm_pkey x (warmed_packages d') = lookup wm_pkey x (warmed_packages d)) \<and>
   ((map_of outcomes' key = map_of outcomes key \<and> d' = d) \<or>
    (\<exists>ok. map_of outcomes' key = Some ok \<and> shows_attempt r key filename ok d'))"
  using run_task_cases [of e r force expected key filename url outcomes failed d]
proof
  assume "run_task e r force expected (key, filename, url) (outcomes, failed, d) = (outcomes, failed, d)"
  with assms show ?thesis by simp
next
  assume "\<exists>ok http failed'. run_task e r force expected (key, filename, url) (outcomes, failed, d) =
      (AList.update key ok outcomes, failed',
       record_warmed_package (en_now e) (en_blob e key) (rp_id r) key filename ok http ''prefetch'' d)"
  then obtain ok http where "outcomes' = AList.update key ok outcomes"
    "d' = record_warmed_package (en_now e) (en_blob e key) (rp_id r) key filename ok http ''prefetch'' d"
    using assms by auto
  then show ?thesis by (simp add: update_conv' warmed_lookup shows_recorded)
qed

definition attempts_ok :: "repo_config \<Rightarrow> warm_task list \<Rightarrow> db \<Rightarrow> outcomes \<times> str list \<times> db \<Rightarrow> bool" where
  "attempts_ok r tasks d st \<longleftrightarrow> (case st of (outcomes, failed, d') \<Rightarrow>
     (\<forall>key ok. map_of outcomes key = Some ok \<longrightarrow> (\<exists>filename url. (key, filename, url) \<in> set tasks \<and> shows_attempt r key filename ok d')) \<and>
     (\<forall>x. (\<forall>key. x = (rp_id r, key) \<longrightarrow> map_of outcomes key = None) \<longrightarrow>
        lookup wm_pkey x (warmed_packages d') = lookup wm_pkey x (warmed_packages d)))"

lemma attempts_ok_step:
  assumes "attempts_ok r prior d st" and "key \<notin> fst ` set prior"
  shows "attempts_ok r (prior @ [(key, filename, url)]) d (run_task e r force expected (key, filename, url) st)"
proof -
  obtain outcomes failed d1 where st: "st = (outcomes, failed, d1)" by (cases st)
  obtain outcomes' failed' d' where st': "run_task e r force expected (key, filename, url) st = (outcomes', failed', d')"
    by (metis prod_cases3)
  note one = run_task_other [OF st' [unfolded st]]
  have none: "map_of outcomes key = None" 
  proof (rule ccontr)
    assume "map_of outcomes key \<noteq> None"
    then obtain ok where "map_of outcomes key = Some ok" by blast
    then have "\<exists>f u. (key, f, u) \<in> set prior" using assms(1) unfolding attempts_ok_def st prod.case by blast
    then show False using assms(2) by force
  qed
  have first: "\<exists>f u. (k, f, u) \<in> set (prior @ [(key, filename, url)]) \<and> shows_attempt r k f ok d'"
    if "map_of outcomes' k = Some ok" for k ok
  proof (cases "k = key")
    case True
    then show ?thesis using that one none by auto
  next
    case False
    then have "map_of outcomes k = Some ok" using that one by simp
    then obtain f u where "(k, f, u) \<in> set prior" "shows_attempt r k f ok d1"
      using assms(1) unfolding attempts_ok_def st prod.case by blast
    moreover have "lookup wm_pkey (rp_id r, k) (warmed_packages d') = lookup wm_pkey (rp_id r, k) (warmed_packages d1)"
      using one False by blast
    ultimately show ?thesis by (auto simp: shows_attempt_def)
  qed
  have rest: "lookup wm_pkey x (warmed_packages d') = lookup wm_pkey x (warmed_packages d)"
    if x: "\<forall>k. x = (rp_id r, k) \<longrightarrow> map_of outcomes' k = None" for x
  proof -
    have same: "lookup wm_pkey x (warmed_packages d') = lookup wm_pkey x (warmed_packages d1)"
    proof (cases "x = (rp_id r, key)")
      case True
      then have "map_of outcomes' key = None" using x by blast
      then show ?thesis using one by simp
    next
      case False
      then show ?thesis using one by blast
    qed
    have "\<forall>k. x = (rp_id r, k) \<longrightarrow> map_of outcomes k = None" using x one none by (metis option.distinct(1))
    then have "lookup wm_pkey x (warmed_packages d1) = lookup wm_pkey x (warmed_packages d)"
      using assms(1) unfolding attempts_ok_def st prod.case by blast
    with same show ?thesis by simp
  qed
  show ?thesis unfolding st' attempts_ok_def prod.case using first rest by blast
qed

lemma attempts_ok_fold:
  "attempts_ok r prior d st \<Longrightarrow> distinct (map fst (prior @ ts)) \<Longrightarrow>
   attempts_ok r (prior @ ts) d (fold (run_task e r force expected) ts st)"
proof (induction ts arbitrary: prior st)
  case Nil
  then show ?case by simp
next
  case (Cons t ts)
  obtain key filename url where t: "t = (key, filename, url)" by (cases t)
  have "attempts_ok r (prior @ [t]) d (run_task e r force expected t st)"
    using attempts_ok_step [OF Cons.prems(1), of key] Cons.prems(2) t by auto
  from Cons.IH [OF this] Cons.prems(2) show ?case by simp
qed

text \<open>The notifications that end a run touch nothing but the failure streaks.\<close>

lemma failure_frame [simp]:
  "warmed_packages (snd (record_failure_and_maybe_notify c deliver now repo kind message d)) = warmed_packages d"
  "repo_packages (snd (record_failure_and_maybe_notify c deliver now repo kind message d)) = repo_packages d"
  "pending_replacements (snd (record_failure_and_maybe_notify c deliver now repo kind message d)) = pending_replacements d"
  by (auto simp: record_failure_and_maybe_notify_def bump_failure_def mark_failure_notified_def emit_def Let_def
      split: option.split prod.split)

lemma success_frame [simp]:
  "warmed_packages (snd (record_success_and_maybe_notify c deliver repo kind d)) = warmed_packages d"
  "repo_packages (snd (record_success_and_maybe_notify c deliver repo kind d)) = repo_packages d"
  "pending_replacements (snd (record_success_and_maybe_notify c deliver repo kind d)) = pending_replacements d"
  by (auto simp: record_success_and_maybe_notify_def reset_failure_def emit_def Let_def split: option.split prod.split)

lemma run_task_frame:
  "repo_packages (snd (snd (fold (run_task e r force expected) ts st))) = repo_packages (snd (snd st)) \<and>
   pending_replacements (snd (snd (fold (run_task e r force expected) ts st))) = pending_replacements (snd (snd st))"
proof (induction ts arbitrary: st)
  case Nil
  then show ?case by simp
next
  case (Cons t ts)
  obtain key filename url where t: "t = (key, filename, url)" by (cases t)
  obtain outcomes failed d where st: "st = (outcomes, failed, d)" by (cases st)
  have "repo_packages (snd (snd (run_task e r force expected t st))) = repo_packages (snd (snd st)) \<and>
      pending_replacements (snd (snd (run_task e r force expected t st))) = pending_replacements (snd (snd st))"
    using run_task_cases [of e r force expected key filename url outcomes failed d]
    by (auto simp: t st record_warmed_package_def)
  with Cons show ?case by simp
qed

lemma record_interest_same [simp]:
  "warmed_packages (record_interest repo keys i d) = warmed_packages d"
  "repo_packages (record_interest repo keys i d) = repo_packages d"
  "pending_replacements (record_interest repo keys i d) = pending_replacements d"
  by (simp_all add: record_interest_def)

text \<open>The order in which downloads finish is any permutation of the tasks.\<close>

definition fair_env :: "env \<Rightarrow> bool" where
  "fair_env e \<longleftrightarrow> (\<forall>ts. mset (en_order e ts) = mset ts)"

definition warm_contract :: "config \<Rightarrow> repo_config \<Rightarrow> (str \<times> str) list \<Rightarrow> bool \<Rightarrow> db \<Rightarrow> outcomes \<Rightarrow> db \<Rightarrow> bool" where
  "warm_contract c r packages force d outcomes d' \<longleftrightarrow>
     (\<forall>key ok. map_of outcomes key = Some ok \<longrightarrow>
        (force \<or> rp_prefetch r) \<and> allows (make_policy r d) key \<and>
        (\<exists>filename. (key, filename) \<in> set packages \<and> filename \<noteq> [] \<and> shows_attempt r key filename ok d')) \<and>
     (\<forall>x. (\<forall>key. x = (rp_id r, key) \<longrightarrow> map_of outcomes key = None) \<longrightarrow>
        lookup wm_pkey x (warmed_packages d') = lookup wm_pkey x (warmed_packages d)) \<and>
     repo_packages d' = repo_packages d \<and> pending_replacements d' = pending_replacements d"

lemma warm_contract_idle: "warm_contract c r packages force d [] d"
  by (simp add: warm_contract_def)

lemma warm_contract_mono:
  "warm_contract c r packages force d outcomes d' \<Longrightarrow> set packages \<subseteq> set packages' \<Longrightarrow>
   warm_contract c r packages' force d outcomes d'"
  unfolding warm_contract_def by blast

lemma finish_run_frame:
  assumes "finish_run e c r n (os, failed, d) = (result, hooks, d')"
  shows "result = Inr os \<and> warmed_packages d' = warmed_packages d \<and> repo_packages d' = repo_packages d \<and>
    pending_replacements d' = pending_replacements d"
proof (cases "os = []")
  case True
  then show ?thesis using assms by (simp add: finish_run_def)
next
  case False
  then have "result = Inr os \<and> (d' = snd (record_failure_and_maybe_notify (notify_of c) (en_deliver e) (en_now e) (rp_id r) ''prefetch''
      (warm_message failed n) d) \<or> d' = snd (record_success_and_maybe_notify (notify_of c) (en_deliver e) (rp_id r) ''prefetch'' d))"
    using assms by (simp add: finish_run_def case_prod_unfold Let_def split: if_splits)
  then show ?thesis by auto
qed

lemma warm_run_contract:
  assumes "warm_run e c r packages force expected d = (Inr outcomes, hooks, d')"
    and "rp_type r \<noteq> ''nix''" and "distinct (map fst packages)" and "fair_env e"
  shows "warm_contract c r packages force d outcomes d'"
proof (cases "\<not> force \<and> \<not> rp_prefetch r")
  case True
  then show ?thesis using assms(1,2) by (simp add: warm_run_def warm_contract_idle)
next
  case on: False
  obtain tasks where tasks: "warm_tasks c r (make_policy r d) packages = Inr tasks"
    using assms(1,2) on by (auto simp: warm_run_def split: sum.splits if_splits)
  show ?thesis
  proof (cases "tasks = []")
    case True
    have "outcomes = [] \<and> d' = d" using assms(1,2) on tasks True unfolding warm_run_def by (simp split: if_splits)
    then show ?thesis by (simp add: warm_contract_idle)
  next
    case False
    define d1 where "d1 = demanded e r force tasks d"
    have tables1: "warmed_packages d1 = warmed_packages d" "repo_packages d1 = repo_packages d"
        "pending_replacements d1 = pending_replacements d" by (simp_all add: d1_def demanded_def)
    obtain os failed d2 where run: "fold (run_task e r force expected) (en_order e tasks) ([], [], d1) = (os, failed, d2)"
      by (metis prod_cases3)
    have "finish_run e c r (length tasks) (os, failed, d2) = (Inr outcomes, hooks, d')"
      using assms(1,2) tasks False run unfolding warm_run_def if_not_P [OF on] d1_def by simp
    then have same: "outcomes = os" and tables: "warmed_packages d' = warmed_packages d2" "repo_packages d' = repo_packages d2"
        "pending_replacements d' = pending_replacements d2"
      using finish_run_frame by blast+
    have distinct: "distinct (map fst (en_order e tasks))"
    proof -
      have "mset (map fst (en_order e tasks)) = mset (map fst tasks)" using assms(4) by (simp add: fair_env_def)
      moreover have "distinct (map fst tasks)"
        using warm_tasks_keys [OF tasks] assms(3) by (simp add: distinct_map_filter)
      ultimately show ?thesis by (metis mset_eq_imp_distinct_iff)
    qed
    have "attempts_ok r [] d1 ([], [], d1)" by (simp add: attempts_ok_def)
    from attempts_ok_fold [OF this, of "en_order e tasks" e force expected] distinct run
    have ok: "attempts_ok r (en_order e tasks) d1 (os, failed, d2)" by simp
    have mem: "set (en_order e tasks) = set tasks" using assms(4) by (metis fair_env_def set_mset_mset)
    have one: "(force \<or> rp_prefetch r) \<and> allows (make_policy r d) key \<and>
        (\<exists>filename. (key, filename) \<in> set packages \<and> filename \<noteq> [] \<and> shows_attempt r key filename ok' d')"
      if some: "map_of outcomes key = Some ok'" for key ok'
    proof -
      obtain filename url where t: "(key, filename, url) \<in> set tasks" "shows_attempt r key filename ok' d2"
        using ok some same mem unfolding attempts_ok_def prod.case by blast
      have "shows_attempt r key filename ok' d'" using t(2) tables by (simp add: shows_attempt_def)
      then show ?thesis using warm_tasks_mem [OF tasks t(1)] on by blast
    qed
    have rest: "lookup wm_pkey x (warmed_packages d') = lookup wm_pkey x (warmed_packages d)"
      if "\<forall>key. x = (rp_id r, key) \<longrightarrow> map_of outcomes key = None" for x
    proof -
      have "lookup wm_pkey x (warmed_packages d2) = lookup wm_pkey x (warmed_packages d1)"
        using ok that same unfolding attempts_ok_def prod.case by blast
      then show ?thesis by (simp add: tables tables1)
    qed
    have "repo_packages d2 = repo_packages d \<and> pending_replacements d2 = pending_replacements d"
      using run_task_frame [of e r force expected "en_order e tasks" "([], [], d1)"] run by (simp add: tables1)
    then show ?thesis unfolding warm_contract_def using one rest tables by simp
  qed
qed


section \<open>A concrete run\<close>

definition sample_env :: env where
  "sample_env = \<lparr>en_now = 100, en_digest = (\<lambda>_. ''id''), en_deliver = (\<lambda>_. True), en_blob = (\<lambda>k. k), en_operation = ''op'',
     en_admit = (\<lambda>_. True), en_download = (\<lambda>url digest. (url = ''http://127.0.0.1:8080/arch/core/os/x86_64/bash-5.zst'', Some 200)),
     en_order = rev, en_purge = (\<lambda>_. Status 200), en_purge_raw = (\<lambda>_ items. map (\<lambda>(k, f). (k, ''purged'')) items),
     en_nix_warm = (\<lambda>_ _ _ d. (Inr [], [], d)), en_nix_purge = (\<lambda>_ _ d. (Inr [], d))\<rparr>"

definition sample_warmed :: db where
  "sample_warmed = empty_db\<lparr>warmed_packages :=
     [\<lparr>wm_repo = ''core'', wm_key = ''bash-5'', wm_file = ''bash-5.zst'', wm_at = 100, wm_status = ''ok'',
       wm_http = Some 200, wm_source = Some ''prefetch'', wm_revision = ''bash-5''\<rparr>]\<rparr>"

lemma sample_warm:
  "warm_cache sample_env sample_site sample_core [(''bash-5'', ''bash-5.zst'')] True [] empty_db =
     (Inr [(''bash-5'', True)], [], sample_warmed)"
  by code_simp


end
