(* ===== verification/Cleanup.thy ===== *)
theory Cleanup
  imports Warm Store_Requests
begin

text \<open>
  \<open>operations/cleanup.py\<close>: retention, purging with persistent bookkeeping, and the rows left behind by
  repositories that are no longer configured.  The Nix purge and the raw purge of \<open>cache/probe.py\<close>,
  with the canonical keys it is told about, are functions of the environment.
\<close>

definition resolved_outcomes :: "str list" where
  "resolved_outcomes = [''purged'', ''not_cached'', ''retained_shared'']"

definition resolved_purge_keys :: "(str \<times> str) list \<Rightarrow> str list" where
  "resolved_purge_keys results = map fst (filter (\<lambda>(key, outcome). outcome \<in> set resolved_outcomes) results)"

definition purge_items :: "env \<Rightarrow> config \<Rightarrow> repo_config \<Rightarrow> (str \<times> str) list \<Rightarrow> db \<Rightarrow> (config_error + (str \<times> str) list) \<times> db" where
  "purge_items e c r items d =
     (if rp_type r = ''nix'' then en_nix_purge e r items d
      else if ng_enable_probe (cf_nginx c) then (Inr (en_purge_raw e r items), d)
      else (purge_selected e c r items, d))"

text \<open>\<open>setdefault\<close> on a dictionary per repository: the items of each repository in order of arrival.\<close>

definition by_repo :: "(str \<times> str \<times> str) list \<Rightarrow> (str \<times> (str \<times> str) list) list" where
  "by_repo stale = map (\<lambda>repo. (repo, dict_of (map snd (filter (\<lambda>x. fst x = repo) stale)))) (unique (map fst stale))"

section \<open>Stale entries\<close>

fun purge_stale :: "env \<Rightarrow> config \<Rightarrow> (str \<times> (str \<times> str) list) list \<Rightarrow> db \<Rightarrow> config_error option \<times> db" where
  "purge_stale e c [] d = (None, d)"
| "purge_stale e c ((repo_id, items) # rest) d =
     (let records = get_warmed_records (en_now e) repo_id (map fst items) (Some (nat (cf_warmed_days c))) d;
          current = map (\<lambda>(key, file, revision). (key, file)) records
      in if current = [] then purge_stale e c rest d
         else case find_repo c repo_id of
           None \<Rightarrow> purge_stale e c rest (snd (remove_purged_records repo_id records (map fst current) d))
         | Some r \<Rightarrow>
             (case purge_items e c r current d of
                (Inl err, d1) \<Rightarrow> (Some err, d1)
              | (Inr results, d1) \<Rightarrow>
                  purge_stale e c rest (snd (remove_purged_records repo_id records (resolved_purge_keys results) d1))))"

definition purge_and_unwarm_stale :: "env \<Rightarrow> config \<Rightarrow> (str \<times> str \<times> str) list \<Rightarrow> db \<Rightarrow> config_error option \<times> db" where
  "purge_and_unwarm_stale e c stale d = purge_stale e c (by_repo stale) d"

fun purge_unlisted :: "env \<Rightarrow> config \<Rightarrow> (str \<times> (str \<times> str) list) list \<Rightarrow> db
    \<Rightarrow> (config_error + (str \<times> (str \<times> str) list) list) \<times> db" where
  "purge_unlisted e c [] d = (Inr [], d)"
| "purge_unlisted e c ((repo_id, items) # rest) d =
     (case find_repo c repo_id of
        None \<Rightarrow> purge_unlisted e c rest d
      | Some r \<Rightarrow>
          let records = get_warmed_records (en_now e) repo_id (map fst items) None d;
              filenames = map (\<lambda>(key, file, revision). (key, file)) records
          in if filenames = [] then purge_unlisted e c rest d
             else (case purge_items e c r filenames d of
                     (Inl err, d1) \<Rightarrow> (Inl err, d1)
                   | (Inr results, d1) \<Rightarrow>
                       (case purge_unlisted e c rest (snd (remove_purged_records repo_id records (resolved_purge_keys results) d1)) of
                          (Inl err, d2) \<Rightarrow> (Inl err, d2)
                        | (Inr all, d2) \<Rightarrow> (Inr ((repo_id, results) # all), d2))))"

definition purge_removed_from_index :: "env \<Rightarrow> config \<Rightarrow> (str \<times> str \<times> str) list \<Rightarrow> db
    \<Rightarrow> (config_error + (str \<times> (str \<times> str) list) list) \<times> db" where
  "purge_removed_from_index e c items d = purge_unlisted e c (by_repo items) d"

section \<open>The retention pass\<close>

definition prune_warmed :: "env \<Rightarrow> config \<Rightarrow> db \<Rightarrow> config_error option \<times> db" where
  "prune_warmed e c d =
     (if \<not> sy_enabled (cf_syslog c) then (None, d)
      else if ng_enable_purge (cf_nginx c)
      then let stale = get_stale_warmed_packages (en_now e) (nat (cf_warmed_days c)) d in
           (if stale \<noteq> [] then purge_and_unwarm_stale e c stale d else (None, d))
      else (None, snd (prune_warmed_packages (en_now e) (nat (cf_warmed_days c)) d)))"

definition prune_sizes :: "config \<Rightarrow> db \<Rightarrow> db" where
  "prune_sizes c d =
     (let d1 = (case cf_event_rows c of None \<Rightarrow> d | Some n \<Rightarrow> snd (prune_events_by_size (nat n) d))
      in case cf_request_rows c of None \<Rightarrow> d1 | Some n \<Rightarrow> snd (prune_requests_by_size (nat n) d1))"

definition prune_all :: "env \<Rightarrow> config \<Rightarrow> db \<Rightarrow> config_error option \<times> db" where
  "prune_all e c d =
     (let d1 = snd (prune_events (en_now e) (nat (cf_event_days c)) d);
          d2 = snd (prune_requests (en_now e) (nat (cf_request_days c)) d1);
          (err, d3) =
            (if ng_enable_purge (cf_nginx c) \<and> find_all_stale_warmed d2 \<noteq> []
             then (case purge_removed_from_index e c (find_all_stale_warmed d2) d2 of
                     (Inl err, d3) \<Rightarrow> (Some err, d3) | (Inr _, d3) \<Rightarrow> (None, d3))
             else (None, d2))
      in if err \<noteq> None then (err, d3)
         else case prune_warmed e c d3 of
           (Some err, d4) \<Rightarrow> (Some err, d4)
         | (None, d4) \<Rightarrow> (None, prune_sizes c d4))"

section \<open>Orphaned repositories\<close>

definition active_ids :: "config \<Rightarrow> str list" where
  "active_ids c = map rp_id (cf_repos c)"

definition with_failures :: "nat \<Rightarrow> (str \<times> nat) list \<Rightarrow> (str \<times> nat) list" where
  "with_failures n rows = (if n \<noteq> 0 then AList.update ''failure_state'' n rows else rows)"

definition find_orphaned_repos :: "config \<Rightarrow> db \<Rightarrow> (str \<times> (str \<times> nat) list) list" where
  "find_orphaned_repos c d =
     map (\<lambda>repo. (repo, with_failures (notifications_row_count repo d) (repositories_row_counts repo d @ cache_row_counts repo d)))
       (sort (filter (\<lambda>repo. repo \<notin> set (active_ids c))
          (remdups (repositories_ids d @ cache_ids d @ notifications_ids d))))"

fun purge_orphaned_repos :: "config \<Rightarrow> str list \<Rightarrow> db \<Rightarrow> (str \<times> (str \<times> nat) list) list \<times> db" where
  "purge_orphaned_repos c [] d = ([], d)"
| "purge_orphaned_repos c (repo # repo_ids) d =
     (if repo \<in> set (active_ids c) then purge_orphaned_repos c repo_ids d
      else let (n1, d1) = repositories_delete repo d;
               (n2, d2) = cache_delete repo d1;
               (n3, d3) = notifications_delete repo d2;
               rows = with_failures n3 (n1 @ n2);
               (results, d4) = purge_orphaned_repos c repo_ids d3
           in (if rows \<noteq> [] then (repo, rows) # results else results, d4))"

end
