(* ===== verification/Dispatcher.thy ===== *)
theory Dispatcher
  imports Slots Cleanup
begin

text \<open>
  \<open>runtime/scheduler.py\<close>: when a repository is due, one pass over all due repositories, the dispatcher
  that owns one task per repository, and the daemon's tick with its retention task.  Tasks are
  numbered in the order of creation; how and when a task ends is a step of the environment.  A
  database error is fatal: it ends the operation that observes it.
\<close>

section \<open>Due repositories\<close>

definition is_due :: "config \<Rightarrow> repo_config \<Rightarrow> (str \<times> summary option \<times> nat option) list \<Rightarrow> stamp \<Rightarrow> bool" where
  "is_due c r summaries now =
     (case map_of summaries (rp_id r) of
        Some (Some s, _) \<Rightarrow>
          (case su_last_check s of None \<Rightarrow> True | Some seen \<Rightarrow> now - seen \<ge> effective_check_interval c r)
      | _ \<Rightarrow> True)"

text \<open>Stored timestamps are instants here, so none of them fails to parse and the list of failed
  repositories is empty.\<close>

definition due_repositories :: "config \<Rightarrow> db \<Rightarrow> stamp \<Rightarrow> repo_config list \<Rightarrow> repo_config list" where
  "due_repositories c d now repos = (let summaries = get_repo_summaries False d in filter (\<lambda>r. is_due c r summaries now) repos)"

datatype task_end = Succeeded | Failed | Fatal

text \<open>\<open>check_all\<close>: \<open>None\<close> is a fatal failure of one of the checks.\<close>

definition check_all :: "(repo_config \<Rightarrow> task_end) \<Rightarrow> config \<Rightarrow> db \<Rightarrow> stamp \<Rightarrow> str list option" where
  "check_all check c d now =
     (let due = due_repositories c d now (cf_repos c) in
      if list_ex (\<lambda>r. check r = Fatal) due then None
      else Some (map rp_id (filter (\<lambda>r. check r = Failed) due)))"

section \<open>The dispatcher\<close>

datatype run_state = Running | Cancelling | Ended task_end | Cancelled

record run =
  rn_repo :: repo_config
  rn_state :: run_state

record dispatcher =
  dp_tasks :: "(str \<times> nat) list"
  dp_runs :: "run list"
  dp_size :: "int option"
  dp_auto :: "(str \<times> repo_config) list option"

definition new_dispatcher :: dispatcher where
  "new_dispatcher = \<lparr>dp_tasks = [], dp_runs = [], dp_size = None, dp_auto = None\<rparr>"

definition is_done :: "run_state \<Rightarrow> bool" where
  "is_done s \<longleftrightarrow> (case s of Running \<Rightarrow> False | Cancelling \<Rightarrow> False | Ended _ \<Rightarrow> True | Cancelled \<Rightarrow> True)"

definition state_of :: "dispatcher \<Rightarrow> nat \<Rightarrow> run_state" where
  "state_of p t = rn_state (dp_runs p ! t)"

text \<open>The flag says that the error of a finished task was raised; the tasks not yet visited then stay.\<close>

fun reap :: "(str \<times> nat) list \<Rightarrow> dispatcher \<Rightarrow> bool \<times> dispatcher" where
  "reap [] p = (False, p)"
| "reap ((repo_id, t) # items) p =
     (if \<not> is_done (state_of p t) then reap items p
      else let p' = p\<lparr>dp_tasks := AList.delete repo_id (dp_tasks p)\<rparr> in
        if state_of p t = Ended Fatal then (True, p') else reap items p')"

definition cancel_run :: "nat \<Rightarrow> dispatcher \<Rightarrow> dispatcher" where
  "cancel_run t p =
     (if state_of p t = Running then p\<lparr>dp_runs := (dp_runs p)[t := (dp_runs p ! t)\<lparr>rn_state := Cancelling\<rparr>]\<rparr> else p)"

definition start_run :: "repo_config \<Rightarrow> dispatcher \<Rightarrow> dispatcher" where
  "start_run r p = p\<lparr>dp_tasks := AList.update (rp_id r) (length (dp_runs p)) (dp_tasks p),
     dp_runs := dp_runs p @ [\<lparr>rn_repo = r, rn_state = Running\<rparr>]\<rparr>"

definition reconcile :: "config \<Rightarrow> db \<Rightarrow> stamp \<Rightarrow> dispatcher \<Rightarrow> bool \<times> dispatcher" where
  "reconcile c d now p =
     (let p0 = p\<lparr>dp_auto := Some (map (\<lambda>r. (rp_id r, r)) (cf_repos c))\<rparr>;
          (fatal, p1) = reap (dp_tasks p0) p0
      in if fatal then (True, p1)
         else let p2 = p1\<lparr>dp_size := Some (cf_check_concurrency c)\<rparr>;
                  unwanted = filter (\<lambda>(i, t). i \<notin> rp_id ` set (cf_repos c)) (dp_tasks p2);
                  p3 = fold (\<lambda>(i, t). cancel_run t) unwanted p2;
                  due = due_repositories c d now (filter (\<lambda>r. rp_id r \<notin> fst ` set (dp_tasks p3)) (cf_repos c))
              in (False, fold start_run due p3))"

text \<open>\<open>close\<close>: every task is cancelled and awaited; what it ends with is not observed.\<close>

definition close_dispatcher :: "dispatcher \<Rightarrow> dispatcher" where
  "close_dispatcher p = p\<lparr>dp_tasks := [], dp_runs := map (\<lambda>r. if is_done (rn_state r) then r else r\<lparr>rn_state := Cancelled\<rparr>) (dp_runs p)\<rparr>"

text \<open>\<open>ServiceState.automatic_warm_enabled\<close>\<close>

definition automatic_warm_enabled :: "(identity_fields \<Rightarrow> str) \<Rightarrow> dispatcher \<Rightarrow> repo_config \<Rightarrow> bool" where
  "automatic_warm_enabled digest p r =
     (case (case dp_auto p of None \<Rightarrow> Some r | Some repos \<Rightarrow> map_of (rev repos) (rp_id r)) of
        None \<Rightarrow> False
      | Some current \<Rightarrow> rp_prefetch current \<and> catalog_identity digest current = catalog_identity digest r)"

inductive dispatch_step :: "dispatcher \<Rightarrow> dispatcher \<Rightarrow> bool" where
  tick: "distinct (map rp_id (cf_repos c)) \<Longrightarrow> reconcile c d now p = (fatal, p') \<Longrightarrow> dispatch_step p p'"
| ends: "t < length (dp_runs p) \<Longrightarrow> state_of p t \<in> {Running, Cancelling} \<Longrightarrow> is_done s \<Longrightarrow>
    dispatch_step p (p\<lparr>dp_runs := (dp_runs p)[t := (dp_runs p ! t)\<lparr>rn_state := s\<rparr>]\<rparr>)"
| stop: "dispatch_step p (close_dispatcher p)"

inductive dispatched :: "dispatcher \<Rightarrow> bool" where
  start: "dispatched new_dispatcher"
| more: "dispatched p \<Longrightarrow> dispatch_step p p' \<Longrightarrow> dispatched p'"

section \<open>The daemon\<close>

definition prune_interval :: int where
  "prune_interval = 3600"

record daemon =
  dm_config :: config
  dm_dispatcher :: dispatcher
  dm_prune :: "run_state option"
  dm_last_prune :: "int option"

text \<open>\<open>_reap_prune\<close>: a failed prune is fatal.\<close>

definition reap_prune :: "run_state option \<Rightarrow> bool \<times> run_state option" where
  "reap_prune task =
     (case task of
        Some s \<Rightarrow> if is_done s then (s = Ended Fatal \<or> s = Ended Failed, None) else (False, Some s)
      | None \<Rightarrow> (False, None))"

text \<open>One tick: \<open>loaded\<close> is what reading the configuration gave, \<open>clock\<close> the monotonic time in seconds.
  The second component says whether a retention task was started; \<open>None\<close> is a fatal error.\<close>

definition daemon_tick :: "config_error + config \<Rightarrow> db \<Rightarrow> stamp \<Rightarrow> int \<Rightarrow> daemon \<Rightarrow> (daemon \<times> bool) option" where
  "daemon_tick loaded d now clock m =
     (let c = (case loaded of Inl _ \<Rightarrow> dm_config m | Inr c \<Rightarrow> c);
          (fatal, p) = reconcile c d now (dm_dispatcher m)
      in if fatal then None
         else let (failed, prune) = reap_prune (dm_prune m) in
           if failed then None
           else if prune = None \<and> (case dm_last_prune m of None \<Rightarrow> True | Some begun \<Rightarrow> clock - begun \<ge> prune_interval)
           then Some (\<lparr>dm_config = c, dm_dispatcher = p, dm_prune = Some Running, dm_last_prune = Some clock\<rparr>, True)
           else Some (\<lparr>dm_config = c, dm_dispatcher = p, dm_prune = prune, dm_last_prune = dm_last_prune m\<rparr>, False))"

text \<open>What happens between two ticks: the retention task may end; the ticks of a run carry the result of
  reading the configuration, the database and both clocks.\<close>

record tick =
  ti_loaded :: "config_error + config"
  ti_db :: db
  ti_now :: stamp
  ti_clock :: int
  ti_prune_ends :: "run_state option"

fun daemon_run :: "tick list \<Rightarrow> daemon \<Rightarrow> (daemon \<times> int list) option" where
  "daemon_run [] m = Some (m, [])"
| "daemon_run (t # ts) m =
     (let m' = (case (dm_prune m, ti_prune_ends t) of
                  (Some _, Some s) \<Rightarrow> m\<lparr>dm_prune := Some s\<rparr> | _ \<Rightarrow> m)
      in case daemon_tick (ti_loaded t) (ti_db t) (ti_now t) (ti_clock t) m' of
           None \<Rightarrow> None
         | Some (m2, started) \<Rightarrow>
             (case daemon_run ts m2 of
                None \<Rightarrow> None
              | Some (m3, starts) \<Rightarrow> Some (m3, if started then ti_clock t # starts else starts)))"

section \<open>One live task per repository\<close>

definition live :: "dispatcher \<Rightarrow> nat \<Rightarrow> bool" where
  "live p t \<longleftrightarrow> t < length (dp_runs p) \<and> \<not> is_done (state_of p t)"

definition run_id :: "dispatcher \<Rightarrow> nat \<Rightarrow> str" where
  "run_id p t = rp_id (rn_repo (dp_runs p ! t))"

definition dispatch_inv :: "dispatcher \<Rightarrow> bool" where
  "dispatch_inv p \<longleftrightarrow> distinct (map fst (dp_tasks p)) \<and>
     (\<forall>(i, t) \<in> set (dp_tasks p). t < length (dp_runs p) \<and> run_id p t = i) \<and>
     (\<forall>t. live p t \<longrightarrow> (run_id p t, t) \<in> set (dp_tasks p))"

lemma delete_set: "set (AList.delete i xs) = {x \<in> set xs. fst x \<noteq> i}"
  by (auto simp: AList.delete_eq)

lemma dispatch_inv_one:
  "dispatch_inv p \<Longrightarrow> live p s \<Longrightarrow> live p t \<Longrightarrow> run_id p s = run_id p t \<Longrightarrow> s = t"
  unfolding dispatch_inv_def by (metis eq_key_imp_eq_value)

lemma dispatch_inv_delete:
  assumes "dispatch_inv p" "(i, t) \<in> set (dp_tasks p)" "is_done (state_of p t)"
  shows "dispatch_inv (p\<lparr>dp_tasks := AList.delete i (dp_tasks p)\<rparr>)"
proof -
  have keep: "(run_id p s, s) \<in> set (AList.delete i (dp_tasks p))" if "live p s" for s
  proof -
    have "(run_id p s, s) \<in> set (dp_tasks p)" using assms(1) that by (simp add: dispatch_inv_def)
    moreover have "run_id p s \<noteq> i"
    proof
      assume "run_id p s = i"
      then have "(i, s) \<in> set (dp_tasks p)" using calculation by simp
      then have "s = t" using assms(1,2) by (metis dispatch_inv_def eq_key_imp_eq_value)
      then show False using assms(3) that by (simp add: live_def)
    qed
    ultimately show ?thesis by (simp add: delete_set)
  qed
  have "distinct (map fst (AList.delete i (dp_tasks p)))" using assms(1) by (simp add: dispatch_inv_def distinct_delete)
  then show ?thesis using assms(1) keep by (auto simp: dispatch_inv_def delete_set live_def run_id_def state_of_def)
qed

lemma reap_inv:
  "reap items p = (fatal, p') \<Longrightarrow> dispatch_inv p \<Longrightarrow> set items \<subseteq> set (dp_tasks p) \<Longrightarrow> distinct (map fst items) \<Longrightarrow>
   dispatch_inv p' \<and> dp_runs p' = dp_runs p \<and> set (dp_tasks p') \<subseteq> set (dp_tasks p) \<and>
   (\<not> fatal \<longrightarrow> (\<forall>(i, t) \<in> set items. (i, t) \<in> set (dp_tasks p') \<longrightarrow> \<not> is_done (state_of p t)))"
proof (induction items p rule: reap.induct)
  case (1 p)
  then show ?case by simp
next
  case (2 i t items p)
  show ?case
  proof (cases "is_done (state_of p t)")
    case False
    with 2 show ?thesis by auto
  next
    case True
    let ?p = "p\<lparr>dp_tasks := AList.delete i (dp_tasks p)\<rparr>"
    have inv: "dispatch_inv ?p" using 2(4,5) True by (intro dispatch_inv_delete) auto
    have state: "state_of ?p = state_of p" by (simp add: state_of_def fun_eq_iff)
    show ?thesis
    proof (cases "state_of p t = Ended Fatal")
      case True
      then show ?thesis using 2(3) \<open>is_done (state_of p t)\<close> inv by (auto simp: delete_set)
    next
      case False
      then have rest: "reap items ?p = (fatal, p')" using 2(3) True by simp
      have "set items \<subseteq> set (dp_tasks ?p)" using 2(5,6) by (force simp: delete_set)
      from "2.IH"(2) [OF _ refl False rest inv this] 2(6) True
      have IH: "dispatch_inv p' \<and> dp_runs p' = dp_runs ?p \<and> set (dp_tasks p') \<subseteq> set (dp_tasks ?p) \<and>
          (\<not> fatal \<longrightarrow> (\<forall>(i, t) \<in> set items. (i, t) \<in> set (dp_tasks p') \<longrightarrow> \<not> is_done (state_of ?p t)))" by simp
      then have "(i, t) \<notin> set (dp_tasks p')" by (auto simp: delete_set)
      with IH show ?thesis by (auto simp: delete_set state)
    qed
  qed
qed

lemma cancel_run_parts:
  "dp_tasks (cancel_run t p) = dp_tasks p" "length (dp_runs (cancel_run t p)) = length (dp_runs p)"
  "run_id (cancel_run t p) s = run_id p s" "live (cancel_run t p) s = live p s"
  "state_of p s = Cancelling \<Longrightarrow> state_of (cancel_run t p) s = Cancelling"
proof -
  show "dp_tasks (cancel_run t p) = dp_tasks p" "length (dp_runs (cancel_run t p)) = length (dp_runs p)"
    by (simp_all add: cancel_run_def)
  have nth: "(dp_runs p)[t := (dp_runs p ! t)\<lparr>rn_state := Cancelling\<rparr>] ! s =
      (if s = t \<and> t < length (dp_runs p) then (dp_runs p ! s)\<lparr>rn_state := Cancelling\<rparr> else dp_runs p ! s)"
    by (cases "t < length (dp_runs p)") (auto simp: nth_list_update list_update_beyond)
  show "run_id (cancel_run t p) s = run_id p s" by (simp add: cancel_run_def run_id_def nth)
  show "live (cancel_run t p) s = live p s"
    by (auto simp: cancel_run_def live_def state_of_def nth is_done_def split: if_splits)
  show "state_of p s = Cancelling \<Longrightarrow> state_of (cancel_run t p) s = Cancelling"
    by (simp add: cancel_run_def state_of_def nth)
qed

lemma cancel_run_cancels: "live p t \<Longrightarrow> state_of (cancel_run t p) t = Cancelling"
  by (cases "rn_state (dp_runs p ! t)") (auto simp: cancel_run_def live_def state_of_def is_done_def)

lemma fold_cancel:
  fixes p ts
  defines "p' \<equiv> fold (\<lambda>(i, t). cancel_run t) ts p"
  shows "dp_tasks p' = dp_tasks p" "length (dp_runs p') = length (dp_runs p)" "run_id p' s = run_id p s" "live p' s = live p s"
    and "state_of p s = Cancelling \<Longrightarrow> state_of p' s = Cancelling"
    and "live p s \<Longrightarrow> (i, s) \<in> set ts \<Longrightarrow> state_of p' s = Cancelling"
  unfolding p'_def
  by (induction ts arbitrary: p) (auto simp: cancel_run_parts cancel_run_cancels)

lemma dispatch_inv_cong:
  "dispatch_inv p \<Longrightarrow> dp_tasks p' = dp_tasks p \<Longrightarrow> length (dp_runs p') = length (dp_runs p) \<Longrightarrow>
   (\<And>t. run_id p' t = run_id p t) \<Longrightarrow> (\<And>t. live p' t \<Longrightarrow> live p t) \<Longrightarrow> dispatch_inv p'"
  by (auto simp: dispatch_inv_def)

lemma start_run_parts:
  "dp_tasks (start_run r p) = AList.update (rp_id r) (length (dp_runs p)) (dp_tasks p)"
  "t < length (dp_runs p) \<Longrightarrow> run_id (start_run r p) t = run_id p t \<and> state_of (start_run r p) t = state_of p t"
  "live (start_run r p) (length (dp_runs p)) \<and> run_id (start_run r p) (length (dp_runs p)) = rp_id r"
  "length (dp_runs (start_run r p)) = Suc (length (dp_runs p))"
  by (simp_all add: start_run_def run_id_def state_of_def live_def is_done_def nth_append)

lemma live_start: "live (start_run r p) t \<longleftrightarrow> live p t \<or> t = length (dp_runs p)"
proof (cases "t < length (dp_runs p)")
  case True
  then show ?thesis using start_run_parts(2) [of t p r] by (auto simp: live_def start_run_parts(4))
next
  case False
  then show ?thesis using start_run_parts(3) [of r p] by (auto simp: live_def start_run_parts(4))
qed

lemma dispatch_inv_start:
  assumes "dispatch_inv p" "rp_id r \<notin> fst ` set (dp_tasks p)"
  shows "dispatch_inv (start_run r p)"
proof -
  have upd: "AList.update i v xs = xs @ [(i, v)]" if "i \<notin> fst ` set xs" for i :: str and v :: nat and xs
    using that by (induction xs) auto
  have tasks: "dp_tasks (start_run r p) = dp_tasks p @ [(rp_id r, length (dp_runs p))]"
    by (simp add: start_run_parts(1) upd [OF assms(2)])
  show ?thesis
    unfolding dispatch_inv_def tasks
  proof (intro conjI allI impI ballI)
    show "distinct (map fst (dp_tasks p @ [(rp_id r, length (dp_runs p))]))"
      using assms by (simp add: dispatch_inv_def)
    fix x
    assume "x \<in> set (dp_tasks p @ [(rp_id r, length (dp_runs p))])"
    then consider "x \<in> set (dp_tasks p)" | "x = (rp_id r, length (dp_runs p))" by auto
    then show "case x of (i, t) \<Rightarrow> t < length (dp_runs (start_run r p)) \<and> run_id (start_run r p) t = i"
    proof cases
      case 1
      then show ?thesis using assms(1) start_run_parts(2) [where r = r and p = p]
        by (cases x) (auto simp: dispatch_inv_def start_run_parts(4))
    next
      case 2
      then show ?thesis by (simp add: start_run_parts(3,4))
    qed
  next
    fix t
    assume "live (start_run r p) t"
    then consider "live p t" | "t = length (dp_runs p)" by (auto simp: live_start)
    then show "(run_id (start_run r p) t, t) \<in> set (dp_tasks p @ [(rp_id r, length (dp_runs p))])"
    proof cases
      case 1
      then show ?thesis using assms(1) start_run_parts(2) [of t p r] by (simp add: live_def dispatch_inv_def)
    next
      case 2
      then show ?thesis by (simp add: start_run_parts(3))
    qed
  qed
qed

lemma fold_start:
  assumes "dispatch_inv p" "distinct (map rp_id rs)" "\<forall>r \<in> set rs. rp_id r \<notin> fst ` set (dp_tasks p)"
  shows "dispatch_inv (fold start_run rs p) \<and>
    (\<forall>t. live p t \<longrightarrow> live (fold start_run rs p) t \<and> run_id (fold start_run rs p) t = run_id p t \<and> state_of (fold start_run rs p) t = state_of p t) \<and>
    (\<forall>t. live (fold start_run rs p) t \<longrightarrow> live p t \<or> run_id (fold start_run rs p) t \<in> rp_id ` set rs) \<and>
    (\<forall>r \<in> set rs. \<exists>t. live (fold start_run rs p) t \<and> run_id (fold start_run rs p) t = rp_id r)"
  using assms
proof (induction rs arbitrary: p)
  case Nil
  then show ?case by simp
next
  case (Cons r rs)
  let ?p = "start_run r p" and ?q = "fold start_run rs (start_run r p)"
  have "dispatch_inv ?p" using Cons.prems by (intro dispatch_inv_start) auto
  moreover have "\<forall>r' \<in> set rs. rp_id r' \<notin> fst ` set (dp_tasks ?p)"
  proof
    fix r'
    assume "r' \<in> set rs"
    then have "rp_id r' \<in> rp_id ` set rs" by (rule imageI)
    moreover have "rp_id r \<notin> rp_id ` set rs" using Cons.prems(2) by simp
    ultimately have "rp_id r' \<noteq> rp_id r" by metis
    then show "rp_id r' \<notin> fst ` set (dp_tasks ?p)"
      using Cons.prems(3) \<open>r' \<in> set rs\<close> by (simp add: start_run_parts(1) dom_update)
  qed
  ultimately have IH: "dispatch_inv ?q \<and> (\<forall>t. live ?p t \<longrightarrow> live ?q t \<and> run_id ?q t = run_id ?p t \<and> state_of ?q t = state_of ?p t) \<and>
      (\<forall>t. live ?q t \<longrightarrow> live ?p t \<or> run_id ?q t \<in> rp_id ` set rs) \<and> (\<forall>r \<in> set rs. \<exists>t. live ?q t \<and> run_id ?q t = rp_id r)"
    using Cons.IH [of ?p] Cons.prems(2) by simp
  have old: "live ?p t \<and> run_id ?p t = run_id p t \<and> state_of ?p t = state_of p t" if "live p t" for t
    using that start_run_parts(2) [of t p r] by (simp add: live_def start_run_parts(4))
  have new: "live ?p (length (dp_runs p)) \<and> run_id ?p (length (dp_runs p)) = rp_id r" by (rule start_run_parts(3))
  have came_from: "live p t \<or> run_id ?q t \<in> insert (rp_id r) (rp_id ` set rs)" if alive: "live ?q t" for t
  proof -
    consider "live ?p t" | "run_id ?q t \<in> rp_id ` set rs" using alive IH by blast
    then show ?thesis
    proof cases
      case 1
      then have "run_id ?q t = run_id ?p t" using IH by blast
      then show ?thesis using 1 new by (auto simp: live_start)
    qed simp
  qed
  have q: "fold start_run (r # rs) p = ?q" by simp
  have stays: "live ?q t \<and> run_id ?q t = run_id p t \<and> state_of ?q t = state_of p t" if "live p t" for t
    using old [OF that] IH by simp
  have serves: "\<exists>t. live ?q t \<and> run_id ?q t = rp_id r'" if "r' \<in> set (r # rs)" for r'
  proof (cases "r' = r")
    case True
    then show ?thesis using new IH by (intro exI [of _ "length (dp_runs p)"]) simp
  next
    case False
    then show ?thesis using that IH by simp
  qed
  show ?case unfolding q using IH stays came_from serves by (intro conjI allI impI ballI) simp_all
qed

lemma reconcile_parts:
  assumes "dispatch_inv p" "distinct (map rp_id (cf_repos c))" "reconcile c d now p = (fatal, p')"
  shows "dispatch_inv p' \<and> (\<not> fatal \<longrightarrow>
    (\<forall>t. live p' t \<longrightarrow> run_id p' t \<in> rp_id ` set (cf_repos c) \<or> state_of p' t = Cancelling) \<and>
    (\<forall>r \<in> set (due_repositories c d now (cf_repos c)). \<exists>t. live p' t \<and> run_id p' t = rp_id r))"
proof -
  define p0 where "p0 = p\<lparr>dp_auto := Some (map (\<lambda>r. (rp_id r, r)) (cf_repos c))\<rparr>"
  obtain f p1 where reap: "reap (dp_tasks p0) p0 = (f, p1)" by force
  have inv0: "dispatch_inv p0" using assms(1) by (rule dispatch_inv_cong) (simp_all add: p0_def run_id_def live_def state_of_def)
  then have "distinct (map fst (dp_tasks p0))" by (simp add: dispatch_inv_def)
  from reap_inv [OF reap inv0 subset_refl this]
  have inv1: "dispatch_inv p1" and runs1: "dp_runs p1 = dp_runs p0" and
    kept: "\<not> f \<Longrightarrow> (i, t) \<in> set (dp_tasks p1) \<Longrightarrow> \<not> is_done (state_of p0 t)" for i t by blast+
  show ?thesis
  proof (cases f)
    case True
    then have "fatal" "p' = p1" using assms(3) reap by (simp_all add: reconcile_def Let_def flip: p0_def)
    then show ?thesis using inv1 by simp
  next
    case False
    define p2 where "p2 = p1\<lparr>dp_size := Some (cf_check_concurrency c)\<rparr>"
    define unwanted where "unwanted = filter (\<lambda>(i, t). i \<notin> rp_id ` set (cf_repos c)) (dp_tasks p2)"
    define p3 where "p3 = fold (\<lambda>(i, t). cancel_run t) unwanted p2"
    define due where "due = due_repositories c d now (filter (\<lambda>r. rp_id r \<notin> fst ` set (dp_tasks p3)) (cf_repos c))"
    have result: "fatal = False" "p' = fold start_run due p3"
      using assms(3) reap False by (simp_all add: reconcile_def Let_def p3_def p2_def unwanted_def due_def flip: p0_def)
    have inv2: "dispatch_inv p2" using inv1 by (rule dispatch_inv_cong) (simp_all add: p2_def run_id_def live_def state_of_def)
    have inv3: "dispatch_inv p3"
      using inv2 unfolding p3_def by (rule dispatch_inv_cong) (simp_all add: fold_cancel)
    have tasks3: "dp_tasks p3 = dp_tasks p1" by (simp add: p3_def fold_cancel p2_def)
    have same: "live p3 t = live p1 t" "run_id p3 t = run_id p1 t" for t
      by (simp_all add: p3_def fold_cancel) (simp_all add: p2_def live_def run_id_def state_of_def)
    have fresh: "\<forall>r \<in> set due. rp_id r \<notin> fst ` set (dp_tasks p3)" and ids: "rp_id ` set due \<subseteq> rp_id ` set (cf_repos c)"
      by (auto simp: due_def due_repositories_def Let_def)
    have "distinct (map rp_id due)"
      unfolding due_def due_repositories_def Let_def using assms(2) by (intro distinct_map_filter)
    note started = fold_start [OF inv3 this fresh]
    have cancelled: "run_id p' t \<in> rp_id ` set (cf_repos c) \<or> state_of p' t = Cancelling" if "live p' t" for t
    proof (cases "live p3 t \<and> run_id p3 t \<notin> rp_id ` set (cf_repos c)")
      case True
      then have live2: "live p2 t" "run_id p2 t \<notin> rp_id ` set (cf_repos c)" by (simp_all add: p3_def fold_cancel)
      then have "(run_id p2 t, t) \<in> set unwanted" using inv2 by (simp add: unwanted_def dispatch_inv_def)
      then have "state_of p3 t = Cancelling" unfolding p3_def using live2(1) by (rule fold_cancel(6) [rotated])
      then show ?thesis using started True by (simp add: result)
    next
      case False
      then show ?thesis using that started ids unfolding result by (metis subsetD)
    qed
    have served: "\<exists>t. live p' t \<and> run_id p' t = rp_id r" if r: "r \<in> set (due_repositories c d now (cf_repos c))" for r
    proof (cases "rp_id r \<in> fst ` set (dp_tasks p1)")
      case True
      then obtain t where t: "(rp_id r, t) \<in> set (dp_tasks p1)" by force
      then have "t < length (dp_runs p1)" "run_id p1 t = rp_id r" using inv1 by (auto simp: dispatch_inv_def)
      moreover have "\<not> is_done (state_of p1 t)" using kept [OF \<open>\<not> f\<close> t] by (simp add: state_of_def runs1)
      ultimately have "live p3 t" "run_id p3 t = rp_id r" by (simp_all add: same) (simp add: live_def)
      then show ?thesis using started unfolding result by metis
    next
      case False
      then have "r \<in> set due" using r by (simp add: due_def due_repositories_def Let_def tasks3)
      then show ?thesis using started by (simp add: result)
    qed
    have "dispatch_inv p'" using started by (simp add: result)
    then show ?thesis using cancelled served by blast
  qed
qed

lemma dispatch_step_inv: "dispatch_step p p' \<Longrightarrow> dispatch_inv p \<Longrightarrow> dispatch_inv p'"
proof (induction rule: dispatch_step.induct)
  case (tick c d now p fatal p')
  then show ?case using reconcile_parts by blast
next
  case (ends t p s)
  let ?p = "p\<lparr>dp_runs := (dp_runs p)[t := (dp_runs p ! t)\<lparr>rn_state := s\<rparr>]\<rparr>"
  have "run_id ?p u = run_id p u" "live ?p u \<Longrightarrow> live p u" for u
    using ends by (cases "u = t"; simp add: run_id_def live_def state_of_def)+
  then show ?case by (intro dispatch_inv_cong [OF ends.prems]) simp_all
next
  case (stop p)
  have "\<not> live (close_dispatcher p) t" for t
    by (auto simp: live_def close_dispatcher_def state_of_def is_done_def)
  then show ?case by (simp add: dispatch_inv_def) (simp add: close_dispatcher_def)
qed

lemma dispatched_inv: "dispatched p \<Longrightarrow> dispatch_inv p"
proof (induction rule: dispatched.induct)
  case start
  then show ?case by (simp add: dispatch_inv_def new_dispatcher_def live_def)
next
  case (more p p')
  then show ?case using dispatch_step_inv by blast
qed

text \<open>C14: whatever the earlier ticks, task ends and cancellations were, after a tick that meets no fatal error
  each repository has at most one live task, every live task belongs to a configured repository or
  is being cancelled, and every configured repository that is due has a live task.\<close>

theorem dispatcher_sound:
  assumes "dispatched p" "distinct (map rp_id (cf_repos c))" "reconcile c d now p = (False, p')"
  shows "(\<forall>s t. live p' s \<and> live p' t \<and> run_id p' s = run_id p' t \<longrightarrow> s = t) \<and>
    (\<forall>t. live p' t \<longrightarrow> run_id p' t \<in> rp_id ` set (cf_repos c) \<or> state_of p' t = Cancelling) \<and>
    (\<forall>r \<in> set (due_repositories c d now (cf_repos c)). \<exists>t. live p' t \<and> run_id p' t = rp_id r)"
proof -
  have "dispatch_inv p" using assms(1) by (rule dispatched_inv)
  note parts = reconcile_parts [OF this assms(2,3)]
  then show ?thesis using dispatch_inv_one by blast
qed

lemma dispatcher_sound_witness:
  "\<exists>t. live (snd (reconcile sample_site empty_db 0 new_dispatcher)) t \<and>
     run_id (snd (reconcile sample_site empty_db 0 new_dispatcher)) t = ''core''"
proof -
  have once: "distinct (map rp_id (cf_repos sample_site))" by code_simp
  have calm: "reconcile sample_site empty_db 0 new_dispatcher = (False, snd (reconcile sample_site empty_db 0 new_dispatcher))"
    by (simp add: reconcile_def new_dispatcher_def Let_def)
  have "list_ex (\<lambda>r. rp_id r = ''core'') (due_repositories sample_site empty_db 0 (cf_repos sample_site))" by code_simp
  then obtain r where "r \<in> set (due_repositories sample_site empty_db 0 (cf_repos sample_site))" "rp_id r = ''core''"
    by (auto simp: list_ex_iff)
  then show ?thesis using dispatcher_sound [OF dispatched.start once calm] by metis
qed

section \<open>Retention\<close>

lemma daemon_tick_prune:
  assumes "daemon_tick loaded d now clock m = Some (m', started)"
  shows "if started then dm_last_prune m' = Some clock \<and> (\<forall>a. dm_last_prune m = Some a \<longrightarrow> clock - a \<ge> prune_interval)
    else dm_last_prune m' = dm_last_prune m"
  using assms by (auto simp: daemon_tick_def Let_def split: prod.splits if_splits option.splits)

lemma retention_spaced:
  "daemon_run ts m = Some (m', starts) \<Longrightarrow>
   sorted_wrt (\<lambda>a b. b - a \<ge> prune_interval) starts \<and> (\<forall>a. dm_last_prune m = Some a \<longrightarrow> (\<forall>b \<in> set starts. b - a \<ge> prune_interval))"
proof (induction ts arbitrary: m m' starts)
  case Nil
  then show ?case by simp
next
  case (Cons t ts)
  define m1 where "m1 = (case (dm_prune m, ti_prune_ends t) of (Some _, Some s) \<Rightarrow> m\<lparr>dm_prune := Some s\<rparr> | _ \<Rightarrow> m)"
  have last1: "dm_last_prune m1 = dm_last_prune m" by (simp add: m1_def split: option.splits)
  have "daemon_run (t # ts) m = (case daemon_tick (ti_loaded t) (ti_db t) (ti_now t) (ti_clock t) m1 of None \<Rightarrow> None
      | Some (m2, started) \<Rightarrow> (case daemon_run ts m2 of None \<Rightarrow> None
          | Some (m3, starts) \<Rightarrow> Some (m3, if started then ti_clock t # starts else starts)))"
    by (simp only: daemon_run.simps m1_def Let_def)
  with Cons.prems obtain m2 started rest where
    tick: "daemon_tick (ti_loaded t) (ti_db t) (ti_now t) (ti_clock t) m1 = Some (m2, started)" and
    rest: "daemon_run ts m2 = Some (m', rest)" and starts: "starts = (if started then ti_clock t # rest else rest)"
    by (auto split: option.splits prod.splits)
  note IH = Cons.IH [OF rest] and step = daemon_tick_prune [OF tick]
  have "0 \<le> prune_interval" by (simp add: prune_interval_def)
  then show ?case using IH step last1 starts by (cases started) fastforce+
qed

end
