(* ===== verification/Index_Check.thy ===== *)
theory Index_Check
  imports Warm
begin

text \<open>
  \<open>operations/check.py\<close>, \<open>operations/replacements.py\<close> and the HEAD check of \<open>parsers/base.py\<close>: one
  check of a repository's index, and the cache work it calls for.  What the servers answer, the parsed
  index and the expiry of the signing keys are given by \<open>answers\<close>.
\<close>

section \<open>The HEAD check\<close>

datatype head_answer = Head_failed | Head nat "str option" "str option"

record index_head =
  ih_unchanged :: bool
  ih_etag :: "str option"
  ih_modified :: "str option"

text \<open>\<open>None\<close> where the method raises: a transport error or a status that is neither 304 nor a success.\<close>

definition check_index_changed :: "str option \<Rightarrow> str option \<Rightarrow> head_answer \<Rightarrow> index_head option" where
  "check_index_changed prev_etag prev_modified answer =
     (case answer of
        Head_failed \<Rightarrow> None
      | Head status etag modified \<Rightarrow>
          if status = 304 then Some \<lparr>ih_unchanged = True, ih_etag = prev_etag, ih_modified = prev_modified\<rparr>
          else if \<not> (200 \<le> status \<and> status < 300) then None
          else Some \<lparr>ih_unchanged = (truthy prev_etag \<and> truthy etag \<and> prev_etag = etag) \<or>
                 (\<not> truthy etag \<and> truthy prev_modified \<and> truthy modified \<and> prev_modified = modified),
               ih_etag = etag, ih_modified = modified\<rparr>)"

text \<open>APT keeps its validators under a prefix, so that those stored for another URL are never sent; Nix is
  evaluated every time.\<close>

definition apt_validator :: str where
  "apt_validator = ''apt-inrelease:''"

definition own_validator :: "str option \<Rightarrow> str option" where
  "own_validator v = (if truthy v \<and> starts_with apt_validator (the v) then Some (removeprefix apt_validator (the v)) else None)"

definition apt_check_index_changed :: "bool \<Rightarrow> str option \<Rightarrow> str option \<Rightarrow> head_answer \<Rightarrow> index_head option" where
  "apt_check_index_changed verify prev_etag prev_modified answer =
     (let etag = own_validator prev_etag; modified = own_validator prev_modified in
      case check_index_changed etag modified answer of
        None \<Rightarrow> (case answer of
            Head status _ _ \<Rightarrow> if verify \<or> status \<notin> set [404, 410] then None
              else Some \<lparr>ih_unchanged = False, ih_etag = None, ih_modified = None\<rparr>
          | Head_failed \<Rightarrow> None)
      | Some h \<Rightarrow> Some \<lparr>ih_unchanged = ih_unchanged h \<and> (truthy etag \<or> truthy modified),
          ih_etag = (if truthy (ih_etag h) then map_option ((@) apt_validator) (ih_etag h) else None),
          ih_modified = (if truthy (ih_modified h) then map_option ((@) apt_validator) (ih_modified h) else None)\<rparr>)"

definition parser_head :: "repo_config \<Rightarrow> str option \<Rightarrow> str option \<Rightarrow> head_answer \<Rightarrow> index_head option" where
  "parser_head r prev_etag prev_modified answer =
     (if rp_type r = ''nix'' then Some \<lparr>ih_unchanged = False, ih_etag = None, ih_modified = None\<rparr>
      else if rp_type r = ''apt'' then apt_check_index_changed (rp_verify r) prev_etag prev_modified answer
      else check_index_changed prev_etag prev_modified answer)"

section \<open>Key expiry\<close>

datatype fetched = Fetched snapshot | Signature_failed str | Fetch_failed

record answers =
  an_head :: head_answer
  an_fetch :: fetched
  an_expiry :: "str \<Rightarrow> (str \<times> str) list \<Rightarrow> str option \<times> bool"
  an_days :: "str \<Rightarrow> int"
  an_uuid :: "str \<Rightarrow> str"
  an_trust_blob :: "warmed_package \<Rightarrow> str"
  an_upstream :: "str option"

definition show_int :: "int \<Rightarrow> str" where
  "show_int i = (if i < 0 then ''-'' @ show_nat (nat (- i)) else show_nat (nat i))"

definition key_expiry :: "answers \<Rightarrow> repo_config \<Rightarrow> (str \<times> str) list \<Rightarrow> str option \<times> bool" where
  "key_expiry a r signers =
     (if rp_verify r \<and> rp_type r \<notin> set [''apk'', ''nix''] \<and> truthy (rp_keyring r) \<and> signers \<noteq> []
      then an_expiry a (the (rp_keyring r)) signers else (None, False))"

definition check_key_expiry :: "env \<Rightarrow> answers \<Rightarrow> config \<Rightarrow> repo_config \<Rightarrow> (str \<times> str) list \<Rightarrow> db \<Rightarrow> payload list \<times> db" where
  "check_key_expiry e a c r signers d =
     (let (expires, known) = key_expiry a r signers;
          d1 = record_key_expiry (rp_id r) expires (Some known) d
      in if \<not> known then ([], d1)
         else let remaining = (if truthy expires then Some (an_days a (the expires)) else None) in
           (case remaining of
              Some days \<Rightarrow>
                if days < cf_key_warning_days c
                then record_failure_and_maybe_notify (notify_of c) (en_deliver e) (en_now e) (rp_id r) ''key_expiry''
                       (''verified signing keys expire '' @ the expires @ '' ('' @ show_int days @ '' day(s) left)'') d1
                else record_success_and_maybe_notify (notify_of c) (en_deliver e) (rp_id r) ''key_expiry'' d1
            | None \<Rightarrow> record_success_and_maybe_notify (notify_of c) (en_deliver e) (rp_id r) ''key_expiry'' d1))"

section \<open>One index check\<close>

record cache_work =
  cw_warm :: "(str \<times> str) list"
  cw_removed :: "(str \<times> str) list"

definition no_work :: cache_work where
  "no_work = \<lparr>cw_warm = [], cw_removed = []\<rparr>"

definition if_pending :: "repo_config \<Rightarrow> db \<Rightarrow> cache_work option" where
  "if_pending r d = (if get_pending_replacements (rp_id r) d \<noteq> [] then Some no_work else None)"

definition index_head_of :: "env \<Rightarrow> answers \<Rightarrow> repo_config \<Rightarrow> db \<Rightarrow> index_head" where
  "index_head_of e a r d =
     (let (prev_etag, prev_modified) = get_index_meta (rp_id r) (Some (identity_of e r)) d in
      case parser_head r prev_etag prev_modified (an_head a) of
        None \<Rightarrow> \<lparr>ih_unchanged = False, ih_etag = None, ih_modified = None\<rparr>
      | Some h \<Rightarrow> h)"

definition skips_download :: "env \<Rightarrow> answers \<Rightarrow> repo_config \<Rightarrow> db \<Rightarrow> bool" where
  "skips_download e a r d \<longleftrightarrow>
     (let (prev_etag, prev_modified) = get_index_meta (rp_id r) (Some (identity_of e r)) d in
      ih_unchanged (index_head_of e a r d) \<and> \<not> rp_verify r \<and>
      (prev_etag \<noteq> None \<or> prev_modified \<noteq> None) \<and> has_snapshot (rp_id r) d)"

text \<open>After a successful download: expiry of the signers, the end of a signature streak, the new
  snapshot, its announcement, and the work for the cache.\<close>

definition record_index :: "env \<Rightarrow> answers \<Rightarrow> config \<Rightarrow> repo_config \<Rightarrow> index_head \<Rightarrow> snapshot \<Rightarrow> db
    \<Rightarrow> cache_work option \<times> hook list \<times> db" where
  "record_index e a c r head s d =
     (let (out1, d1) = check_key_expiry e a c r (sn_signers s) d;
          (out2, d2) = (if rp_type r \<noteq> ''nix''
                        then record_success_and_maybe_notify (notify_of c) (en_deliver e) (rp_id r) ''gpg'' d1 else ([], d1));
          (diff, d3) = record_snapshot (en_now e) (an_uuid a) (ih_etag head) (ih_modified head) (Some (identity_of e r)) s d2;
          changed = (if df_changed diff
                     then emit_hook c ''repository.changed'' (Changed (rp_id r) (length (df_new diff)) (length (df_removed diff))
                            (length (df_modified diff)) (length (sn_packages s))) else []);
          interested = (if rp_prefetch r then interested_keys (rp_id r) (identity_of e r) d3 else []);
          hooks = map Streak (out1 @ out2) @ changed
      in if rp_type r = ''nix''
         then let d4 = update_nix_trust (an_trust_blob a) (rp_id r) (rp_verify r) (rp_nix_keys r) (an_upstream a) d3;
                  warmed = map (\<lambda>(key, file, time, status, http). (key, status)) (get_warmed_packages (rp_id r) d4)
              in (Some \<lparr>cw_warm = filter (\<lambda>(key, filename). key \<in> set interested \<and> map_of warmed key \<noteq> Some ''ok'') (sn_packages s),
                        cw_removed = df_removed_files diff\<rparr>, hooks, d4)
         else if \<not> df_changed diff then (if_pending r d3, hooks, d3)
         else (Some \<lparr>cw_warm = map (\<lambda>key. (key, the (map_of (sn_packages s) key))) (filter (\<lambda>key. key \<in> set interested) (df_new diff)),
                     cw_removed = df_removed_files diff\<rparr>, hooks, d3))"

definition check_index :: "env \<Rightarrow> answers \<Rightarrow> config \<Rightarrow> repo_config \<Rightarrow> db \<Rightarrow> cache_work option \<times> hook list \<times> db" where
  "check_index e a c r d =
     (let (out, d1) = check_key_expiry e a c r [] d;
          head = index_head_of e a r d1
      in if skips_download e a r d1
         then let d2 = touch_last_check (en_now e) (rp_id r) d1 in (if_pending r d2, map Streak out, d2)
         else (case an_fetch a of
                 Signature_failed message \<Rightarrow>
                   let (out', d2) = record_failure_and_maybe_notify (notify_of c) (en_deliver e) (en_now e) (rp_id r) ''gpg'' message d1
                   in (None, map Streak (out @ out'), d2)
               | Fetch_failed \<Rightarrow> (None, map Streak out, d1)
               | Fetched s \<Rightarrow> (let (work, hooks, d2) = record_index e a c r head s d1 in (work, map Streak out @ hooks, d2))))"

section \<open>Replacements\<close>

text \<open>The error of an item: the first target that is not gone from the cache stops the walk.\<close>

fun purge_targets :: "env \<Rightarrow> config \<Rightarrow> repo_config \<Rightarrow> str \<Rightarrow> (str \<times> str) list \<Rightarrow> config_error + str option" where
  "purge_targets e c r key [] = Inr None"
| "purge_targets e c r key ((target_id, filename) # targets) =
     (if target_id \<noteq> rp_id r \<and> \<not> ng_enable_dedup (cf_nginx c) then purge_targets e c r key targets
      else if filename = [] then purge_targets e c r key targets
      else case find_repo c target_id of
        None \<Rightarrow> Inr (Some ''replacement purge target is unavailable'')
      | Some target \<Rightarrow>
          bind (if ng_enable_probe (cf_nginx c) then Inr (en_purge_raw e target [(key, filename)])
                else purge_selected e c target [(key, filename)]) (\<lambda>results.
            case map_of results key of
              None \<Rightarrow> route_error
            | Some outcome \<Rightarrow>
                if outcome \<notin> set [''purged'', ''not_cached''] then Inr (Some outcome)
                else purge_targets e c r key targets))"

definition refresh_item :: "env \<Rightarrow> config \<Rightarrow> repo_config \<Rightarrow> warming_policy \<Rightarrow> str list \<Rightarrow> pending_item \<Rightarrow> db
    \<Rightarrow> (config_error + str option) \<times> hook list \<times> db" where
  "refresh_item e c r policy interested item d =
     (let key = pq_key item;
          purged = (if \<not> ng_enable_purge (cf_nginx c)
                    then Inr (Some ''replacement requires nginx.enable_purge; cache refresh is pending'')
                    else purge_targets e c r key (pq_targets item))
      in case purged of
           Inl err \<Rightarrow> (Inl err, [], d)
         | Inr (Some error) \<Rightarrow> (Inr (Some error), [], finish_replacement (rp_id r) key (pq_revision item) (Some error) d)
         | Inr None \<Rightarrow>
             if truthy (pq_file item) \<and> rp_prefetch r \<and> key \<in> set interested \<and> allows policy key
             then let (result, hooks, d1) = warm_cache e c r [(key, the (pq_file item))] False
                        (if truthy (pq_hash item) then [(key, the (pq_hash item))] else []) d
                  in (case result of
                        Inl err \<Rightarrow> (Inl err, hooks, d1)
                      | Inr outcomes \<Rightarrow>
                          let error = (if map_of outcomes key = Some True then None
                                       else Some ''replacement warm failed; retry on next check'')
                          in (Inr error, hooks, finish_replacement (rp_id r) key (pq_revision item) error d1))
             else (Inr None, [], finish_replacement (rp_id r) key (pq_revision item) None d))"

fun refresh_items :: "env \<Rightarrow> config \<Rightarrow> repo_config \<Rightarrow> warming_policy \<Rightarrow> str list \<Rightarrow> pending_item list \<Rightarrow> db
    \<Rightarrow> config_error option \<times> hook list \<times> db" where
  "refresh_items e c r policy interested [] d = (None, [], d)"
| "refresh_items e c r policy interested (item # items) d =
     (case refresh_item e c r policy interested item d of
        (Inl err, hooks, d1) \<Rightarrow> (Some err, hooks, d1)
      | (Inr error, hooks, d1) \<Rightarrow>
          let (err, hooks', d2) = refresh_items e c r policy interested items d1 in (err, hooks @ hooks', d2))"

definition refresh_replacements :: "env \<Rightarrow> config \<Rightarrow> repo_config \<Rightarrow> db \<Rightarrow> config_error option \<times> hook list \<times> db" where
  "refresh_replacements e c r d =
     (let pending = get_pending_replacements (rp_id r) d in
      if pending = [] then (None, [], d)
      else refresh_items e c r (make_policy r d) (interested_keys (rp_id r) (identity_of e r) d) pending d)"

section \<open>Applying the work\<close>

definition apply_cache_work :: "env \<Rightarrow> config \<Rightarrow> repo_config \<Rightarrow> cache_work \<Rightarrow> db \<Rightarrow> config_error option \<times> hook list \<times> db" where
  "apply_cache_work e c r work d =
     (case refresh_replacements e c r d of
        (Some err, hooks, d1) \<Rightarrow> (Some err, hooks, d1)
      | (None, hooks, d1) \<Rightarrow>
          if rp_type r = ''nix''
          then (case warm_cache e c r (cw_warm work) False [] d1 of
                  (Inl err, hooks', d2) \<Rightarrow> (Some err, hooks @ hooks', d2)
                | (Inr _, hooks', d2) \<Rightarrow>
                    if cw_removed work \<noteq> [] \<and> ng_enable_purge (cf_nginx c)
                    then (case en_nix_purge e r (cw_removed work) d2 of
                            (Inl err, d3) \<Rightarrow> (Some err, hooks @ hooks', d3) | (Inr _, d3) \<Rightarrow> (None, hooks @ hooks', d3))
                    else (None, hooks @ hooks', d2))
          else (case (if cw_warm work \<noteq> [] then warm_cache e c r (cw_warm work) False [] d1 else (Inr [], [], d1)) of
                  (Inl err, hooks', d2) \<Rightarrow> (Some err, hooks @ hooks', d2)
                | (Inr _, hooks', d2) \<Rightarrow>
                    if cw_removed work \<noteq> []
                    then (case purge_removed e c r (cw_removed work) of
                            Inl err \<Rightarrow> (Some err, hooks @ hooks', d2) | Inr _ \<Rightarrow> (None, hooks @ hooks', d2))
                    else (None, hooks @ hooks', d2)))"

text \<open>Without slots the two phases follow each other; \<open>Slots\<close> has the admission of each phase.\<close>

definition check_repo :: "env \<Rightarrow> answers \<Rightarrow> config \<Rightarrow> repo_config \<Rightarrow> db \<Rightarrow> config_error option \<times> hook list \<times> db" where
  "check_repo e a c r d =
     (case check_index e a c r d of
        (None, hooks, d1) \<Rightarrow> (None, hooks, d1)
      | (Some work, hooks, d1) \<Rightarrow>
          let (err, hooks', d2) = apply_cache_work e c r work d1 in (err, hooks @ hooks', d2))"

end
