(* ===== verification/Check_Props.thy ===== *)
theory Check_Props
  imports Index_Check Repositories_Props
begin

text \<open>
  What an index check guarantees: without a verified download the catalog stays as it was, the work
  it hands on is exactly the demanded part of the difference, and a replaced package leaves the
  queue only when no location serves the old bytes any more.
\<close>

section \<open>Frames\<close>

lemma no_signers [simp]: "key_expiry a r [] = (None, False)"
  by (simp add: key_expiry_def)

lemma first_expiry [simp]: "check_key_expiry e a c r [] d = ([], record_key_expiry (rp_id r) None (Some False) d)"
  by (simp add: check_key_expiry_def Let_def)

lemma expiry_frame [simp]:
  "repo_packages (record_key_expiry repo x k d) = repo_packages d"
  "repo_events (record_key_expiry repo x k d) = repo_events d"
  "pending_replacements (record_key_expiry repo x k d) = pending_replacements d"
  "warmed_packages (record_key_expiry repo x k d) = warmed_packages d"
  "failure_states (record_key_expiry repo x k d) = failure_states d"
  "package_interests (record_key_expiry repo x k d) = package_interests d"
  by (simp_all add: record_key_expiry_def Let_def)

lemma expiry_lookup:
  "lookup rs_repo x (repo_states (record_key_expiry repo e k d)) =
     (if x = repo
      then Some (let new = \<lparr>rs_repo = repo, rs_last_check = None, rs_changed_at = None, rs_etag = None, rs_modified = None,
                  rs_count = None, rs_key_expires = e, rs_key_known = (case k of None \<Rightarrow> e \<noteq> None | Some b \<Rightarrow> b),
                  rs_revision = 0, rs_identity = None\<rparr>
           in case lookup rs_repo x (repo_states d) of None \<Rightarrow> new | Some old \<Rightarrow> rs_expiry new old)
      else lookup rs_repo x (repo_states d))"
  by (auto simp: record_key_expiry_def Let_def rx.lookup_upsert)

lemma expiry_snapshot [simp]: "has_snapshot x (record_key_expiry repo e k d) = has_snapshot x d"
  by (auto simp: has_snapshot_def expiry_lookup rs_expiry_def Let_def split: option.split)

lemma failure_states_frame [simp]:
  "repo_states (snd (record_failure_and_maybe_notify c deliver now repo kind message d)) = repo_states d"
  "repo_events (snd (record_failure_and_maybe_notify c deliver now repo kind message d)) = repo_events d"
  "repo_states (snd (record_success_and_maybe_notify c deliver repo kind d)) = repo_states d"
  "repo_events (snd (record_success_and_maybe_notify c deliver repo kind d)) = repo_events d"
  "package_interests (snd (record_success_and_maybe_notify c deliver repo kind d)) = package_interests d"
  "package_interests (snd (record_failure_and_maybe_notify c deliver now repo kind message d)) = package_interests d"
  by (auto simp: record_failure_and_maybe_notify_def record_success_and_maybe_notify_def reset_failure_def
      bump_failure_def mark_failure_notified_def emit_def Let_def split: option.split prod.split)

section \<open>No verified download, no change\<close>

lemma no_fetch:
  assumes "check_index e a c r d = (work, hooks, d')" and "rp_verify r" and "\<forall>s. an_fetch a \<noteq> Fetched s"
  shows "work = None" and "repo_packages d' = repo_packages d" and "warmed_packages d' = warmed_packages d"
    and "pending_replacements d' = pending_replacements d" and "repo_events d' = repo_events d"
    and "has_snapshot x d' = has_snapshot x d"
    and "an_fetch a = Signature_failed message \<Longrightarrow>
      d' = snd (record_failure_and_maybe_notify (notify_of c) (en_deliver e) (en_now e) (rp_id r) ''gpg'' message
                  (record_key_expiry (rp_id r) None (Some False) d))"
proof -
  let ?d1 = "record_key_expiry (rp_id r) None (Some False) d"
  have skip: "\<not> skips_download e a r ?d1" using assms(2) by (simp add: skips_download_def case_prod_unfold Let_def)
  consider m where "an_fetch a = Signature_failed m" | "an_fetch a = Fetch_failed"
    using assms(3) by (cases "an_fetch a") auto
  then have "work = None \<and> (d' = ?d1 \<or> (\<exists>m. an_fetch a = Signature_failed m \<and>
      d' = snd (record_failure_and_maybe_notify (notify_of c) (en_deliver e) (en_now e) (rp_id r) ''gpg'' m ?d1)))"
    using assms(1) skip by cases (auto simp: check_index_def case_prod_unfold Let_def)
  moreover have "has_snapshot x (snd (record_failure_and_maybe_notify (notify_of c) (en_deliver e) (en_now e) (rp_id r) ''gpg'' m ?d1))
      = has_snapshot x d" for m
    using expiry_snapshot [of x "rp_id r" None "Some False" d] by (simp add: has_snapshot_def)
  ultimately show "work = None" "repo_packages d' = repo_packages d" "warmed_packages d' = warmed_packages d"
    "pending_replacements d' = pending_replacements d" "repo_events d' = repo_events d" "has_snapshot x d' = has_snapshot x d"
    by auto
  show "d' = snd (record_failure_and_maybe_notify (notify_of c) (en_deliver e) (en_now e) (rp_id r) ''gpg'' message ?d1)"
    if "an_fetch a = Signature_failed message"
    using assms(1) skip that by (auto simp: check_index_def case_prod_unfold Let_def)
qed

text \<open>C12: fail closed.  With signature verification on, a check whose download or verification fails
  calls for no cache work and leaves every repository's catalog, the warmed packages, the
  replacement queue and the history as they were, whatever the HEAD request said; a failed
  verification moreover counts towards the repository's signature streak.\<close>
theorem unverified_index_changes_nothing:
  assumes "check_index e a c r d = (work, hooks, d')" and "rp_verify r" and "\<forall>s. an_fetch a \<noteq> Fetched s"
  shows "work = None \<and> (\<forall>x. get_packages x d' = get_packages x d) \<and> warmed_packages d' = warmed_packages d \<and>
         pending_replacements d' = pending_replacements d \<and> repo_events d' = repo_events d \<and>
         ((\<exists>message. an_fetch a = Signature_failed message) \<longrightarrow>
            (\<exists>b. streak (rp_id r, ''gpg'') d' = Some (fst (bumped (streak (rp_id r, ''gpg'') d)), b)))"
proof (intro conjI impI)
  note facts = no_fetch [OF assms]
  show "work = None" "warmed_packages d' = warmed_packages d" "pending_replacements d' = pending_replacements d"
    "repo_events d' = repo_events d" using facts by blast+
  show "\<forall>x. get_packages x d' = get_packages x d" by (simp add: get_packages_def facts(2,6))
  assume "\<exists>message. an_fetch a = Signature_failed message"
  then obtain message where "an_fetch a = Signature_failed message" by blast
  then have d': "d' = snd (record_failure_and_maybe_notify (notify_of c) (en_deliver e) (en_now e) (rp_id r) ''gpg'' message
      (record_key_expiry (rp_id r) None (Some False) d))" by (rule facts(7))
  have "streak x (record_key_expiry (rp_id r) None (Some False) d) = streak x d" for x by (simp add: streak_def)
  then show "\<exists>b. streak (rp_id r, ''gpg'') d' = Some (fst (bumped (streak (rp_id r, ''gpg'') d)), b)"
    unfolding d' failure_step(2) by simp
qed

section \<open>The work is the demanded difference\<close>

lemma key_expiry_frame [simp]:
  "repo_packages (snd (check_key_expiry e a c r signers d)) = repo_packages d"
  by (simp add: check_key_expiry_def Let_def case_prod_unfold split: option.split)

lemma record_snapshot_diff_parts:
  fixes s d
  defines "prev \<equiv> previous_of (sn_repo s) d"
  assumes "record_snapshot now fresh etag modified identity s d = (diff, d')"
  shows "df_new diff = new_keys s prev"
    and "df_removed_files diff = map (\<lambda>k. (k, fst (the (map_of prev k)))) (removed_keys s prev)"
    and "df_changed diff \<longleftrightarrow> new_keys s prev \<noteq> [] \<or> removed_keys s prev \<noteq> [] \<or> modified_keys s prev \<noteq> []"
  using assms by (auto simp: record_snapshot_def Let_def)

lemma record_index_work:
  assumes "record_index e a c r head s d = (work, hooks, d')" and "rp_type r \<noteq> ''nix''" and "sn_repo s = rp_id r"
  shows "work = (if new_keys s (previous_of (rp_id r) d) \<noteq> [] \<or> removed_keys s (previous_of (rp_id r) d) \<noteq> [] \<or>
              modified_keys s (previous_of (rp_id r) d) \<noteq> []
     then Some \<lparr>cw_warm = map (\<lambda>key. (key, the (map_of (sn_packages s) key)))
                 (filter (\<lambda>key. rp_prefetch r \<and> key \<in> set (interested_keys (rp_id r) (identity_of e r) d'))
                   (new_keys s (previous_of (rp_id r) d))),
               cw_removed = map (\<lambda>k. (k, fst (the (map_of (previous_of (rp_id r) d) k)))) (removed_keys s (previous_of (rp_id r) d))\<rparr>
     else if_pending r d')"
proof -
  obtain out1 d1 where d1: "check_key_expiry e a c r (sn_signers s) d = (out1, d1)" by (metis prod.collapse)
  obtain out2 d2 where d2: "record_success_and_maybe_notify (notify_of c) (en_deliver e) (rp_id r) ''gpg'' d1 = (out2, d2)"
    by (metis prod.collapse)
  obtain diff d3 where d3: "record_snapshot (en_now e) (an_uuid a) (ih_etag head) (ih_modified head) (Some (identity_of e r)) s d2 = (diff, d3)"
    by (metis prod.collapse)
  have "repo_packages d2 = repo_packages d"
    using key_expiry_frame [of e a c r "sn_signers s" d] success_frame(2) [of "notify_of c" "en_deliver e" "rp_id r" "''gpg''" d1] d1 d2 by simp
  then have prev: "previous_of (rp_id r) d2 = previous_of (rp_id r) d" by (simp add: previous_of_def)
  note parts = record_snapshot_diff_parts [OF d3, unfolded assms(3) prev]
  have d': "d' = d3" and work: "work = (if \<not> df_changed diff then if_pending r d3
      else Some \<lparr>cw_warm = map (\<lambda>key. (key, the (map_of (sn_packages s) key)))
                  (filter (\<lambda>key. key \<in> set (if rp_prefetch r then interested_keys (rp_id r) (identity_of e r) d3 else [])) (df_new diff)),
                cw_removed = df_removed_files diff\<rparr>)"
    using assms(1,2) by (auto simp: record_index_def d1 d2 d3 Let_def split: if_splits)
  have "filter (\<lambda>key. key \<in> set (if rp_prefetch r then interested_keys (rp_id r) (identity_of e r) d3 else [])) ks =
      filter (\<lambda>key. rp_prefetch r \<and> key \<in> set (interested_keys (rp_id r) (identity_of e r) d3)) ks" for ks
    by (rule filter_cong) simp_all
  then show ?thesis using work parts by (simp add: d')
qed

lemma map_of_the: "map_of xs k = Some v \<longleftrightarrow> k \<in> fst ` set xs \<and> v = the (map_of xs k)"
proof (cases "map_of xs k")
  case None
  then have "k \<notin> fst ` set xs" by (simp only: map_of_eq_None_iff not_False_eq_True)
  then show ?thesis unfolding None by simp
next
  case (Some u)
  then have "k \<in> fst ` set xs" by (metis domI dom_map_of_conv_image_fst)
  with Some show ?thesis by auto
qed

lemma old_catalog_keys: "fst ` set (previous_of repo d) = {pk_key p | p. p \<in> set (repo_packages d) \<and> pk_repo p = repo}"
  by (force simp: previous_of_def)


section \<open>Replacements\<close>

text \<open>The rows of the queue by what identifies them.\<close>

definition queue_ids :: "db \<Rightarrow> (str \<times> str \<times> str) set" where
  "queue_ids d = (\<lambda>q. (pr_repo q, pr_key q, pr_revision q)) ` set (pending_replacements d)"

definition purge_reply :: "env \<Rightarrow> config \<Rightarrow> repo_config \<Rightarrow> str \<Rightarrow> str \<Rightarrow> str option" where
  "purge_reply e c target key filename =
     (case (if ng_enable_probe (cf_nginx c) then Inr (en_purge_raw e target [(key, filename)])
            else purge_selected e c target [(key, filename)]) of
        Inl _ \<Rightarrow> None | Inr results \<Rightarrow> map_of results key)"

definition purged_everywhere :: "env \<Rightarrow> config \<Rightarrow> repo_config \<Rightarrow> str \<Rightarrow> (str \<times> str) list \<Rightarrow> bool" where
  "purged_everywhere e c r key targets \<longleftrightarrow> ng_enable_purge (cf_nginx c) \<and>
     (\<forall>(t, f) \<in> set targets. (t = rp_id r \<or> ng_enable_dedup (cf_nginx c)) \<and> f \<noteq> [] \<longrightarrow>
        (\<exists>target. find_repo c t = Some target \<and> purge_reply e c target key f \<in> {Some ''purged'', Some ''not_cached''}))"

lemma purge_targets_Cons:
  assumes "purge_targets e c r key ((t, f) # targets) = Inr None"
  shows "purge_targets e c r key targets = Inr None \<and> ((t = rp_id r \<or> ng_enable_dedup (cf_nginx c)) \<and> f \<noteq> [] \<longrightarrow>
     (\<exists>target. find_repo c t = Some target \<and> purge_reply e c target key f \<in> {Some ''purged'', Some ''not_cached''}))"
proof (cases "(t = rp_id r \<or> ng_enable_dedup (cf_nginx c)) \<and> f \<noteq> []")
  case False
  then show ?thesis using assms by (auto split: if_splits)
next
  case True
  then obtain target where target: "find_repo c t = Some target" using assms by (cases "find_repo c t") auto
  obtain results where results: "(if ng_enable_probe (cf_nginx c) then Inr (en_purge_raw e target [(key, f)])
      else purge_selected e c target [(key, f)]) = Inr results"
    and outcome: "(case map_of results key of None \<Rightarrow> route_error
        | Some outcome \<Rightarrow> if outcome \<notin> set [''purged'', ''not_cached''] then Inr (Some outcome)
            else purge_targets e c r key targets) = Inr None"
    using assms True target by (auto simp: bind_Inr simp del: list.set)
  have reply: "purge_reply e c target key f = map_of results key" unfolding purge_reply_def results by simp
  show ?thesis using outcome target reply by (cases "map_of results key") (simp_all split: if_splits)
qed

lemma purge_targets_None:
  "purge_targets e c r key targets = Inr None \<Longrightarrow> (t, f) \<in> set targets \<Longrightarrow>
   (t = rp_id r \<or> ng_enable_dedup (cf_nginx c)) \<and> f \<noteq> [] \<Longrightarrow>
   \<exists>target. find_repo c t = Some target \<and> purge_reply e c target key f \<in> {Some ''purged'', Some ''not_cached''}"
proof (induction targets)
  case Nil
  then show ?case by simp
next
  case (Cons x targets)
  obtain t' f' where x: "x = (t', f')" by (cases x)
  note step = purge_targets_Cons [OF Cons.prems(1) [unfolded x]]
  show ?case
  proof (cases "(t, f) = x")
    case True
    then show ?thesis using step Cons.prems(3) x by blast
  next
    case False
    then show ?thesis using step Cons.IH Cons.prems(2,3) by auto
  qed
qed

lemma finish_ids:
  "queue_ids (finish_replacement repo key revision error d) =
     (if error = None then queue_ids d - {(repo, key, revision)} else queue_ids d)"
proof (cases error)
  case None
  then show ?thesis by (auto simp: finish_replacement_def queue_ids_def Let_def)
next
  case (Some e)
  have "map (\<lambda>q. (pr_repo q, pr_key q, pr_revision q)) (update_where P (\<lambda>q. q\<lparr>pr_error := Some e\<rparr>) t) =
      map (\<lambda>q. (pr_repo q, pr_key q, pr_revision q)) t" for P and t :: "pending_replacement list"
    by (simp add: update_where_def)
  then have "(\<lambda>q. (pr_repo q, pr_key q, pr_revision q)) ` set (update_where P (\<lambda>q. q\<lparr>pr_error := Some e\<rparr>) t) =
      (\<lambda>q. (pr_repo q, pr_key q, pr_revision q)) ` set t" for P and t :: "pending_replacement list"
    unfolding list.set_map [symmetric] by simp
  then show ?thesis using Some by (simp add: finish_replacement_def queue_ids_def Let_def)
qed

lemma warm_run_queue:
  assumes "rp_type r \<noteq> ''nix''"
  shows "pending_replacements (snd (snd (warm_run e c r packages force expected d))) = pending_replacements d"
proof (cases "warm_tasks c r (make_policy r d) packages")
  case (Inl err)
  then show ?thesis using assms by (simp add: warm_run_def)
next
  case (Inr tasks)
  obtain os failed d2 where run: "fold (run_task e r force expected) (en_order e tasks) ([], [], demanded e r force tasks d) = (os, failed, d2)"
    by (metis prod_cases3)
  have "pending_replacements d2 = pending_replacements d"
    using run_task_frame [of e r force expected "en_order e tasks" "([], [], demanded e r force tasks d)"] run by (simp add: demanded_def)
  moreover obtain result hooks d3 where "finish_run e c r (length tasks) (os, failed, d2) = (result, hooks, d3)" by (metis prod_cases3)
  moreover from this have "pending_replacements d3 = pending_replacements d2" using finish_run_frame by blast
  ultimately show ?thesis using assms Inr run by (cases force) (simp_all add: warm_run_def)
qed

lemma warm_cache_queue:
  assumes "rp_type r \<noteq> ''nix''"
  shows "pending_replacements (snd (snd (warm_cache e c r packages force expected d))) = pending_replacements d"
  using warm_run_queue [OF assms, of e c _ force expected d]
  by (auto simp: warm_cache_def Let_def case_prod_unfold split: sum.split)

lemma refresh_item_ids:
  assumes "refresh_item e c r policy interested item d = (result, hooks, d')" and "rp_type r \<noteq> ''nix''"
  shows "queue_ids d' = queue_ids d \<or>
    (queue_ids d' = queue_ids d - {(rp_id r, pq_key item, pq_revision item)} \<and> purged_everywhere e c r (pq_key item) (pq_targets item))"
proof -
  have warm: "queue_ids d2 = queue_ids d" if "warm_cache e c r ps False ex d = (res, h, d2)" for ps ex res h d2
    using warm_cache_queue [OF assms(2), of e c ps False ex d] that by (simp add: queue_ids_def)
  show ?thesis
  proof (cases "ng_enable_purge (cf_nginx c) \<and> purge_targets e c r (pq_key item) (pq_targets item) = Inr None")
    case True
    then have "purged_everywhere e c r (pq_key item) (pq_targets item)"
      using purge_targets_None unfolding purged_everywhere_def by fastforce
    moreover have "queue_ids d' = queue_ids d \<or> queue_ids d' = queue_ids d - {(rp_id r, pq_key item, pq_revision item)}"
      using assms(1) True warm by (auto simp: refresh_item_def Let_def finish_ids split: if_splits prod.splits sum.splits)
    ultimately show ?thesis by blast
  next
    case False
    then have "queue_ids d' = queue_ids d"
      using assms(1) by (auto simp: refresh_item_def Let_def finish_ids split: if_splits sum.splits option.splits)
    then show ?thesis ..
  qed
qed

lemma refresh_items_ids:
  "refresh_items e c r policy interested items d = (err, hooks, d') \<Longrightarrow> rp_type r \<noteq> ''nix'' \<Longrightarrow>
   x \<in> queue_ids d \<Longrightarrow> x \<notin> queue_ids d' \<Longrightarrow>
   \<exists>item \<in> set items. x = (rp_id r, pq_key item, pq_revision item) \<and> purged_everywhere e c r (pq_key item) (pq_targets item)"
proof (induction items arbitrary: d err hooks d')
  case Nil
  then show ?case by simp
next
  case (Cons item items)
  obtain result h d1 where one: "refresh_item e c r policy interested item d = (result, h, d1)" by (metis prod_cases3)
  show ?case
  proof (cases "x \<in> queue_ids d1")
    case False
    then show ?thesis using refresh_item_ids [OF one Cons.prems(2)] Cons.prems(3) by auto
  next
    case True
    show ?thesis
    proof (cases result)
      case (Inl err)
      then show ?thesis using Cons.prems(1,4) True one by simp
    next
      case (Inr error)
      then obtain err' hooks' where "refresh_items e c r policy interested items d1 = (err', hooks', d')"
        using Cons.prems(1) one by (auto split: prod.splits)
      from Cons.IH [OF this Cons.prems(2) True Cons.prems(4)] show ?thesis by auto
    qed
  qed
qed

text \<open>A replaced package leaves the queue only after every location that may still serve its old bytes
  has answered that the file was purged or was not cached; without the purge module nothing leaves.\<close>
theorem replacement_leaves_when_purged:
  assumes "refresh_replacements e c r d = (err, hooks, d')" and "rp_type r \<noteq> ''nix''" and "db_keys d"
    and "q \<in> set (pending_replacements d)"
    and "\<forall>q' \<in> set (pending_replacements d'). (pr_repo q', pr_key q', pr_revision q') \<noteq> (pr_repo q, pr_key q, pr_revision q)"
  shows "pr_repo q = rp_id r \<and> ng_enable_purge (cf_nginx c) \<and>
     (\<forall>(t, f) \<in> set (pr_targets q). (t = rp_id r \<or> ng_enable_dedup (cf_nginx c)) \<and> f \<noteq> [] \<longrightarrow>
        (\<exists>target. find_repo c t = Some target \<and> purge_reply e c target (pr_key q) f \<in> {Some ''purged'', Some ''not_cached''}))"
proof -
  let ?x = "(pr_repo q, pr_key q, pr_revision q)"
  have gone: "?x \<in> queue_ids d" "?x \<notin> queue_ids d'" using assms(4,5) by (auto simp: queue_ids_def)
  then have "refresh_items e c r (make_policy r d) (interested_keys (rp_id r) (identity_of e r) d)
      (get_pending_replacements (rp_id r) d) d = (err, hooks, d')"
    using assms(1) by (auto simp: refresh_replacements_def Let_def split: if_splits)
  from refresh_items_ids [OF this assms(2) gone]
  obtain item where item: "item \<in> set (get_pending_replacements (rp_id r) d)" "?x = (rp_id r, pq_key item, pq_revision item)"
      "purged_everywhere e c r (pq_key item) (pq_targets item)" by blast
  obtain p where p: "p \<in> set (pending_replacements d)" "pr_repo p = rp_id r" "pq_key item = pr_key p" "pq_targets item = pr_targets p"
    using item(1) by (auto simp: get_pending_replacements_def Let_def)
  have "pr_pkey p = pr_pkey q" using item(2) p(2,3) by (simp add: pr_pkey_def)
  then have "p = q" using assms(3,4) p(1) by (auto simp: db_keys_def keyed_def distinct_map inj_on_def)
  then show ?thesis using item(2,3) p(3,4) unfolding purged_everywhere_def by simp
qed

section \<open>Concrete checks\<close>

definition sample_answers :: "fetched \<Rightarrow> answers" where
  "sample_answers f = \<lparr>an_head = Head_failed, an_fetch = f, an_expiry = (\<lambda>_ _. (None, False)), an_days = (\<lambda>_. 0),
     an_uuid = (\<lambda>k. k), an_trust_blob = wm_key, an_upstream = None\<rparr>"

definition sample_verified :: repo_config where
  "sample_verified = sample_core\<lparr>rp_verify := True, rp_keyring := Some ''/k''\<rparr>"

lemma unverified_index_changes_nothing_witness:
  "fst (check_index sample_env (sample_answers (Signature_failed ''bad'')) sample_site sample_verified sample_names) = None \<and>
   (\<exists>b. streak (''core'', ''gpg'') (snd (snd (check_index sample_env (sample_answers (Signature_failed ''bad'')) sample_site
       sample_verified sample_names))) = Some (1, b))"
proof -
  let ?a = "sample_answers (Signature_failed ''bad'')"
  obtain work hooks d' where run: "check_index sample_env ?a sample_site sample_verified sample_names = (work, hooks, d')"
    by (metis prod_cases3)
  have "rp_verify sample_verified" "rp_id sample_verified = ''core''"
    by (simp_all add: sample_verified_def sample_core_def sample_repo_def)
  moreover have "\<forall>s. an_fetch ?a \<noteq> Fetched s" "\<exists>m. an_fetch ?a = Signature_failed m" by (simp_all add: sample_answers_def)
  moreover have "bumped (streak (''core'', ''gpg'') sample_names) = (1, False)"
    by (simp add: bumped_def streak_def sample_names_def empty_db_def lookup_def)
  ultimately show ?thesis using unverified_index_changes_nothing [OF run] run by simp
qed

definition sample_index :: snapshot where
  "sample_index = \<lparr>sn_repo = ''core'', sn_packages = [(''zsh-1'', ''zsh-1.zst'')], sn_names = [(''zsh-1'', ''zsh'')],
     sn_hashes = [], sn_signers = []\<rparr>"


definition sample_queue :: db where
  "sample_queue = empty_db\<lparr>pending_replacements :=
     [\<lparr>pr_repo = ''core'', pr_key = ''bash-5'', pr_targets = [(''core'', ''bash-5.zst'')], pr_hash = None, pr_revision = ''1'',
       pr_error = None\<rparr>]\<rparr>"

definition sample_purging :: config where
  "sample_purging = sample_site\<lparr>cf_nginx := sample_nginx\<lparr>ng_enable_purge := True\<rparr>\<rparr>"

lemma replacement_leaves_when_purged_witness:
  "pending_replacements (snd (snd (refresh_replacements sample_env sample_purging sample_core sample_queue))) = [] \<and>
   (\<exists>target. find_repo sample_purging ''core'' = Some target \<and>
      purge_reply sample_env sample_purging target ''bash-5'' ''bash-5.zst'' \<in> {Some ''purged'', Some ''not_cached''})"
proof -
  let ?q = "\<lparr>pr_repo = ''core'', pr_key = ''bash-5'', pr_targets = [(''core'', ''bash-5.zst'')], pr_hash = None, pr_revision = ''1'',
       pr_error = None\<rparr>"
  have empty: "pending_replacements (snd (snd (refresh_replacements sample_env sample_purging sample_core sample_queue))) = []"
    by code_simp
  obtain err hooks d' where run: "refresh_replacements sample_env sample_purging sample_core sample_queue = (err, hooks, d')"
    by (metis prod_cases3)
  have id: "rp_id sample_core = ''core''" "rp_type sample_core \<noteq> ''nix''" by (simp_all add: sample_core_def sample_repo_def)
  have keys: "db_keys sample_queue" by (simp add: db_keys_def sample_queue_def empty_db_def keyed_def)
  have q: "?q \<in> set (pending_replacements sample_queue)" by (simp add: sample_queue_def)
  have "\<forall>q' \<in> set (pending_replacements d'). (pr_repo q', pr_key q', pr_revision q') \<noteq> (pr_repo ?q, pr_key ?q, pr_revision ?q)"
    using empty run by simp
  note gone = replacement_leaves_when_purged [OF run id(2) keys q this]
  have "(''core'', ''bash-5.zst'') \<in> set (pr_targets ?q)" by simp
  moreover have "''core'' = rp_id sample_core" "''bash-5.zst'' \<noteq> []" "pr_key ?q = ''bash-5''" by (simp_all add: id)
  ultimately have "\<exists>target. find_repo sample_purging ''core'' = Some target \<and>
      purge_reply sample_env sample_purging target ''bash-5'' ''bash-5.zst'' \<in> {Some ''purged'', Some ''not_cached''}"
    using gone by fastforce
  then show ?thesis using empty by blast
qed

end
