(* ===== verification/Cleanup_Props.thy ===== *)
theory Cleanup_Props
  imports Cleanup
begin

text \<open>
  The clean-up of orphaned repositories: exactly the rows of repositories that are not configured go.
\<close>

text \<open>What is left of a table when the rows of some repositories are deleted.\<close>

definition spare :: "config \<Rightarrow> str list \<Rightarrow> ('r \<Rightarrow> str) \<Rightarrow> 'r list \<Rightarrow> 'r list" where
  "spare c ids repo t = filter (\<lambda>r. repo r \<in> set (active_ids c) \<or> repo r \<notin> set ids) t"

lemma spare_Nil [simp]: "spare c [] repo t = t"
  by (simp add: spare_def)

lemma spare_delete:
  "i \<notin> set (active_ids c) \<Longrightarrow> spare c ids repo (delete_where (\<lambda>r. repo r = i) t) = spare c (i # ids) repo t"
  by (auto simp: spare_def delete_where_def intro!: filter_cong)

lemma spare_active: "i \<in> set (active_ids c) \<Longrightarrow> spare c (i # ids) repo t = spare c ids repo t"
  by (auto simp: spare_def intro!: filter_cong)

lemma purged_db:
  "snd (purge_orphaned_repos c ids d) = d\<lparr>
     repo_states := spare c ids rs_repo (repo_states d),
     repo_packages := spare c ids pk_repo (repo_packages d),
     repo_events := spare c ids ev_repo (repo_events d),
     pending_replacements := spare c ids pr_repo (pending_replacements d),
     warmed_packages := spare c ids wm_repo (warmed_packages d),
     prefetch_bans := spare c ids bn_repo (prefetch_bans d),
     nix_artifacts := spare c ids na_repo (nix_artifacts d),
     nix_trusts := spare c ids nt_repo (nix_trusts d),
     package_interests := spare c ids pi_repo (package_interests d),
     failure_states := spare c ids fs_repo (failure_states d)\<rparr>"
proof (induction ids arbitrary: d)
  case Nil
  then show ?case by simp
next
  case (Cons i ids)
  show ?case
  proof (cases "i \<in> set (active_ids c)")
    case True
    then show ?thesis using Cons.IH by (simp add: spare_active)
  next
    case False
    then show ?thesis
      by (simp add: repositories_delete_def cache_delete_def notifications_delete_def Cons.IH spare_delete Let_def case_prod_unfold)
  qed
qed

definition orphan_ids :: "config \<Rightarrow> db \<Rightarrow> str list" where
  "orphan_ids c d = sort (filter (\<lambda>repo. repo \<notin> set (active_ids c)) (remdups (repositories_ids d @ cache_ids d @ notifications_ids d)))"

lemma found_ids: "map fst (find_orphaned_repos c d) = orphan_ids c d"
  by (simp add: find_orphaned_repos_def orphan_ids_def o_def)

lemma spare_all:
  "repo ` set t \<subseteq> set (repositories_ids d @ cache_ids d @ notifications_ids d) \<Longrightarrow>
   spare c (orphan_ids c d) repo t = filter (\<lambda>r. repo r \<in> set (active_ids c)) t"
  unfolding spare_def orphan_ids_def by (intro filter_cong) auto

lemmas id_columns = repositories_ids_def cache_ids_def notifications_ids_def

text \<open>Purging what was reported as orphaned leaves exactly the rows of the configured repositories in
  all ten tables that belong to repositories, nothing more is orphaned afterwards, and the request log
  and the access tokens are not touched.\<close>
theorem orphans_purged:
  fixes c d
  defines "d' \<equiv> snd (purge_orphaned_repos c (map fst (find_orphaned_repos c d)) d)"
  shows "repo_states d' = filter (\<lambda>r. rs_repo r \<in> rp_id ` set (cf_repos c)) (repo_states d) \<and>
    repo_packages d' = filter (\<lambda>r. pk_repo r \<in> rp_id ` set (cf_repos c)) (repo_packages d) \<and>
    repo_events d' = filter (\<lambda>r. ev_repo r \<in> rp_id ` set (cf_repos c)) (repo_events d) \<and>
    pending_replacements d' = filter (\<lambda>r. pr_repo r \<in> rp_id ` set (cf_repos c)) (pending_replacements d) \<and>
    warmed_packages d' = filter (\<lambda>r. wm_repo r \<in> rp_id ` set (cf_repos c)) (warmed_packages d) \<and>
    prefetch_bans d' = filter (\<lambda>r. bn_repo r \<in> rp_id ` set (cf_repos c)) (prefetch_bans d) \<and>
    nix_artifacts d' = filter (\<lambda>r. na_repo r \<in> rp_id ` set (cf_repos c)) (nix_artifacts d) \<and>
    nix_trusts d' = filter (\<lambda>r. nt_repo r \<in> rp_id ` set (cf_repos c)) (nix_trusts d) \<and>
    package_interests d' = filter (\<lambda>r. pi_repo r \<in> rp_id ` set (cf_repos c)) (package_interests d) \<and>
    failure_states d' = filter (\<lambda>r. fs_repo r \<in> rp_id ` set (cf_repos c)) (failure_states d) \<and>
    find_orphaned_repos c d' = [] \<and>
    request_events d' = request_events d \<and> host_tokens d' = host_tokens d \<and> admin_sessions d' = admin_sessions d"
proof -
  have d': "d' = snd (purge_orphaned_repos c (orphan_ids c d) d)" unfolding d'_def found_ids ..
  have active: "set (active_ids c) = rp_id ` set (cf_repos c)" by (simp add: active_ids_def)
  have tables:
    "repo_states d' = filter (\<lambda>r. rs_repo r \<in> rp_id ` set (cf_repos c)) (repo_states d)"
    "repo_packages d' = filter (\<lambda>r. pk_repo r \<in> rp_id ` set (cf_repos c)) (repo_packages d)"
    "repo_events d' = filter (\<lambda>r. ev_repo r \<in> rp_id ` set (cf_repos c)) (repo_events d)"
    "pending_replacements d' = filter (\<lambda>r. pr_repo r \<in> rp_id ` set (cf_repos c)) (pending_replacements d)"
    "warmed_packages d' = filter (\<lambda>r. wm_repo r \<in> rp_id ` set (cf_repos c)) (warmed_packages d)"
    "prefetch_bans d' = filter (\<lambda>r. bn_repo r \<in> rp_id ` set (cf_repos c)) (prefetch_bans d)"
    "nix_artifacts d' = filter (\<lambda>r. na_repo r \<in> rp_id ` set (cf_repos c)) (nix_artifacts d)"
    "nix_trusts d' = filter (\<lambda>r. nt_repo r \<in> rp_id ` set (cf_repos c)) (nix_trusts d)"
    "package_interests d' = filter (\<lambda>r. pi_repo r \<in> rp_id ` set (cf_repos c)) (package_interests d)"
    "failure_states d' = filter (\<lambda>r. fs_repo r \<in> rp_id ` set (cf_repos c)) (failure_states d)"
    unfolding d' purged_db active [symmetric] by (simp_all, (subst spare_all; auto simp: id_columns)+)
  have "set (orphan_ids c d') = {}"
    unfolding orphan_ids_def id_columns tables active by auto
  then have "orphan_ids c d' = []" by simp
  then have "find_orphaned_repos c d' = []" by (metis found_ids map_is_Nil_conv)
  moreover have "request_events d' = request_events d" "host_tokens d' = host_tokens d" "admin_sessions d' = admin_sessions d"
    unfolding d' purged_db by simp_all
  ultimately show ?thesis using tables by simp
qed

end
