(* ===== verification/Unicode.thy ===== *)
theory Unicode
  imports PyString
begin

text \<open>
  Unicode text as the standard library handles it: a text is the list of its code points, a byte string
  a list of characters.  Decoding is \<open>bytes.decode('utf-8', errors='replace')\<close>: every maximal ill-formed
  prefix becomes one U+FFFD.  Whitespace and line breaks follow \<open>str.isspace\<close> and \<open>str.splitlines\<close>.
\<close>

type_synonym utext = "nat list"

abbreviation bytes_of :: "str \<Rightarrow> nat list" where
  "bytes_of s \<equiv> map code s"

section \<open>UTF-8\<close>

definition cont :: "nat \<Rightarrow> bool" where
  "cont b \<longleftrightarrow> 0x80 \<le> b \<and> b < 0xC0"

text \<open>The second byte of a sequence; overlong forms, surrogates and code points above 10FFFF are refused here.\<close>

definition second :: "nat \<Rightarrow> nat \<Rightarrow> bool" where
  "second b c \<longleftrightarrow> cont c \<and> (b = 0xE0 \<longrightarrow> 0xA0 \<le> c) \<and> (b = 0xED \<longrightarrow> c < 0xA0) \<and>
     (b = 0xF0 \<longrightarrow> 0x90 \<le> c) \<and> (b = 0xF4 \<longrightarrow> c < 0x90)"

definition replacement :: nat where
  "replacement = 0xFFFD"

text \<open>The code point of the sequence that \<open>b\<close> opens, and how many of the following bytes belong to it.\<close>

fun utf8_step :: "nat \<Rightarrow> nat list \<Rightarrow> nat \<times> nat" where
  "utf8_step b s =
     (if b < 0x80 then (b, 0)
      else if b < 0xC2 then (replacement, 0)
      else if b < 0xE0 then
        (case s of
           c # _ \<Rightarrow> if cont c then ((b - 0xC0) * 64 + (c - 0x80), 1) else (replacement, 0)
         | [] \<Rightarrow> (replacement, 0))
      else if b < 0xF0 then
        (case s of
           c # d # _ \<Rightarrow> if \<not> second b c then (replacement, 0) else if \<not> cont d then (replacement, 1)
             else ((b - 0xE0) * 4096 + (c - 0x80) * 64 + (d - 0x80), 2)
         | [c] \<Rightarrow> if second b c then (replacement, 1) else (replacement, 0)
         | [] \<Rightarrow> (replacement, 0))
      else if b < 0xF5 then
        (case s of
           c # d # e # _ \<Rightarrow> if \<not> second b c then (replacement, 0) else if \<not> cont d then (replacement, 1)
             else if \<not> cont e then (replacement, 2)
             else ((b - 0xF0) * 262144 + (c - 0x80) * 4096 + (d - 0x80) * 64 + (e - 0x80), 3)
         | [c, d] \<Rightarrow> if \<not> second b c then (replacement, 0) else if \<not> cont d then (replacement, 1) else (replacement, 2)
         | [c] \<Rightarrow> if second b c then (replacement, 1) else (replacement, 0)
         | [] \<Rightarrow> (replacement, 0))
      else (replacement, 0))"

declare utf8_step.simps [simp del]

function utf8 :: "nat list \<Rightarrow> utext" where
  "utf8 [] = []"
| "utf8 (b # s) = fst (utf8_step b s) # utf8 (drop (snd (utf8_step b s)) s)"
  by pat_completeness auto
termination by (relation "measure length") auto

definition decode :: "str \<Rightarrow> utext" where
  "decode s = utf8 (bytes_of s)"

text \<open>\<open>str.encode('utf-8')\<close> of a text without surrogates.\<close>

definition encode_point :: "nat \<Rightarrow> nat list" where
  "encode_point n =
     (if n < 0x80 then [n]
      else if n < 0x800 then [0xC0 + n div 64, 0x80 + n mod 64]
      else if n < 0x10000 then [0xE0 + n div 4096, 0x80 + n div 64 mod 64, 0x80 + n mod 64]
      else [0xF0 + n div 262144, 0x80 + n div 4096 mod 64, 0x80 + n div 64 mod 64, 0x80 + n mod 64])"

definition encode :: "utext \<Rightarrow> str" where
  "encode t = map char_of (concat (map encode_point t))"

definition scalar :: "nat \<Rightarrow> bool" where
  "scalar n \<longleftrightarrow> n < 0x110000 \<and> \<not> (0xD800 \<le> n \<and> n < 0xE000)"

section \<open>Text operations\<close>

definition lit :: "str \<Rightarrow> utext" where
  "lit s = map code s"

definition space_point :: "nat \<Rightarrow> bool" where
  "space_point n \<longleftrightarrow> (9 \<le> n \<and> n \<le> 13) \<or> (28 \<le> n \<and> n \<le> 32) \<or> n = 133 \<or> n = 160 \<or> n = 5760 \<or>
     (8192 \<le> n \<and> n \<le> 8202) \<or> n = 8232 \<or> n = 8233 \<or> n = 8239 \<or> n = 8287 \<or> n = 12288"

definition break_point :: "nat \<Rightarrow> bool" where
  "break_point n \<longleftrightarrow> (10 \<le> n \<and> n \<le> 13) \<or> (28 \<le> n \<and> n \<le> 30) \<or> n = 133 \<or> n = 8232 \<or> n = 8233"

definition tstrip :: "utext \<Rightarrow> utext" where
  "tstrip t = rev (dropWhile space_point (rev (dropWhile space_point t)))"

definition tstarts :: "utext \<Rightarrow> utext \<Rightarrow> bool" where
  "tstarts p t \<longleftrightarrow> take (length p) t = p"

fun tlines_acc :: "utext \<Rightarrow> utext \<Rightarrow> utext list" where
  "tlines_acc w [] = (if w = [] then [] else [rev w])"
| "tlines_acc w (c # s) =
     (if break_point c
      then rev w # (case s of d # s' \<Rightarrow> if c = 13 \<and> d = 10 then tlines_acc [] s' else tlines_acc [] s
                            | [] \<Rightarrow> [])
      else tlines_acc (c # w) s)"

definition tsplitlines :: "utext \<Rightarrow> utext list" where
  "tsplitlines t = tlines_acc [] t"

fun twords_acc :: "utext \<Rightarrow> utext \<Rightarrow> utext list" where
  "twords_acc w [] = (if w = [] then [] else [rev w])"
| "twords_acc w (c # s) =
     (if space_point c then (if w = [] then twords_acc [] s else rev w # twords_acc [] s)
      else twords_acc (c # w) s)"

definition tsplit :: "utext \<Rightarrow> utext list" where
  "tsplit t = twords_acc [] t"

text \<open>\<open>t.index(p)\<close>; \<open>None\<close> is the ValueError.\<close>

fun tindex :: "utext \<Rightarrow> utext \<Rightarrow> nat option" where
  "tindex p [] = (if p = [] then Some 0 else None)"
| "tindex p (c # t) = (if tstarts p (c # t) then Some 0 else map_option Suc (tindex p t))"

section \<open>Decoding and ASCII\<close>

lemma tstarts_iff: "tstarts p s \<longleftrightarrow> (\<exists>b. s = p @ b)"
  unfolding tstarts_def by (metis append_eq_conv_conj append_take_drop_id)

lemma step_bound: "snd (utf8_step b s) \<le> length s"
  by (auto simp: utf8_step.simps split: list.splits)

lemma step_ascii: "b < 128 \<Longrightarrow> utf8_step b s = (b, 0)"
  by (simp add: utf8_step.simps)

lemma step_not_ascii:
  assumes "128 \<le> b"
  shows "128 \<le> fst (utf8_step b s)"
proof -
  have two: "128 \<le> (b - 192) * 64" if "194 \<le> b" using that by arith
  have e0: "128 \<le> (c - 128) * 64" if "second 224 c" for c using that by (auto simp: second_def)
  have f0: "128 \<le> (c - 128) * 4096" if "second 240 c" for c using that by (auto simp: second_def)
  have three: "128 \<le> (b - 224) * 4096" if "224 < b" using that by arith
  have four: "128 \<le> (b - 240) * 262144" if "240 < b" using that by arith
  have c3: "128 \<le> (b - 224) * 4096 + (c - 128) * 64 + x" if "second b c" "224 \<le> b" for c x
    using that e0 [of c] three by (cases "b = 224") force+
  have c4: "128 \<le> (b - 240) * 262144 + (c - 128) * 4096 + x + y" if "second b c" "240 \<le> b" for c x y
    using that f0 [of c] four by (cases "b = 240") force+
  show ?thesis
    using assms two c3 c4
    by (auto simp: utf8_step.simps replacement_def not_less trans_le_add1 split: list.splits)
qed

lemma step_before_ascii:
  assumes "c < 128"
  shows "utf8_step b (s @ c # t) = utf8_step b s"
proof -
  have "\<not> cont c" "\<not> second b c" using assms by (simp_all add: cont_def second_def)
  then show ?thesis
    by (cases s rule: utf8.cases; cases "tl s" rule: utf8.cases; cases "tl (tl s)" rule: utf8.cases)
      (simp_all add: utf8_step.simps split: list.split)
qed

lemma utf8_append_ascii: "c < 128 \<Longrightarrow> utf8 (s @ c # t) = utf8 s @ c # utf8 t"
  by (induction s rule: utf8.induct) (simp_all add: step_ascii step_before_ascii step_bound)

lemma utf8_starts: "\<forall>c \<in> set p. c < 128 \<Longrightarrow> (\<exists>t. utf8 s = p @ t) \<longleftrightarrow> (\<exists>t. s = p @ t)"
proof (induction p arbitrary: s)
  case (Cons c p)
  show ?case
  proof (cases s)
    case (Cons b s')
    show ?thesis
    proof (cases "b < 128")
      case True
      then show ?thesis using Cons.IH [of s'] Cons.prems \<open>s = b # s'\<close> by (auto simp: step_ascii)
    next
      case False
      then have "fst (utf8_step b s') \<noteq> c" "b \<noteq> c" using step_not_ascii [of b s'] Cons.prems by auto
      then show ?thesis using \<open>s = b # s'\<close> by simp
    qed
  qed simp
qed simp

text \<open>Where the line breaks of a decoded text come from.\<close>

lemma step_three:
  assumes "0xE0 \<le> b"
  shows "0x800 \<le> fst (utf8_step b s)"
proof -
  have e0: "2048 \<le> (c - 128) * 64" if "second 224 c" for c using that by (auto simp: second_def)
  have f0: "2048 \<le> (c - 128) * 4096" if "second 240 c" for c using that by (auto simp: second_def)
  have three: "2048 \<le> (b - 224) * 4096" if "224 < b" using that by arith
  have four: "2048 \<le> (b - 240) * 262144" if "240 < b" using that by arith
  have c3: "2048 \<le> (b - 224) * 4096 + (c - 128) * 64 + x" if "second b c" for c x
    using assms that e0 [of c] three by (cases "b = 224") force+
  have c4: "2048 \<le> (b - 240) * 262144 + (c - 128) * 4096 + x + y" if "second b c" "240 \<le> b" for c x y
    using that f0 [of c] four by (cases "b = 240") force+
  show ?thesis
    using assms c3 c4 by (auto simp: utf8_step.simps replacement_def not_less trans_le_add1 split: list.splits)
qed

lemma step_four:
  assumes "0xF0 \<le> b" "fst (utf8_step b s) \<noteq> replacement"
  shows "0x10000 \<le> fst (utf8_step b s)"
proof -
  have f0: "65536 \<le> (c - 128) * 4096" if "second 240 c" for c using that by (auto simp: second_def)
  have four: "65536 \<le> (b - 240) * 262144" if "240 < b" using that by arith
  have c4: "65536 \<le> (b - 240) * 262144 + (c - 128) * 4096 + x + y" if "second b c" for c x y
    using assms(1) that f0 [of c] four by (cases "b = 240") force+
  show ?thesis using assms c4 by (auto simp: utf8_step.simps not_less split: list.splits if_splits)
qed

lemma step_two_bytes:
  assumes "128 \<le> fst (utf8_step b s)" "fst (utf8_step b s) < 0x800"
  shows "\<exists>c s'. s = c # s' \<and> cont c \<and> 0xC2 \<le> b \<and> fst (utf8_step b s) = (b - 0xC0) * 64 + (c - 0x80)"
proof -
  have "128 \<le> b" using assms(1) step_ascii [of b s] by (cases "b < 128") simp_all
  moreover have "b < 0xE0" using assms(2) step_three [of b s] by (cases "b < 0xE0") simp_all
  ultimately show ?thesis using assms
    by (cases s) (simp_all add: utf8_step.simps replacement_def split: if_splits)
qed

lemma step_three_bytes:
  assumes "0x800 \<le> fst (utf8_step b s)" "fst (utf8_step b s) < 0x10000" "fst (utf8_step b s) \<noteq> replacement"
  shows "\<exists>c d s'. s = c # d # s' \<and> cont c \<and> cont d \<and> 0xE0 \<le> b \<and>
    fst (utf8_step b s) = (b - 0xE0) * 4096 + (c - 0x80) * 64 + (d - 0x80)"
proof -
  have "128 \<le> b" using assms(1) step_ascii [of b s] by (cases "b < 128") simp_all
  moreover have "b < 0xF0" using assms(2,3) step_four [of b s] by (cases "b < 0xF0") simp_all
  moreover have "0xE0 \<le> b"
  proof (rule ccontr)
    assume "\<not> 0xE0 \<le> b"
    then have "b - 192 \<le> 31" by arith
    moreover have "c - 128 \<le> 63" if "cont c" for c using that unfolding cont_def by arith
    ultimately have lt: "(b - 192) * 64 + (c - 128) < 2048" if "cont c" for c using that by fastforce
    show False
    proof (cases s)
      case Nil
      then show ?thesis using assms \<open>\<not> 0xE0 \<le> b\<close> \<open>128 \<le> b\<close> by (simp add: utf8_step.simps split: if_splits)
    next
      case (Cons c t)
      then have "fst (utf8_step b s) = replacement \<or> cont c \<and> fst (utf8_step b s) = (b - 192) * 64 + (c - 128)"
        using \<open>\<not> 0xE0 \<le> b\<close> \<open>128 \<le> b\<close> by (simp add: utf8_step.simps)
      then show ?thesis using assms lt [of c] by linarith
    qed
  qed
  ultimately show ?thesis using assms
    by (cases s; cases "tl s") (auto simp: utf8_step.simps second_def split: if_splits)
qed

definition has_sub :: "'a list \<Rightarrow> 'a list \<Rightarrow> bool" where
  "has_sub p s \<longleftrightarrow> (\<exists>a b. s = a @ p @ b)"

lemma has_sub_Cons: "has_sub p (c # s) \<longleftrightarrow> (\<exists>b. c # s = p @ b) \<or> has_sub p s"
  unfolding has_sub_def
proof
  assume "\<exists>a b. c # s = a @ p @ b"
  then obtain a b where "c # s = a @ p @ b" by blast
  then show "(\<exists>b. c # s = p @ b) \<or> (\<exists>a b. s = a @ p @ b)" by (cases a) auto
next
  assume "(\<exists>b. c # s = p @ b) \<or> (\<exists>a b. s = a @ p @ b)"
  then show "\<exists>a b. c # s = a @ p @ b" by (metis append_Cons append_Nil)
qed

lemma has_sub_drop: "has_sub p (drop n s) \<Longrightarrow> has_sub p s"
  unfolding has_sub_def by (metis append.assoc append_take_drop_id)

lemma utf8_point:
  assumes "n \<in> set (utf8 s)"
  shows "\<exists>a b t. s = a @ b # t \<and> fst (utf8_step b t) = n"
  using assms
proof (induction s rule: utf8.induct)
  case (2 b s)
  let ?k = "snd (utf8_step b s)"
  consider "n = fst (utf8_step b s)" | "n \<in> set (utf8 (drop ?k s))" using 2(2) by auto
  then show ?case
  proof cases
    case 1
    then show ?thesis by (intro exI [of _ "[]"]) auto
  next
    case 2
    then obtain a b' t where "drop ?k s = a @ b' # t" "fst (utf8_step b' t) = n" using "2.IH" by blast
    then have "b # s = (b # take ?k s @ a) @ b' # t" by (metis append_Cons append_assoc append_take_drop_id)
    then show ?thesis using \<open>fst (utf8_step b' t) = n\<close> by blast
  qed
qed simp

lemma utf8_ascii_point: "n \<in> set (utf8 s) \<Longrightarrow> n < 128 \<Longrightarrow> n \<in> set s"
  using utf8_point [of n s] step_not_ascii by (metis fst_conv in_set_conv_decomp leD leI step_ascii)

lemma utf8_nel: "133 \<in> set (utf8 s) \<Longrightarrow> has_sub [0xC2, 0x85] s"
proof -
  assume "133 \<in> set (utf8 s)"
  then obtain a b t where s: "s = a @ b # t" and step: "fst (utf8_step b t) = 133" using utf8_point by blast
  then obtain c t' where "t = c # t'" "cont c" "194 \<le> b" "133 = (b - 192) * 64 + (c - 128)"
    using step_two_bytes [of b t] by auto
  moreover have "x = 2 \<and> y = 5" if "133 = x * 64 + y" "y < 64" for x y :: nat using that by arith
  moreover have "c - 128 < 64" using \<open>cont c\<close> unfolding cont_def by arith
  ultimately have "b - 192 = 2" "c - 128 = 5" by blast+
  then have "b = 194" "c = 133" by arith+
  with \<open>t = c # t'\<close> show ?thesis using s by (auto simp: has_sub_def)
qed

lemma utf8_separator:
  assumes "n \<in> set (utf8 s)" "n = 8232 \<or> n = 8233"
  shows "has_sub [0xE2, 0x80, 0xA8] s \<or> has_sub [0xE2, 0x80, 0xA9] s"
proof -
  obtain a b t where s: "s = a @ b # t" and step: "fst (utf8_step b t) = n" using utf8_point [OF assms(1)] by blast
  then obtain c d t' where t: "t = c # d # t'" "cont c" "cont d" "224 \<le> b" "n = (b - 224) * 4096 + (c - 128) * 64 + (d - 128)"
    using step_three_bytes [of b t] assms(2) by (auto simp: replacement_def)
  have "x = 2 \<and> y = 0 \<and> (z = 40 \<or> z = 41)" if "n = x * 4096 + y * 64 + z" "y < 64" "z < 64" for x y z
  proof -
    have "x < 3" "1 < x" using that assms(2) by linarith+
    then have "x = 2" by simp
    then have "y < 1" using that assms(2) by linarith
    then show ?thesis using that assms(2) \<open>x = 2\<close> by simp
  qed
  moreover have "c - 128 < 64" "d - 128 < 64" using t(2,3) unfolding cont_def by arith+
  ultimately have "b - 224 = 2" "c - 128 = 0" "d - 128 = 40 \<or> d - 128 = 41" using t(5) by blast+
  then have "b = 226" "c = 128" "d = 168 \<or> d = 169" using t(2) unfolding cont_def by arith+
  then show ?thesis using s t(1) by (auto simp: has_sub_def)
qed

section \<open>Lines\<close>

text \<open>When LF is the only line break, the lines are the pieces between LFs, but for an empty last one.\<close>

definition trim_last :: "'a list list \<Rightarrow> 'a list list" where
  "trim_last L = (if last L = [] then butlast L else L)"

definition lf_lines :: "nat list \<Rightarrow> nat list list" where
  "lf_lines s = trim_last (split_on 10 s)"

lemma trim_last_Cons: "L \<noteq> [] \<Longrightarrow> trim_last (w # L) = w # trim_last L"
  by (simp add: trim_last_def)

lemma tlines_acc_step:
  assumes "break_point c \<longrightarrow> c = 10"
  shows "tlines_acc w (c # s) = (if c = 10 then rev w # tlines_acc [] s else tlines_acc (c # w) s)"
  using assms by (cases s) (auto simp: break_point_def)

lemma tlines_acc_lf:
  "\<forall>n \<in> set s. break_point n \<longrightarrow> n = 10 \<Longrightarrow>
   tlines_acc w s = trim_last ((rev w @ hd (split_on 10 s)) # tl (split_on 10 s))"
proof (induction s arbitrary: w)
  case Nil
  then show ?case by (simp add: trim_last_def)
next
  case (Cons c s)
  obtain l L where L: "split_on 10 s = l # L" by (cases "split_on 10 s") auto
  have "tlines_acc w (c # s) = (if c = 10 then rev w # tlines_acc [] s else tlines_acc (c # w) s)"
    using Cons.prems by (intro tlines_acc_step) simp
  then show ?case using Cons L by (simp add: trim_last_Cons)
qed

lemma tsplitlines_lf:
  assumes "\<forall>n \<in> set s. break_point n \<longrightarrow> n = 10"
  shows "tsplitlines s = lf_lines s"
proof -
  obtain l L where "split_on 10 s = l # L" by (cases "split_on 10 s") auto
  then show ?thesis using tlines_acc_lf [OF assms, of "[]"] by (simp add: tsplitlines_def lf_lines_def)
qed

lemma utf8_split: "split_on 10 (utf8 s) = map utf8 (split_on 10 s)"
proof (induction "length s" arbitrary: s rule: less_induct)
  case less
  show ?case
  proof (cases "10 \<in> set s")
    case True
    then obtain a t where s: "s = a @ 10 # t" "10 \<notin> set a" by (meson split_list_first)
    then have "10 \<notin> set (utf8 a)" using utf8_ascii_point [of 10 a] by auto
    then show ?thesis using less [of t] s by (simp add: utf8_append_ascii split_on_append)
  next
    case False
    then have "10 \<notin> set (utf8 s)" using utf8_ascii_point [of 10 s] by auto
    then show ?thesis using False by (simp add: split_on_single)
  qed
qed

lemma utf8_Nil_iff [simp]: "utf8 s = [] \<longleftrightarrow> s = []"
  by (cases s) auto

lemma utf8_lines: "lf_lines (utf8 s) = map utf8 (lf_lines s)"
  by (simp add: lf_lines_def trim_last_def utf8_split last_map map_butlast)

section \<open>Encoding\<close>

lemma div_mod_64: "n div 64 mod 64 * 64 + n mod 64 = n mod 4096" for n :: nat
  using mod_mult2_eq [of n 64 64] by (simp add: mult.commute)

lemma div_mod_4096: "n div 4096 mod 64 * 4096 + n mod 4096 = n mod 262144" for n :: nat
  using mod_mult2_eq [of n 4096 64] by (simp add: mult.commute)

lemma step_encoded:
  assumes "scalar n"
  shows "utf8 (encode_point n @ s) = n # utf8 s"
proof -
  have tail: "cont (128 + k mod 64)" for k :: nat by (simp add: cont_def)
  consider (one) "n < 0x80" | (two) "0x80 \<le> n" "n < 0x800" | (three) "0x800 \<le> n" "n < 0x10000" | (four) "0x10000 \<le> n" "n < 0x110000"
    using assms unfolding scalar_def by linarith
  then show ?thesis
  proof cases
    case one
    then show ?thesis by (simp add: encode_point_def step_ascii)
  next
    case two
    then have "2 \<le> n div 64" "n div 64 < 32" by (simp_all add: less_mult_imp_div_less div_le_mono [of 128 n 64, simplified])
    then show ?thesis using two tail by (simp add: encode_point_def utf8_step.simps)
  next
    case three
    let ?b = "224 + n div 4096" and ?c = "128 + n div 64 mod 64"
    have small: "n div 4096 < 16" using three(2) by (simp add: less_mult_imp_div_less)
    moreover have "second ?b ?c"
    proof -
      have "0xA0 \<le> ?c" if "?b = 0xE0"
      proof -
        have "n < 4096" using that by (simp add: div_eq_0_iff)
        then have "n div 64 < 64" by (simp add: less_mult_imp_div_less)
        moreover have "32 \<le> n div 64" using div_le_mono [OF three(1), of 64] by simp
        ultimately show ?thesis by simp
      qed
      moreover have "?c < 0xA0" if "?b = 0xED"
      proof -
        have "n div 4096 = 13" using that by simp
        then have "n = 13 * 4096 + n mod 4096" by (metis mult.commute div_mult_mod_eq)
        moreover have "n mod 4096 < 2048" using assms calculation unfolding scalar_def by linarith
        moreover have "n div 64 mod 64 = n mod 4096 div 64" using mod_mult2_eq [of n 64 64] by simp
        ultimately show ?thesis by (simp add: less_mult_imp_div_less)
      qed
      ultimately show ?thesis using tail small by (auto simp: second_def)
    qed
    moreover have "n div 4096 * 4096 + (n div 64 mod 64) * 64 + n mod 64 = n"
      using div_mod_64 [of n] div_mult_mod_eq [of n 4096] by linarith
    ultimately show ?thesis using three tail by (simp add: encode_point_def utf8_step.simps)
  next
    case four
    let ?b = "240 + n div 262144" and ?c = "128 + n div 4096 mod 64"
    have "n div 262144 < 5" using four(2) by (simp add: less_mult_imp_div_less)
    moreover have "second ?b ?c"
    proof -
      have "0x90 \<le> ?c" if "?b = 0xF0"
      proof -
        have "n < 262144" using that by (simp add: div_eq_0_iff)
        then have "n div 4096 < 64" by (simp add: less_mult_imp_div_less)
        moreover have "16 \<le> n div 4096" using div_le_mono [OF four(1), of 4096] by simp
        ultimately show ?thesis by simp
      qed
      moreover have "?c < 0x90" if "?b = 0xF4"
      proof -
        have "n div 262144 = 4" using that by simp
        then have "n = 4 * 262144 + n mod 262144" by (metis mult.commute div_mult_mod_eq)
        then have "n mod 262144 < 65536" using four(2) by linarith
        moreover have "n div 4096 mod 64 = n mod 262144 div 4096" using mod_mult2_eq [of n 4096 64] by simp
        ultimately show ?thesis by (simp add: less_mult_imp_div_less)
      qed
      ultimately show ?thesis using tail by (auto simp: second_def)
    qed
    moreover have "n div 262144 * 262144 + (n div 4096 mod 64) * 4096 + (n div 64 mod 64) * 64 + n mod 64 = n"
      using div_mod_64 [of n] div_mod_4096 [of n] div_mult_mod_eq [of n 262144] by linarith
    ultimately show ?thesis using four tail by (simp add: encode_point_def utf8_step.simps)
  qed
qed

lemma encode_point_byte: "scalar n \<Longrightarrow> b \<in> set (encode_point n) \<Longrightarrow> b < 256"
  by (auto simp: encode_point_def scalar_def less_mult_imp_div_less split: if_splits)

lemma utf8_encoded: "\<forall>n \<in> set t. scalar n \<Longrightarrow> utf8 (concat (map encode_point t)) = t"
  by (induction t) (simp_all add: step_encoded)

lemma decode_encode: "\<forall>n \<in> set t. scalar n \<Longrightarrow> decode (encode t) = t"
proof -
  assume t: "\<forall>n \<in> set t. scalar n"
  have "bytes_of (encode t) = concat (map encode_point t)"
    unfolding encode_def map_map using t encode_point_byte by (intro map_idI) (auto simp: o_def)
  then show ?thesis using utf8_encoded [OF t] by (simp add: decode_def)
qed

text \<open>What decoding yields can be encoded again.\<close>

lemma scalar_two: "cont c \<Longrightarrow> b < 224 \<Longrightarrow> scalar ((b - 192) * 64 + (c - 128))"
  unfolding scalar_def cont_def by linarith

lemma scalar_three:
  assumes "second b c" "cont d" "224 \<le> b" "b < 240"
  shows "scalar ((b - 224) * 4096 + (c - 128) * 64 + (d - 128))"
proof -
  define x y z where xyz: "x = b - 224" "y = c - 128" "z = d - 128"
  have "x < 16" "y < 64" "z < 64" and low: "x = 13 \<longrightarrow> y < 32"
    using assms unfolding second_def cont_def xyz by linarith+
  moreover from this have "x < 13 \<or> x = 13 \<or> 14 \<le> x" by linarith
  ultimately have "scalar (x * 4096 + y * 64 + z)" unfolding scalar_def by (elim disjE) linarith+
  then show ?thesis by (simp add: xyz)
qed

lemma scalar_four:
  assumes "second b c" "cont d" "cont e" "240 \<le> b" "b < 245"
  shows "scalar ((b - 240) * 262144 + (c - 128) * 4096 + (d - 128) * 64 + (e - 128))"
proof -
  define x y z w where xyz: "x = b - 240" "y = c - 128" "z = d - 128" "w = e - 128"
  have "x < 5" "y < 64" "z < 64" "w < 64" and low: "x = 0 \<longrightarrow> 16 \<le> y" and high: "x = 4 \<longrightarrow> y < 16"
    using assms unfolding second_def cont_def xyz by linarith+
  moreover from this have "x = 0 \<or> 0 < x \<and> x < 4 \<or> x = 4" by linarith
  ultimately have "scalar (x * 262144 + y * 4096 + z * 64 + w)" unfolding scalar_def by (elim disjE) linarith+
  then show ?thesis by (simp add: xyz)
qed

lemma scalar_replacement: "scalar replacement"
  by (simp add: scalar_def replacement_def)

lemma step_scalar: "scalar (fst (utf8_step b s))"
proof (cases "b < 128")
  case True
  then show ?thesis by (simp add: step_ascii scalar_def)
next
  case False
  then show ?thesis
    by (simp add: utf8_step.simps scalar_two scalar_three scalar_four scalar_replacement split: list.split)
qed

lemma utf8_scalar: "n \<in> set (utf8 s) \<Longrightarrow> scalar n"
  using utf8_point step_scalar by blast

end
