(* ===== verification/Index_Parser.thy ===== *)
theory Index_Parser
  imports Unicode
begin

text \<open>
  What the index parsers share (\<open>parsers/base.py\<close> and \<open>PackageRef\<close> of \<open>models.py\<close>): the packages read from
  an index, the snapshot they are turned into, the HTTP answers a parser sees, its errors and the check
  of a package path.  \<open>http\<close> gives the answer for a URL; only a 2xx answer has a body.
\<close>

record package_ref =
  pf_name :: utext
  pf_version :: utext
  pf_filename :: "utext option"
  pf_hash :: "utext option"

definition ref_key :: "package_ref \<Rightarrow> utext" where
  "ref_key p = pf_name p @ lit ''-'' @ pf_version p"

definition given :: "utext option \<Rightarrow> bool" where
  "given t \<longleftrightarrow> t \<noteq> None \<and> t \<noteq> Some []"

record parsed_index =
  px_repo :: str
  px_packages :: "(utext \<times> utext) list"
  px_names :: "(utext \<times> utext) list"
  px_hashes :: "(utext \<times> utext) list"
  px_signers :: "(utext \<times> utext) list"

text \<open>\<open>IndexParser.fetch\<close> after \<open>fetch_packages\<close>\<close>

definition snapshot_of :: "str \<Rightarrow> (utext \<times> utext) list \<Rightarrow> package_ref list \<Rightarrow> parsed_index" where
  "snapshot_of repo_id signers packages =
     \<lparr>px_repo = repo_id,
      px_packages = dict_of (map (\<lambda>p. (ref_key p, case pf_filename p of None \<Rightarrow> [] | Some f \<Rightarrow> f)) packages),
      px_names = dict_of (map (\<lambda>p. (ref_key p, pf_name p)) packages),
      px_hashes = dict_of (map (\<lambda>p. (ref_key p, the (pf_hash p))) (filter (\<lambda>p. given (pf_hash p)) packages)),
      px_signers = signers\<rparr>"

datatype http_answer = Body str | Status nat | Unreachable

datatype index_error = Signature_error | Status_error nat | Transport_error | Decode_error | Value_error

definition http_get :: "(str \<Rightarrow> http_answer) \<Rightarrow> str \<Rightarrow> index_error + str" where
  "http_get http url =
     (case http url of Body b \<Rightarrow> Inr b | Status n \<Rightarrow> Inl (Status_error n) | Unreachable \<Rightarrow> Inl Transport_error)"

definition package_path_point :: "nat \<Rightarrow> bool" where
  "package_path_point n \<longleftrightarrow> (48 \<le> n \<and> n \<le> 57) \<or> (65 \<le> n \<and> n \<le> 90) \<or> (97 \<le> n \<and> n \<le> 122) \<or> n \<in> set (lit ''_+./~-'')"

definition safe_package_path :: "utext \<Rightarrow> index_error + utext" where
  "safe_package_path v =
     (if v = [] \<or> \<not> list_all package_path_point v \<or>
         list_ex (\<lambda>p. p \<in> set [[], lit ''.'', lit ''..'']) (split_on (code CHR ''/'') v)
      then Inl Value_error else Inr v)"

definition hex_point :: "nat \<Rightarrow> bool" where
  "hex_point n \<longleftrightarrow> (48 \<le> n \<and> n \<le> 57) \<or> (97 \<le> n \<and> n \<le> 102) \<or> (65 \<le> n \<and> n \<le> 70)"

text \<open>\<open>re.fullmatch('[0-9a-fA-F]{64}', t)\<close>\<close>

definition sha256_hex :: "utext \<Rightarrow> bool" where
  "sha256_hex t \<longleftrightarrow> length t = 64 \<and> list_all hex_point t"

text \<open>An ASCII text as a string\<close>

definition ascii_str :: "utext \<Rightarrow> str" where
  "ascii_str t = map char_of t"

lemma ascii_str_lit [simp]: "ascii_str (lit s) = s"
  by (simp add: ascii_str_def lit_def o_def)

section \<open>The snapshot\<close>

lemma last_with_key:
  "map_of (dict_of (map (\<lambda>p. (key p, f p)) ps)) k = map_option f (find (\<lambda>p. key p = k) (rev ps))"
  unfolding map_of_dict_of by (induction ps rule: rev_induct) simp_all

lemma find_iff: "(find P xs \<noteq> None) \<longleftrightarrow> (\<exists>x \<in> set xs. P x)"
  by (metis find_None_iff)

lemma snapshot_names:
  "map_of (px_names (snapshot_of repo signers ps)) k = map_option pf_name (find (\<lambda>p. ref_key p = k) (rev ps))"
  by (simp add: snapshot_of_def last_with_key)

lemma snapshot_packages:
  "map_of (px_packages (snapshot_of repo signers ps)) k =
   map_option (\<lambda>p. case pf_filename p of None \<Rightarrow> [] | Some f \<Rightarrow> f) (find (\<lambda>p. ref_key p = k) (rev ps))"
  by (simp add: snapshot_of_def last_with_key)

lemma snapshot_same_keys:
  "fst ` set (px_packages (snapshot_of repo signers ps)) = ref_key ` set ps"
  "fst ` set (px_names (snapshot_of repo signers ps)) = ref_key ` set ps"
  "fst ` set (px_hashes (snapshot_of repo signers ps)) \<subseteq> ref_key ` set ps"
  by (auto simp: snapshot_of_def keys_dict_of image_image)

end
