(* ===== verification/Apt_Index.thy ===== *)
theory Apt_Index
  imports Index_Parser
begin

text \<open>
  The Packages documents of \<open>parsers/apt.py\<close>: the line-by-line reference parser over the decoded text,
  and the fast path that looks for the four fields in the bytes, in slices.  Byte strings are lists of
  characters; a position that \<open>bytes.find\<close> does not find is \<open>None\<close>.
\<close>

section \<open>Searching bytes\<close>

fun find_sub :: "str \<Rightarrow> str \<Rightarrow> nat option" where
  "find_sub p [] = (if p = [] then Some 0 else None)"
| "find_sub p (c # s) = (if starts_with p (c # s) then Some 0 else map_option Suc (find_sub p s))"

definition bytes_find :: "str \<Rightarrow> str \<Rightarrow> nat \<Rightarrow> nat \<Rightarrow> nat option" where
  "bytes_find data needle start stop = map_option ((+) start) (find_sub needle (drop start (take stop data)))"

definition scan_slice :: nat where
  "scan_slice = 1024 * 1024"

text \<open>\<open>_find\<close>\<close>

function find_sliced :: "str \<Rightarrow> str \<Rightarrow> nat \<Rightarrow> nat option" where
  "find_sliced data needle start =
     (if start < length data then
        let stop = start + scan_slice in
        case bytes_find data needle start (min (stop + (length needle - 1)) (length data)) of
          Some position \<Rightarrow> Some position
        | None \<Rightarrow> find_sliced data needle stop
      else None)"
  by pat_completeness auto
termination by (relation "measure (\<lambda>(data, needle, start). length data - start)") (auto simp: scan_slice_def)

declare find_sliced.simps [simp del]

section \<open>Unusual line breaks\<close>

definition ascii_breaks :: "str list" where
  "ascii_breaks = [[CHR 13], [CHR 11], [CHR 12], [CHR 28], [CHR 29], [CHR 30]]"

definition nel :: "str list" where
  "nel = [[CHR 0xC2, CHR 0x85]]"

definition line_separators :: "str list" where
  "line_separators = [[CHR 0xE2, CHR 0x80, CHR 0xA8], [CHR 0xE2, CHR 0x80, CHR 0xA9]]"

definition lead_scan_limit :: nat where
  "lead_scan_limit = 4096"

text \<open>The loop of \<open>_has_encoded_break\<close> from an occurrence of the lead byte.\<close>

function scan_leads :: "str \<Rightarrow> str \<Rightarrow> str list \<Rightarrow> nat \<Rightarrow> nat option \<Rightarrow> bool" where
  "scan_leads data lead sequences inspected None = False"
| "scan_leads data lead sequences inspected (Some position) =
     (if list_ex (\<lambda>q. starts_with q (drop position data)) sequences then True
      else if inspected + 1 > lead_scan_limit then list_ex (\<lambda>q. find_sliced data q 0 \<noteq> None) sequences
      else scan_leads data lead sequences (inspected + 1) (find_sliced data lead (position + 1)))"
  by pat_completeness auto
termination by (relation "measure (\<lambda>(data, lead, sequences, inspected, position). Suc lead_scan_limit - inspected)") auto

declare scan_leads.simps [simp del]

definition has_encoded_break :: "str \<Rightarrow> str \<Rightarrow> str list \<Rightarrow> bool" where
  "has_encoded_break data lead sequences = scan_leads data lead sequences 0 (find_sliced data lead 0)"

definition has_unusual_line_break :: "str \<Rightarrow> bool" where
  "has_unusual_line_break data =
     (if list_ex (\<lambda>q. find_sliced data q 0 \<noteq> None) ascii_breaks then True
      else has_encoded_break data [CHR 0xC2] nel \<or> has_encoded_break data [CHR 0xE2] line_separators)"

section \<open>Stanzas\<close>

record stanza =
  sz_refs :: "package_ref list"
  sz_name :: "utext option"
  sz_version :: "utext option"
  sz_filename :: "utext option"
  sz_hash :: "utext option"

definition no_stanza :: stanza where
  "no_stanza = \<lparr>sz_refs = [], sz_name = None, sz_version = None, sz_filename = None, sz_hash = None\<rparr>"

definition save_stanza :: "stanza \<Rightarrow> package_ref list" where
  "save_stanza z =
     (if given (sz_name z) \<and> given (sz_version z)
      then sz_refs z @ [\<lparr>pf_name = the (sz_name z), pf_version = the (sz_version z), pf_filename = sz_filename z, pf_hash = sz_hash z\<rparr>]
      else sz_refs z)"

definition open_stanza :: "utext \<Rightarrow> stanza \<Rightarrow> stanza" where
  "open_stanza name z =
     \<lparr>sz_refs = save_stanza z, sz_name = Some name, sz_version = None, sz_filename = None, sz_hash = None\<rparr>"

definition set_hash :: "utext \<Rightarrow> stanza \<Rightarrow> stanza" where
  "set_hash value z = z\<lparr>sz_hash := (if sha256_hex value then Some value else None)\<rparr>"

section \<open>The reference parser\<close>

text \<open>\<open>line.split(':', 1)[1]\<close> of a line with a colon\<close>

definition after_colon :: "utext \<Rightarrow> utext" where
  "after_colon line = drop 1 (dropWhile (\<lambda>n. n \<noteq> code CHR '':'') line)"

definition line_step :: "stanza \<Rightarrow> utext \<Rightarrow> stanza" where
  "line_step z line =
     (if tstarts (lit ''Package:'') line then open_stanza (tstrip (after_colon line)) z
      else if tstarts (lit ''Version:'') line then z\<lparr>sz_version := Some (tstrip (after_colon line))\<rparr>
      else if tstarts (lit ''Filename:'') line then z\<lparr>sz_filename := Some (tstrip (after_colon line))\<rparr>
      else if tstarts (lit ''SHA256:'') line then set_hash (tstrip (after_colon line)) z
      else z)"

definition parse_packages_reference :: "str \<Rightarrow> package_ref list" where
  "parse_packages_reference data = save_stanza (foldl line_step no_stanza (tsplitlines (decode data)))"

section \<open>The fast path\<close>

definition field_names :: "str list" where
  "field_names = [''Package'', ''Version'', ''Filename'', ''SHA256'']"

definition value_char :: "char \<Rightarrow> bool" where
  "value_char c \<longleftrightarrow> c \<noteq> CHR 13 \<and> c \<noteq> LF"

text \<open>\<open>(Package|Version|Filename|SHA256):([^\\r\\n]*)\<close> at the beginning: the two groups and what follows\<close>

definition match_field :: "str \<Rightarrow> (str \<times> str \<times> str) option" where
  "match_field s =
     (case find (\<lambda>f. starts_with (f @ '':'') s) field_names of
        None \<Rightarrow> None
      | Some f \<Rightarrow> (let rest = drop (length f + 1) s in Some (f, takeWhile value_char rest, dropWhile value_char rest)))"

lemma match_field_shorter: "match_field s = Some (f, v, rest) \<Longrightarrow> length rest \<le> length s"
  by (auto simp: match_field_def Let_def split: option.splits intro!: order_trans [OF length_dropWhile_le])

text \<open>\<open>_LATER_FIELDS.findall\<close>\<close>

function find_fields :: "str \<Rightarrow> (str \<times> str) list" where
  "find_fields [] = []"
| "find_fields (c # s) =
     (if c = LF then (case match_field s of Some (f, v, rest) \<Rightarrow> (f, v) # find_fields rest | None \<Rightarrow> find_fields s)
      else find_fields s)"
  by pat_completeness auto
termination by (relation "measure length") (auto dest: match_field_shorter)

text \<open>The loop of \<open>_field_lines\<close> from a position.\<close>

function field_lines :: "str \<Rightarrow> nat \<Rightarrow> (str \<times> str) list" where
  "field_lines data position =
     (if position < length data then
        let stop = (case bytes_find data [LF] (position + scan_slice) (length data) of None \<Rightarrow> length data | Some p \<Rightarrow> p)
        in find_fields (drop position (take stop data)) @ field_lines data stop
      else [])"
  by pat_completeness auto
termination
  by (relation "measure (\<lambda>(data, position). length data - position)")
    (auto simp: bytes_find_def scan_slice_def split: option.splits)

declare field_lines.simps [simp del]

definition field_step :: "stanza \<Rightarrow> str \<times> str \<Rightarrow> stanza" where
  "field_step z fv =
     (let field = fst fv; value = tstrip (decode (snd fv)) in
      if field = ''Package'' then open_stanza value z
      else if field = ''Version'' then z\<lparr>sz_version := Some value\<rparr>
      else if field = ''Filename'' then z\<lparr>sz_filename := Some value\<rparr>
      else set_hash value z)"

definition parse_packages :: "str \<Rightarrow> package_ref list" where
  "parse_packages data =
     (if has_unusual_line_break data then parse_packages_reference data
      else let fields = (case match_field data of Some (f, v, _) \<Rightarrow> [(f, v)] | None \<Rightarrow> []) @ field_lines data 0
           in save_stanza (foldl field_step no_stanza fields))"

end
