(* ===== verification/Apt_Props.thy ===== *)
theory Apt_Props
  imports Apt_Index
begin

text \<open>
  The fast path of \<open>parsers/apt.py\<close> reads every document as the reference parser does: the sliced
  searches miss nothing, the byte-level test for line breaks is complete, and a field found in the bytes
  is the field of the decoded line.
\<close>

section \<open>Searches\<close>

lemma starts_with_length: "starts_with p s \<Longrightarrow> length p \<le> length s"
  by (auto simp: starts_with_iff)

lemma find_sub_None: "p \<noteq> [] \<Longrightarrow> find_sub p s = None \<longleftrightarrow> (\<forall>n. \<not> starts_with p (drop n s))"
proof (induction s)
  case Nil
  then show ?case by (simp add: starts_with_def)
next
  case (Cons c s)
  have "(\<forall>n. \<not> starts_with p (drop n (c # s))) \<longleftrightarrow> \<not> starts_with p (c # s) \<and> (\<forall>n. \<not> starts_with p (drop n s))"
    by (metis drop_0 drop_Suc_Cons not0_implies_Suc)
  then show ?case using Cons by simp
qed

lemma find_sub_Some:
  "p \<noteq> [] \<Longrightarrow> find_sub p s = Some n \<Longrightarrow> starts_with p (drop n s) \<and> (\<forall>m < n. \<not> starts_with p (drop m s))"
proof (induction s arbitrary: n)
  case (Cons c s)
  show ?case
  proof (cases "starts_with p (c # s)")
    case False
    then obtain m where m: "n = Suc m" "find_sub p s = Some m" using Cons.prems(2) by auto
    have "\<not> starts_with p (drop k (c # s))" if "k < n" for k
      using that False Cons.IH [OF Cons.prems(1) m(2)] m(1) by (cases k) auto
    then show ?thesis using Cons.IH [OF Cons.prems(1) m(2)] m(1) by simp
  qed (use Cons.prems in simp)
qed simp

lemma starts_with_take:
  assumes "p \<noteq> []"
  shows "starts_with p (drop n (take k s)) \<longleftrightarrow> starts_with p (drop n s) \<and> n + length p \<le> k"
proof (cases "n + length p \<le> k")
  case True
  then show ?thesis by (simp add: starts_with_def drop_take min_absorb1)
next
  case False
  then have "length (drop n (take k s)) < length p" using assms by (cases p) auto
  then show ?thesis using False starts_with_length [of p "drop n (take k s)"] by (auto simp: not_le)
qed

lemma bytes_find_None:
  assumes "p \<noteq> []"
  shows "bytes_find s p start stop = None \<longleftrightarrow> (\<forall>n \<ge> start. n + length p \<le> stop \<longrightarrow> \<not> starts_with p (drop n s))"
proof -
  have "bytes_find s p start stop = None \<longleftrightarrow> (\<forall>n. \<not> starts_with p (drop (start + n) (take stop s)))"
    using find_sub_None [OF assms] by (simp add: bytes_find_def add.commute)
  then show ?thesis using starts_with_take [OF assms] by (metis le_Suc_ex le_add1)
qed

lemma bytes_find_Some:
  assumes "p \<noteq> []" "bytes_find s p start stop = Some n"
  shows "start \<le> n" "n + length p \<le> stop" "starts_with p (drop n s)" "\<forall>m. start \<le> m \<and> m < n \<longrightarrow> \<not> starts_with p (drop m s)"
proof -
  obtain k where n: "n = start + k" and k: "find_sub p (drop start (take stop s)) = Some k"
    using assms(2) by (auto simp: bytes_find_def)
  note spec = find_sub_Some [OF assms(1) k]
  show "start \<le> n" using n by simp
  have here: "starts_with p (drop n (take stop s))" using spec n by (simp add: add.commute)
  then show "n + length p \<le> stop" "starts_with p (drop n s)" using starts_with_take [OF assms(1)] by blast+
  show "\<forall>m. start \<le> m \<and> m < n \<longrightarrow> \<not> starts_with p (drop m s)"
  proof (intro allI impI)
    fix m
    assume m: "start \<le> m \<and> m < n"
    then obtain j where j: "m = start + j" "j < k" using n by (metis le_Suc_ex nat_add_left_cancel_less)
    then have "\<not> starts_with p (drop m (take stop s))" using spec by (simp add: add.commute)
    moreover have "m + length p \<le> stop" using m \<open>n + length p \<le> stop\<close> by simp
    ultimately show "\<not> starts_with p (drop m s)" using starts_with_take [OF assms(1)] by blast
  qed
qed

lemma find_sliced_first:
  assumes "p \<noteq> []"
  shows "case find_sliced s p start of
    None \<Rightarrow> \<forall>n \<ge> start. \<not> starts_with p (drop n s)
  | Some n \<Rightarrow> start \<le> n \<and> starts_with p (drop n s) \<and> (\<forall>m. start \<le> m \<and> m < n \<longrightarrow> \<not> starts_with p (drop m s))"
  using assms
proof (induction s p start rule: find_sliced.induct)
  case (1 s p start)
  show ?case
  proof (cases "start < length s")
    case False
    then have "\<not> starts_with p (drop n s)" if "n \<ge> start" for n using that 1(2) by (simp add: starts_with_def)
    then show ?thesis using False by (simp add: find_sliced.simps)
  next
    case True
    let ?stop = "start + scan_slice" and ?limit = "min (start + scan_slice + (length p - 1)) (length s)"
    show ?thesis
    proof (cases "bytes_find s p start ?limit")
      case (Some n)
      then have "find_sliced s p start = Some n" using True by (simp add: find_sliced.simps Let_def)
      then show ?thesis using bytes_find_Some [OF 1(2) Some] by simp
    next
      case None
      then have rest: "find_sliced s p start = find_sliced s p ?stop" using True by (subst find_sliced.simps) (simp add: Let_def)
      note IH = "1.IH" [OF True refl None 1(2)]
      have early: "\<not> starts_with p (drop n s)" if n: "start \<le> n" "n < ?stop" for n
      proof
        assume "starts_with p (drop n s)"
        moreover from this have "n + length p \<le> ?limit" using n starts_with_length [of p "drop n s"] 1(2)
          by (cases p) auto
        ultimately show False using None n bytes_find_None [OF 1(2)] by blast
      qed
      show ?thesis
        using IH early unfolding rest by (auto split: option.splits) (meson not_less le_trans le_add1)+
    qed
  qed
qed

lemma find_sliced_None: "p \<noteq> [] \<Longrightarrow> find_sliced s p 0 = None \<Longrightarrow> \<not> starts_with p (drop n s)"
  using find_sliced_first [where p = p and s = s and start = 0] by simp

section \<open>Unusual line breaks\<close>

lemma scan_leads_complete:
  "\<not> scan_leads s lead qs i (find_sliced s lead start) \<Longrightarrow> lead \<noteq> [] \<Longrightarrow> \<forall>q \<in> set qs. \<exists>r. q = lead @ r \<Longrightarrow>
   \<forall>q \<in> set qs. \<forall>n \<ge> start. \<not> starts_with q (drop n s)"
proof (induction "lead_scan_limit - i" arbitrary: i start rule: less_induct)
  case less
  have lead: "starts_with lead (drop n s)" if "q \<in> set qs" "starts_with q (drop n s)" for q n
    using less.prems(3) that by (fastforce simp: starts_with_iff)
  note first = find_sliced_first [OF less.prems(2), where s = s and start = start]
  show ?case
  proof (cases "find_sliced s lead start")
    case None
    then show ?thesis using first lead by auto
  next
    case (Some p)
    then have here: "\<forall>q \<in> set qs. \<not> starts_with q (drop p s)"
      using less.prems(1) by (auto simp: scan_leads.simps list_ex_iff split: if_splits)
    have before: "\<forall>q \<in> set qs. \<forall>n. start \<le> n \<and> n < p \<longrightarrow> \<not> starts_with q (drop n s)"
      using first lead Some by auto
    have after: "\<forall>q \<in> set qs. \<forall>n \<ge> p + 1. \<not> starts_with q (drop n s)"
    proof (cases "i + 1 > lead_scan_limit")
      case True
      then have none: "\<forall>q \<in> set qs. find_sliced s q 0 = None"
        using less.prems(1) here Some by (auto simp: scan_leads.simps list_ex_iff)
      have "q \<noteq> []" if "q \<in> set qs" for q using less.prems(2,3) that by auto
      then show ?thesis using none find_sliced_None by blast
    next
      case False
      have "\<not> scan_leads s lead qs (i + 1) (find_sliced s lead (p + 1))"
        using less.prems(1) here Some False by (auto simp: scan_leads.simps list_ex_iff)
      moreover have "lead_scan_limit - (i + 1) < lead_scan_limit - i" using False by simp
      ultimately show ?thesis using less.hyps less.prems(2,3) by blast
    qed
    show ?thesis
    proof (intro ballI allI impI)
      fix q n
      assume "q \<in> set qs" "start \<le> n"
      then show "\<not> starts_with q (drop n s)"
        using here before after by (cases n p rule: linorder_cases) auto
    qed
  qed
qed

lemma has_sub_iff: "has_sub p s \<longleftrightarrow> (\<exists>n. starts_with p (drop n s))"
proof
  assume "has_sub p s"
  then obtain a b where "s = a @ p @ b" by (auto simp: has_sub_def)
  then have "starts_with p (drop (length a) s)" by (simp add: starts_with_iff)
  then show "\<exists>n. starts_with p (drop n s)" by blast
next
  assume "\<exists>n. starts_with p (drop n s)"
  then obtain n b where "drop n s = p @ b" by (auto simp: starts_with_iff)
  then have "s = take n s @ p @ b" by (metis append_take_drop_id)
  then show "has_sub p s" unfolding has_sub_def by blast
qed

lemma has_sub_bytes: "has_sub (bytes_of p) (bytes_of s) \<longleftrightarrow> has_sub p s"
proof
  assume "has_sub (bytes_of p) (bytes_of s)"
  then obtain a b where "bytes_of s = a @ bytes_of p @ b" by (auto simp: has_sub_def)
  from map_eq_append_conv [THEN iffD1, OF this] obtain a' u where "s = a' @ u" and u: "bytes_of u = bytes_of p @ b" by metis
  moreover from map_eq_append_conv [THEN iffD1, OF u] obtain p' b' where "u = p' @ b'" "bytes_of p' = bytes_of p" by metis
  ultimately have "s = a' @ p' @ b'" "bytes_of p' = bytes_of p" by simp_all
  then show "has_sub p s" by (auto simp: has_sub_def inj_map_eq_map inj_def)
next
  assume "has_sub p s"
  then show "has_sub (bytes_of p) (bytes_of s)" by (auto simp: has_sub_def) blast
qed

lemma has_sub_single: "has_sub [c] s \<longleftrightarrow> c \<in> set s"
  unfolding has_sub_def by (metis append_Cons append_Nil in_set_conv_decomp)

lemma usual_breaks:
  assumes "\<not> has_unusual_line_break data"
  shows "\<forall>n \<in> set (decode data). break_point n \<longrightarrow> n = 10" and "CHR 13 \<notin> set data"
proof -
  have no_ascii: "c \<notin> set data" if "[c] \<in> set ascii_breaks" for c
  proof -
    have "find_sliced data [c] 0 = None" using assms that by (auto simp: has_unusual_line_break_def list_ex_iff split: if_splits)
    then show ?thesis using find_sliced_None [of "[c]" data] by (simp flip: has_sub_single add: has_sub_iff)
  qed
  then show cr: "CHR 13 \<notin> set data" by (simp add: ascii_breaks_def)
  have no_seq: "\<not> has_sub q data" if "\<not> has_encoded_break data lead qs" "q \<in> set qs" "lead \<noteq> []" "\<forall>q \<in> set qs. \<exists>r. q = lead @ r" for lead qs q
    using scan_leads_complete [of data lead qs 0 0] that by (auto simp: has_encoded_break_def has_sub_iff)
  have enc: "\<not> has_encoded_break data [CHR 0xC2] nel" "\<not> has_encoded_break data [CHR 0xE2] line_separators"
    using assms by (simp_all add: has_unusual_line_break_def split: if_splits)
  have "\<not> has_sub [CHR 0xC2, CHR 0x85] data"
    using enc(1) by (rule no_seq) (simp_all add: nel_def)
  then have no_nel: "\<not> has_sub [0xC2, 0x85] (bytes_of data)" using has_sub_bytes [of "[CHR 0xC2, CHR 0x85]" data] by simp
  have "\<not> has_sub [CHR 0xE2, CHR 0x80, CHR 0xA8] data" "\<not> has_sub [CHR 0xE2, CHR 0x80, CHR 0xA9] data"
    by (rule no_seq [OF enc(2)]; simp add: line_separators_def)+
  then have no_sep: "\<not> has_sub [0xE2, 0x80, 0xA8] (bytes_of data)" "\<not> has_sub [0xE2, 0x80, 0xA9] (bytes_of data)"
    using has_sub_bytes [of "[CHR 0xE2, CHR 0x80, CHR 0xA8]" data] has_sub_bytes [of "[CHR 0xE2, CHR 0x80, CHR 0xA9]" data] by simp_all
  have ascii: "n \<notin> set (decode data)" if "n \<in> {11, 12, 13, 28, 29, 30}" for n
  proof
    assume "n \<in> set (decode data)"
    moreover have "n < 128" using that by auto
    ultimately have "n \<in> set (bytes_of data)" unfolding decode_def by (rule utf8_ascii_point)
    then obtain c where c: "c \<in> set data" "code c = n" by auto
    have "code c \<in> code ` {CHR 13, CHR 11, CHR 12, CHR 28, CHR 29, CHR 30}" using that c(2) by auto
    then obtain d where "d \<in> {CHR 13, CHR 11, CHR 12, CHR 28, CHR 29, CHR 30 :: char}" "code c = code d" by blast
    moreover from this have "c = d" by (metis of_char_eq_iff)
    ultimately have "[c] \<in> set ascii_breaks" by (auto simp: ascii_breaks_def)
    then show False using no_ascii c(1) by blast
  qed
  show "\<forall>n \<in> set (decode data). break_point n \<longrightarrow> n = 10"
  proof (intro ballI impI)
    fix n
    assume n: "n \<in> set (decode data)" "break_point n"
    then have "n \<noteq> 133" "n \<noteq> 8232" "n \<noteq> 8233" using no_nel no_sep utf8_nel utf8_separator by (auto simp: decode_def)
    moreover have "n \<notin> {11, 12, 13, 28, 29, 30}" using n(1) ascii by blast
    ultimately show "n = 10" using n(2) unfolding break_point_def by auto
  qed
qed

section \<open>Fields and lines\<close>

definition line_field :: "str \<Rightarrow> (str \<times> str) list" where
  "line_field l = (case match_field l of Some (f, v, _) \<Rightarrow> [(f, v)] | None \<Rightarrow> [])"

definition one_line :: "str \<Rightarrow> bool" where
  "one_line l \<longleftrightarrow> LF \<notin> set l \<and> CHR 13 \<notin> set l"

lemma one_line_value: "one_line l \<Longrightarrow> r = [] \<or> hd r = LF \<Longrightarrow> takeWhile value_char (l @ r) = l \<and> dropWhile value_char (l @ r) = r"
  by (induction l) (cases r; auto simp: one_line_def value_char_def)+

lemma starts_with_line:
  assumes "LF \<notin> set p" "r = [] \<or> hd r = LF"
  shows "starts_with p (l @ r) \<longleftrightarrow> starts_with p l"
proof
  assume "starts_with p (l @ r)"
  then obtain b where b: "l @ r = p @ b" by (auto simp: starts_with_iff)
  then consider u where "l = p @ u" | u where "p = l @ u" "r = u @ b" by (auto simp: append_eq_append_conv2)
  then show "starts_with p l"
  proof cases
    case 2
    then have "u = []" using assms by (cases u) auto
    then show ?thesis using 2 by (simp add: starts_with_iff)
  qed (auto simp: starts_with_iff)
qed (auto simp: starts_with_iff)

lemma field_name_chars: "f \<in> set field_names \<Longrightarrow> LF \<notin> set (f @ '':'')"
  by (auto simp: field_names_def)

lemma match_field_line:
  assumes "one_line l" "r = [] \<or> hd r = LF"
  shows "match_field (l @ r) = map_option (\<lambda>(f, v, _). (f, v, r)) (match_field l)"
proof -
  have same: "find (\<lambda>f. starts_with (f @ '':'') (l @ r)) field_names = find (\<lambda>f. starts_with (f @ '':'') l) field_names"
    using starts_with_line [OF field_name_chars assms(2)] by (intro find_cong) auto
  show ?thesis
  proof (cases "find (\<lambda>f. starts_with (f @ '':'') l) field_names")
    case None
    then show ?thesis using same by (simp add: match_field_def)
  next
    case (Some f)
    then obtain b where l: "l = f @ '':'' @ b" by (auto simp: find_Some_iff starts_with_iff)
    then have "one_line b" using assms(1) by (simp add: one_line_def)
    then have "takeWhile value_char (b @ r) = b" "dropWhile value_char (b @ r) = r" "takeWhile value_char b = b"
      using one_line_value [of b r] one_line_value [of b "[]"] assms(2) by simp_all
    then show ?thesis using Some same l
      by (auto simp: match_field_def Let_def intro!: takeWhile_eq_all_conv [THEN iffD2, symmetric])
  qed
qed

lemma split_on_hd: "s = hd (split_on c s) @ (if tl (split_on c s) = [] then [] else c # join [c] (tl (split_on c s)))"
proof -
  obtain l L where "split_on c s = l # L" by (cases "split_on c s") auto
  then show ?thesis using split_on_join [of c s] by (cases L) auto
qed

lemma find_fields_lines:
  "CHR 13 \<notin> set s \<Longrightarrow> find_fields s = concat (map line_field (tl (split_on LF s)))"
proof (induction s rule: find_fields.induct)
  case 1
  then show ?case by simp
next
  case (2 c s)
  obtain l L where split: "split_on LF s = l # L" by (cases "split_on LF s") auto
  show ?case
  proof (cases "c = LF")
    case False
    then show ?thesis using 2 split by simp
  next
    case True
    define r where "r = (if L = [] then [] else LF # join [LF] L)"
    have s: "s = l @ r" using split_on_hd [of s LF] unfolding split by (simp add: r_def)
    have "LF \<notin> set l" using split_on_no_sep [of l LF s] split by simp
    then have l: "one_line l" using 2(4) s by (simp add: one_line_def)
    have hd: "r = [] \<or> hd r = LF" by (simp add: r_def)
    note match = match_field_line [OF l hd]
    have tail: "find_fields s = concat (map line_field L)" if "match_field l = None"
      using 2 match that True split s by simp
    have rest: "find_fields r = concat (map line_field L)" if m: "match_field l = Some (f, v, r')" for f v r'
    proof -
      have ms: "match_field s = Some (f, v, r)" using match m s by simp
      have "CHR 13 \<notin> set r" using 2(4) s by simp
      then have "find_fields r = concat (map line_field (tl (split_on LF r)))" using "2.IH"(2) [OF True ms refl refl] by simp
      moreover have "tl (split_on LF r) = L"
      proof (cases "L = []")
        case False
        have "\<forall>w \<in> set L. LF \<notin> set w" using split_on_no_sep [of _ LF s] split by simp
        then show ?thesis using False by (simp add: r_def split_of_join)
      qed (simp add: r_def)
      ultimately show ?thesis by simp
    qed
    show ?thesis
    proof (cases "match_field l")
      case None
      then have "line_field l = []" by (simp add: line_field_def)
      then show ?thesis using None tail True split match s by simp
    next
      case (Some m)
      obtain f v r' where m: "m = (f, v, r')" by (cases m)
      then have "line_field l = [(f, v)]" using Some by (simp add: line_field_def)
      then show ?thesis using rest Some True split match s m by simp
    qed
  qed
qed

lemma find_fields_append:
  assumes "CHR 13 \<notin> set (a @ LF # b)"
  shows "find_fields (a @ LF # b) = find_fields a @ find_fields (LF # b)"
proof -
  have parts: "split_on LF (a @ LF # b) = split_on LF a @ split_on LF b"
    by (induction a) (simp_all split: list.split)
  have "find_fields (LF # b) = concat (map line_field (split_on LF b))" "find_fields a = concat (map line_field (tl (split_on LF a)))"
    using find_fields_lines [of "LF # b"] find_fields_lines [of a] assms by (simp_all del: find_fields.simps)
  moreover have "split_on LF a \<noteq> []" by simp
  ultimately show ?thesis using find_fields_lines [OF assms] parts by simp
qed

lemma field_lines_all: "CHR 13 \<notin> set data \<Longrightarrow> field_lines data position = find_fields (drop position data)"
proof (induction data position rule: field_lines.induct)
  case (1 data position)
  show ?case
  proof (cases "position < length data")
    case False
    then show ?thesis by (simp add: field_lines.simps)
  next
    case True
    let ?found = "bytes_find data [LF] (position + scan_slice) (length data)"
    have unfold: "field_lines data position = find_fields (drop position (take (case ?found of None \<Rightarrow> length data | Some p \<Rightarrow> p) data)) @
        field_lines data (case ?found of None \<Rightarrow> length data | Some p \<Rightarrow> p)"
      using True by (subst field_lines.simps) (simp add: Let_def)
    show ?thesis
    proof (cases ?found)
      case None
      then show ?thesis unfolding unfold by (simp add: field_lines.simps)
    next
      case (Some p)
      note found = bytes_find_Some [OF list.discI Some]
      have "starts_with [LF] (drop p data)" "position \<le> p" using found(1,3) by simp_all
      then obtain b where b: "drop p data = LF # b" by (auto simp: starts_with_iff)
      have "drop position data = drop position (take p data) @ drop p data"
        using \<open>position \<le> p\<close> by (metis append_take_drop_id drop_append drop_drop le_add_diff_inverse2 length_take drop_take take_drop)
      moreover have "CHR 13 \<notin> set (drop position (take p data) @ LF # b)"
        using 1(2) calculation b by (metis in_set_dropD)
      ultimately have "find_fields (drop position data) = find_fields (drop position (take p data)) @ find_fields (drop p data)"
        using find_fields_append b by simp
      moreover have "field_lines data p = find_fields (drop p data)"
        using "1.IH" [OF True, of p] 1(2) Some by simp
      ultimately show ?thesis unfolding unfold by (simp add: Some)
    qed
  qed
qed

section \<open>One line at a time\<close>

lemma utf8_ascii_prefix: "\<forall>c \<in> set p. c < 128 \<Longrightarrow> utf8 (p @ s) = p @ utf8 s"
  by (induction p) (simp_all add: step_ascii)

lemma decode_starts:
  assumes "\<forall>c \<in> set p. code c < 128"
  shows "tstarts (lit p) (decode l) \<longleftrightarrow> starts_with p l"
proof -
  have "tstarts (lit p) (decode l) \<longleftrightarrow> (\<exists>t. bytes_of l = bytes_of p @ t)"
    using utf8_starts [of "bytes_of p" "bytes_of l"] assms by (simp add: tstarts_iff lit_def decode_def)
  also have "\<dots> \<longleftrightarrow> starts_with p l"
  proof
    assume "\<exists>t. bytes_of l = bytes_of p @ t"
    then obtain t where "bytes_of l = bytes_of p @ t" by blast
    from map_eq_append_conv [THEN iffD1, OF this] obtain u v where "l = u @ v" "bytes_of u = bytes_of p" by metis
    then show "starts_with p l" by (auto simp: starts_with_iff inj_map_eq_map inj_def)
  qed (auto simp: starts_with_iff)
  finally show ?thesis .
qed

lemma after_colon_decode:
  assumes "\<forall>c \<in> set f. code c < 128 \<and> c \<noteq> CHR '':''"
  shows "after_colon (decode (f @ '':'' @ v)) = decode v"
proof -
  have "decode (f @ '':'' @ v) = bytes_of f @ code CHR '':'' # decode v"
    using utf8_ascii_prefix [of "bytes_of f" "bytes_of ('':'' @ v)"] assms by (simp add: decode_def step_ascii)
  moreover have "\<forall>n \<in> set (bytes_of f). n \<noteq> code CHR '':''"
    using assms by (metis (no_types, lifting) imageE list.set_map of_char_eq_iff)
  then have "dropWhile (\<lambda>n. n \<noteq> code CHR '':'') (bytes_of f @ code CHR '':'' # decode v) = code CHR '':'' # decode v"
    by (subst dropWhile_append2) auto
  ultimately show ?thesis by (simp add: after_colon_def)
qed

lemma line_step_field:
  assumes "f \<in> set field_names"
  shows "line_step z (decode (f @ '':'' @ v)) = field_step z (f, v)"
proof -
  let ?l = "f @ '':'' @ v"
  have plain: "\<forall>c \<in> set f. code c < 128 \<and> c \<noteq> CHR '':''" using assms by (auto simp: field_names_def)
  have starts: "tstarts (lit (g @ '':'')) (decode ?l) \<longleftrightarrow> g = f" if "g \<in> set field_names" for g
  proof -
    have "\<forall>c \<in> set (g @ '':''). code c < 128" using that by (auto simp: field_names_def)
    then have "tstarts (lit (g @ '':'')) (decode ?l) \<longleftrightarrow> starts_with (g @ '':'') ?l" by (rule decode_starts)
    also have "\<dots> \<longleftrightarrow> g = f" using assms that by (auto simp: field_names_def starts_with_def)
    finally show ?thesis .
  qed
  define l where "l = ?l"
  have "after_colon (decode l) = decode v" unfolding l_def by (rule after_colon_decode [OF plain])
  moreover have "tstarts (lit ''Package:'') (decode l) \<longleftrightarrow> f = ''Package''" "tstarts (lit ''Version:'') (decode l) \<longleftrightarrow> f = ''Version''"
    "tstarts (lit ''Filename:'') (decode l) \<longleftrightarrow> f = ''Filename''" "tstarts (lit ''SHA256:'') (decode l) \<longleftrightarrow> f = ''SHA256''"
    using starts [of "''Package''"] starts [of "''Version''"] starts [of "''Filename''"] starts [of "''SHA256''"]
    by (simp_all add: field_names_def l_def eq_commute)
  moreover have "f = ''Package'' \<or> f = ''Version'' \<or> f = ''Filename'' \<or> f = ''SHA256''" using assms by (simp add: field_names_def)
  ultimately show ?thesis unfolding l_def [symmetric] by (auto simp: line_step_def field_step_def Let_def)
qed

lemma line_step_other:
  assumes "match_field l = None"
  shows "line_step z (decode l) = z"
proof -
  have "find (\<lambda>f. starts_with (f @ '':'') l) field_names = None"
    using assms by (simp add: match_field_def Let_def split: option.splits)
  then have "\<not> starts_with (f @ '':'') l" if "f \<in> set field_names" for f
    using that unfolding find_None_iff by blast
  then have no: "\<not> tstarts (lit (f @ '':'')) (decode l)" if "f \<in> set field_names" for f
  proof -
    have "\<forall>c \<in> set (f @ '':''). code c < 128" using that by (auto simp: field_names_def)
    then show ?thesis using that \<open>\<And>f. f \<in> set field_names \<Longrightarrow> \<not> starts_with (f @ '':'') l\<close> decode_starts by blast
  qed
  have "\<not> tstarts (lit ''Package:'') (decode l)" "\<not> tstarts (lit ''Version:'') (decode l)"
    "\<not> tstarts (lit ''Filename:'') (decode l)" "\<not> tstarts (lit ''SHA256:'') (decode l)"
    using no [of "''Package''"] no [of "''Version''"] no [of "''Filename''"] no [of "''SHA256''"]
    by (simp_all add: field_names_def)
  then show ?thesis by (simp add: line_step_def)
qed

lemma line_step_line:
  assumes "one_line l"
  shows "foldl field_step z (line_field l) = line_step z (decode l)"
proof (cases "match_field l")
  case None
  then show ?thesis by (simp add: line_field_def line_step_other)
next
  case (Some m)
  obtain f v r where m: "m = (f, v, r)" by (cases m)
  then obtain b where l: "f \<in> set field_names" "l = f @ '':'' @ b" and v: "v = takeWhile value_char b"
    using Some by (auto simp: match_field_def Let_def find_Some_iff starts_with_iff split: option.splits)
  have "v = b" using assms one_line_value [of b "[]"] unfolding l(2) v by (simp add: one_line_def)
  then show ?thesis using Some m l line_step_field by (simp add: line_field_def)
qed

text \<open>C16: the fast path gives exactly the packages of the reference parser, for every document: no field is
  lost or invented by the slices, by the byte-level search or by decoding only the used values.\<close>

theorem parse_packages_is_reference: "parse_packages data = parse_packages_reference data"
proof (cases "has_unusual_line_break data")
  case True
  then show ?thesis by (simp add: parse_packages_def)
next
  case False
  note usual = usual_breaks [OF False]
  obtain l L where L: "split_on LF data = l # L" by (cases "split_on LF data") auto
  have lines: "\<forall>w \<in> set (l # L). one_line w"
    using L split_on_no_sep set_split_on usual(2) unfolding one_line_def by (metis subsetD)
  have "data = l @ (if L = [] then [] else LF # join [LF] L)" using split_on_hd [of data LF, unfolded L] by (simp only: list.sel)
  then have "match_field data = map_option (\<lambda>(f, v, _). (f, v, if L = [] then [] else LF # join [LF] L)) (match_field l)"
    using match_field_line [of l "if L = [] then [] else LF # join [LF] L"] lines by simp
  then have "(case match_field data of Some (f, v, _) \<Rightarrow> [(f, v)] | None \<Rightarrow> []) = line_field l"
    by (auto simp: line_field_def split: option.splits)
  moreover have "field_lines data 0 = concat (map line_field L)"
    using field_lines_all [OF usual(2)] find_fields_lines [OF usual(2)] L by simp
  ultimately have "parse_packages data = save_stanza (foldl field_step no_stanza (concat (map line_field (l # L))))"
    using False by (simp add: parse_packages_def)
  also have "foldl field_step z (concat (map line_field W)) = foldl line_step z (map decode W)" if "\<forall>w \<in> set W. one_line w" for z W
    using that by (induction W arbitrary: z) (simp_all add: line_step_line)
  from this [OF lines] have "foldl field_step no_stanza (concat (map line_field (l # L))) = foldl line_step no_stanza (map decode (l # L))" .
  also have "\<dots> = foldl line_step no_stanza (trim_last (map decode (l # L)))"
  proof -
    have "line_step z [] = z" for z by (simp add: line_step_def tstarts_def lit_def)
    then have "foldl line_step z (trim_last W) = foldl line_step z W" if "W \<noteq> []" for z W
      using that by (simp add: trim_last_def) (metis append_butlast_last_id foldl_Cons foldl_Nil foldl_append)
    then show ?thesis by simp
  qed
  also have "trim_last (map decode (l # L)) = tsplitlines (decode data)"
  proof -
    have "code LF = 10" by simp
    then have "code c = 10 \<longleftrightarrow> c = LF" for c by (metis of_char_eq_iff)
    then have "split_on 10 (bytes_of data) = map bytes_of (split_on LF data)"
      by (induction data) (auto split: list.split)
    then show ?thesis using tsplitlines_lf [OF usual(1)] L by (simp add: lf_lines_def utf8_split decode_def [abs_def] o_def)
  qed
  finally show ?thesis by (simp add: parse_packages_reference_def)
qed

end
