(* ===== verification/Gpg.thy ===== *)
theory Gpg
  imports Index_Parser
begin

text \<open>
  \<open>verification/gpg.py\<close>: what the status lines of \<open>gpgv\<close> decide, the body of a clearsigned document, the
  digest that a Release file lists for a path, and the lifetime of the signing keys.  Running a program
  is a parameter: \<open>gpgv keyring signature data\<close> is its standard output, \<open>None\<close> when it could not be run.
\<close>

type_synonym gpgv = "str \<Rightarrow> str \<Rightarrow> str option \<Rightarrow> utext option"

section \<open>Signatures\<close>

definition valid_signers :: "utext list \<Rightarrow> (utext \<times> utext) list" where
  "valid_signers status_lines =
     map (\<lambda>fields. (fields ! 2, if length fields \<ge> 12 then fields ! 11 else fields ! 2))
       (filter (\<lambda>fields. length fields \<ge> 11 \<and> take 2 fields = [lit ''[GNUPG:]'', lit ''VALIDSIG'']) (map tsplit status_lines))"

definition run_gpgv :: "gpgv \<Rightarrow> str \<Rightarrow> str \<Rightarrow> str option \<Rightarrow> index_error + (utext \<times> utext) list" where
  "run_gpgv gpgv keyring sig data =
     (case gpgv keyring sig data of
        None \<Rightarrow> Inl Signature_error
      | Some output \<Rightarrow>
          (let status_lines = tsplitlines output in
           if list_ex (tstarts (lit ''[GNUPG:] BADSIG'')) status_lines then Inl Signature_error
           else if \<not> list_ex (tstarts (lit ''[GNUPG:] VALIDSIG'')) status_lines then Inl Signature_error
           else Inr (valid_signers status_lines)))"

definition verify_detached :: "gpgv \<Rightarrow> str \<Rightarrow> str \<Rightarrow> str \<Rightarrow> index_error + (utext \<times> utext) list" where
  "verify_detached gpgv data signature keyring = run_gpgv gpgv keyring signature (Some data)"

section \<open>Clearsigned documents\<close>

definition start_marker :: utext where
  "start_marker = lit ''-----BEGIN PGP SIGNED MESSAGE-----''"

definition sig_marker :: utext where
  "sig_marker = lit ''-----BEGIN PGP SIGNATURE-----''"

text \<open>\<open>text.index(p, start)\<close>\<close>

definition index_from :: "utext \<Rightarrow> utext \<Rightarrow> nat \<Rightarrow> nat option" where
  "index_from p t start = map_option ((+) start) (tindex p (drop start t))"

definition clearsigned_bounds :: "utext \<Rightarrow> (nat \<times> nat) option" where
  "clearsigned_bounds t =
     (case index_from start_marker t 0 of None \<Rightarrow> None
      | Some start \<Rightarrow> (case index_from [10, 10] t start of None \<Rightarrow> None
        | Some blank \<Rightarrow> (case index_from sig_marker t (blank + 2) of None \<Rightarrow> None
          | Some stop \<Rightarrow> Some (blank + 2, stop))))"

definition unescape_line :: "utext \<Rightarrow> utext" where
  "unescape_line line = (if tstarts (lit ''- '') line then drop 2 line else line)"

definition extract_clearsigned_body :: "str \<Rightarrow> index_error + str" where
  "extract_clearsigned_body data =
     (let t = decode data in
      case clearsigned_bounds t of
        None \<Rightarrow> Inl Signature_error
      | Some (header_end, stop) \<Rightarrow>
          Inr (encode (join [10] (map unescape_line (tsplitlines (drop header_end (take stop t)))) @ [10])))"

definition verify_clearsigned :: "gpgv \<Rightarrow> str \<Rightarrow> str \<Rightarrow> index_error + ((utext \<times> utext) list \<times> str)" where
  "verify_clearsigned gpgv data keyring =
     bind (run_gpgv gpgv keyring data None) (\<lambda>signers. bind (extract_clearsigned_body data) (\<lambda>body. Inr (signers, body)))"

section \<open>Digests of a Release file\<close>

fun sha256_entry :: "utext \<Rightarrow> bool \<Rightarrow> utext list \<Rightarrow> utext option" where
  "sha256_entry target in_section [] = None"
| "sha256_entry target in_section (line # rest) =
     (if tstrip line = lit ''SHA256:'' then sha256_entry target True rest
      else if \<not> in_section then sha256_entry target in_section rest
      else if \<not> tstarts (lit '' '') line then None
      else case tsplit line of
          [digest, amount, path] \<Rightarrow> if path = target then Some digest else sha256_entry target in_section rest
        | _ \<Rightarrow> sha256_entry target in_section rest)"

definition find_sha256_in_release :: "str \<Rightarrow> utext \<Rightarrow> utext option" where
  "find_sha256_in_release release_body target = sha256_entry target False (tsplitlines (decode release_body))"

section \<open>Key lifetimes\<close>

text \<open>\<open>int(s)\<close> of a decimal of ASCII digits, with single underscores allowed between digits; \<open>fromtimestamp\<close>
  takes the years 1 to 9999.\<close>

definition epoch_of :: "utext \<Rightarrow> int option" where
  "epoch_of t =
     (let u = tstrip t;
          parts = split_on (code CHR ''_'') (if tstarts (lit ''-'') u \<or> tstarts (lit ''+'') u then drop 1 u else u) in
      if list_all (\<lambda>p. p \<noteq> [] \<and> list_all (\<lambda>n. 48 \<le> n \<and> n \<le> 57) p) parts
      then let v = foldl (\<lambda>a n. 10 * a + (int n - 48)) 0 (concat parts); e = (if tstarts (lit ''-'') u then - v else v) in
        if -62135596800 \<le> e \<and> e \<le> 253402300799 then Some e else None
      else None)"

record signing_key =
  sk_primary :: utext
  sk_expiry :: "int option"
  sk_valid :: bool

record listing_state =
  ls_keys :: "(utext \<times> signing_key) list"
  ls_primary :: utext
  ls_pending :: "utext list option"

definition key_record :: "utext list \<Rightarrow> utext \<Rightarrow> signing_key" where
  "key_record pending primary =
     (if length pending > 6 \<and> (pending ! 6 = [] \<or> epoch_of (pending ! 6) \<noteq> None)
      then \<lparr>sk_primary = primary, sk_expiry = (if pending ! 6 = [] then None else epoch_of (pending ! 6)),
        sk_valid = pending ! 1 \<notin> set [lit ''r'', lit ''d'', lit ''i''] \<and> primary \<noteq> []\<rparr>
      else \<lparr>sk_primary = primary, sk_expiry = None, sk_valid = False\<rparr>)"

definition listing_step :: "listing_state \<Rightarrow> utext \<Rightarrow> listing_state" where
  "listing_step s line =
     (let fields = split_on (code CHR '':'') line in
      if hd fields \<in> set [lit ''pub'', lit ''sub'']
      then s\<lparr>ls_primary := (if hd fields = lit ''pub'' then [] else ls_primary s), ls_pending := Some fields\<rparr>
      else case ls_pending s of
          Some pending \<Rightarrow>
            if hd fields = lit ''fpr'' \<and> length fields > 9 then
              let fingerprint = fields ! 9; primary = (if hd pending = lit ''pub'' then fingerprint else ls_primary s)
              in \<lparr>ls_keys = AList.update fingerprint (key_record pending primary) (ls_keys s), ls_primary = primary, ls_pending = None\<rparr>
            else s
        | None \<Rightarrow> s)"

definition listed_keys :: "utext \<Rightarrow> (utext \<times> signing_key) list" where
  "listed_keys listing = ls_keys (foldl listing_step \<lparr>ls_keys = [], ls_primary = [], ls_pending = None\<rparr> (tsplitlines listing))"

datatype path_end = Unknown_path | Unlimited | Until int

definition signer_path :: "(utext \<times> signing_key) list \<Rightarrow> utext \<times> utext \<Rightarrow> path_end" where
  "signer_path keys s =
     (case (map_of keys (fst s), map_of keys (snd s)) of
        (Some k, Some p) \<Rightarrow>
          if \<not> sk_valid k \<or> sk_primary k \<noteq> snd s \<or> \<not> sk_valid p \<or> sk_primary p \<noteq> snd s then Unknown_path
          else (case (sk_expiry k, sk_expiry p) of
              (None, None) \<Rightarrow> Unlimited
            | (Some a, None) \<Rightarrow> Until a
            | (None, Some b) \<Rightarrow> Until b
            | (Some a, Some b) \<Rightarrow> Until (min a b))
      | _ \<Rightarrow> Unknown_path)"

text \<open>\<open>Some None\<close> is a verified path with no expiration, \<open>None\<close> unknown metadata.\<close>

fun expiry_loop :: "(utext \<times> signing_key) list \<Rightarrow> bool \<Rightarrow> int list \<Rightarrow> (utext \<times> utext) list \<Rightarrow> int option option" where
  "expiry_loop keys unknown deadlines [] =
     (if unknown \<or> deadlines = [] then None else Some (Some (Max (set deadlines))))"
| "expiry_loop keys unknown deadlines (s # rest) =
     (case signer_path keys s of
        Unknown_path \<Rightarrow> expiry_loop keys True deadlines rest
      | Unlimited \<Rightarrow> Some None
      | Until t \<Rightarrow> expiry_loop keys unknown (deadlines @ [t]) rest)"

definition signing_expiry :: "utext \<Rightarrow> (utext \<times> utext) list \<Rightarrow> int option option" where
  "signing_expiry listing signers = expiry_loop (listed_keys listing) False [] (remdups signers)"

text \<open>\<open>signing_key_expiry\<close>: \<open>gpg\<close> is the listing of the keyring, \<open>None\<close> when it is missing or fails.\<close>

definition signing_key_expiry :: "(str \<Rightarrow> utext option) \<Rightarrow> str \<Rightarrow> (utext \<times> utext) list \<Rightarrow> int option option" where
  "signing_key_expiry gpg keyring signers =
     (if signers = [] then None
      else case gpg keyring of None \<Rightarrow> None | Some listing \<Rightarrow> signing_expiry listing signers)"

end
