(* ===== verification/Gpg_Props.thy ===== *)
theory Gpg_Props
  imports Gpg
begin

text \<open>
  The clearsigned documents that \<open>verification/gpg.py\<close> takes apart, written as OpenPGP writes them, and
  what is extracted from them; and which signing path decides about the lifetime of the keys.
\<close>

section \<open>First occurrences\<close>

lemma tindex_first:
  assumes "\<And>n. n < length a \<Longrightarrow> \<not> tstarts p (drop n (a @ p @ b))"
  shows "tindex p (a @ p @ b) = Some (length a)"
  using assms
proof (induction a)
  case Nil
  have "tstarts p (p @ b)" by (simp add: tstarts_iff)
  then show ?case by (cases "p @ b") simp_all
next
  case (Cons c a)
  have "\<not> tstarts p (drop n (a @ p @ b))" if "n < length a" for n using Cons.prems [of "Suc n"] that by simp
  then have "tindex p (a @ p @ b) = Some (length a)" by (rule Cons.IH)
  moreover have "\<not> tstarts p (c # a @ p @ b)" using Cons.prems [of 0] by simp
  ultimately show ?case by simp
qed

lemma not_tstarts_head: "h \<notin> set u \<Longrightarrow> u \<noteq> [] \<Longrightarrow> \<not> tstarts (h # p) (u @ t)"
  by (cases u) (auto simp: tstarts_iff)

lemma tstarts_line:
  assumes "c \<notin> set p" "tstarts p (u @ c # v)"
  shows "tstarts p u"
proof -
  obtain b where "u @ c # v = p @ b" using assms(2) by (auto simp: tstarts_iff)
  then consider x where "u = p @ x" | x where "p = u @ x" "c # v = x @ b" by (auto simp: append_eq_append_conv2)
  then show ?thesis
  proof cases
    case 2
    then have "x = []" using assms(1) by (cases x) auto
    then show ?thesis using 2 by (simp add: tstarts_iff)
  qed (auto simp: tstarts_iff)
qed

lemma has_sub_tstarts: "tstarts p (drop n s) \<Longrightarrow> has_sub p s"
  by (auto simp: tstarts_iff has_sub_def) (metis append_take_drop_id)

section \<open>The envelope\<close>

definition escape_line :: "utext \<Rightarrow> utext" where
  "escape_line line = (if tstarts (lit ''-'') line then lit ''- '' @ line else line)"

definition escaped_body :: "utext list \<Rightarrow> utext" where
  "escaped_body lines = concat (map (\<lambda>l. escape_line l @ [10]) lines)"

definition clearsign :: "utext \<Rightarrow> utext list \<Rightarrow> utext \<Rightarrow> utext" where
  "clearsign header lines signature = start_marker @ [10] @ header @ [10, 10] @ escaped_body lines @ sig_marker @ signature"

definition plain_line :: "utext \<Rightarrow> bool" where
  "plain_line l \<longleftrightarrow> (\<forall>n \<in> set l. scalar n \<and> \<not> break_point n)"

lemma unescape_escape: "unescape_line (escape_line l) = l"
proof (cases "tstarts (lit ''-'') l")
  case True
  then show ?thesis by (simp add: unescape_line_def escape_line_def lit_def tstarts_def)
next
  case False
  then have "\<not> tstarts (lit ''- '') l" by (cases l) (auto simp: lit_def tstarts_def)
  then show ?thesis using False by (simp add: unescape_line_def escape_line_def)
qed

lemma escape_plain: "plain_line l \<Longrightarrow> plain_line (escape_line l)"
  by (auto simp: plain_line_def escape_line_def lit_def scalar_def break_point_def)

lemma marker_points: "10 \<notin> set sig_marker" "10 \<notin> set start_marker" "sig_marker \<noteq> []"
  by (simp_all add: sig_marker_def start_marker_def lit_def)

lemma escape_marker:
  assumes "\<not> has_sub sig_marker l"
  shows "\<not> tstarts sig_marker (drop n (escape_line l))"
proof
  assume at: "tstarts sig_marker (drop n (escape_line l))"
  have no: "\<not> tstarts sig_marker (drop m l)" for m using assms has_sub_tstarts by blast
  show False
  proof (cases "tstarts (lit ''-'') l")
    case True
    then have "escape_line l = 45 # 32 # l" by (simp add: escape_line_def lit_def)
    moreover have "\<not> tstarts sig_marker (45 # 32 # l)" "\<not> tstarts sig_marker (32 # l)" by (simp_all add: sig_marker_def lit_def tstarts_def)
    ultimately show False using at no by (cases n; cases "n - 1") (auto split: nat.splits)
  next
    case False
    then show False using at no by (simp add: escape_line_def)
  qed
qed

lemma no_marker_in_body:
  assumes "\<forall>l \<in> set lines. \<not> has_sub sig_marker l" "n < length (escaped_body lines)"
  shows "\<not> tstarts sig_marker (drop n (escaped_body lines @ t))"
  using assms
proof (induction lines arbitrary: n)
  case (Cons l lines)
  let ?e = "escape_line l"
  have body: "escaped_body (l # lines) @ t = ?e @ 10 # escaped_body lines @ t" by (simp add: escaped_body_def)
  show ?case
  proof (cases "n \<le> length ?e")
    case True
    then have "drop n (escaped_body (l # lines) @ t) = drop n ?e @ 10 # escaped_body lines @ t" by (simp add: body)
    then show ?thesis using tstarts_line [OF marker_points(1), of "drop n ?e"] escape_marker [of l n] Cons.prems(1) by auto
  next
    case False
    then obtain m where m: "n = length ?e + Suc m" using less_iff_Suc_add not_le by (metis add_Suc_right)
    then have "m < length (escaped_body lines)" using Cons.prems(2) by (simp add: escaped_body_def)
    then show ?thesis using Cons m by (simp add: body)
  qed
qed (simp add: escaped_body_def)

lemma plain_line_lf: "plain_line l \<Longrightarrow> 10 \<notin> set l"
proof
  assume "plain_line l" "10 \<in> set l"
  then have "\<not> break_point 10" by (simp add: plain_line_def)
  then show False by (simp add: break_point_def)
qed

lemma split_on_lines: "\<forall>l \<in> set ls. c \<notin> set l \<Longrightarrow> split_on c (concat (map (\<lambda>l. l @ [c]) ls)) = ls @ [[]]"
  by (induction ls) (simp_all add: split_on_append)

lemma tsplitlines_lines:
  assumes "\<forall>l \<in> set ls. plain_line l"
  shows "tsplitlines (concat (map (\<lambda>l. l @ [10]) ls)) = ls"
proof -
  have "\<forall>l \<in> set ls. 10 \<notin> set l" using assms plain_line_lf by blast
  moreover have "\<forall>n \<in> set (concat (map (\<lambda>l. l @ [10]) ls)). break_point n \<longrightarrow> n = 10"
    using assms by (auto simp: plain_line_def)
  ultimately show ?thesis by (simp add: tsplitlines_lf lf_lines_def split_on_lines trim_last_def)
qed

lemma clearsigned_bounds_envelope:
  assumes "45 \<notin> set before" "header \<noteq> []" "10 \<notin> set header" "\<forall>l \<in> set lines. \<not> has_sub sig_marker l"
  defines "P \<equiv> before @ start_marker @ [10] @ header @ [10, 10]"
  shows "clearsigned_bounds (before @ clearsign header lines signature) = Some (length P, length P + length (escaped_body lines))"
proof -
  let ?t = "before @ clearsign header lines signature"
  have t: "?t = before @ start_marker @ [10] @ header @ [10, 10] @ escaped_body lines @ sig_marker @ signature"
    by (simp add: clearsign_def)
  obtain m where m: "start_marker = 45 # m" by (simp add: start_marker_def lit_def)
  have "tindex start_marker ?t = Some (length before)"
    unfolding t
  proof (rule tindex_first)
    fix n
    assume "n < length before"
    then have "drop n before \<noteq> []" "45 \<notin> set (drop n before)" using assms(1) by (auto dest: in_set_dropD)
    then show "\<not> tstarts start_marker (drop n (before @ start_marker @ [10] @ header @ [10, 10] @ escaped_body lines @ sig_marker @ signature))"
      using not_tstarts_head [of 45 "drop n before" m] \<open>n < length before\<close> by (simp add: m)
  qed
  moreover have "tindex [10, 10] (drop (length before) ?t) = Some (length (start_marker @ [10] @ header))"
  proof -
    let ?rest = "escaped_body lines @ sig_marker @ signature"
    have "tindex [10, 10] ((start_marker @ [10] @ header) @ [10, 10] @ ?rest) = Some (length (start_marker @ [10] @ header))"
    proof (rule tindex_first)
      fix n
      assume n: "n < length (start_marker @ [10] @ header)"
      let ?x = "drop n ((start_marker @ [10] @ header) @ [10, 10] @ ?rest)"
      obtain h hs where h: "header = h # hs" using assms(2) by (cases header) auto
      consider "n < length start_marker" | "n = length start_marker" | "length start_marker < n" by linarith
      then show "\<not> tstarts [10, 10] ?x"
      proof cases
        case 1
        then have "drop n start_marker \<noteq> []" "10 \<notin> set (drop n start_marker)" using marker_points(2) by (auto dest: in_set_dropD)
        then show ?thesis using not_tstarts_head [of 10 "drop n start_marker"] 1 by simp
      next
        case 2
        then show ?thesis using assms(3) h by (simp add: tstarts_def)
      next
        case 3
        then obtain k where k: "n = length start_marker + Suc k" using less_iff_Suc_add by auto
        then have "drop k header \<noteq> []" "10 \<notin> set (drop k header)" using n assms(3) by (auto dest: in_set_dropD)
        then show ?thesis using not_tstarts_head [of 10 "drop k header"] k n by simp
      qed
    qed
    then show ?thesis by (simp add: clearsign_def)
  qed
  moreover have "tindex sig_marker (drop (length P) ?t) = Some (length (escaped_body lines))"
  proof -
    have "tindex sig_marker (escaped_body lines @ sig_marker @ signature) = Some (length (escaped_body lines))"
      using no_marker_in_body [OF assms(4)] by (intro tindex_first)
    moreover have "?t = P @ escaped_body lines @ sig_marker @ signature" by (simp add: P_def clearsign_def)
    ultimately show ?thesis by simp
  qed
  ultimately show ?thesis by (simp add: clearsigned_bounds_def index_from_def P_def add.assoc)
qed

lemma extract_envelope:
  assumes "\<forall>l \<in> set lines. plain_line l \<and> \<not> has_sub sig_marker l" "plain_line header" "header \<noteq> []"
    "\<forall>n \<in> set (before @ signature). scalar n" "45 \<notin> set before"
  shows "extract_clearsigned_body (encode (before @ clearsign header lines signature)) = Inr (encode (join [10] lines @ [10]))"
proof -
  let ?t = "before @ clearsign header lines signature"
  have escaped: "\<forall>l \<in> set (map escape_line lines). plain_line l" using assms(1) escape_plain by simp
  then have "\<forall>n \<in> set (escaped_body lines). scalar n"
    by (auto simp: escaped_body_def plain_line_def scalar_def)
  moreover have "\<forall>n \<in> set (start_marker @ sig_marker @ [10]). scalar n"
    by (simp add: start_marker_def sig_marker_def lit_def scalar_def)
  ultimately have "\<forall>n \<in> set ?t. scalar n" using assms(2,4) by (auto simp: clearsign_def plain_line_def)
  then have decoded: "decode (encode ?t) = ?t" by (rule decode_encode)
  have "10 \<notin> set header" using assms(2) by (rule plain_line_lf)
  note bounds = clearsigned_bounds_envelope [OF assms(5,3) this]
  have body: "tsplitlines (escaped_body lines) = map escape_line lines"
    using tsplitlines_lines [OF escaped] by (simp add: escaped_body_def o_def)
  have lines: "map unescape_line (map escape_line lines) = lines" by (simp add: o_def unescape_escape)
  define P where "P = before @ start_marker @ [10] @ header @ [10, 10]"
  have "?t = P @ escaped_body lines @ sig_marker @ signature" by (simp add: P_def clearsign_def)
  then have "drop (length P) (take (length P + length (escaped_body lines)) ?t) = escaped_body lines" by simp
  moreover have "clearsigned_bounds ?t = Some (length P, length P + length (escaped_body lines))"
    using bounds assms(1) unfolding P_def by blast
  ultimately show ?thesis
    unfolding extract_clearsigned_body_def Let_def decoded by (simp only: option.case prod.case body lines)
qed

lemma join_lines: "ls \<noteq> [] \<Longrightarrow> join [c] ls @ [c] = concat (map (\<lambda>l. l @ [c]) ls)"
proof (induction ls)
  case (Cons l ls)
  then show ?case by (cases ls) simp_all
qed simp



end
