(* ===== verification/Apt.thy ===== *)
theory Apt
  imports Apt_Props Gpg_Props Url_Templates
begin

text \<open>
  \<open>AptParser.fetch_packages\<close>: which Release metadata is taken, which Packages index it selects, and what is
  checked before the index is parsed.  \<open>base\<close> is the text of the upstream URL; HTTP, \<open>gpgv\<close>, SHA-256
  (as \<open>hexdigest\<close>) and the two decompressors are parameters.
\<close>

record apt_env =
  ae_http :: "str \<Rightarrow> http_answer"
  ae_gpgv :: gpgv
  ae_sha256 :: "str \<Rightarrow> str"
  ae_gunzip :: "str \<Rightarrow> str option"
  ae_unxz :: "str \<Rightarrow> str option"

definition apt_index_url :: "str \<Rightarrow> repo_config \<Rightarrow> str" where
  "apt_index_url base r = base @ ''/dists/'' @ opt_str (rp_distribution r) @ ''/InRelease''"

definition without_suffix :: "str \<Rightarrow> str \<Rightarrow> str" where
  "without_suffix p s = (if ends_with p s then take (length s - length p) s else s)"

definition missing :: "index_error \<Rightarrow> bool" where
  "missing e \<longleftrightarrow> e \<in> set [Status_error 404, Status_error 410]"

definition result_or :: "(index_error \<Rightarrow> index_error + 'a) \<Rightarrow> index_error + 'a \<Rightarrow> index_error + 'a" where
  "result_or handler x = (case x of Inl e \<Rightarrow> handler e | Inr y \<Rightarrow> Inr y)"

text \<open>The Release body, \<open>None\<close> when an unsigned repository has none, with the confirmed signers; a
  missing keyring is refused when the command line is built.\<close>

definition release_of :: "apt_env \<Rightarrow> str \<Rightarrow> repo_config \<Rightarrow> index_error + ((utext \<times> utext) list \<times> str option)" where
  "release_of env base r =
     (let url = apt_index_url base r in
      case http_get (ae_http env) url of
        Inl e \<Rightarrow>
          if rp_verify r \<or> \<not> missing e then Inl e
          else (case http_get (ae_http env) (without_suffix ''InRelease'' url @ ''Release'') of
              Inl e' \<Rightarrow> if \<not> missing e' then Inl e' else Inr ([], None)
            | Inr body \<Rightarrow> Inr ([], Some body))
      | Inr raw \<Rightarrow>
          if rp_verify r
          then (case rp_keyring r of None \<Rightarrow> Inl Value_error
              | Some keyring \<Rightarrow> bind (verify_clearsigned (ae_gpgv env) raw keyring) (\<lambda>(signers, body). Inr (signers, Some body)))
          else bind (extract_clearsigned_body raw) (\<lambda>body. Inr ([], Some body)))"

definition index_names :: "str list" where
  "index_names = [''Packages.gz'', ''Packages.xz'', ''Packages'']"

definition index_path :: "repo_config \<Rightarrow> str \<Rightarrow> str" where
  "index_path r filename = opt_str (rp_component r) @ ''/binary-'' @ rp_arch r @ ''/'' @ filename"

fun listed_index :: "repo_config \<Rightarrow> str \<Rightarrow> str list \<Rightarrow> (str \<times> utext) option" where
  "listed_index r body [] = None"
| "listed_index r body (name # names) =
     (case find_sha256_in_release body (lit (index_path r name)) of
        Some digest \<Rightarrow> Some (name, digest) | None \<Rightarrow> listed_index r body names)"

text \<open>The index to fetch and the digest it must have.\<close>

definition select_index :: "repo_config \<Rightarrow> str option \<Rightarrow> index_error + (str \<times> str option)" where
  "select_index r release =
     (case release of
        None \<Rightarrow> Inr (''Packages.gz'', None)
      | Some body \<Rightarrow>
          (case listed_index r body index_names of
             None \<Rightarrow> Inl Signature_error
           | Some (name, digest) \<Rightarrow> if sha256_hex digest then Inr (name, Some (ascii_str digest)) else Inl Signature_error))"

text \<open>\<open>re.search(rb'(?mi)^Acquire-By-Hash:\\s*yes\\s*$', body)\<close>; the whitespace of a byte pattern is ASCII.\<close>

definition byte_space :: "char \<Rightarrow> bool" where
  "byte_space c \<longleftrightarrow> code c = 32 \<or> (9 \<le> code c \<and> code c \<le> 13)"

definition ascii_fold :: "char \<Rightarrow> char" where
  "ascii_fold c = (if ascii_upper c then char_of (code c + 32) else c)"

definition by_hash_line :: "str \<Rightarrow> bool" where
  "by_hash_line s \<longleftrightarrow>
     (let t = map ascii_fold s; u = dropWhile byte_space (drop 16 t); rest = drop 3 u in
      starts_with ''acquire-by-hash:'' t \<and> starts_with ''yes'' u \<and>
      (dropWhile byte_space rest = [] \<or> LF \<in> set (takeWhile byte_space rest)))"

fun by_hash :: "bool \<Rightarrow> str \<Rightarrow> bool" where
  "by_hash line_start [] = False"
| "by_hash line_start (c # s) = (line_start \<and> by_hash_line (c # s) \<or> by_hash (c = LF) s)"

definition acquire_by_hash :: "str option \<Rightarrow> bool" where
  "acquire_by_hash release = (case release of None \<Rightarrow> False | Some body \<Rightarrow> by_hash True body)"

definition fetch_index :: "apt_env \<Rightarrow> str \<Rightarrow> str \<Rightarrow> index_error + str" where
  "fetch_index env url direct_url =
     result_or (\<lambda>e. if url = direct_url \<or> \<not> missing e then Inl e else http_get (ae_http env) direct_url)
       (http_get (ae_http env) url)"

definition decode_packages :: "apt_env \<Rightarrow> str \<Rightarrow> str \<Rightarrow> index_error + package_ref list" where
  "decode_packages env raw filename =
     (if ends_with ''.gz'' filename then (case ae_gunzip env raw of None \<Rightarrow> Inl Decode_error | Some d \<Rightarrow> Inr (parse_packages d))
      else if ends_with ''.xz'' filename then (case ae_unxz env raw of None \<Rightarrow> Inl Decode_error | Some d \<Rightarrow> Inr (parse_packages d))
      else Inr (parse_packages raw))"

definition fetch_packages :: "apt_env \<Rightarrow> str \<Rightarrow> repo_config \<Rightarrow> index_error + ((utext \<times> utext) list \<times> package_ref list)" where
  "fetch_packages env base r =
     bind (release_of env base r) (\<lambda>(signers, release).
     bind (select_index r release) (\<lambda>(filename, expected).
       let index_base = without_suffix ''InRelease'' (apt_index_url base r) @ index_path r [];
           direct_url = index_base @ filename;
           url = (if acquire_by_hash release then index_base @ ''by-hash/SHA256/'' @ the expected else direct_url)
       in bind (fetch_index env url direct_url) (\<lambda>raw.
         if expected \<noteq> None \<and> ae_sha256 env raw \<noteq> the expected then Inl Signature_error
         else bind (decode_packages env raw filename) (\<lambda>packages. Inr (signers, packages)))))"

section \<open>What a successful fetch rests on\<close>

lemma run_gpgv_ok:
  assumes "run_gpgv gpgv keyring sig data = Inr signers"
  shows "\<exists>output. gpgv keyring sig data = Some output \<and>
    (\<exists>l \<in> set (tsplitlines output). tstarts (lit ''[GNUPG:] VALIDSIG'') l) \<and>
    (\<forall>l \<in> set (tsplitlines output). \<not> tstarts (lit ''[GNUPG:] BADSIG'') l) \<and> signers = valid_signers (tsplitlines output)"
  using assms by (auto simp: run_gpgv_def Let_def list_ex_iff split: option.splits if_splits)

lemma listed_index_ok:
  "listed_index r body names = Some (name, digest) \<Longrightarrow>
   name \<in> set names \<and> find_sha256_in_release body (lit (index_path r name)) = Some digest"
  by (induction names) (auto split: option.splits)

lemma select_index_ok:
  assumes "select_index r (Some body) = Inr (name, expected)"
  shows "\<exists>digest. name \<in> set index_names \<and> find_sha256_in_release body (lit (index_path r name)) = Some digest \<and>
    sha256_hex digest \<and> expected = Some (ascii_str digest)"
  using assms listed_index_ok by (auto simp: select_index_def split: option.splits prod.splits if_splits)

lemma verified_release:
  assumes "release_of env base r = Inr (signers, release)" "rp_verify r"
  shows "\<exists>raw keyring body. ae_http env (apt_index_url base r) = Body raw \<and> rp_keyring r = Some keyring \<and>
    run_gpgv (ae_gpgv env) keyring raw None = Inr signers \<and> extract_clearsigned_body raw = Inr body \<and> release = Some body"
  using assms by (auto simp: release_of_def Let_def verify_clearsigned_def bind_Inr http_get_def
      split: sum.splits option.splits http_answer.splits)


section \<open>A concrete repository\<close>

definition sample_release :: "utext list" where
  "sample_release = [lit ''SHA256:'', lit '' 0000000000000000000000000000000000000000000000000000000000000000 1 main/binary-amd64/Packages'']"

definition sample_apt :: repo_config where
  "sample_apt = sample_repo\<lparr>rp_type := ''apt'', rp_arch := ''amd64'', rp_distribution := Some ''d'', rp_component := Some ''main'',
     rp_verify := True, rp_keyring := Some ''/k''\<rparr>"

definition sample_apt_env :: apt_env where
  "sample_apt_env = \<lparr>ae_http = (\<lambda>url. if url = ''u/dists/d/InRelease'' then Body (encode (clearsign (lit ''Hash: SHA256'') sample_release []))
       else if url = ''u/dists/d/main/binary-amd64/Packages'' then Body ''Package: a'' else Status 404),
     ae_gpgv = (\<lambda>_ _ _. Some (lit ''[GNUPG:] VALIDSIG k'')), ae_sha256 = (\<lambda>_. ''0000000000000000000000000000000000000000000000000000000000000000''),
     ae_gunzip = (\<lambda>_. None), ae_unxz = (\<lambda>_. None)\<rparr>"


definition sample_body :: str where
  "sample_body = encode (join [10] sample_release @ [10])"

lemma sample_body_text: "decode sample_body = join [10] sample_release @ [10]"
  unfolding sample_body_def by (rule decode_encode) (simp add: sample_release_def lit_def scalar_def)

lemma sample_listed:
  "find_sha256_in_release sample_body (lit ''main/binary-amd64/Packages'') = Some (lit ''0000000000000000000000000000000000000000000000000000000000000000'')"
  "find_sha256_in_release sample_body (lit ''main/binary-amd64/Packages.gz'') = None"
  "find_sha256_in_release sample_body (lit ''main/binary-amd64/Packages.xz'') = None"
proof -
  have "join [10] sample_release @ [10] = concat (map (\<lambda>l. l @ [10]) sample_release)" by (simp add: sample_release_def)
  moreover have "\<forall>l \<in> set sample_release. plain_line l"
    by (simp add: plain_line_def sample_release_def lit_def scalar_def break_point_def)
  ultimately have lines: "tsplitlines (decode sample_body) = sample_release"
    unfolding sample_body_text by (simp only: tsplitlines_lines)
  show "find_sha256_in_release sample_body (lit ''main/binary-amd64/Packages'') = Some (lit ''0000000000000000000000000000000000000000000000000000000000000000'')"
    "find_sha256_in_release sample_body (lit ''main/binary-amd64/Packages.gz'') = None"
    "find_sha256_in_release sample_body (lit ''main/binary-amd64/Packages.xz'') = None"
    unfolding find_sha256_in_release_def lines
    by (simp_all add: sample_release_def lit_def tstrip_def tsplit_def tstarts_def space_point_def)
qed

lemma sample_extracted:
  "extract_clearsigned_body (encode (clearsign (lit ''Hash: SHA256'') sample_release [])) = Inr sample_body"
proof -
  have "\<not> has_sub sig_marker l" if "66 \<notin> set l" for l
    using that by (auto simp: has_sub_def sig_marker_def lit_def)
  then have "\<forall>l \<in> set sample_release. plain_line l \<and> \<not> has_sub sig_marker l"
    by (simp add: plain_line_def sample_release_def lit_def scalar_def break_point_def)
  moreover have "plain_line (lit ''Hash: SHA256'')" "lit ''Hash: SHA256'' \<noteq> []"
    by (simp_all add: plain_line_def lit_def scalar_def break_point_def)
  ultimately have "extract_clearsigned_body (encode ([] @ clearsign (lit ''Hash: SHA256'') sample_release [])) =
      Inr (encode (join [10] sample_release @ [10]))"
    by (rule extract_envelope) simp_all
  then show ?thesis by (simp add: sample_body_def)
qed

lemma sample_fetch: "fetch_packages sample_apt_env ''u'' sample_apt = Inr ([], parse_packages ''Package: a'')"
proof -
  have urls: "apt_index_url ''u'' sample_apt = ''u/dists/d/InRelease''"
    "without_suffix ''InRelease'' ''u/dists/d/InRelease'' @ index_path sample_apt [] = ''u/dists/d/main/binary-amd64/''"
    by (simp_all add: apt_index_url_def without_suffix_def ends_with_def index_path_def sample_apt_def opt_str_def)
  have "run_gpgv (ae_gpgv sample_apt_env) ''/k'' raw None = Inr []" for raw
    by (simp add: run_gpgv_def sample_apt_env_def lit_def tsplitlines_def break_point_def tstarts_def valid_signers_def tsplit_def space_point_def)
  then have "verify_clearsigned (ae_gpgv sample_apt_env) (encode (clearsign (lit ''Hash: SHA256'') sample_release [])) ''/k'' = Inr ([], sample_body)"
    using sample_extracted by (simp add: verify_clearsigned_def)
  moreover have "rp_verify sample_apt" "rp_keyring sample_apt = Some ''/k''"
    "ae_http sample_apt_env ''u/dists/d/InRelease'' = Body (encode (clearsign (lit ''Hash: SHA256'') sample_release []))"
    by (simp_all add: sample_apt_env_def sample_apt_def)
  ultimately have "release_of sample_apt_env ''u'' sample_apt = Inr ([], Some sample_body)"
    by (simp add: release_of_def urls http_get_def)
  moreover have "select_index sample_apt (Some sample_body) = Inr (''Packages'', Some ''0000000000000000000000000000000000000000000000000000000000000000'')"
  proof -
    have "sha256_hex (lit ''0000000000000000000000000000000000000000000000000000000000000000'')"
      by (simp add: sha256_hex_def hex_point_def lit_def)
    then show ?thesis
      using sample_listed by (simp add: select_index_def index_names_def index_path_def sample_apt_def opt_str_def)
  qed
  moreover have "acquire_by_hash (Some sample_body) = False" by code_simp
  ultimately show ?thesis
    by (simp add: fetch_packages_def fetch_index_def result_or_def http_get_def decode_packages_def ends_with_def sample_apt_env_def urls)
qed


end
