(* ===== verification/Dedup.thy ===== *)
theory Dedup
  imports Routing Store_Queries
begin

text \<open>
  Cross-repository deduplication: the redirects derived from files with equal hashes (\<open>resolve_dedup_pairs\<close>
  and the map file of \<open>nginx/render.py\<close>), the physical cache keys at the end of redirect chains, and
  the redirects that no owner of a shared URL contradicts (\<open>cache/dedup.py\<close>).
\<close>

section \<open>Redirects\<close>

type_synonym dup_row = "str \<times> str \<times> str \<times> str"

text \<open>\<open>{repo.id: repo for repo in config.repos}\<close>\<close>

definition by_id :: "config \<Rightarrow> str \<Rightarrow> repo_config option" where
  "by_id c i = map_of (rev (map (\<lambda>r. (rp_id r, r)) (cf_repos c))) i"

text \<open>\<open>targets.setdefault(uri, set()).add(canonical)\<close>\<close>

definition add_target :: "str \<Rightarrow> str \<Rightarrow> (str \<times> str list) list \<Rightarrow> (str \<times> str list) list" where
  "add_target uri canonical targets =
     AList.update uri (case map_of targets uri of None \<Rightarrow> [canonical] | Some cs \<Rightarrow> List.insert canonical cs) targets"

fun dedup_targets :: "config \<Rightarrow> dup_row list \<Rightarrow> (str \<times> str list) list \<Rightarrow> config_error + (str \<times> str list) list" where
  "dedup_targets c [] targets = Inr targets"
| "dedup_targets c ((duplicate_id, canonical_id, filename, canonical_filename) # rows) targets =
     (case (by_id c duplicate_id, by_id c canonical_id) of
        (Some duplicate, Some canonical) \<Rightarrow>
          if rp_type duplicate = ''nix'' \<or> rp_type canonical = ''nix'' then dedup_targets c rows targets
          else bind (package_path duplicate filename) (\<lambda>duplicate_uri.
               bind (package_path canonical canonical_filename) (\<lambda>canonical_uri.
                 if duplicate_uri = canonical_uri then dedup_targets c rows targets
                 else dedup_targets c rows (add_target duplicate_uri canonical_uri targets)))
      | _ \<Rightarrow> dedup_targets c rows targets)"

definition case_clash :: "str list \<Rightarrow> str \<Rightarrow> bool" where
  "case_clash keys key \<longleftrightarrow> length (filter (\<lambda>k. lower k = lower key) keys) > 1"

definition resolve_dedup_pairs :: "config \<Rightarrow> dup_row list \<Rightarrow> config_error + (str \<times> str) list" where
  "resolve_dedup_pairs c rows =
     bind (dedup_targets c rows []) (\<lambda>targets.
       Inr (map (\<lambda>(key, values). (key, hd values))
         (filter (\<lambda>(key, values). length values = 1 \<and> \<not> case_clash (map fst targets) key) targets)))"

section \<open>The map file\<close>

definition escape_char :: "char \<Rightarrow> str" where
  "escape_char x = (if x = CHR 0x5C \<or> x = CHR 0x22 then [CHR 0x5C, x] else [x])"

definition map_literal :: "str \<Rightarrow> str" where
  "map_literal v = [CHR 0x22] @ concat (map escape_char v) @ [CHR 0x22]"

definition render_dedup :: "(str \<times> str) list \<Rightarrow> str" where
  "render_dedup pairs =
     join [LF] (''# Generated by repowatch; edit YAML parameters, not this file.'' #
       map (\<lambda>(source, target). map_literal source @ '' '' @ map_literal target @ '';'') pairs) @ [LF]"

function next_power :: "nat \<Rightarrow> nat \<Rightarrow> nat" where
  "next_power p v = (if 0 < p \<and> p < v then next_power (p * 2) v else p)"
  by pat_completeness auto
termination by (relation "measure (\<lambda>(p, v). v - p)") auto

declare next_power.simps [simp del]

definition next_power_of_two :: "nat \<Rightarrow> nat" where
  "next_power_of_two v = next_power 1 v"

definition dedup_hash_sizes :: "(str \<times> str) list \<Rightarrow> nat \<times> nat" where
  "dedup_hash_sizes pairs =
     (if pairs = [] then (2048, 64)
      else (max 2048 (next_power_of_two (length pairs * 4)),
            max 64 (next_power_of_two (Max (set (map (\<lambda>p. length (map_literal (fst p))) pairs)) + 32))))"

section \<open>Physical keys\<close>

fun traverse :: "('a \<Rightarrow> 'e + 'b) \<Rightarrow> 'a list \<Rightarrow> 'e + 'b list" where
  "traverse f [] = Inr []"
| "traverse f (x # xs) = bind (f x) (\<lambda>y. bind (traverse f xs) (\<lambda>ys. Inr (y # ys)))"

definition bound_repos :: "config \<Rightarrow> key_builder \<Rightarrow> config_error + (str \<times> bound_key) list" where
  "bound_repos c b = traverse (\<lambda>r. bind (for_repo b r) (\<lambda>k. Inr (rp_id r, k))) (cf_repos c)"

definition key_of :: "(str \<times> bound_key) list \<Rightarrow> str \<Rightarrow> bound_key" where
  "key_of bound i = the (map_of (rev bound) i)"

definition canonical_target :: "config \<Rightarrow> (str \<times> bound_key) list \<Rightarrow> dup_row \<Rightarrow> config_error + (str \<times> str) list" where
  "canonical_target c bound row = (case row of (_, canonical, _, filename) \<Rightarrow>
     (case by_id c canonical of
        None \<Rightarrow> Inr []
      | Some r \<Rightarrow> bind (package_path r filename) (\<lambda>uri. Inr [(uri, cache_key (key_of bound canonical) None filename)])))"

lemma chain_measure:
  assumes "map_of rewrites u = Some next" "u \<notin> set seen"
  shows "length (filter (\<lambda>k. k \<notin> set (u # seen)) (map fst rewrites)) < length (filter (\<lambda>k. k \<notin> set seen) (map fst rewrites))"
proof -
  have "u \<in> set (filter (\<lambda>k. k \<notin> set seen) (map fst rewrites))" using assms by (force dest: map_of_SomeD)
  then have "length (filter (\<lambda>k. k \<noteq> u) (filter (\<lambda>k. k \<notin> set seen) (map fst rewrites))) < length (filter (\<lambda>k. k \<notin> set seen) (map fst rewrites))"
    by (rule length_filter_less) simp
  then show ?thesis by (simp add: conj_commute)
qed

text \<open>The end of a chain of redirects: the sources passed, and the last target.\<close>

function chain_end :: "(str \<times> str) list \<Rightarrow> str list \<Rightarrow> str \<Rightarrow> str list \<times> str" where
  "chain_end rewrites seen target =
     (case map_of rewrites (lower target) of
        Some next \<Rightarrow> if lower target \<notin> set seen then chain_end rewrites (lower target # seen) next else (seen, target)
      | None \<Rightarrow> (seen, target))"
  by pat_completeness auto

termination
  by (relation "measure (\<lambda>(rewrites, seen, target). length (filter (\<lambda>k. k \<notin> set seen) (map fst rewrites)))")
    (use chain_measure in \<open>auto simp del: filter_filter\<close>)

declare chain_end.simps [simp del]

definition physical_key :: "(str \<times> str) list \<Rightarrow> (str \<times> str) list \<Rightarrow> str \<Rightarrow> str \<Rightarrow> str" where
  "physical_key rewrites targets source target =
     (case chain_end rewrites [source] target of (seen, last_uri) \<Rightarrow>
        if lower last_uri \<in> set seen then [] else (case map_of targets last_uri of None \<Rightarrow> [] | Some k \<Rightarrow> k))"

definition dedup_keys :: "config \<Rightarrow> dup_row list \<Rightarrow> key_builder \<Rightarrow> (str \<times> str) list option \<Rightarrow> config_error + (str \<times> str) list" where
  "dedup_keys c rows b given_pairs =
     (if \<not> ng_enable_dedup (cf_nginx c) then Inr []
      else bind (case given_pairs of Some ps \<Rightarrow> Inr ps | None \<Rightarrow> resolve_dedup_pairs c rows) (\<lambda>pairs.
           let rewrites = dict_of (map (\<lambda>(source, target). (lower source, target)) pairs) in
           bind (bound_repos c b) (\<lambda>bound.
           bind (traverse (canonical_target c bound) rows) (\<lambda>found.
             let targets = dict_of (concat found) in
             Inr (map (\<lambda>(source, target). (source, physical_key rewrites targets source target)) rewrites)))))"

section \<open>Contradicted redirects\<close>

text \<open>What is known of the file behind a URL: not seen yet, without one known hash, or one hash.\<close>

datatype evidence = Unseen | Conflicting | Same str

definition note_hash :: "evidence \<Rightarrow> str option \<Rightarrow> evidence" where
  "note_hash previous h =
     (if previous = Unseen \<or> (case previous of Same x \<Rightarrow> h = Some x | _ \<Rightarrow> h = None)
      then (if truthy h then Same (the h) else Conflicting) else Conflicting)"

fun gather_hashes :: "(str \<times> str) list \<Rightarrow> (str \<times> str \<times> str option) list \<Rightarrow> (str \<times> evidence) list \<Rightarrow> (str \<times> evidence) list" where
  "gather_hashes roots [] hashes = hashes"
| "gather_hashes roots ((repo_id, filename, h) # rows) hashes =
     (case map_of (rev roots) repo_id of
        None \<Rightarrow> gather_hashes roots rows hashes
      | Some p \<Rightarrow>
          (let uri = lower (p @ filename) in
           case map_of hashes uri of
             None \<Rightarrow> gather_hashes roots rows hashes
           | Some previous \<Rightarrow> gather_hashes roots rows (AList.update uri (note_hash previous h) hashes)))"

definition accepted_pairs :: "config \<Rightarrow> db \<Rightarrow> dup_row list \<Rightarrow> config_error + (str \<times> str) list" where
  "accepted_pairs c d rows =
     (if \<not> ng_enable_dedup (cf_nginx c) then Inr []
      else bind (resolve_dedup_pairs c rows) (\<lambda>pairs.
        let empty = dict_of (concat (map (\<lambda>(source, target). [(lower source, Unseen), (lower target, Unseen)]) pairs)) in
        if empty = [] then Inr []
        else bind (traverse (\<lambda>r. bind (package_prefix r) (\<lambda>p. Inr (rp_id r, p @ ''/''))) (cf_repos c)) (\<lambda>roots.
          let hashes = gather_hashes roots (iter_file_hashes d) empty in
          Inr (filter (\<lambda>(source, target). (case map_of hashes (lower source) of
                 Some (Same h) \<Rightarrow> map_of hashes (lower target) = Some (Same h) | _ \<Rightarrow> False)) pairs))))"

end
