(* ===== verification/Cache_Probe.thy ===== *)
theory Cache_Probe
  imports Warm
begin

text \<open>
  \<open>cache/probe.py\<close>: the client of nginx's cache introspection.  \<open>http\<close> is the answer to a purge request
  by URL; a probe and the listing of one leaf directory are answers too, \<open>None\<close> when the request failed.
\<close>

section \<open>The cache tree\<close>

definition hex_digits :: str where
  "hex_digits = ''0123456789abcdef''"

definition leaf_dirs :: "str list" where
  "leaf_dirs = concat (map (\<lambda>a. concat (map (\<lambda>b. map (\<lambda>c. [a, CHR ''/'', b, c]) hex_digits) hex_digits)) hex_digits)"

record probe_result =
  pb_exists :: bool
  pb_size :: "int option"
  pb_generation :: "str option"

record scan_entry =
  sc_leaf :: str
  sc_file :: str
  sc_key :: "str option"
  sc_size :: "int option"

record inventory =
  iv_entries :: "scan_entry list"
  iv_failed :: nat

text \<open>\<open>full_inventory\<close>: the leaves answer in any order, \<open>order\<close>.\<close>

definition full_inventory :: "(str list \<Rightarrow> str list) \<Rightarrow> (str \<Rightarrow> scan_entry list option) \<Rightarrow> inventory" where
  "full_inventory order scan =
     (let answers = map scan (order leaf_dirs) in
      \<lparr>iv_entries = concat (map (\<lambda>a. case a of Some es \<Rightarrow> es | None \<Rightarrow> []) answers),
       iv_failed = length (filter (\<lambda>a. a = None) answers)\<rparr>)"

record directory_size =
  ds_bytes :: int
  ds_files :: nat
  ds_unreadable_keys :: nat
  ds_unreadable_sizes :: nat
  ds_incomplete :: nat

text \<open>\<open>cache_dir_size\<close>: \<open>None\<close> when the first leaf does not answer; a count of zero is left out of the
  dictionary.\<close>

definition cache_dir_size :: "(str list \<Rightarrow> str list) \<Rightarrow> (str \<Rightarrow> scan_entry list option) \<Rightarrow> directory_size option" where
  "cache_dir_size order scan =
     (if scan ''0/00'' = None then None
      else let inventory = full_inventory order scan; entries = iv_entries inventory in
        Some \<lparr>ds_bytes = sum_list (map (\<lambda>e. case sc_size e of None \<Rightarrow> 0 | Some n \<Rightarrow> n) entries), ds_files = length entries,
          ds_unreadable_keys = length (filter (\<lambda>e. sc_key e = None) entries),
          ds_unreadable_sizes = length (filter (\<lambda>e. sc_size e = None) entries), ds_incomplete = iv_failed inventory\<rparr>)"

section \<open>Purging by key\<close>

definition generation_ok :: "str \<Rightarrow> bool" where
  "generation_ok g \<longleftrightarrow> length g = 64 \<and> list_all (\<lambda>c. ascii_digit c \<or> (97 \<le> code c \<and> code c \<le> 102)) g"

definition purge_raw_url :: "str \<Rightarrow> str \<Rightarrow> str option \<Rightarrow> str" where
  "purge_raw_url base key generation =
     base @ ''/purge-raw?key='' @ key @ (case generation of None \<Rightarrow> [] | Some g \<Rightarrow> ''&cleanup_generation='' @ g)"

text \<open>\<open>None\<close> is the ValueError for a malformed generation.\<close>

definition purge_raw :: "(str \<Rightarrow> purge_answer) \<Rightarrow> str \<Rightarrow> str \<Rightarrow> str option \<Rightarrow> str option" where
  "purge_raw http base key generation =
     (if (case generation of None \<Rightarrow> True | Some g \<Rightarrow> generation_ok g)
      then Some (purge_outcome (http (purge_raw_url base key generation))) else None)"

definition raw_keys :: "config \<Rightarrow> bound_key \<Rightarrow> (str \<times> str) list \<Rightarrow> str \<Rightarrow> str list" where
  "raw_keys c k canonical_keys filename =
     unique ([cache_key k None filename, cache_key k (Some (\<not> ng_enable_dedup (cf_nginx c))) filename] @
       (case map_of canonical_keys filename of None \<Rightarrow> [] | Some x \<Rightarrow> [x]))"

definition raw_outcome :: "str list \<Rightarrow> str" where
  "raw_outcome outcomes =
     (case filter (\<lambda>x. x \<notin> set [''purged'', ''not_cached'']) outcomes of
        e # _ \<Rightarrow> e | [] \<Rightarrow> if ''purged'' \<in> set outcomes then ''purged'' else ''not_cached'')"

definition purge_selected_raw ::
  "(str \<Rightarrow> purge_answer) \<Rightarrow> config \<Rightarrow> repo_config \<Rightarrow> (str \<times> str) list \<Rightarrow> (str \<times> str) list \<Rightarrow> config_error + (str \<times> str) list" where
  "purge_selected_raw http c r canonical_keys items =
     (if items = [] then Inr []
      else bind (make_key_builder c) (\<lambda>b. bind (for_repo b r) (\<lambda>k.
        Inr (map (\<lambda>(key, filename). (key, raw_outcome (map (\<lambda>x. purge_outcome (http (purge_raw_url (cf_base_url c) x None)))
               (raw_keys c k canonical_keys filename)))) items))))"

section \<open>What the results mean\<close>

lemma leaf_dirs_mem: "leaf \<in> set leaf_dirs \<longleftrightarrow> (\<exists>a b c. leaf = [a, CHR ''/'', b, c] \<and> {a, b, c} \<subseteq> set hex_digits)"
  by (auto simp: leaf_dirs_def)

lemma leaf_dirs_length: "length leaf_dirs = 4096"
  by (simp add: leaf_dirs_def length_concat comp_def hex_digits_def)

lemma raw_outcome_gone:
  "raw_outcome outcomes \<in> {''purged'', ''not_cached''} \<longleftrightarrow> (\<forall>x \<in> set outcomes. x = ''purged'' \<or> x = ''not_cached'')"
proof (cases "filter (\<lambda>x. x \<notin> set [''purged'', ''not_cached'']) outcomes")
  case Nil
  then show ?thesis by (auto simp: raw_outcome_def filter_empty_conv)
next
  case (Cons e es)
  then have "e \<in> set (filter (\<lambda>x. x \<notin> set [''purged'', ''not_cached'']) outcomes)" by simp
  then have "e \<in> set outcomes" "e \<noteq> ''purged''" "e \<noteq> ''not_cached''" by auto
  moreover have "raw_outcome outcomes = e" using Cons by (simp add: raw_outcome_def)
  ultimately show ?thesis by blast
qed

text \<open>No leaf is lost: the entries of an inventory are those of the leaves that answered.\<close>

lemma full_inventory_complete:
  assumes "set (order leaf_dirs) = set leaf_dirs"
  shows "set (iv_entries (full_inventory order scan)) = (\<Union>leaf \<in> set leaf_dirs. case scan leaf of Some es \<Rightarrow> set es | None \<Rightarrow> {})"
  using assms by (auto simp: full_inventory_def Let_def split: option.splits) (metis option.inject)

end
