(* ===== verification/Dedup_Cleanup.thy ===== *)
theory Dedup_Cleanup
  imports Dedup Cache_Probe Config_Types
begin

text \<open>
  \<open>operations/dedup_cleanup.py\<close>: finding cache keys that no route uses any more, and purging them after
  each one has been checked again.  A plan reads the database four times (revisions and redirects, two
  scans of the catalog, revisions again); what is observed while copies are removed is a sequence of
  observations, one per candidate.
\<close>

section \<open>Windows\<close>

record item =
  it_repo :: str
  it_file :: str
  it_canonical :: str

record keys_window =
  wi_limit :: "nat option"
  wi_after :: str
  wi_ranks :: "(bool \<times> str) list"
  wi_rows :: "(str \<times> item) list"

definition new_window :: "nat option \<Rightarrow> str \<Rightarrow> keys_window" where
  "new_window limit after = \<lparr>wi_limit = limit, wi_after = after, wi_ranks = [], wi_rows = []\<rparr>"

definition window_add :: "str \<Rightarrow> item \<Rightarrow> keys_window \<Rightarrow> keys_window" where
  "window_add key row w =
     (if wi_limit w = Some 0 \<or> map_of (wi_rows w) key \<noteq> None then w
      else case wi_limit w of
        None \<Rightarrow> w\<lparr>wi_rows := AList.update key row (wi_rows w)\<rparr>
      | Some limit \<Rightarrow>
          (let rank = (key \<le> wi_after w, key) in
           if length (wi_rows w) \<ge> limit then
             if rank \<ge> last (wi_ranks w) then w
             else w\<lparr>wi_ranks := insort rank (butlast (wi_ranks w)),
                    wi_rows := AList.update key row (AList.delete (snd (last (wi_ranks w))) (wi_rows w))\<rparr>
           else w\<lparr>wi_ranks := insort rank (wi_ranks w), wi_rows := AList.update key row (wi_rows w)\<rparr>))"

definition window_cursor :: "keys_window \<Rightarrow> str" where
  "window_cursor w = (if wi_ranks w = [] then wi_after w else snd (last (wi_ranks w)))"

section \<open>Evidence\<close>

record proof_row =
  ce_repo :: str
  ce_file :: str
  ce_keys :: "str list"
  ce_target :: str
  ce_blocked :: bool
  ce_eligible :: bool
  ce_warmed :: bool

definition row_evidence :: "(identity_fields \<Rightarrow> str) \<Rightarrow> config \<Rightarrow> repo_config \<Rightarrow> bound_key \<Rightarrow> (str \<times> str) list \<Rightarrow>
    cleanup_row \<Rightarrow> config_error + proof_row list" where
  "row_evidence digest c r k redirects row =
     (if cl_artifact row then
        Inr (if rp_type r = ''nix''
          then [\<lparr>ce_repo = cl_repo row, ce_file = cl_file row, ce_keys = [], ce_target = cache_key k None (cl_file row),
                 ce_blocked = False, ce_eligible = False, ce_warmed = False\<rparr>]
          else [])
      else bind (package_path r (cl_file row)) (\<lambda>path.
        let direct = cache_key k None (cl_file row);
            target = (case map_of redirects (lower path) of None \<Rightarrow> direct | Some t \<Rightarrow> t)
        in Inr [\<lparr>ce_repo = cl_repo row, ce_file = cl_file row,
             ce_keys = remdups [direct, cache_key k (Some (\<not> ng_enable_dedup (cf_nginx c))) (cl_file row)],
             ce_target = target,
             ce_blocked = (cl_last_check row = None \<or> cl_identity row \<noteq> Some (catalog_identity digest r) \<or> cl_pending row \<or> target = []),
             ce_eligible = (rp_type r \<noteq> ''nix''), ce_warmed = cl_warmed row\<rparr>]))"

definition evidence_of :: "(identity_fields \<Rightarrow> str) \<Rightarrow> config \<Rightarrow> db \<Rightarrow> key_builder \<Rightarrow> (str \<times> str) list \<Rightarrow> config_error + proof_row list" where
  "evidence_of digest c d b redirects =
     bind (bound_repos c b) (\<lambda>bound.
     bind (traverse (\<lambda>row. row_evidence digest c (the (by_id c (cl_repo row))) (key_of bound (cl_repo row)) redirects row)
       (cleanup_rows (sort (remdups (map rp_id (cf_repos c)))) d)) (\<lambda>parts. Inr (concat parts)))"

section \<open>Plans\<close>

record plan =
  pl_config :: config
  pl_revisions :: "(str \<times> nat) list"
  pl_generation :: str
  pl_candidates :: "(str \<times> item) list"
  pl_cursor :: str
  pl_priority_cursor :: str
  pl_scanned :: nat

datatype cleanup_error = Plan_failed config_error | Bad_limit | Changed_plan

definition plan_key :: "str \<Rightarrow> bool" where
  "plan_key key \<longleftrightarrow> all_in (\<lambda>c. ascii_alnum c \<or> c \<in> set ''_./:+~-'') key"

record request =
  re_limit :: "nat option"
  re_after :: str
  re_priority_after :: str
  re_selected :: "str list option"
  re_excluded :: "str list option"

definition wanted_key :: "request \<Rightarrow> str \<Rightarrow> bool" where
  "wanted_key q key \<longleftrightarrow> \<not> ((case re_selected q of None \<Rightarrow> False | Some ks \<Rightarrow> key \<notin> set ks) \<or>
     (case re_excluded q of None \<Rightarrow> False | Some ks \<Rightarrow> key \<in> set ks) \<or> \<not> plan_key key)"

definition scan_row :: "request \<Rightarrow> keys_window \<times> keys_window \<Rightarrow> proof_row \<Rightarrow> keys_window \<times> keys_window" where
  "scan_row q ws e =
     (if ce_blocked e \<or> \<not> ce_eligible e then ws
      else foldl (\<lambda>(fair, priority) key.
          let row = \<lparr>it_repo = ce_repo e, it_file = ce_file e, it_canonical = ce_target e\<rparr> in
          (window_add key row fair, if ce_warmed e then window_add key row priority else priority)) ws
        (filter (wanted_key q) (filter (\<lambda>k. k \<noteq> ce_target e) (ce_keys e))))"

text \<open>Filling up the priority window from the fair one; the last key looked at is the cursor.\<close>

fun fill :: "nat option \<Rightarrow> (str \<times> item) list \<Rightarrow> str list \<Rightarrow> (str \<times> item) list \<times> str \<Rightarrow> (str \<times> item) list \<times> str" where
  "fill limit rows [] s = s"
| "fill limit rows (key # keys) (possible, cursor) =
     (if (case limit of None \<Rightarrow> False | Some n \<Rightarrow> length possible \<ge> n) then (possible, cursor)
      else fill limit rows keys
        ((if map_of possible key = None then possible @ [(key, the (map_of rows key))] else possible), key))"

record verdict =
  vd_unsafe :: "str list"
  vd_active :: "str list"
  vd_conflicts :: "str list"
  vd_attributed :: "str list"
  vd_possible :: "(str \<times> item) list"

definition attribute_key :: "proof_row \<Rightarrow> verdict \<Rightarrow> str \<Rightarrow> verdict" where
  "attribute_key e v key =
     (let v1 = (if key \<noteq> ce_target e \<and> key \<notin> set (vd_attributed v)
           then v\<lparr>vd_possible := AList.update key ((the (map_of (vd_possible v) key))\<lparr>it_repo := ce_repo e, it_file := ce_file e\<rparr>) (vd_possible v),
                  vd_attributed := key # vd_attributed v\<rparr>
           else v)
      in if key \<noteq> ce_target e \<and> it_canonical (the (map_of (vd_possible v1) key)) \<noteq> ce_target e
         then v1\<lparr>vd_conflicts := key # vd_conflicts v1\<rparr> else v1)"

definition judge_row :: "str list \<Rightarrow> verdict \<Rightarrow> proof_row \<Rightarrow> verdict" where
  "judge_row watched v e =
     (let v1 = (if map_of (vd_possible v) (ce_target e) \<noteq> None then v\<lparr>vd_active := ce_target e # vd_active v\<rparr> else v);
          v2 = (if ce_blocked e then v1\<lparr>vd_unsafe := filter (\<lambda>k. k \<in> set watched) (ce_target e # ce_keys e) @ vd_unsafe v1\<rparr> else v1)
      in if ce_eligible e \<and> \<not> ce_blocked e
         then foldl (attribute_key e) v2 (filter (\<lambda>k. map_of (vd_possible v2) k \<noteq> None) (ce_keys e)) else v2)"

definition judged :: "(str \<times> item) list \<Rightarrow> proof_row list \<Rightarrow> verdict" where
  "judged possible evidence =
     foldl (judge_row (map fst possible @ map (\<lambda>(_, i). it_canonical i) possible))
       \<lparr>vd_unsafe = [], vd_active = [], vd_conflicts = [], vd_attributed = [], vd_possible = possible\<rparr> evidence"

definition safe_candidates :: "verdict \<Rightarrow> (str \<times> item) list" where
  "safe_candidates v =
     map (\<lambda>key. (key, the (map_of (vd_possible v) key)))
       (filter (\<lambda>key. key \<notin> set (vd_unsafe v @ vd_active v @ vd_conflicts v) \<and>
           it_canonical (the (map_of (vd_possible v) key)) \<notin> set (vd_unsafe v))
         (sort (map fst (vd_possible v))))"

text \<open>\<open>dedup_generation\<close>: \<open>hash\<close> is the SHA-256 of the JSON text of the policy.\<close>

type_synonym policy = "(str \<times> (str \<times> route) list \<times> (str \<times> str) list) \<times> bool \<times> bool \<times> bool \<times> (str \<times> str) list"

definition dedup_generation :: "(policy \<Rightarrow> str) \<Rightarrow> config \<Rightarrow> (str \<times> str) list \<Rightarrow> config_error + str" where
  "dedup_generation hash c pairs =
     bind (compute_routes c) (\<lambda>routes. Inr (hash (routes, ng_enable_dedup (cf_nginx c), ng_enable_purge (cf_nginx c),
       ng_enable_probe (cf_nginx c), sort pairs)))"

record plan_env =
  pe_digest :: "identity_fields \<Rightarrow> str"
  pe_hash :: "policy \<Rightarrow> str"

record plan_reads =
  rd_start :: db
  rd_first :: db
  rd_second :: db
  rd_stop :: db

definition lift_config :: "config_error + 'a \<Rightarrow> cleanup_error + 'a" where
  "lift_config x = (case x of Inl e \<Rightarrow> Inl (Plan_failed e) | Inr y \<Rightarrow> Inr y)"

definition select_keys :: "request \<Rightarrow> proof_row list \<Rightarrow> (str \<times> item) list \<times> str \<times> str" where
  "select_keys q evidence =
     (let limit = re_limit q;
          (fair, priority) = foldl (scan_row q)
            (new_window limit (re_after q),
             new_window (Some (case limit of None \<Rightarrow> 0 | Some n \<Rightarrow> n - max 1 (n div 2))) (re_priority_after q)) evidence;
          (possible, cursor) = fill limit (wi_rows fair)
            (case limit of None \<Rightarrow> map fst (wi_rows fair) | Some _ \<Rightarrow> map snd (wi_ranks fair)) (wi_rows priority, re_after q)
      in (possible, cursor, window_cursor priority))"

definition make_plan :: "plan_env \<Rightarrow> config \<Rightarrow> plan_reads \<Rightarrow> request \<Rightarrow> cleanup_error + plan" where
  "make_plan env c reads q =
     (if re_limit q = Some 0 then Inl Bad_limit
      else let d = rd_start reads; rows = find_duplicate_files d in
        bind (lift_config (accepted_pairs c d rows)) (\<lambda>pairs.
        bind (lift_config (make_key_builder c)) (\<lambda>b.
        bind (lift_config (dedup_keys c rows b (Some pairs))) (\<lambda>redirects.
        bind (lift_config (dedup_generation (pe_hash env) c pairs)) (\<lambda>generation.
        bind (lift_config (evidence_of (pe_digest env) c (rd_first reads) b redirects)) (\<lambda>first.
        bind (lift_config (evidence_of (pe_digest env) c (rd_second reads) b redirects)) (\<lambda>second.
          let (possible, cursor, priority_cursor) = select_keys q first in
          if set (get_snapshot_revisions d) \<noteq> set (get_snapshot_revisions (rd_stop reads)) then Inl Changed_plan
          else Inr \<lparr>pl_config = c, pl_revisions = get_snapshot_revisions d, pl_generation = generation,
            pl_candidates = safe_candidates (judged possible second), pl_cursor = cursor,
            pl_priority_cursor = priority_cursor, pl_scanned = length first\<rparr>)))))))"

section \<open>Removing copies\<close>

definition cleanup_enabled :: "config \<Rightarrow> bool" where
  "cleanup_enabled c \<longleftrightarrow> ng_enabled (cf_nginx c) \<and> ng_enable_dedup (cf_nginx c) \<and> ng_enable_purge (cf_nginx c) \<and> ng_enable_probe (cf_nginx c)"

text \<open>
  What is seen while one candidate is handled: the seconds since the start, the configuration (\<open>None\<close> when it
  does not load) and the revisions at both checks, and the answers of the two probes, an error's text on
  the left.
\<close>

record observation =
  ob_elapsed :: int
  ob_config1 :: "config option"
  ob_revisions1 :: "(str \<times> nat) list"
  ob_source :: "str + probe_result"
  ob_canonical :: "str + probe_result"
  ob_config2 :: "config option"
  ob_revisions2 :: "(str \<times> nat) list"

definition check_current :: "plan \<Rightarrow> config option \<Rightarrow> (str \<times> nat) list \<Rightarrow> str option" where
  "check_current plan current revisions =
     (case current of
        None \<Rightarrow> Some ''Configuration is invalid; cleanup stopped.''
      | Some c \<Rightarrow> if c \<noteq> pl_config plan \<or> set (pl_revisions plan) \<noteq> set revisions
          then Some ''Configuration or repository catalogs changed; retry the cleanup.'' else None)"

datatype inspection = Probe_error str | Not_applied | Inspected bool int str

definition inspect_pair :: "plan \<Rightarrow> observation \<Rightarrow> inspection" where
  "inspect_pair plan ob =
     (case ob_source ob of Inl e \<Rightarrow> Probe_error e
      | Inr source \<Rightarrow> (case ob_canonical ob of Inl e \<Rightarrow> Probe_error e
        | Inr canonical \<Rightarrow>
            if pb_generation source \<noteq> Some (pl_generation plan) \<or> pb_generation canonical \<noteq> Some (pl_generation plan)
            then Not_applied
            else Inspected (pb_exists source \<and> pb_exists canonical) (case pb_size source of None \<Rightarrow> 0 | Some n \<Rightarrow> n)
              (if \<not> pb_exists source then ''source_missing''
               else if \<not> pb_exists canonical then ''canonical_missing'' else ''ready'')))"

record removal =
  rm_results :: "(str \<times> str) list"
  rm_freed :: int
  rm_stopped :: "str option"
  rm_absent :: "str list"
  rm_examined :: nat
  rm_source_missing :: nat
  rm_canonical_missing :: nat
  rm_eligible :: nat
  rm_purged :: nat

definition no_removal :: removal where
  "no_removal = \<lparr>rm_results = [], rm_freed = 0, rm_stopped = None, rm_absent = [], rm_examined = 0, rm_source_missing = 0,
     rm_canonical_missing = 0, rm_eligible = 0, rm_purged = 0\<rparr>"

definition set_result :: "str \<Rightarrow> str \<Rightarrow> removal \<Rightarrow> removal" where
  "set_result key outcome r = r\<lparr>rm_results := AList.update key outcome (rm_results r)\<rparr>"

definition count_reason :: "str \<Rightarrow> str \<Rightarrow> removal \<Rightarrow> removal" where
  "count_reason key reason r =
     (if reason = ''source_missing'' then r\<lparr>rm_examined := rm_examined r + 1, rm_absent := rm_absent r @ [key], rm_source_missing := rm_source_missing r + 1\<rparr>
      else if reason = ''canonical_missing'' then r\<lparr>rm_examined := rm_examined r + 1, rm_canonical_missing := rm_canonical_missing r + 1\<rparr>
      else r\<lparr>rm_examined := rm_examined r + 1\<rparr>)"

definition note_purge :: "str \<Rightarrow> int \<Rightarrow> str option \<Rightarrow> removal \<Rightarrow> removal" where
  "note_purge key n purge r =
     (let r1 = r\<lparr>rm_eligible := rm_eligible r + 1\<rparr> in
      case purge of
        None \<Rightarrow> set_result key ''error (ValueError: Invalid cleanup generation)'' r1
      | Some outcome \<Rightarrow>
          (let r2 = set_result key outcome r1;
               r3 = (if outcome = ''purged'' then r2\<lparr>rm_freed := rm_freed r2 + n, rm_purged := rm_purged r2 + 1\<rparr> else r2);
               r4 = (if outcome \<in> set [''purged'', ''not_cached''] then r3\<lparr>rm_absent := rm_absent r3 @ [key]\<rparr> else r3)
           in if outcome = ''error (HTTP 409)'' then r4\<lparr>rm_stopped := Some ''nginx generation changed''\<rparr> else r4))"

definition remove_one :: "(str \<Rightarrow> purge_answer) \<Rightarrow> plan \<Rightarrow> removal \<Rightarrow> str \<Rightarrow> observation \<Rightarrow> removal" where
  "remove_one http plan r key ob =
     (if ob_elapsed ob \<ge> 30 then r\<lparr>rm_stopped := Some ''time budget reached''\<rparr>
      else if map_of (pl_candidates plan) key = None then set_result key ''skipped'' r
      else case check_current plan (ob_config1 ob) (ob_revisions1 ob) of
        Some reason \<Rightarrow> r\<lparr>rm_stopped := Some reason\<rparr>
      | None \<Rightarrow> (case inspect_pair plan ob of
          Probe_error e \<Rightarrow> set_result key (''error ('' @ e @ '')'') r
        | Not_applied \<Rightarrow> r\<lparr>rm_stopped := Some ''nginx has not applied this dedup generation; retry after reconciliation.''\<rparr>
        | Inspected ready n reason \<Rightarrow>
            (let r1 = count_reason key reason r in
             case check_current plan (ob_config2 ob) (ob_revisions2 ob) of
               Some changed \<Rightarrow> r1\<lparr>rm_stopped := Some changed\<rparr>
             | None \<Rightarrow> if \<not> ready then set_result key ''skipped'' r1
                 else note_purge key n (purge_raw http (cf_base_url (pl_config plan)) key (Some (pl_generation plan))) r1)))"

fun remove_loop :: "(str \<Rightarrow> purge_answer) \<Rightarrow> plan \<Rightarrow> removal \<Rightarrow> (str \<times> observation) list \<Rightarrow> removal" where
  "remove_loop http plan r [] = r"
| "remove_loop http plan r ((key, ob) # keys) =
     (let r1 = remove_one http plan r key ob in
      if rm_stopped r1 \<noteq> None then r1 else remove_loop http plan r1 keys)"

definition remove_copies :: "(str \<Rightarrow> purge_answer) \<Rightarrow> plan \<Rightarrow> (str \<times> observation) list \<Rightarrow> removal" where
  "remove_copies http plan keys = remove_loop http plan no_removal keys"

section \<open>The hourly pass\<close>

record cleaner =
  dc_evidence :: "(config \<times> (str \<times> nat) list) option"
  dc_pending :: "(str \<times> str \<times> str list) option"
  dc_cursor :: str
  dc_priority_cursor :: str
  dc_recent :: "(str \<times> int) list"
  dc_locked :: bool

definition automatic_batch :: nat where
  "automatic_batch = 256"

datatype pass_end = Not_started | Deferred | Raised cleanup_error | Passed removal

definition same_evidence :: "(config \<times> (str \<times> nat) list) option \<Rightarrow> config \<Rightarrow> (str \<times> nat) list \<Rightarrow> bool" where
  "same_evidence known c revisions \<longleftrightarrow>
     (case known of None \<Rightarrow> False | Some (k, known_revisions) \<Rightarrow> k = c \<and> set known_revisions = set revisions)"

definition refresh_evidence :: "config \<Rightarrow> (str \<times> nat) list \<Rightarrow> cleaner \<Rightarrow> cleaner" where
  "refresh_evidence c revisions s =
     (if same_evidence (dc_evidence s) c revisions then s
      else s\<lparr>dc_recent := [], dc_pending := None, dc_evidence := Some (c, revisions)\<rparr>)"

definition remember_absent :: "int \<Rightarrow> str list \<Rightarrow> (str \<times> int) list \<Rightarrow> (str \<times> int) list" where
  "remember_absent now absent recent =
     (let found = foldl (\<lambda>known key. AList.delete key known @ [(key, now + 6 * 3600)]) recent absent
      in drop (length found - 4096) found)"

definition pass_request :: "cleaner \<Rightarrow> request" where
  "pass_request s = (case dc_pending s of
     None \<Rightarrow> \<lparr>re_limit = Some automatic_batch, re_after = dc_cursor s, re_priority_after = dc_priority_cursor s, re_selected = None,
               re_excluded = Some (map fst (dc_recent s))\<rparr>
   | Some (_, _, keys) \<Rightarrow> \<lparr>re_limit = None, re_after = [], re_priority_after = [], re_selected = Some keys, re_excluded = None\<rparr>)"

definition after_pass :: "plan \<Rightarrow> removal \<Rightarrow> int \<Rightarrow> cleaner \<Rightarrow> cleaner" where
  "after_pass plan r now s =
     (let (next_cursor, next_priority) = (case dc_pending s of None \<Rightarrow> (pl_cursor plan, pl_priority_cursor plan) | Some (x, y, _) \<Rightarrow> (x, y));
          remaining = filter (\<lambda>key. map_of (rm_results r) key = None) (map fst (pl_candidates plan));
          s1 = (if remaining \<noteq> [] \<and> rm_stopped r \<noteq> None then s\<lparr>dc_pending := Some (next_cursor, next_priority, remaining)\<rparr>
                else s\<lparr>dc_pending := None, dc_cursor := next_cursor, dc_priority_cursor := next_priority\<rparr>)
      in s1\<lparr>dc_recent := remember_absent now (rm_absent r) (dc_recent s1)\<rparr>)"

text \<open>
  \<open>observe\<close> tells what is seen while the candidates of a plan are handled.  The lock is taken and given back
  within the pass; a pass that finds it taken does nothing.
\<close>

record pass_env =
  ps_revisions :: "(str \<times> nat) list"
  ps_now :: int
  ps_reads :: plan_reads
  ps_observe :: "str \<Rightarrow> observation"
  ps_http :: "str \<Rightarrow> purge_answer"
  ps_later :: int

definition automatic_cleanup :: "plan_env \<Rightarrow> pass_env \<Rightarrow> config \<Rightarrow> cleaner \<Rightarrow> cleaner \<times> pass_end" where
  "automatic_cleanup env ps c s =
     (if \<not> cleanup_enabled c \<or> dc_locked s then (s, Not_started)
      else let s1 = refresh_evidence c (ps_revisions ps) s;
               s2 = s1\<lparr>dc_recent := filter (\<lambda>(key, expiry). \<not> expiry \<le> ps_now ps) (dc_recent s1)\<rparr>
        in case make_plan env c (ps_reads ps) (pass_request s2) of
          Inl Changed_plan \<Rightarrow> (s2, Deferred)
        | Inl e \<Rightarrow> (s2, Raised e)
        | Inr plan \<Rightarrow>
            (let r = remove_copies (ps_http ps) plan (map (\<lambda>(key, _). (key, ps_observe ps key)) (pl_candidates plan))
             in (after_pass plan r (ps_later ps) s2, Passed r)))"

end
