(* ===== verification/Dedup_Props.thy ===== *)
theory Dedup_Props
  imports Dedup
begin

text \<open>
  The redirects of \<open>cache/dedup.py\<close> and \<open>nginx/render.py\<close>: they form a map that nginx accepts, they lead
  to the key at the end of a chain, and an accepted one never changes the content of a URL.
\<close>

section \<open>The map of redirects\<close>

definition proposes :: "config \<Rightarrow> dup_row \<Rightarrow> str \<Rightarrow> str \<Rightarrow> bool" where
  "proposes c row source target = (case row of (d, k, f, g) \<Rightarrow>
     (\<exists>a b. by_id c d = Some a \<and> by_id c k = Some b \<and> rp_type a \<noteq> ''nix'' \<and> rp_type b \<noteq> ''nix'' \<and>
       package_path a f = Inr source \<and> package_path b g = Inr target \<and> source \<noteq> target))"

definition proposed :: "(str \<times> str list) list \<Rightarrow> str \<Rightarrow> str set" where
  "proposed targets k = (case map_of targets k of None \<Rightarrow> {} | Some vs \<Rightarrow> set vs)"

definition targets_ok :: "(str \<times> str list) list \<Rightarrow> bool" where
  "targets_ok targets \<longleftrightarrow> distinct (map fst targets) \<and> (\<forall>(k, vs) \<in> set targets. vs \<noteq> [] \<and> distinct vs)"

lemma add_target_ok:
  assumes "targets_ok targets"
  shows "targets_ok (add_target uri canonical targets)"
    and "proposed (add_target uri canonical targets) k = proposed targets k \<union> (if k = uri then {canonical} else {})"
proof -
  let ?vs = "case map_of targets uri of None \<Rightarrow> [canonical] | Some cs \<Rightarrow> List.insert canonical cs"
  have vs: "?vs \<noteq> [] \<and> distinct ?vs \<and> set ?vs = proposed targets uri \<union> {canonical}"
  proof (cases "map_of targets uri")
    case None
    then show ?thesis by (simp add: proposed_def)
  next
    case (Some cs)
    then have "cs \<noteq> []" "distinct cs" using assms by (auto simp: targets_ok_def dest!: map_of_SomeD)
    moreover have "List.insert canonical cs \<noteq> []" using \<open>cs \<noteq> []\<close> by (simp add: List.insert_def)
    ultimately show ?thesis using Some by (auto simp: proposed_def)
  qed
  show "proposed (add_target uri canonical targets) k = proposed targets k \<union> (if k = uri then {canonical} else {})"
    using vs by (simp add: add_target_def proposed_def update_conv)
  have "distinct (map fst (add_target uri canonical targets))"
    using assms by (simp add: add_target_def targets_ok_def distinct_update)
  moreover have "vs \<noteq> [] \<and> distinct vs" if "(k, vs) \<in> set (add_target uri canonical targets)" for k vs
  proof -
    have "map_of (add_target uri canonical targets) k = Some vs" using calculation that by simp
    then show ?thesis using assms vs
      by (auto simp: add_target_def update_conv targets_ok_def split: if_splits dest!: map_of_SomeD)
  qed
  ultimately show "targets_ok (add_target uri canonical targets)" by (auto simp: targets_ok_def)
qed

lemma dedup_targets_step:
  assumes "dedup_targets c (row # rows) targets = Inr targets'"
  shows "(\<exists>s t. proposes c row s t \<and> dedup_targets c rows (add_target s t targets) = Inr targets') \<or>
    (\<forall>s t. \<not> proposes c row s t) \<and> dedup_targets c rows targets = Inr targets'"
proof -
  obtain d k f g where row: "row = (d, k, f, g)" by (cases row)
  show ?thesis
  proof (cases "by_id c d")
    case None
    then show ?thesis using assms row by (simp add: proposes_def)
  next
    case a: (Some a)
    show ?thesis
    proof (cases "by_id c k")
      case None
      then show ?thesis using assms row a by (simp add: proposes_def)
    next
      case b: (Some b)
      show ?thesis
      proof (cases "rp_type a = ''nix'' \<or> rp_type b = ''nix''")
        case True
        then have "\<forall>s t. \<not> proposes c row s t" using row a b by (auto simp: proposes_def)
        moreover have "dedup_targets c rows targets = Inr targets'" using assms row a b True by auto
        ultimately show ?thesis by simp
      next
        case False
        then obtain s t where st: "package_path a f = Inr s" "package_path b g = Inr t"
          using assms row a b by (auto simp: bind_Inr)
        show ?thesis
        proof (cases "s = t")
          case True
          then show ?thesis using assms row a b False st by (simp add: proposes_def)
        next
          case ne: False
          then have "proposes c row s t" using row a b False st by (simp add: proposes_def)
          moreover have "dedup_targets c rows (add_target s t targets) = Inr targets'" using assms row a b False st ne by simp
          ultimately show ?thesis by blast
        qed
      qed
    qed
  qed
qed

lemma proposes_unique: "proposes c row s t \<Longrightarrow> proposes c row s' t' \<Longrightarrow> s' = s \<and> t' = t"
  by (auto simp: proposes_def split: prod.splits)

lemma dedup_targets_ok:
  "dedup_targets c rows targets = Inr targets' \<Longrightarrow> targets_ok targets \<Longrightarrow>
   targets_ok targets' \<and> (\<forall>k x. x \<in> proposed targets' k \<longleftrightarrow> x \<in> proposed targets k \<or> (\<exists>row \<in> set rows. proposes c row k x))"
proof (induction rows arbitrary: targets)
  case Nil
  then show ?case by simp
next
  case (Cons row rows)
  from dedup_targets_step [OF Cons.prems(1)] consider
      s t where "proposes c row s t" "dedup_targets c rows (add_target s t targets) = Inr targets'"
    | "\<forall>s t. \<not> proposes c row s t" "dedup_targets c rows targets = Inr targets'" by blast
  then show ?case
  proof cases
    case 1
    have "proposes c row x y \<longleftrightarrow> x = s \<and> y = t" for x y using 1(1) proposes_unique by blast
    then show ?thesis
      using Cons.IH [OF 1(2) add_target_ok(1) [OF Cons.prems(2)]] add_target_ok(2) [OF Cons.prems(2), of s t] by auto
  next
    case 2
    then show ?thesis using Cons.IH [OF 2(2) Cons.prems(2)] by simp
  qed
qed

lemma no_case_clash:
  assumes "distinct keys" "k \<in> set keys" "k' \<in> set keys" "lower k = lower k'" "\<not> case_clash keys k"
  shows "k = k'"
proof (rule ccontr)
  assume "k \<noteq> k'"
  have "{k, k'} \<subseteq> set (filter (\<lambda>x. lower x = lower k) keys)" using assms by auto
  then have "card {k, k'} \<le> length (filter (\<lambda>x. lower x = lower k) keys)"
    by (metis List.finite_set card_length card_mono le_trans)
  then show False using assms(5) \<open>k \<noteq> k'\<close> by (simp add: case_clash_def)
qed


section \<open>Chains\<close>

inductive redirects_to :: "(str \<times> str) list \<Rightarrow> str \<Rightarrow> str \<Rightarrow> bool" for ws where
  here: "redirects_to ws u u"
| hop: "map_of ws (lower u) = Some v \<Longrightarrow> redirects_to ws v w \<Longrightarrow> redirects_to ws u w"

lemma chain_end_redirects:
  "chain_end ws seen target = (seen', u) \<Longrightarrow> redirects_to ws target u \<and>
   (lower u \<in> set seen' \<or> map_of ws (lower u) = None) \<and> set seen \<subseteq> set seen'"
proof (induction ws seen target rule: chain_end.induct)
  case (1 ws seen target)
  show ?case
  proof (cases "map_of ws (lower target)")
    case None
    then show ?thesis using "1.prems" by (simp add: chain_end.simps redirects_to.here)
  next
    case (Some v)
    show ?thesis
    proof (cases "lower target \<in> set seen")
      case True
      then show ?thesis using Some "1.prems" by (simp add: chain_end.simps [of _ _ target] redirects_to.here)
    next
      case False
      then have "chain_end ws (lower target # seen) v = (seen', u)"
        using Some "1.prems" by (simp add: chain_end.simps [of _ _ target])
      from "1.IH" [OF Some False this] show ?thesis using Some by (auto intro: redirects_to.hop)
    qed
  qed
qed

lemma traverse_in: "traverse f xs = Inr ys \<Longrightarrow> y \<in> set ys \<Longrightarrow> \<exists>x \<in> set xs. f x = Inr y"
  by (induction xs arbitrary: ys) (auto simp: bind_Inr)

lemma traverse_all: "traverse f xs = Inr ys \<Longrightarrow> x \<in> set xs \<Longrightarrow> \<exists>y \<in> set ys. f x = Inr y"
  by (induction xs arbitrary: ys) (auto simp: bind_Inr)

lemma dict_of_in: "map_of (dict_of ps) k = Some v \<Longrightarrow> (k, v) \<in> set ps"
  by (metis map_of_SomeD map_of_dict_of set_rev)

text \<open>C23: the cache key computed for a redirected URL is the key of a canonical file at the very end of its
  chain of redirects, a URL that is not redirected any further; a chain that comes back to a URL it has
  passed has no key.\<close>

theorem dedup_key_at_chain_end:
  assumes "dedup_keys c rows b (Some pairs) = Inr keys" "map_of keys source = Some k" "k \<noteq> []"
  defines "ws \<equiv> dict_of (map (\<lambda>(s, t). (lower s, t)) pairs)"
  shows "\<exists>target u row r bound.
    map_of ws source = Some target \<and> redirects_to ws target u \<and> map_of ws (lower u) = None \<and>
    row \<in> set rows \<and> by_id c (fst (snd row)) = Some r \<and> package_path r (snd (snd (snd row))) = Inr u \<and>
    bound_repos c b = Inr bound \<and> k = cache_key (key_of bound (fst (snd row))) None (snd (snd (snd row)))"
proof -
  have on: "ng_enable_dedup (cf_nginx c)" using assms(1,2) by (auto simp: dedup_keys_def split: if_splits)
  then obtain bound found where bound: "bound_repos c b = Inr bound" and found: "traverse (canonical_target c bound) rows = Inr found"
    and keys: "keys = map (\<lambda>(s, t). (s, physical_key ws (dict_of (concat found)) s t)) ws"
    using assms(1) by (auto simp: dedup_keys_def bind_Inr Let_def ws_def)
  have "map_of keys s = map_option (physical_key ws (dict_of (concat found)) s) (map_of ws s)" for s
  proof -
    have "map_of (map (\<lambda>(s, t). (s, f s t)) ps) s = map_option (f s) (map_of ps s)" for f :: "str \<Rightarrow> str \<Rightarrow> str" and ps
      by (induction ps) auto
    then show ?thesis by (simp add: keys)
  qed
  then obtain target where target: "map_of ws source = Some target" "k = physical_key ws (dict_of (concat found)) source target"
    using assms(2) by auto
  obtain seen u where chain: "chain_end ws [source] target = (seen, u)" by force
  then have u: "lower u \<notin> set seen" "map_of (dict_of (concat found)) u = Some k"
    using target(2) assms(3) by (auto simp: physical_key_def split: if_splits option.splits)
  note ends = chain_end_redirects [OF chain]
  obtain part where part: "part \<in> set found" "(u, k) \<in> set part" using dict_of_in [OF u(2)] by auto
  obtain row where row: "row \<in> set rows" "canonical_target c bound row = Inr part" using traverse_in [OF found part(1)] by blast
  then obtain r where "by_id c (fst (snd row)) = Some r" "package_path r (snd (snd (snd row))) = Inr u"
      "k = cache_key (key_of bound (fst (snd row))) None (snd (snd (snd row)))"
    using part(2) by (auto simp: canonical_target_def bind_Inr split: option.splits prod.splits)
  then show ?thesis using target(1) ends u(1) row(1) bound by blast
qed

section \<open>One content per URL\<close>

lemma map_of_upd: "map_of (AList.update k v al) = (map_of al)(k \<mapsto> v)"
  by (rule update_conv')

lemma gather_hashes_at:
  "map_of (gather_hashes roots rows hashes) u = map_option (\<lambda>e. foldl note_hash e
     (map (\<lambda>(i, f, h). h) (filter (\<lambda>(i, f, h). \<exists>p. map_of (rev roots) i = Some p \<and> lower (p @ f) = u) rows))) (map_of hashes u)"
proof (induction roots rows hashes rule: gather_hashes.induct)
  case (1 roots hashes)
  then show ?case by (simp add: option.map_ident)
next
  case (2 roots i f h rows hashes)
  show ?case
  proof (cases "map_of (rev roots) i")
    case None
    then show ?thesis using 2(1) by simp
  next
    case (Some p)
    show ?thesis
    proof (cases "map_of hashes (lower (p @ f))")
      case None
      then show ?thesis using 2(2) [OF Some refl None] Some by (cases "lower (p @ f) = u") simp_all
    next
      case (Some e)
      then show ?thesis using 2(3) [OF \<open>map_of (rev roots) i = Some p\<close> refl Some] \<open>map_of (rev roots) i = Some p\<close>
        by (cases "lower (p @ f) = u") (simp_all add: map_of_upd Let_def)
    qed
  qed
qed

lemma note_hash_same: "foldl note_hash e hs = Same x \<Longrightarrow> e \<noteq> Unseen \<or> hs \<noteq> [] \<Longrightarrow> (\<forall>h \<in> set hs. h = Some x) \<and> (e = Unseen \<or> e = Same x)"
proof (induction hs arbitrary: e)
  case (Cons h hs)
  have step: "note_hash e h \<noteq> Unseen" by (simp add: note_hash_def)
  from Cons.IH [OF _ disjI1 [OF step]] Cons.prems(1) have "\<forall>h \<in> set hs. h = Some x" "note_hash e h = Same x"
    using step by auto
  then show ?case by (cases e) (auto simp: note_hash_def truthy_iff split: if_splits)
qed simp

lemma traverse_ids:
  assumes "traverse (\<lambda>r. bind (package_prefix r) (\<lambda>p. Inr (rp_id r, p @ ''/''))) rs = Inr roots"
  shows "map_of (rev roots) i = map_option (\<lambda>r. (case package_prefix r of Inr p \<Rightarrow> p | Inl _ \<Rightarrow> []) @ ''/'')
      (map_of (rev (map (\<lambda>r. (rp_id r, r)) rs)) i)" and "\<forall>r \<in> set rs. \<exists>p. package_prefix r = Inr p"
proof -
  let ?g = "\<lambda>r. (case package_prefix r of Inr p \<Rightarrow> p | Inl _ \<Rightarrow> []) @ ''/''"
  have roots: "roots = map (\<lambda>r. (rp_id r, ?g r)) rs" and all: "\<forall>r \<in> set rs. \<exists>p. package_prefix r = Inr p"
    using assms by (induction rs arbitrary: roots) (auto simp: bind_Inr)
  have "map_of (map (\<lambda>r. (rp_id r, ?g r)) xs) i = map_option ?g (map_of (map (\<lambda>r. (rp_id r, r)) xs) i)" for xs
    by (induction xs) auto
  then show "map_of (rev roots) i = map_option ?g (map_of (rev (map (\<lambda>r. (rp_id r, r)) rs)) i)"
    by (simp add: roots rev_map)
  show "\<forall>r \<in> set rs. \<exists>p. package_prefix r = Inr p" by (rule all)
qed

lemma by_id_in: "by_id c i = Some r \<Longrightarrow> r \<in> set (cf_repos c) \<and> rp_id r = i"
  by (auto simp: by_id_def dest!: map_of_SomeD)

text \<open>The catalog rows whose file is served at a URL, in any spelling.\<close>

definition served_at :: "config \<Rightarrow> str \<Rightarrow> repo_package \<Rightarrow> bool" where
  "served_at c u p \<longleftrightarrow> (\<exists>r v. by_id c (pk_repo p) = Some r \<and> package_path r (pk_file p) = Inr v \<and> lower v = lower u)"

lemma gathered_owners:
  assumes "traverse (\<lambda>r. bind (package_prefix r) (\<lambda>p. Inr (rp_id r, p @ ''/''))) (cf_repos c) = Inr roots"
    and "map_of hashes (lower u) = Some Unseen"
    and "map_of (gather_hashes roots (iter_file_hashes d) hashes) (lower u) = Some (Same h)"
  shows "(\<exists>p \<in> set (repo_packages d). served_at c u p) \<and> (\<forall>p \<in> set (repo_packages d). served_at c u p \<longrightarrow> pk_hash p = Some h)"
proof -
  define owns where "owns = (\<lambda>(i, f, h :: str option). \<exists>p. map_of (rev roots) i = Some p \<and> lower (p @ f) = lower u)"
  have at: "owns (pk_repo p, pk_file p, pk_hash p) \<longleftrightarrow> served_at c u p" for p
    unfolding owns_def prod.case traverse_ids(1) [OF assms(1)] served_at_def
    using traverse_ids(2) [OF assms(1)] by_id_in by (fastforce simp: by_id_def [symmetric] package_path_def)
  define hs where "hs = map (\<lambda>(i, f, h). h) (filter owns (iter_file_hashes d))"
  have hs: "hs = map pk_hash (filter (served_at c u) (repo_packages d))"
    by (simp add: hs_def iter_file_hashes_def filter_map comp_def at)
  have "foldl note_hash Unseen hs = Same h"
    using assms(3) unfolding gather_hashes_at hs_def owns_def assms(2) by simp
  moreover from this have "hs \<noteq> []" by (cases hs) simp_all
  ultimately have "\<forall>x \<in> set hs. x = Some h" using note_hash_same by blast
  then show ?thesis using \<open>hs \<noteq> []\<close> unfolding hs by (auto simp: filter_empty_conv)
qed

text \<open>C21: an accepted redirect never changes what a URL serves: every catalog row behind the source and every
  one behind the target, in whatever repository and spelling, has the same known hash, and there is a
  row behind both.\<close>

theorem accepted_redirect_same_content:
  assumes "accepted_pairs c d rows = Inr pairs" "(s, t) \<in> set pairs"
  shows "\<exists>h. \<forall>u \<in> {s, t}. (\<exists>p \<in> set (repo_packages d). served_at c u p) \<and>
    (\<forall>p \<in> set (repo_packages d). served_at c u p \<longrightarrow> pk_hash p = Some h)"
proof -
  define start where "start ps = dict_of (concat (map (\<lambda>(s, t). [(lower s, Unseen), (lower t, Unseen)]) ps))" for ps :: "(str \<times> str) list"
  have "ng_enable_dedup (cf_nginx c)" using assms by (auto simp: accepted_pairs_def split: if_splits)
  then obtain ps where ps: "resolve_dedup_pairs c rows = Inr ps" using assms(1) by (auto simp: accepted_pairs_def bind_Inr)
  have "start ps \<noteq> []" using assms ps \<open>ng_enable_dedup (cf_nginx c)\<close>
    by (auto simp: accepted_pairs_def start_def [symmetric] Let_def)
  then obtain roots where roots: "traverse (\<lambda>r. bind (package_prefix r) (\<lambda>p. Inr (rp_id r, p @ ''/''))) (cf_repos c) = Inr roots"
    and pairs: "pairs = filter (\<lambda>(s, t). (case map_of (gather_hashes roots (iter_file_hashes d) (start ps)) (lower s) of
        Some (Same h) \<Rightarrow> map_of (gather_hashes roots (iter_file_hashes d) (start ps)) (lower t) = Some (Same h) | _ \<Rightarrow> False)) ps"
    using assms(1) ps \<open>ng_enable_dedup (cf_nginx c)\<close> by (auto simp: accepted_pairs_def start_def [symmetric] Let_def bind_Inr)
  then obtain h where h: "map_of (gather_hashes roots (iter_file_hashes d) (start ps)) (lower s) = Some (Same h)"
      "map_of (gather_hashes roots (iter_file_hashes d) (start ps)) (lower t) = Some (Same h)" and st: "(s, t) \<in> set ps"
    using assms(2) by (auto split: option.splits evidence.splits)
  have "map_of (start ps) k = Some Unseen" if "k \<in> {lower s, lower t}" for k
  proof -
    have "k \<in> fst ` set (start ps)" using st that unfolding start_def keys_dict_of by force
    then obtain e where "(k, e) \<in> set (start ps)" by auto
    then have e: "map_of (start ps) k = Some e" by (simp add: start_def)
    then show ?thesis using dict_of_in unfolding start_def by fastforce
  qed
  then show ?thesis using gathered_owners [OF roots _ h(1)] gathered_owners [OF roots _ h(2)] by (intro exI [of _ h]) simp
qed

section \<open>A shared package\<close>

definition sample_shared :: config where
  "sample_shared = sample_site\<lparr>cf_nginx := sample_nginx\<lparr>ng_enabled := True, ng_enable_dedup := True, ng_enable_purge := True, ng_enable_probe := True\<rparr>\<rparr>"

definition sample_copies :: db where
  "sample_copies = empty_db\<lparr>repo_packages :=
     [\<lparr>pk_repo = ''alpine'', pk_key = ''p-1'', pk_name = Some ''p'', pk_file = ''p.apk'', pk_hash = Some ''h''\<rparr>,
      \<lparr>pk_repo = ''core'', pk_key = ''p-1'', pk_name = Some ''p'', pk_file = ''p.zst'', pk_hash = Some ''h''\<rparr>]\<rparr>"

definition sample_rows :: "dup_row list" where
  "sample_rows = [(''core'', ''alpine'', ''p.zst'', ''p.apk'')]"

definition sample_pairs :: "(str \<times> str) list" where
  "sample_pairs = [(''/arch/core/os/x86_64/p.zst'', ''/arch/core/x86_64/p.apk'')]"

lemma sample_resolved: "resolve_dedup_pairs sample_shared sample_rows = Inr sample_pairs"
  by code_simp

lemma sample_accepted: "accepted_pairs sample_shared sample_copies sample_rows = Inr sample_pairs"
  by code_simp


definition sample_shared_builder :: key_builder where
  "sample_shared_builder = sample_builder\<lparr>kb_dedup := True\<rparr>"

lemma sample_shared_keys: "dedup_keys sample_shared sample_rows sample_shared_builder (Some sample_pairs) =
    Inr [(''/arch/core/os/x86_64/p.zst'', ''httpmirror.org/arch/core/x86_64/p.apk'')]"
  by code_simp

lemma dedup_key_at_chain_end_witness:
  "\<exists>u. redirects_to (dict_of (map (\<lambda>(s, t). (lower s, t)) sample_pairs)) ''/arch/core/x86_64/p.apk'' u \<and>
     map_of (dict_of (map (\<lambda>(s, t). (lower s, t)) sample_pairs)) (lower u) = None"
proof -
  have "map_of (dict_of (map (\<lambda>(s, t). (lower s, t)) sample_pairs)) ''/arch/core/os/x86_64/p.zst'' = Some ''/arch/core/x86_64/p.apk''"
    by code_simp
  then show ?thesis using dedup_key_at_chain_end [OF sample_shared_keys, of "''/arch/core/os/x86_64/p.zst''" "''httpmirror.org/arch/core/x86_64/p.apk''"]
    by auto
qed

lemma accepted_redirect_same_content_witness:
  "\<exists>h. \<forall>p \<in> set (repo_packages sample_copies). served_at sample_shared ''/arch/core/x86_64/p.apk'' p \<longrightarrow> pk_hash p = Some h"
  using accepted_redirect_same_content [OF sample_accepted, of "''/arch/core/os/x86_64/p.zst''" "''/arch/core/x86_64/p.apk''"]
  by (auto simp: sample_pairs_def)

end
