(* ===== verification/Dedup_Cleanup_Props.thy ===== *)
theory Dedup_Cleanup_Props
  imports Dedup_Cleanup Dedup_Props
begin

text \<open>
  What a cleanup plan may contain, which keys a bounded window keeps, and what has been observed of every
  copy that is removed.
\<close>

section \<open>Judging the possible keys\<close>

definition canon :: "verdict \<Rightarrow> str \<Rightarrow> str option" where
  "canon v k = map_option it_canonical (map_of (vd_possible v) k)"

text \<open>What judging one row leaves of the verdict so far.\<close>

definition verdict_le :: "verdict \<Rightarrow> verdict \<Rightarrow> bool" where
  "verdict_le v v' \<longleftrightarrow> set (vd_unsafe v) \<subseteq> set (vd_unsafe v') \<and> set (vd_active v) \<subseteq> set (vd_active v') \<and>
     set (vd_conflicts v) \<subseteq> set (vd_conflicts v') \<and> (\<forall>k. canon v' k = canon v k)"

lemma verdict_le_refl: "verdict_le v v"
  by (simp add: verdict_le_def)

lemma verdict_le_trans: "verdict_le u v \<Longrightarrow> verdict_le v w \<Longrightarrow> verdict_le u w"
  unfolding verdict_le_def by (metis subset_trans)

lemma attribute_key_le:
  assumes "map_of (vd_possible v) key \<noteq> None"
  shows "verdict_le v (attribute_key e v key)"
    and "key \<noteq> ce_target e \<Longrightarrow> canon v key \<noteq> Some (ce_target e) \<Longrightarrow> key \<in> set (vd_conflicts (attribute_key e v key))"
  using assms by (auto simp: attribute_key_def Let_def verdict_le_def canon_def update_conv)

lemma canon_dom: "canon v k = None \<longleftrightarrow> map_of (vd_possible v) k = None"
  by (simp add: canon_def)

lemma fold_attribute:
  "\<forall>k \<in> set keys. map_of (vd_possible v) k \<noteq> None \<Longrightarrow>
   verdict_le v (foldl (attribute_key e) v keys) \<and>
   (\<forall>k \<in> set keys. k \<noteq> ce_target e \<and> canon v k \<noteq> Some (ce_target e) \<longrightarrow> k \<in> set (vd_conflicts (foldl (attribute_key e) v keys)))"
proof (induction keys arbitrary: v)
  case Nil
  then show ?case by (simp add: verdict_le_refl)
next
  case (Cons k keys)
  let ?v = "attribute_key e v k"
  have le: "verdict_le v ?v" using Cons.prems by (intro attribute_key_le(1)) simp
  then have same: "canon ?v x = canon v x" for x by (simp add: verdict_le_def)
  have "\<forall>x \<in> set keys. map_of (vd_possible ?v) x \<noteq> None" using Cons.prems same canon_dom by (metis list.set_intros(2))
  note IH = Cons.IH [OF this]
  have "k \<in> set (vd_conflicts (foldl (attribute_key e) ?v keys))" if "k \<noteq> ce_target e" "canon v k \<noteq> Some (ce_target e)"
  proof -
    have "k \<in> set (vd_conflicts ?v)" using Cons.prems that by (intro attribute_key_le(2)) simp_all
    then show ?thesis using IH by (auto simp: verdict_le_def)
  qed
  then show ?case using IH le same verdict_le_trans by simp
qed

lemma judge_row_le:
  "verdict_le v (judge_row watched v e) \<and>
   (canon v (ce_target e) \<noteq> None \<longrightarrow> ce_target e \<in> set (vd_active (judge_row watched v e))) \<and>
   (ce_blocked e \<longrightarrow> set (ce_target e # ce_keys e) \<inter> set watched \<subseteq> set (vd_unsafe (judge_row watched v e))) \<and>
   (ce_eligible e \<and> \<not> ce_blocked e \<longrightarrow> (\<forall>k \<in> set (ce_keys e). canon v k \<noteq> None \<and> k \<noteq> ce_target e \<and> canon v k \<noteq> Some (ce_target e) \<longrightarrow>
      k \<in> set (vd_conflicts (judge_row watched v e))))"
proof -
  define v1 where "v1 = (if map_of (vd_possible v) (ce_target e) \<noteq> None then v\<lparr>vd_active := ce_target e # vd_active v\<rparr> else v)"
  define v2 where "v2 = (if ce_blocked e then v1\<lparr>vd_unsafe := filter (\<lambda>k. k \<in> set watched) (ce_target e # ce_keys e) @ vd_unsafe v1\<rparr> else v1)"
  have le2: "verdict_le v v2" by (auto simp: v2_def v1_def verdict_le_def canon_def)
  then have same: "canon v2 k = canon v k" for k by (simp add: verdict_le_def)
  have facts: "canon v (ce_target e) \<noteq> None \<longrightarrow> ce_target e \<in> set (vd_active v2)"
    "ce_blocked e \<longrightarrow> set (ce_target e # ce_keys e) \<inter> set watched \<subseteq> set (vd_unsafe v2)"
    by (auto simp: v2_def v1_def canon_def)
  have result: "judge_row watched v e = (if ce_eligible e \<and> \<not> ce_blocked e
      then foldl (attribute_key e) v2 (filter (\<lambda>k. map_of (vd_possible v2) k \<noteq> None) (ce_keys e)) else v2)"
    by (simp add: judge_row_def Let_def v1_def v2_def)
  show ?thesis
  proof (cases "ce_eligible e \<and> \<not> ce_blocked e")
    case False
    have "judge_row watched v e = v2" unfolding result by (rule if_not_P [OF False])
    then show ?thesis using facts le2 False by blast
  next
    case True
    let ?keys = "filter (\<lambda>k. map_of (vd_possible v2) k \<noteq> None) (ce_keys e)"
    have "\<forall>k \<in> set ?keys. map_of (vd_possible v2) k \<noteq> None" by simp
    note fold = fold_attribute [OF this, of e]
    have eq: "judge_row watched v e = foldl (attribute_key e) v2 ?keys" using True by (simp add: result)
    have "verdict_le v (judge_row watched v e)" unfolding eq using le2 fold verdict_le_trans by blast
    moreover have "canon v (ce_target e) \<noteq> None \<longrightarrow> ce_target e \<in> set (vd_active (judge_row watched v e))"
      unfolding eq using facts(1) fold unfolding verdict_le_def by blast
    moreover have "k \<in> set (vd_conflicts (judge_row watched v e))"
      if "k \<in> set (ce_keys e)" "canon v k \<noteq> None" "k \<noteq> ce_target e" "canon v k \<noteq> Some (ce_target e)" for k
    proof -
      have "map_of (vd_possible v2) k \<noteq> None" using that(2) same [of k] canon_dom by metis
      then have "k \<in> set ?keys" using that(1) by simp
      then show ?thesis unfolding eq using fold that(3,4) same by metis
    qed
    ultimately show ?thesis using True by blast
  qed
qed

lemma judged_all:
  assumes "v = foldl (judge_row watched) v0 evidence"
  shows "verdict_le v0 v \<and> (\<forall>e \<in> set evidence.
    (canon v0 (ce_target e) \<noteq> None \<longrightarrow> ce_target e \<in> set (vd_active v)) \<and>
    (ce_blocked e \<longrightarrow> set (ce_target e # ce_keys e) \<inter> set watched \<subseteq> set (vd_unsafe v)) \<and>
    (ce_eligible e \<and> \<not> ce_blocked e \<longrightarrow> (\<forall>k \<in> set (ce_keys e). canon v0 k \<noteq> None \<and> k \<noteq> ce_target e \<and> canon v0 k \<noteq> Some (ce_target e) \<longrightarrow>
       k \<in> set (vd_conflicts v))))"
  using assms
proof (induction evidence arbitrary: v rule: rev_induct)
  case Nil
  then show ?case by (simp add: verdict_le_refl)
next
  case (snoc e evidence)
  define u where "u = foldl (judge_row watched) v0 evidence"
  have v: "v = judge_row watched u e" using snoc.prems by (simp add: u_def)
  note IH = snoc.IH [OF u_def]
  note last = judge_row_le [of u watched e]
  have same: "canon u k = canon v0 k" for k using IH by (simp add: verdict_le_def)
  have le: "verdict_le u v" using last v by simp
  have subs: "set (vd_unsafe u) \<subseteq> set (vd_unsafe v)" "set (vd_active u) \<subseteq> set (vd_active v)" "set (vd_conflicts u) \<subseteq> set (vd_conflicts v)"
    using le by (simp_all add: verdict_le_def)
  let ?ok = "\<lambda>e. (canon v0 (ce_target e) \<noteq> None \<longrightarrow> ce_target e \<in> set (vd_active v)) \<and>
    (ce_blocked e \<longrightarrow> set (ce_target e # ce_keys e) \<inter> set watched \<subseteq> set (vd_unsafe v)) \<and>
    (ce_eligible e \<and> \<not> ce_blocked e \<longrightarrow> (\<forall>k \<in> set (ce_keys e). canon v0 k \<noteq> None \<and> k \<noteq> ce_target e \<and> canon v0 k \<noteq> Some (ce_target e) \<longrightarrow>
       k \<in> set (vd_conflicts v)))"
  have "?ok e" using last unfolding v [symmetric] same by blast
  moreover have "?ok e'" if "e' \<in> set evidence" for e'
    using IH that subs by (meson subset_iff)
  moreover have "verdict_le v0 v" using IH le verdict_le_trans by blast
  ultimately show ?case by simp
qed

lemma safe_candidates_ok:
  assumes "(key, i) \<in> set (safe_candidates (judged possible evidence))" "e \<in> set evidence"
  shows "ce_target e \<noteq> key"
    and "ce_blocked e \<Longrightarrow> {key, it_canonical i} \<inter> set (ce_target e # ce_keys e) = {}"
    and "ce_eligible e \<Longrightarrow> \<not> ce_blocked e \<Longrightarrow> key \<in> set (ce_keys e) \<Longrightarrow> ce_target e = it_canonical i"
    and "\<exists>j. map_of possible key = Some j \<and> it_canonical j = it_canonical i"
proof -
  let ?watched = "map fst possible @ map (\<lambda>(_, i). it_canonical i) possible"
  let ?start = "\<lparr>vd_unsafe = [], vd_active = [], vd_conflicts = [], vd_attributed = [], vd_possible = possible\<rparr>"
  let ?v = "judged possible evidence"
  have "?v = foldl (judge_row ?watched) ?start evidence" by (simp add: judged_def)
  note all = judged_all [OF this]
  have key: "key \<in> fst ` set (vd_possible ?v)" "i = the (map_of (vd_possible ?v) key)"
      "key \<notin> set (vd_unsafe ?v)" "key \<notin> set (vd_active ?v)" "key \<notin> set (vd_conflicts ?v)" "it_canonical i \<notin> set (vd_unsafe ?v)"
    using assms(1) by (auto simp: safe_candidates_def)
  then obtain x where "map_of (vd_possible ?v) key = Some x" by (metis map_of_eq_None_iff not_None_eq)
  then have "canon ?v key = Some (it_canonical i)" using key(2) by (simp add: canon_def)
  then have c0: "canon ?start key = Some (it_canonical i)" using all by (simp add: verdict_le_def)
  then obtain j where j: "map_of possible key = Some j" "it_canonical j = it_canonical i" by (auto simp: canon_def)
  then show "\<exists>j. map_of possible key = Some j \<and> it_canonical j = it_canonical i" by blast
  have watched: "{key, it_canonical i} \<subseteq> set ?watched" using map_of_SomeD [OF j(1)] j(2) by force
  show "ce_target e \<noteq> key" using all assms(2) key(4) c0 by auto
  show "{key, it_canonical i} \<inter> set (ce_target e # ce_keys e) = {}" if "ce_blocked e"
    using all assms(2) that key(3,6) watched by blast
  show "ce_target e = it_canonical i" if "ce_eligible e" "\<not> ce_blocked e" "key \<in> set (ce_keys e)"
  proof (rule ccontr)
    assume ne: "ce_target e \<noteq> it_canonical i"
    moreover have "key \<noteq> ce_target e" using \<open>ce_target e \<noteq> key\<close> by simp
    ultimately have "key \<in> set (vd_conflicts ?v)" using all assms(2) that c0 by fastforce
    then show False using key(5) by simp
  qed
qed

section \<open>Plans\<close>

lemma lift_config_Inr: "lift_config x = Inr y \<longleftrightarrow> x = Inr y"
  by (cases x) (simp_all add: lift_config_def)

lemma make_plan_judged:
  assumes "make_plan env c reads q = Inr pl"
  shows "\<exists>b pairs redirects first second.
    accepted_pairs c (rd_start reads) (find_duplicate_files (rd_start reads)) = Inr pairs \<and> make_key_builder c = Inr b \<and>
    dedup_keys c (find_duplicate_files (rd_start reads)) b (Some pairs) = Inr redirects \<and>
    evidence_of (pe_digest env) c (rd_first reads) b redirects = Inr first \<and>
    evidence_of (pe_digest env) c (rd_second reads) b redirects = Inr second \<and>
    pl_candidates pl = safe_candidates (judged (fst (select_keys q first)) second) \<and>
    set (get_snapshot_revisions (rd_start reads)) = set (get_snapshot_revisions (rd_stop reads)) \<and>
    pl_config pl = c \<and> pl_revisions pl = get_snapshot_revisions (rd_start reads)"
proof -
  let ?d = "rd_start reads" and ?rows = "find_duplicate_files (rd_start reads)"
  have q: "re_limit q \<noteq> Some 0" using assms by (auto simp: make_plan_def)
  note plan = assms [unfolded make_plan_def Let_def, simplified q if_False]
  obtain pairs where pairs: "accepted_pairs c ?d ?rows = Inr pairs" using plan unfolding bind_Inr lift_config_Inr by blast
  obtain b where b: "make_key_builder c = Inr b" using plan pairs unfolding bind_Inr lift_config_Inr by auto
  note plan2 = plan [unfolded bind_Inr lift_config_Inr pairs b]
  obtain redirects generation first second where steps: "dedup_keys c ?rows b (Some pairs) = Inr redirects"
      "dedup_generation (pe_hash env) c pairs = Inr generation"
      "evidence_of (pe_digest env) c (rd_first reads) b redirects = Inr first"
      "evidence_of (pe_digest env) c (rd_second reads) b redirects = Inr second"
    using plan2 by auto
  obtain possible cursor pc where sel: "select_keys q first = (possible, cursor, pc)" by (cases "select_keys q first") auto
  have "(if set (get_snapshot_revisions ?d) \<noteq> set (get_snapshot_revisions (rd_stop reads)) then Inl Changed_plan
          else Inr \<lparr>pl_config = c, pl_revisions = get_snapshot_revisions ?d, pl_generation = generation,
            pl_candidates = safe_candidates (judged possible second), pl_cursor = cursor,
            pl_priority_cursor = pc, pl_scanned = length first\<rparr>) = Inr pl"
    using plan2 steps sel by simp
  then have "set (get_snapshot_revisions ?d) = set (get_snapshot_revisions (rd_stop reads))"
      "pl_candidates pl = safe_candidates (judged possible second)" "pl_config pl = c" "pl_revisions pl = get_snapshot_revisions ?d"
    by (auto split: if_splits)
  then show ?thesis using pairs b steps sel by fastforce
qed


section \<open>Bounded windows\<close>

lemma take_insort_take: "sorted xs \<Longrightarrow> take n (insort r xs) = take n (insort r (take n xs))"
proof (induction xs arbitrary: n)
  case (Cons x xs)
  then show ?case by (cases n) (auto simp: take_Cons')
qed simp

lemma take_length_Cons: "take (length xs) (x # xs) = butlast (x # xs)"
  by (simp add: butlast_conv_take)

lemma take_insort_full:
  "sorted xs \<Longrightarrow> xs \<noteq> [] \<Longrightarrow> r \<notin> set xs \<Longrightarrow> take (length xs) (insort r xs) = (if last xs \<le> r then xs else insort r (butlast xs))"
proof (induction xs)
  case (Cons x xs)
  show ?case
  proof (cases "xs = []")
    case True
    then show ?thesis using Cons.prems(3) by auto
  next
    case False
    have le: "x \<le> last xs" using Cons.prems(1) False by simp
    have IH: "take (length xs) (insort r xs) = (if last xs \<le> r then xs else insort r (butlast xs))"
      using Cons.IH Cons.prems False by simp
    show ?thesis
    proof (cases "r \<le> x")
      case True
      then have "\<not> last xs \<le> r" using le Cons.prems(3) by auto
      moreover have "take (length xs) (x # xs) = x # butlast xs" using False by (simp add: take_length_Cons)
      moreover have "insort r (x # butlast xs) = r # x # butlast xs" using True by simp
      ultimately show ?thesis using True False by simp
    next
      case nle: False
      then show ?thesis using IH False by simp
    qed
  qed
qed simp

definition window_rank :: "str \<Rightarrow> str \<Rightarrow> bool \<times> str" where
  "window_rank after key = (key \<le> after, key)"

definition smallest :: "nat \<Rightarrow> 'a::linorder set \<Rightarrow> 'a list" where
  "smallest n S = take n (sorted_list_of_set S)"

lemma smallest_insert:
  assumes "finite S" "r \<notin> S" "0 < n"
  shows "smallest n (insert r S) =
    (if length (smallest n S) < n then insort r (smallest n S)
     else if last (smallest n S) \<le> r then smallest n S else insort r (butlast (smallest n S)))"
proof -
  let ?xs = "sorted_list_of_set S"
  have ins: "smallest n (insert r S) = take n (insort r (take n ?xs))"
    using assms by (simp add: smallest_def take_insort_take [symmetric])
  show ?thesis
  proof (cases "length (smallest n S) < n")
    case True
    then have "length ?xs < n" by (simp add: smallest_def min_def split: if_splits)
    then have "take n ?xs = ?xs" "length (insort r ?xs) \<le> n" by simp_all
    then show ?thesis unfolding ins using True by (simp add: smallest_def)
  next
    case False
    then have len: "length (take n ?xs) = n" by (simp add: smallest_def)
    have "take n ?xs \<noteq> []" using len assms(3) by (metis length_0_conv less_numeral_extra(3))
    moreover have "r \<notin> set (take n ?xs)" using assms(1,2) by (auto dest: in_set_takeD)
    ultimately have "take (length (take n ?xs)) (insort r (take n ?xs)) =
        (if last (take n ?xs) \<le> r then take n ?xs else insort r (butlast (take n ?xs)))"
      by (intro take_insort_full) (simp_all add: sorted_wrt_take)
    then show ?thesis unfolding ins len using len by (simp add: smallest_def)
  qed
qed

lemma smallest_same: "r \<in> S \<Longrightarrow> smallest n (insert r S) = smallest n S"
  by (simp add: insert_absorb)

lemma smallest_not_in:
  assumes "finite S" "r \<in> S" "r \<notin> set (smallest n S)" "0 < n"
  shows "length (smallest n S) = n" "last (smallest n S) \<le> r"
proof -
  let ?xs = "sorted_list_of_set S"
  have r: "r \<in> set (drop n ?xs)" using assms(1-3) unfolding smallest_def
    by (metis Un_iff append_take_drop_id set_append set_sorted_list_of_set)
  then have "n < length ?xs" by (cases "n < length ?xs") simp_all
  then show len: "length (smallest n S) = n" by (simp add: smallest_def)
  then have "last (smallest n S) \<in> set (take n ?xs)" using assms(4) by (metis last_in_set length_0_conv less_numeral_extra(3) smallest_def)
  moreover have "sorted (take n ?xs @ drop n ?xs)" by simp
  ultimately show "last (smallest n S) \<le> r" using r unfolding sorted_append by blast
qed

text \<open>A window holds exactly the first keys after its cursor.\<close>

definition window_ok :: "nat \<Rightarrow> str \<Rightarrow> str set \<Rightarrow> keys_window \<Rightarrow> bool" where
  "window_ok n after keys w \<longleftrightarrow> wi_limit w = Some n \<and> wi_after w = after \<and>
     wi_ranks w = smallest n (window_rank after ` keys) \<and>
     window_rank after ` set (map fst (wi_rows w)) = set (wi_ranks w) \<and> distinct (map fst (wi_rows w))"

lemma window_rank_inj: "inj_on (window_rank after) S"
  by (auto simp: inj_on_def window_rank_def)

lemma window_rank_mem: "window_rank after k \<in> window_rank after ` S \<longleftrightarrow> k \<in> S"
  by (auto simp: window_rank_def)

lemma smallest_subset: "finite S \<Longrightarrow> set (smallest n S) \<subseteq> S"
  unfolding smallest_def using set_take_subset by fastforce

lemma smallest_distinct: "distinct (smallest n S)"
  by (simp add: smallest_def)

lemma set_butlast_distinct: "distinct xs \<Longrightarrow> xs \<noteq> [] \<Longrightarrow> set (butlast xs) = set xs - {last xs}"
  by (cases xs rule: rev_exhaust) auto

lemma keys_update: "set (map fst (AList.update k v al)) = insert k (set (map fst al))"
  by (simp add: dom_update)

lemma keys_delete: "set (map fst (AList.delete k al)) = set (map fst al) - {k}"
  by (simp add: delete_keys)

lemma window_lengths:
  assumes "window_ok n after keys w"
  shows "length (wi_rows w) = length (wi_ranks w)"
proof -
  have "length (wi_rows w) = card (set (map fst (wi_rows w)))"
    using assms distinct_card [of "map fst (wi_rows w)"] by (simp add: window_ok_def)
  also have "\<dots> = card (window_rank after ` set (map fst (wi_rows w)))" by (simp add: card_image window_rank_inj)
  also have "\<dots> = card (set (wi_ranks w))" using assms by (simp add: window_ok_def)
  also have "\<dots> = length (wi_ranks w)" by (rule distinct_card) (use assms smallest_distinct in \<open>simp add: window_ok_def\<close>)
  finally show ?thesis .
qed

lemma window_add_ok:
  assumes ok: "window_ok n after keys w" and "0 < n" "finite keys"
  shows "window_ok n after (insert key keys) (window_add key row w)"
proof -
  let ?S = "window_rank after ` keys" and ?r = "window_rank after key"
  have ranks: "wi_ranks w = smallest n ?S" and lim: "wi_limit w = Some n" and aft: "wi_after w = after"
    and dom: "window_rank after ` set (map fst (wi_rows w)) = set (wi_ranks w)" and dis: "distinct (map fst (wi_rows w))"
    using ok by (auto simp: window_ok_def)
  note len = window_lengths [OF ok]
  have fin: "finite ?S" using assms(3) by simp
  have S: "window_rank after ` insert key keys = insert ?r ?S" by simp
  have same: ?thesis if "window_add key row w = w" "smallest n (insert ?r ?S) = wi_ranks w"
    unfolding window_ok_def S that using lim aft dom dis by simp
  have have_key: "map_of (wi_rows w) key \<noteq> None \<longleftrightarrow> ?r \<in> set (wi_ranks w)"
    unfolding dom [symmetric] window_rank_mem by (simp add: map_of_eq_None_iff del: not_None_eq)
  have known: "smallest n (insert ?r ?S) = wi_ranks w" if "?r \<in> ?S" using that by (simp add: insert_absorb ranks)
  have inS: "x \<in> ?S" if "x \<in> set (wi_ranks w)" for x using smallest_subset [OF fin, of n] that unfolding ranks by (rule subsetD)
  show ?thesis
  proof (cases "?r \<in> set (wi_ranks w)")
    case True
    then have "map_of (wi_rows w) key \<noteq> None" using have_key by blast
    then show ?thesis using same known inS [OF True] by (simp add: window_add_def)
  next
    case nr: False
    then have none: "map_of (wi_rows w) key = None" using have_key by blast
    have add: "window_add key row w =
        (if length (wi_ranks w) \<ge> n then
             if last (wi_ranks w) \<le> ?r then w
             else w\<lparr>wi_ranks := insort ?r (butlast (wi_ranks w)),
                    wi_rows := AList.update key row (AList.delete (snd (last (wi_ranks w))) (wi_rows w))\<rparr>
           else w\<lparr>wi_ranks := insort ?r (wi_ranks w), wi_rows := AList.update key row (wi_rows w)\<rparr>)"
      using none assms(2) by (simp add: window_add_def lim aft len window_rank_def Let_def)
    show ?thesis
    proof (cases "?r \<in> ?S")
      case True
      have "length (smallest n ?S) = n" "last (smallest n ?S) \<le> ?r"
        using smallest_not_in [OF fin True _ assms(2)] nr unfolding ranks by blast+
      then have "window_add key row w = w" using add ranks by simp
      then show ?thesis using same known [OF True] by blast
    next
      case False
      note ins = smallest_insert [OF fin False assms(2), folded ranks]
      consider "length (wi_ranks w) < n" | "n \<le> length (wi_ranks w)" "last (wi_ranks w) \<le> ?r"
        | "n \<le> length (wi_ranks w)" "\<not> last (wi_ranks w) \<le> ?r" by linarith
      then show ?thesis
      proof cases
        case 1
        then have ranks2: "smallest n (insert ?r ?S) = insort ?r (wi_ranks w)" using ins by simp
        have "window_add key row w = w\<lparr>wi_ranks := insort ?r (wi_ranks w), wi_rows := AList.update key row (wi_rows w)\<rparr>"
          using add 1 by simp
        then show ?thesis unfolding window_ok_def S ranks2
          using lim aft dis dom by (simp add: set_insort_key keys_update distinct_update del: set_map)
      next
        case 2
        then show ?thesis using same add ins by simp
      next
        case 3
        let ?l = "last (wi_ranks w)"
        have ne: "wi_ranks w \<noteq> []" using 3(1) assms(2) by auto
        then obtain k where k: "?l = window_rank after k" using inS [OF last_in_set] by blast
        then have sl: "snd ?l = k" by (simp add: window_rank_def)
        have ranks2: "smallest n (insert ?r ?S) = insort ?r (butlast (wi_ranks w))" using ins 3 by simp
        have eq: "window_add key row w = w\<lparr>wi_ranks := insort ?r (butlast (wi_ranks w)),
            wi_rows := AList.update key row (AList.delete k (wi_rows w))\<rparr>" using add 3 by (simp add: sl)
        have "set (butlast (wi_ranks w)) = set (wi_ranks w) - {?l}"
          using set_butlast_distinct ne smallest_distinct unfolding ranks by blast
        also have "\<dots> = window_rank after ` (set (map fst (wi_rows w)) - {k})"
          unfolding dom [symmetric] k by (subst inj_on_image_set_diff [OF window_rank_inj [of after UNIV]]) auto
        finally have "window_rank after ` set (map fst (AList.update key row (AList.delete k (wi_rows w)))) =
            set (insort ?r (butlast (wi_ranks w)))"
          unfolding keys_update keys_delete by (simp add: set_insort_key)
        then show ?thesis unfolding window_ok_def S ranks2 eq using lim aft dis by (simp add: distinct_update distinct_delete)
      qed
    qed
  qed
qed

lemma new_window_ok: "window_ok n after {} (new_window (Some n) after)"
  by (simp add: window_ok_def new_window_def smallest_def)

lemma window_all_ok:
  assumes "0 < n"
  shows "window_ok n after (set (map fst kvs)) (foldl (\<lambda>w (key, row). window_add key row w) (new_window (Some n) after) kvs)"
proof (induction kvs rule: rev_induct)
  case Nil
  then show ?case by (simp add: new_window_ok)
next
  case (snoc kv kvs)
  obtain key row where kv: "kv = (key, row)" by (cases kv)
  have "set (map fst (kvs @ [kv])) = insert key (set (map fst kvs))" using kv by simp
  then show ?case using window_add_ok [OF snoc.IH assms] kv by simp
qed

text \<open>A bounded window keeps exactly what sorting everything would: the first n distinct keys in the
  cyclic order that starts right after the cursor, with a row for each of them and no other, whatever the
  order and the repetitions in which the keys are added.\<close>

theorem window_first_keys:
  assumes "0 < n" "w = foldl (\<lambda>w (key, row). window_add key row w) (new_window (Some n) after) kvs"
  shows "wi_ranks w = take n (sorted_list_of_set ((\<lambda>key. (key \<le> after, key)) ` set (map fst kvs))) \<and>
    distinct (map fst (wi_rows w)) \<and> set (map fst (wi_rows w)) = set (map snd (wi_ranks w)) \<and>
    window_cursor w = (if kvs = [] then after else snd (last (wi_ranks w)))"
proof -
  have ok: "window_ok n after (set (map fst kvs)) w" using window_all_ok [OF assms(1)] assms(2) by simp
  have rank: "window_rank after = (\<lambda>key. (key \<le> after, key))" by (simp add: fun_eq_iff window_rank_def)
  have ranks: "wi_ranks w = take n (sorted_list_of_set ((\<lambda>key. (key \<le> after, key)) ` set (map fst kvs)))"
    using ok by (simp add: window_ok_def smallest_def rank)
  have "snd ` window_rank after ` set (map fst (wi_rows w)) = snd ` set (wi_ranks w)" using ok by (simp only: window_ok_def)
  then have "distinct (map fst (wi_rows w)) \<and> set (map fst (wi_rows w)) = set (map snd (wi_ranks w))"
    using ok by (simp add: window_ok_def window_rank_def image_image)
  moreover have "wi_ranks w = [] \<longleftrightarrow> kvs = []" unfolding ranks using assms(1) by simp
  then have "window_cursor w = (if kvs = [] then after else snd (last (wi_ranks w)))"
    using ok by (simp add: window_cursor_def window_ok_def)
  ultimately show ?thesis using ranks by blast
qed

section \<open>Removing copies\<close>

lemma note_purge_purged:
  assumes "map_of (rm_results (note_purge key n purge r)) k = Some ''purged''"
  shows "map_of (rm_results r) k = Some ''purged'' \<or> (k = key \<and> purge = Some ''purged'')"
proof (cases "k = key")
  case True
  then show ?thesis using assms by (auto simp: note_purge_def set_result_def Let_def update_conv split: option.splits if_splits)
next
  case False
  then show ?thesis using assms by (auto simp: note_purge_def set_result_def Let_def update_conv split: option.splits if_splits)
qed

lemma count_reason_results: "rm_results (count_reason key reason r) = rm_results r"
  by (simp add: count_reason_def)

definition removable :: "plan \<Rightarrow> str \<Rightarrow> observation \<Rightarrow> bool" where
  "removable plan key ob \<longleftrightarrow> ob_elapsed ob < 30 \<and> map_of (pl_candidates plan) key \<noteq> None \<and>
     check_current plan (ob_config1 ob) (ob_revisions1 ob) = None \<and> check_current plan (ob_config2 ob) (ob_revisions2 ob) = None \<and>
     (\<exists>n reason. inspect_pair plan ob = Inspected True n reason)"

lemma remove_one_purged:
  assumes "map_of (rm_results (remove_one http plan r key ob)) k = Some ''purged''"
  shows "map_of (rm_results r) k = Some ''purged'' \<or>
    (k = key \<and> removable plan key ob \<and> purge_raw http (cf_base_url (pl_config plan)) key (Some (pl_generation plan)) = Some ''purged'')"
proof (cases "ob_elapsed ob \<ge> 30 \<or> map_of (pl_candidates plan) key = None \<or> check_current plan (ob_config1 ob) (ob_revisions1 ob) \<noteq> None")
  case True
  then show ?thesis using assms by (auto simp: remove_one_def set_result_def update_conv split: if_splits)
next
  case fresh: False
  show ?thesis
  proof (cases "inspect_pair plan ob")
    case (Inspected ready n reason)
    let ?r1 = "count_reason key reason r"
    show ?thesis
    proof (cases "check_current plan (ob_config2 ob) (ob_revisions2 ob) = None \<and> ready")
      case True
      let ?purge = "purge_raw http (cf_base_url (pl_config plan)) key (Some (pl_generation plan))"
      have "remove_one http plan r key ob = note_purge key n ?purge ?r1" using fresh Inspected True by (auto simp: remove_one_def Let_def)
      then have "map_of (rm_results ?r1) k = Some ''purged'' \<or> (k = key \<and> ?purge = Some ''purged'')"
        using assms note_purge_purged by metis
      moreover have "removable plan key ob" using fresh Inspected True by (auto simp: removable_def)
      ultimately show ?thesis by (auto simp: count_reason_results)
    next
      case False
      then have "rm_results (remove_one http plan r key ob) \<in> {rm_results r, AList.update key ''skipped'' (rm_results r)}"
        using fresh Inspected by (auto simp: remove_one_def Let_def set_result_def count_reason_results split: option.splits)
      then show ?thesis using assms by (auto simp: update_conv split: if_splits)
    qed
  qed (use fresh assms in \<open>auto simp: remove_one_def set_result_def update_conv split: if_splits\<close>)
qed

lemma remove_loop_purged:
  "map_of (rm_results (remove_loop http plan r keys)) k = Some ''purged'' \<Longrightarrow>
   map_of (rm_results r) k = Some ''purged'' \<or>
   (\<exists>ob. (k, ob) \<in> set keys \<and> removable plan k ob \<and> purge_raw http (cf_base_url (pl_config plan)) k (Some (pl_generation plan)) = Some ''purged'')"
proof (induction http plan r keys rule: remove_loop.induct)
  case (2 http plan r key ob keys)
  let ?r1 = "remove_one http plan r key ob"
  have "map_of (rm_results ?r1) k = Some ''purged'' \<or>
      (\<exists>ob. (k, ob) \<in> set keys \<and> removable plan k ob \<and> purge_raw http (cf_base_url (pl_config plan)) k (Some (pl_generation plan)) = Some ''purged'')"
    using 2 by (cases "rm_stopped ?r1 = None") (auto simp: Let_def)
  then show ?case using remove_one_purged [of http plan r key ob k] by auto
qed simp

lemma purge_raw_purged:
  "purge_raw http base key (Some g) = Some ''purged'' \<longleftrightarrow> generation_ok g \<and> http (purge_raw_url base key (Some g)) = Status 200"
  by (auto simp: purge_raw_def purge_outcome_def split: purge_answer.splits)

text \<open>C19: a copy is purged only on fresh evidence: within the time budget, with the configuration and the
  catalog revisions of the plan seen before and after two probes, by which the copy and its canonical copy
  are both in the cache of an nginx that runs the plan's generation; and only when nginx confirms it.\<close>

theorem removed_on_fresh_evidence:
  assumes "map_of (rm_results (remove_copies http plan watched)) key = Some ''purged''"
  shows "\<exists>ob source canonical. (key, ob) \<in> set watched \<and> ob_elapsed ob < 30 \<and> map_of (pl_candidates plan) key \<noteq> None \<and>
    ob_config1 ob = Some (pl_config plan) \<and> set (ob_revisions1 ob) = set (pl_revisions plan) \<and>
    ob_config2 ob = Some (pl_config plan) \<and> set (ob_revisions2 ob) = set (pl_revisions plan) \<and>
    ob_source ob = Inr source \<and> pb_exists source \<and> pb_generation source = Some (pl_generation plan) \<and>
    ob_canonical ob = Inr canonical \<and> pb_exists canonical \<and> pb_generation canonical = Some (pl_generation plan) \<and>
    http (purge_raw_url (cf_base_url (pl_config plan)) key (Some (pl_generation plan))) = Status 200"
proof -
  have "map_of (rm_results no_removal) key \<noteq> Some ''purged''" by (simp add: no_removal_def)
  then obtain ob where ob: "(key, ob) \<in> set watched" "removable plan key ob"
      "purge_raw http (cf_base_url (pl_config plan)) key (Some (pl_generation plan)) = Some ''purged''"
    using assms remove_loop_purged [of http plan no_removal watched key] unfolding remove_copies_def by blast
  have current: "c = Some (pl_config plan) \<and> set revisions = set (pl_revisions plan)" if "check_current plan c revisions = None" for c revisions
    using that by (auto simp: check_current_def split: option.splits if_splits)
  obtain n reason where "inspect_pair plan ob = Inspected True n reason" using ob(2) unfolding removable_def by blast
  then obtain source canonical where "ob_source ob = Inr source" "pb_exists source" "pb_generation source = Some (pl_generation plan)"
      "ob_canonical ob = Inr canonical" "pb_exists canonical" "pb_generation canonical = Some (pl_generation plan)"
    by (auto simp: inspect_pair_def split: sum.splits if_splits)
  moreover have "ob_elapsed ob < 30" "map_of (pl_candidates plan) key \<noteq> None"
    using ob(2) by (auto simp: removable_def)
  moreover have "ob_config1 ob = Some (pl_config plan) \<and> set (ob_revisions1 ob) = set (pl_revisions plan)"
      "ob_config2 ob = Some (pl_config plan) \<and> set (ob_revisions2 ob) = set (pl_revisions plan)"
    using ob(2) current unfolding removable_def by blast+
  ultimately show ?thesis using ob(1,3) purge_raw_purged by blast
qed

section \<open>The hourly pass\<close>

lemma set_result_dom: "map_of (rm_results (set_result key v r)) k = None \<longleftrightarrow> map_of (rm_results r) k = None \<and> k \<noteq> key"
  by (simp add: set_result_def update_conv)

lemma note_purge_dom: "map_of (rm_results (note_purge key n purge r)) k = None \<longleftrightarrow> map_of (rm_results r) k = None \<and> k \<noteq> key"
  by (auto simp: note_purge_def set_result_def Let_def update_conv split: option.splits)

lemma remove_one_dom:
  "map_of (rm_results (remove_one http plan r key ob)) k = None \<longleftrightarrow>
     map_of (rm_results r) k = None \<and> (k \<noteq> key \<or> map_of (rm_results (remove_one http plan r key ob)) key = None)"
  by (auto simp: remove_one_def set_result_dom note_purge_dom count_reason_results Let_def split: option.splits inspection.splits)

lemma remove_one_done:
  assumes "rm_stopped (remove_one http plan r key ob) = None"
  shows "map_of (rm_results (remove_one http plan r key ob)) key \<noteq> None"
  using assms by (auto simp: remove_one_def set_result_dom note_purge_dom count_reason_results Let_def split: option.splits inspection.splits if_splits
    simp del: not_None_eq)

lemma remove_loop_done:
  "rm_stopped (remove_loop http plan r keys) = None \<Longrightarrow> key \<in> set (map fst keys) \<or> map_of (rm_results r) key \<noteq> None \<Longrightarrow>
   map_of (rm_results (remove_loop http plan r keys)) key \<noteq> None"
proof (induction http plan r keys rule: remove_loop.induct)
  case (2 http plan r key1 ob keys)
  let ?r1 = "remove_one http plan r key1 ob"
  have run: "rm_stopped ?r1 = None" using 2(2) by (auto simp: Let_def split: if_splits)
  then have "map_of (rm_results ?r1) key1 \<noteq> None" by (rule remove_one_done)
  then have "key \<in> set (map fst keys) \<or> map_of (rm_results ?r1) key \<noteq> None" using 2(3) remove_one_dom [of http plan r key1 ob key] by auto
  moreover have "rm_stopped (remove_loop http plan ?r1 keys) = None" using 2(2) run by (simp add: Let_def)
  ultimately have "map_of (rm_results (remove_loop http plan ?r1 keys)) key \<noteq> None" using 2(1) run by blast
  then show ?case using run by (simp add: Let_def)
qed simp

definition known_keys :: "(str \<times> int) list \<Rightarrow> bool" where
  "known_keys recent \<longleftrightarrow> length recent \<le> 4096 \<and> distinct (map fst recent)"

lemma distinct_drop_keys: "distinct (map fst xs) \<Longrightarrow> distinct (map fst (drop n xs))"
  by (simp flip: drop_map)

lemma remember_absent_known: "distinct (map fst recent) \<Longrightarrow> known_keys (remember_absent now absent recent)"
proof -
  assume "distinct (map fst recent)"
  then have "distinct (map fst (foldl (\<lambda>known key. AList.delete key known @ [(key, now + 6 * 3600)]) recent absent))"
  proof (induction absent arbitrary: recent)
    case (Cons key absent)
    then have "distinct (map fst (AList.delete key recent @ [(key, now + 6 * 3600)]))"
      by (auto simp: delete_keys distinct_removeAll)
    then show ?case using Cons.IH by simp
  qed simp
  then show ?thesis by (auto simp: known_keys_def remember_absent_def Let_def intro: distinct_drop_keys)
qed

lemma known_keys_filter: "known_keys recent \<Longrightarrow> known_keys (filter p recent)"
  by (auto simp: known_keys_def intro: le_trans [OF length_filter_le] distinct_map_filter)

definition pending_keys :: "cleaner \<Rightarrow> str list" where
  "pending_keys s = (case dc_pending s of None \<Rightarrow> [] | Some (_, _, keys) \<Rightarrow> keys)"

definition next_cursors :: "cleaner \<Rightarrow> plan \<Rightarrow> str \<times> str" where
  "next_cursors s plan = (case dc_pending s of None \<Rightarrow> (pl_cursor plan, pl_priority_cursor plan) | Some (x, y, _) \<Rightarrow> (x, y))"

definition without_outcome :: "plan \<Rightarrow> removal \<Rightarrow> str list" where
  "without_outcome plan r = filter (\<lambda>key. map_of (rm_results r) key = None) (map fst (pl_candidates plan))"

lemma after_pass_eq:
  "after_pass plan r now s =
     (if without_outcome plan r \<noteq> [] \<and> rm_stopped r \<noteq> None
      then s\<lparr>dc_pending := Some (fst (next_cursors s plan), snd (next_cursors s plan), without_outcome plan r),
             dc_recent := remember_absent now (rm_absent r) (dc_recent s)\<rparr>
      else s\<lparr>dc_pending := None, dc_cursor := fst (next_cursors s plan), dc_priority_cursor := snd (next_cursors s plan),
             dc_recent := remember_absent now (rm_absent r) (dc_recent s)\<rparr>)"
  by (auto simp: after_pass_def next_cursors_def without_outcome_def Let_def split: option.splits)

lemma removed_all:
  assumes "r = remove_copies http plan (map (\<lambda>(key, _). (key, see key)) (pl_candidates plan))" "rm_stopped r = None"
  shows "without_outcome plan r = []"
proof -
  have "map_of (rm_results r) key \<noteq> None" if "key \<in> set (map fst (pl_candidates plan))" for key
    using remove_loop_done [of http plan no_removal "map (\<lambda>(key, _). (key, see key)) (pl_candidates plan)" key] assms that
    by (force simp: remove_copies_def simp del: not_None_eq)
  then show ?thesis unfolding without_outcome_def filter_empty_conv by blast
qed

text \<open>C20: an hourly pass loses no candidate: those left without an outcome by a stop are exactly the pending
  keys, and the cursors move only when there are none; the memory of absent keys stays within 4096
  distinct keys, and the lock is given back.\<close>

theorem cleanup_pass_loses_nothing:
  assumes "automatic_cleanup env ps c s = (s', Passed r)" "length (dc_recent s) \<le> 4096" "distinct (map fst (dc_recent s))"
  shows "\<exists>plan s2. make_plan env c (ps_reads ps) (pass_request s2) = Inr plan \<and>
    r = remove_copies (ps_http ps) plan (map (\<lambda>(key, _). (key, ps_observe ps key)) (pl_candidates plan)) \<and>
    pending_keys s' = without_outcome plan r \<and>
    (dc_cursor s', dc_priority_cursor s') = (if pending_keys s' = [] then next_cursors s2 plan else (dc_cursor s, dc_priority_cursor s)) \<and>
    length (dc_recent s') \<le> 4096 \<and> distinct (map fst (dc_recent s')) \<and> dc_locked s' = dc_locked s"
proof -
  let ?s1 = "refresh_evidence c (ps_revisions ps) s"
  let ?s2 = "?s1\<lparr>dc_recent := filter (\<lambda>(key, expiry). \<not> expiry \<le> ps_now ps) (dc_recent ?s1)\<rparr>"
  have "known_keys (dc_recent ?s1)" using assms(2,3) by (simp add: refresh_evidence_def known_keys_def)
  then have "known_keys (dc_recent ?s2)" by (simp add: known_keys_filter)
  then have dis: "distinct (map fst (dc_recent ?s2))" by (simp only: known_keys_def)
  have same: "dc_cursor ?s2 = dc_cursor s" "dc_priority_cursor ?s2 = dc_priority_cursor s" "dc_locked ?s2 = dc_locked s"
    by (simp_all add: refresh_evidence_def)
  have on: "cleanup_enabled c \<and> \<not> dc_locked s" using assms(1) by (auto simp: automatic_cleanup_def split: if_splits)
  note pass = assms(1) [unfolded automatic_cleanup_def Let_def]
  show ?thesis
  proof (cases "make_plan env c (ps_reads ps) (pass_request ?s2)")
    case (Inl e)
    then show ?thesis using pass on by (cases e) simp_all
  next
    case (Inr plan)
    define r' where "r' = remove_copies (ps_http ps) plan (map (\<lambda>(key, _). (key, ps_observe ps key)) (pl_candidates plan))"
    have s': "s' = after_pass plan r' (ps_later ps) ?s2" and r: "r = r'" using pass on Inr by (auto simp: r'_def)
    have stop: "without_outcome plan r' = []" if "rm_stopped r' = None" using removed_all [OF r'_def that] .
    have recent: "dc_recent s' = remember_absent (ps_later ps) (rm_absent r') (dc_recent ?s2)" unfolding s' after_pass_eq by simp
    have known: "known_keys (dc_recent s')" unfolding recent using dis by (rule remember_absent_known)
    have pending: "pending_keys s' = without_outcome plan r'" using stop unfolding s' after_pass_eq by (auto simp: pending_keys_def)
    have cursors: "(dc_cursor s', dc_priority_cursor s') = (if pending_keys s' = [] then next_cursors ?s2 plan else (dc_cursor s, dc_priority_cursor s))"
      unfolding pending using stop same by (auto simp: s' after_pass_eq)
    have "dc_locked s' = dc_locked s" using same by (simp add: s' after_pass_eq)
    then show ?thesis using Inr r'_def r pending cursors known unfolding known_keys_def by blast
  qed
qed

section \<open>Examples\<close>

definition sample_row :: item where
  "sample_row = \<lparr>it_repo = ''core'', it_file = ''p.zst'', it_canonical = ''k''\<rparr>"

lemma window_first_keys_witness:
  "wi_ranks (foldl (\<lambda>w (key, row). window_add key row w) (new_window (Some 2) ''b'')
      [(''a'', sample_row), (''d'', sample_row), (''c'', sample_row), (''d'', sample_row)]) =
    take 2 (sorted_list_of_set ((\<lambda>key. (key \<le> ''b'', key)) ` set (map fst [(''a'', sample_row), (''d'', sample_row), (''c'', sample_row), (''d'', sample_row)])))"
  using window_first_keys [of 2, OF _ refl, of "''b''" "[(''a'', sample_row), (''d'', sample_row), (''c'', sample_row), (''d'', sample_row)]"]
  by simp

definition sample_generation :: str where
  "sample_generation = ''0123456789abcdef0123456789abcdef0123456789abcdef0123456789abcdef''"

definition sample_plan :: plan where
  "sample_plan = \<lparr>pl_config = sample_shared, pl_revisions = [], pl_generation = sample_generation,
     pl_candidates = [(''old'', sample_row)], pl_cursor = [], pl_priority_cursor = [], pl_scanned = 1\<rparr>"

definition sample_probe :: "str + probe_result" where
  "sample_probe = Inr \<lparr>pb_exists = True, pb_size = Some 5, pb_generation = Some sample_generation\<rparr>"

definition sample_observation :: observation where
  "sample_observation = \<lparr>ob_elapsed = 1, ob_config1 = Some sample_shared, ob_revisions1 = [], ob_source = sample_probe,
     ob_canonical = sample_probe, ob_config2 = Some sample_shared, ob_revisions2 = []\<rparr>"

lemma sample_generation_ok: "generation_ok sample_generation"
  by code_simp

lemma sample_removed:
  "remove_copies (\<lambda>_. Status 200) sample_plan [(''old'', sample_observation)] =
    no_removal\<lparr>rm_results := [(''old'', ''purged'')], rm_freed := 5, rm_absent := [''old''], rm_examined := 1, rm_eligible := 1, rm_purged := 1\<rparr>"
  by (simp add: remove_copies_def remove_one_def sample_plan_def sample_observation_def check_current_def inspect_pair_def sample_probe_def
    count_reason_def note_purge_def set_result_def purge_raw_def purge_outcome_def sample_generation_ok no_removal_def Let_def)

lemma removed_on_fresh_evidence_witness:
  "\<exists>ob source. (''old'', ob) \<in> set [(''old'', sample_observation)] \<and> ob_source ob = Inr source \<and> pb_exists source"
  using removed_on_fresh_evidence [of "\<lambda>_. Status 200" sample_plan "[(''old'', sample_observation)]" "''old''"]
  by (simp add: sample_removed) blast

definition sample_ready :: db where
  "sample_ready = sample_copies\<lparr>repo_states := map (\<lambda>repo. \<lparr>rs_repo = repo, rs_last_check = Some 1, rs_changed_at = None,
     rs_etag = None, rs_modified = None, rs_count = Some 1, rs_key_expires = None, rs_key_known = False, rs_revision = 1,
     rs_identity = Some ''id''\<rparr>) [''alpine'', ''core'']\<rparr>"

definition sample_env :: plan_env where
  "sample_env = \<lparr>pe_digest = \<lambda>_. ''id'', pe_hash = \<lambda>_. sample_generation\<rparr>"

definition sample_reads :: plan_reads where
  "sample_reads = \<lparr>rd_start = sample_ready, rd_first = sample_ready, rd_second = sample_ready, rd_stop = sample_ready\<rparr>"

definition sample_request :: request where
  "sample_request = \<lparr>re_limit = Some 4, re_after = [], re_priority_after = [], re_selected = None, re_excluded = None\<rparr>"

lemma sample_duplicates: "find_duplicate_files sample_ready = sample_rows"
  by code_simp

lemma sample_pairs_ready: "accepted_pairs sample_shared sample_ready sample_rows = Inr sample_pairs"
  by code_simp

lemma sample_shared_built: "make_key_builder sample_shared = Inr sample_shared_builder"
  by code_simp

definition sample_proof :: "proof_row list" where
  "sample_proof =
     [\<lparr>ce_repo = ''alpine'', ce_file = ''p.apk'', ce_keys = [''httpmirror.org/arch/core/x86_64/p.apk''],
       ce_target = ''httpmirror.org/arch/core/x86_64/p.apk'', ce_blocked = False, ce_eligible = True, ce_warmed = False\<rparr>,
      \<lparr>ce_repo = ''core'', ce_file = ''p.zst'', ce_keys = [''httpmirror.org/arch/core/p.zst'', ''httpmirror.org/arch/core/os/x86_64/p.zst''],
       ce_target = ''httpmirror.org/arch/core/x86_64/p.apk'', ce_blocked = False, ce_eligible = True, ce_warmed = False\<rparr>]"

definition sample_redirects :: "(str \<times> str) list" where
  "sample_redirects = [(''/arch/core/os/x86_64/p.zst'', ''httpmirror.org/arch/core/x86_64/p.apk'')]"

lemma sample_evidence: "evidence_of (\<lambda>_. ''id'') sample_shared sample_ready sample_shared_builder sample_redirects = Inr sample_proof"
  by code_simp

lemma sample_selected: "fst (select_keys sample_request sample_proof) =
    [(''httpmirror.org/arch/core/os/x86_64/p.zst'', sample_row\<lparr>it_canonical := ''httpmirror.org/arch/core/x86_64/p.apk''\<rparr>),
     (''httpmirror.org/arch/core/p.zst'', sample_row\<lparr>it_canonical := ''httpmirror.org/arch/core/x86_64/p.apk''\<rparr>)]"
  by code_simp

lemma sample_judged: "safe_candidates (judged (fst (select_keys sample_request sample_proof)) sample_proof) =
    [(''httpmirror.org/arch/core/os/x86_64/p.zst'', sample_row\<lparr>it_canonical := ''httpmirror.org/arch/core/x86_64/p.apk''\<rparr>),
     (''httpmirror.org/arch/core/p.zst'', sample_row\<lparr>it_canonical := ''httpmirror.org/arch/core/x86_64/p.apk''\<rparr>)]"
  unfolding sample_selected by code_simp

lemma sample_generated: "case dedup_generation (\<lambda>_. sample_generation) sample_shared sample_pairs of Inl _ \<Rightarrow> False | Inr g \<Rightarrow> True"
  by code_simp

lemma sample_plan_made:
  assumes "re_limit q \<noteq> Some 0"
  shows "\<exists>plan. make_plan sample_env sample_shared sample_reads q = Inr plan \<and>
    pl_candidates plan = safe_candidates (judged (fst (select_keys q sample_proof)) sample_proof)"
proof -
  obtain g where g: "dedup_generation (\<lambda>_. sample_generation) sample_shared sample_pairs = Inr g"
    using sample_generated by (cases "dedup_generation (\<lambda>_. sample_generation) sample_shared sample_pairs") auto
  obtain possible cursor pc where sel: "select_keys q sample_proof = (possible, cursor, pc)" by (cases "select_keys q sample_proof") auto
  show ?thesis using assms sel
    by (simp add: make_plan_def sample_reads_def sample_env_def sample_duplicates sample_pairs_ready sample_shared_built
      sample_shared_keys [folded sample_redirects_def] sample_evidence g lift_config_def Let_def)
qed


definition sample_cleaner :: cleaner where
  "sample_cleaner = \<lparr>dc_evidence = None, dc_pending = None, dc_cursor = [], dc_priority_cursor = [], dc_recent = [], dc_locked = False\<rparr>"

definition sample_pass :: pass_env where
  "sample_pass = \<lparr>ps_revisions = [], ps_now = 0, ps_reads = sample_reads, ps_observe = \<lambda>_. sample_observation,
     ps_http = \<lambda>_. Status 200, ps_later = 1\<rparr>"

lemma cleanup_pass_loses_nothing_witness:
  "\<exists>s' r plan. automatic_cleanup sample_env sample_pass sample_shared sample_cleaner = (s', Passed r) \<and> pending_keys s' = without_outcome plan r"
proof -
  let ?s2 = "sample_cleaner\<lparr>dc_evidence := Some (sample_shared, [])\<rparr>"
  have "re_limit (pass_request ?s2) \<noteq> Some 0" by (simp add: pass_request_def sample_cleaner_def automatic_batch_def)
  then obtain plan where "make_plan sample_env sample_shared sample_reads (pass_request ?s2) = Inr plan" using sample_plan_made by blast
  moreover have "cleanup_enabled sample_shared" by code_simp
  ultimately obtain s' r where "automatic_cleanup sample_env sample_pass sample_shared sample_cleaner = (s', Passed r)"
    by (simp add: automatic_cleanup_def Let_def refresh_evidence_def same_evidence_def sample_cleaner_def sample_pass_def)
  moreover from cleanup_pass_loses_nothing [OF this] obtain plan' where "pending_keys s' = without_outcome plan' r"
    by (auto simp: sample_cleaner_def)
  ultimately show ?thesis by blast
qed

end
