(* ===== verification/Index_Fetch.thy ===== *)
theory Index_Fetch
  imports Gpg Url_Templates
begin

text \<open>
  Fetching a document with a detached signature beside it, as several index parsers do.  The answers of the
  server and the output of \<open>gpgv\<close> are parameters.  A verified repository without a keyring cannot be
  configured; running \<open>gpgv\<close> without one is a TypeError.
\<close>

record fetch_env =
  fe_http :: "str \<Rightarrow> http_answer"
  fe_gpgv :: gpgv

type_synonym signers = "(utext \<times> utext) list"

definition detached_by :: "fetch_env \<Rightarrow> repo_config \<Rightarrow> str \<Rightarrow> str \<Rightarrow> index_error + signers" where
  "detached_by env r data signature =
     (case rp_keyring r of None \<Rightarrow> Inl Value_error | Some keyring \<Rightarrow> verify_detached (fe_gpgv env) data signature keyring)"

definition signed_document :: "fetch_env \<Rightarrow> repo_config \<Rightarrow> str \<Rightarrow> str \<Rightarrow> index_error + (str \<times> signers)" where
  "signed_document env r url ending =
     bind (http_get (fe_http env) url) (\<lambda>raw.
       if rp_verify r
       then bind (http_get (fe_http env) (url @ ending)) (\<lambda>signature.
            bind (detached_by env r raw signature) (\<lambda>signers. Inr (raw, signers)))
       else Inr (raw, []))"

text \<open>What a signature that was accepted rests on.\<close>

definition vouched :: "gpgv \<Rightarrow> str \<Rightarrow> str \<Rightarrow> str \<Rightarrow> bool" where
  "vouched gpgv keyring signature data \<longleftrightarrow>
     (\<exists>output. gpgv keyring signature (Some data) = Some output \<and>
        (\<exists>l \<in> set (tsplitlines output). tstarts (lit ''[GNUPG:] VALIDSIG'') l) \<and>
        (\<forall>l \<in> set (tsplitlines output). \<not> tstarts (lit ''[GNUPG:] BADSIG'') l))"

lemma detached_by_vouched:
  assumes "detached_by env r data signature = Inr signers"
  shows "\<exists>keyring. rp_keyring r = Some keyring \<and> vouched (fe_gpgv env) keyring signature data"
  using assms
  by (auto simp: detached_by_def verify_detached_def run_gpgv_def vouched_def Let_def list_ex_iff split: option.splits if_splits)

lemma signed_document_vouched:
  assumes "signed_document env r url ending = Inr (raw, signers)"
  shows "fe_http env url = Body raw"
    and "rp_verify r \<Longrightarrow> \<exists>signature keyring. fe_http env (url @ ending) = Body signature \<and> rp_keyring r = Some keyring \<and>
      vouched (fe_gpgv env) keyring signature raw"
  using assms detached_by_vouched
  by (auto simp: signed_document_def bind_Inr http_get_def split: http_answer.splits if_splits)

section \<open>Packages with different keys\<close>

text \<open>
  The loop of the strict parsers: an entry is refused, left out (another architecture), or a package whose key
  must be new.
\<close>

fun distinct_packages :: "('a \<Rightarrow> index_error + package_ref option) \<Rightarrow> package_ref list \<Rightarrow> 'a list \<Rightarrow> index_error + package_ref list" where
  "distinct_packages read packages [] = Inr packages"
| "distinct_packages read packages (e # es) =
     bind (read e) (\<lambda>found. case found of
         None \<Rightarrow> distinct_packages read packages es
       | Some p \<Rightarrow> if ref_key p \<in> set (map ref_key packages) then Inl Value_error
                   else distinct_packages read (packages @ [p]) es)"

definition chosen :: "('a \<Rightarrow> index_error + package_ref option) \<Rightarrow> 'a \<Rightarrow> package_ref option" where
  "chosen read e = (case read e of Inl _ \<Rightarrow> None | Inr p \<Rightarrow> p)"

lemma distinct_packages_ok:
  "distinct_packages read ps es = Inr qs \<Longrightarrow> distinct (map ref_key ps) \<Longrightarrow>
   distinct (map ref_key qs) \<and> qs = ps @ List.map_filter (chosen read) es \<and> (\<forall>e \<in> set es. \<exists>p. read e = Inr p)"
proof (induction read ps es rule: distinct_packages.induct)
  case (1 read packages)
  then show ?case by (simp add: map_filter_simps)
next
  case (2 read packages e es)
  obtain found where found: "read e = Inr found" using 2(3) by (auto simp: bind_Inr)
  show ?case
  proof (cases found)
    case None
    have "distinct_packages read packages es = Inr qs" using 2(3) found None by simp
    then have "distinct (map ref_key qs) \<and> qs = packages @ List.map_filter (chosen read) es \<and> (\<forall>e \<in> set es. \<exists>p. read e = Inr p)"
      using 2(1) 2(4) by blast
    moreover have "List.map_filter (chosen read) (e # es) = List.map_filter (chosen read) es"
      by (simp add: map_filter_simps chosen_def found None)
    ultimately show ?thesis using found by (metis set_ConsD)
  next
    case (Some p)
    then have new: "ref_key p \<notin> set (map ref_key packages)" "distinct_packages read (packages @ [p]) es = Inr qs"
      using 2(3) found by (auto split: if_splits)
    then have "distinct (map ref_key qs) \<and> qs = (packages @ [p]) @ List.map_filter (chosen read) es \<and> (\<forall>e \<in> set es. \<exists>p. read e = Inr p)"
    proof -
      have "distinct (map ref_key (packages @ [p]))" using 2(4) new(1) by simp
      then show ?thesis using 2(2) [OF new] by blast
    qed
    moreover have "List.map_filter (chosen read) (e # es) = p # List.map_filter (chosen read) es"
      by (simp add: map_filter_simps chosen_def found Some)
    ultimately show ?thesis using found by (metis set_ConsD append.assoc append_Cons append_Nil)
  qed
qed

lemma map_filter_mem: "p \<in> set (List.map_filter f xs) \<Longrightarrow> \<exists>x \<in> set xs. f x = Some p"
  by (induction xs) (auto simp: map_filter_simps split: option.splits)

text \<open>Nothing is lost when packages with different keys become a snapshot.\<close>

lemma snapshot_keeps:
  assumes "distinct (map ref_key ps)" "p \<in> set ps"
  shows "map_of (px_names (snapshot_of repo signers ps)) (ref_key p) = Some (pf_name p)"
    "map_of (px_packages (snapshot_of repo signers ps)) (ref_key p) = Some (case pf_filename p of None \<Rightarrow> [] | Some f \<Rightarrow> f)"
proof -
  have "find (\<lambda>q. ref_key q = ref_key p) (rev ps) = Some p"
  proof -
    have "find (\<lambda>q. ref_key q = ref_key p) (rev ps) \<noteq> None" using assms(2) by (auto simp: find_None_iff)
    then obtain q where q: "find (\<lambda>q. ref_key q = ref_key p) (rev ps) = Some q" by blast
    then have "q \<in> set ps" "ref_key q = ref_key p" by (auto simp: find_Some_iff in_set_conv_nth) (metis length_rev nth_mem set_rev in_set_conv_nth)
    then have "q = p" using assms by (metis distinct_map inj_onD)
    then show ?thesis using q by simp
  qed
  then show "map_of (px_names (snapshot_of repo signers ps)) (ref_key p) = Some (pf_name p)"
    "map_of (px_packages (snapshot_of repo signers ps)) (ref_key p) = Some (case pf_filename p of None \<Rightarrow> [] | Some f \<Rightarrow> f)"
    by (simp_all add: snapshot_names snapshot_packages)
qed

end
