(* ===== verification/Pacman.thy ===== *)
theory Pacman
  imports Index_Fetch
begin

text \<open>
  \<open>parsers/pacman.py\<close>: the \<open>desc\<close> files of a repository database, read by a small tar reader over a stream
  that is decompressed in chunks.  The stream is a parameter: what successive reads return, or the
  error of a damaged archive; so is \<open>tarfile\<close>, which reads every archive that the small reader declines.
\<close>

section \<open>desc files\<close>

definition percent :: nat where
  "percent = code CHR ''%''"

definition key_line :: "utext \<Rightarrow> bool" where
  "key_line line \<longleftrightarrow> line \<noteq> [] \<and> hd line = percent \<and> last line = percent"

definition strip_percent :: "utext \<Rightarrow> utext" where
  "strip_percent t = rev (dropWhile (\<lambda>c. c = percent) (rev (dropWhile (\<lambda>c. c = percent) t)))"

text \<open>The lines of a value run up to the next empty line, which is consumed too.\<close>

function desc_fields :: "utext list \<Rightarrow> (utext \<times> utext) list \<Rightarrow> (utext \<times> utext) list" where
  "desc_fields [] found = found"
| "desc_fields (line # lines) found =
     (if key_line line
      then desc_fields (drop 1 (dropWhile (\<lambda>l. l \<noteq> []) lines))
             (AList.update (strip_percent line) (join [10] (takeWhile (\<lambda>l. l \<noteq> []) lines)) found)
      else desc_fields lines found)"
  by pat_completeness auto
termination
  by (relation "measure (\<lambda>(lines, _). length lines)") (auto intro: le_less_trans [OF diff_le_self] le_imp_less_Suc [OF length_dropWhile_le])

definition parse_desc :: "utext \<Rightarrow> (utext \<times> utext) list" where
  "parse_desc t = desc_fields (tsplitlines t) []"

definition desc_package :: "str \<Rightarrow> package_ref option" where
  "desc_package desc =
     (let found = map_of (parse_desc (decode desc));
          name = found (lit ''NAME''); version = found (lit ''VERSION''); digest = found (lit ''SHA256SUM'')
      in if given name \<and> given version
         then Some \<lparr>pf_name = the name, pf_version = the version, pf_filename = found (lit ''FILENAME''),
                pf_hash = (if given digest \<and> sha256_hex (the digest) then digest else None)\<rparr>
         else None)"

section \<open>Buffered reading\<close>

datatype stream = End | Damaged | Chunk str stream

record blocks =
  bl_stream :: stream
  bl_buffer :: str
  bl_start :: nat

definition new_blocks :: "stream \<Rightarrow> blocks" where
  "new_blocks s = \<lparr>bl_stream = s, bl_buffer = [], bl_start = 0\<rparr>"

text \<open>The loop of \<open>take\<close>; \<open>None\<close> is the error of a damaged stream.  An empty read is the end of the stream.\<close>

fun refill_buffer :: "nat \<Rightarrow> stream \<Rightarrow> str \<Rightarrow> nat \<Rightarrow> blocks option" where
  "refill_buffer n End buffer start = Some \<lparr>bl_stream = End, bl_buffer = buffer, bl_start = start\<rparr>"
| "refill_buffer n Damaged buffer start =
     (if length buffer - start < n then None else Some \<lparr>bl_stream = Damaged, bl_buffer = buffer, bl_start = start\<rparr>)"
| "refill_buffer n (Chunk c s) buffer start =
     (if length buffer - start < n \<and> c \<noteq> [] then refill_buffer n s (drop start buffer @ c) 0
      else Some \<lparr>bl_stream = Chunk c s, bl_buffer = buffer, bl_start = start\<rparr>)"

definition take_bytes :: "nat \<Rightarrow> blocks \<Rightarrow> (str \<times> blocks) option" where
  "take_bytes n b =
     map_option (\<lambda>b1.
       (let stop = bl_start b1 + min n (length (bl_buffer b1) - bl_start b1)
        in (take (stop - bl_start b1) (drop (bl_start b1) (bl_buffer b1)), b1\<lparr>bl_start := stop\<rparr>)))
     (refill_buffer n (bl_stream b) (bl_buffer b) (bl_start b))"

definition read_chunk :: nat where
  "read_chunk = 256 * 1024"

function skip_bytes :: "nat \<Rightarrow> blocks \<Rightarrow> blocks option" where
  "skip_bytes n b =
     (if n = 0 then Some b
      else case take_bytes (min n read_chunk) b of
        None \<Rightarrow> None
      | Some (data, b1) \<Rightarrow> if data = [] then None else skip_bytes (n - length data) b1)"
  by pat_completeness auto
termination by (relation "measure fst") auto

declare skip_bytes.simps [simp del]

section \<open>Tar headers\<close>

definition NUL :: char where
  "NUL = CHR 0x00"

definition slice :: "nat \<Rightarrow> nat \<Rightarrow> 'a list \<Rightarrow> 'a list" where
  "slice i j s = take (j - i) (drop i s)"

definition octal_digit :: "char \<Rightarrow> bool" where
  "octal_digit c \<longleftrightarrow> 48 \<le> code c \<and> code c \<le> 55"

definition blank_byte :: "char \<Rightarrow> bool" where
  "blank_byte c \<longleftrightarrow> c = NUL \<or> c = CHR '' ''"

text \<open>\<open>[ ]*[0-7]*[\0 ]*\<close>: the digits after the blanks that open the field, then only blanks and NULs.\<close>

definition octal :: "str \<Rightarrow> nat option" where
  "octal field =
     (let body = dropWhile (\<lambda>c. c = CHR '' '') field
      in if list_all blank_byte (dropWhile octal_digit body)
         then Some (foldl (\<lambda>n c. 8 * n + (code c - 48)) 0 (takeWhile octal_digit body)) else None)"

definition ignored_numeric :: "(nat \<times> nat) list" where
  "ignored_numeric = [(100, 108), (108, 116), (116, 124), (136, 148), (329, 337), (337, 345)]"

definition ignored_bytes :: "str \<Rightarrow> str" where
  "ignored_bytes head = slice 100 124 head @ slice 136 148 head @ slice 329 345 head"

definition byte_sum :: "str \<Rightarrow> nat" where
  "byte_sum s = sum_list (map code s)"

definition check_ignored :: "str \<Rightarrow> str list \<Rightarrow> str list option" where
  "check_ignored head checked =
     (if ignored_bytes head \<in> set checked then Some checked
      else if list_all (\<lambda>(i, j). octal (slice i j head) \<noteq> None) ignored_numeric
      then Some (if length checked < 16 then ignored_bytes head # checked else checked) else None)"

definition magic_posix :: str where
  "magic_posix = ''ustar'' @ [NUL] @ ''00''"

definition magic_gnu :: str where
  "magic_gnu = ''ustar  '' @ [NUL]"

text \<open>What a header says: the size of the member, its name and its kind.\<close>

definition header :: "str \<Rightarrow> (nat \<times> str \<times> char) option" where
  "header head =
     Option.bind (octal (slice 124 136 head)) (\<lambda>n.
       if Some (byte_sum head - byte_sum (slice 148 156 head) + 256) \<noteq> octal (slice 148 156 head) then None
       else let magic = slice 257 265 head; posix = magic = magic_posix; name = takeWhile (\<lambda>c. c \<noteq> NUL) (slice 0 100 head) in
         if \<not> (posix \<or> magic = magic_gnu) then None
         else if head ! 345 \<noteq> NUL \<and> \<not> posix then None
         else Some (n, if head ! 345 \<noteq> NUL then takeWhile (\<lambda>c. c \<noteq> NUL) (slice 345 500 head) @ ''/'' @ name else name, head ! 156))"

definition padding :: "nat \<Rightarrow> nat" where
  "padding n = (512 - n mod 512) mod 512"

definition plain_file :: "char \<Rightarrow> str \<Rightarrow> bool" where
  "plain_file kind name \<longleftrightarrow> kind = CHR ''0'' \<or> (kind = NUL \<and> \<not> ends_with ''/'' name)"

definition desc_name :: "str \<Rightarrow> bool" where
  "desc_name name \<longleftrightarrow> ends_with ''/desc'' name"

section \<open>Taking bytes from the stream\<close>

text \<open>The bytes that are still to come; \<open>None\<close> when an error comes before the end.\<close>

fun stream_bytes :: "stream \<Rightarrow> str" where
  "stream_bytes End = []"
| "stream_bytes Damaged = []"
| "stream_bytes (Chunk c s) = (if c = [] then [] else c @ stream_bytes s)"

fun sound :: "stream \<Rightarrow> bool" where
  "sound End = True"
| "sound Damaged = False"
| "sound (Chunk c s) = (c = [] \<or> sound s)"

definition remaining :: "blocks \<Rightarrow> str" where
  "remaining b = drop (bl_start b) (bl_buffer b) @ stream_bytes (bl_stream b)"

lemma refill_remaining:
  "refill_buffer n s buffer start = Some b \<Longrightarrow> remaining b = drop start buffer @ stream_bytes s \<and>
     (n \<le> length (bl_buffer b) - bl_start b \<or> stream_bytes (bl_stream b) = []) \<and> (sound s \<longrightarrow> sound (bl_stream b))"
proof (induction n s buffer start rule: refill_buffer.induct)
  case (2 n buffer start)
  then show ?case by (auto simp: remaining_def split: if_splits)
next
  case (3 n c s buffer start)
  show ?case
  proof (cases "length buffer - start < n \<and> c \<noteq> []")
    case True
    then show ?thesis using 3 by simp
  next
    case False
    then have "b = \<lparr>bl_stream = Chunk c s, bl_buffer = buffer, bl_start = start\<rparr>" using 3(2) by (auto split: if_splits)
    then show ?thesis using False by (auto simp: remaining_def)
  qed
qed (auto simp: remaining_def)

lemma refill_sound: "sound s \<Longrightarrow> refill_buffer n s buffer start \<noteq> None"
  by (induction n s buffer start rule: refill_buffer.induct) auto

lemma take_bytes_remaining:
  assumes "take_bytes n b = Some (data, b1)"
  shows "data = take n (remaining b)" "remaining b1 = drop n (remaining b)" "sound (bl_stream b) \<Longrightarrow> sound (bl_stream b1)"
proof -
  obtain b0 where b0: "refill_buffer n (bl_stream b) (bl_buffer b) (bl_start b) = Some b0"
    and data: "data = take (min n (length (bl_buffer b0) - bl_start b0)) (drop (bl_start b0) (bl_buffer b0))"
    and b1: "b1 = b0\<lparr>bl_start := bl_start b0 + min n (length (bl_buffer b0) - bl_start b0)\<rparr>"
    using assms by (auto simp: take_bytes_def Let_def)
  let ?have = "drop (bl_start b0) (bl_buffer b0)"
  have rem: "remaining b = ?have @ stream_bytes (bl_stream b0)"
    using refill_remaining [OF b0] by (simp add: remaining_def)
  have full: "n \<le> length ?have \<or> stream_bytes (bl_stream b0) = []" using refill_remaining [OF b0] by simp
  show "data = take n (remaining b)" unfolding rem data using full by (auto simp: min_def)
  show "remaining b1 = drop n (remaining b)" unfolding rem b1 using full by (auto simp: remaining_def min_def add.commute)
  show "sound (bl_stream b1)" if "sound (bl_stream b)" using refill_remaining [OF b0] that by (simp add: b1)
qed

lemma skip_bytes_remaining:
  "skip_bytes n b = Some b1 \<Longrightarrow> remaining b1 = drop n (remaining b) \<and> n \<le> length (remaining b) \<and>
     (sound (bl_stream b) \<longrightarrow> sound (bl_stream b1))"
proof (induction n b arbitrary: b1 rule: skip_bytes.induct)
  case (1 n b)
  show ?case
  proof (cases "n = 0")
    case True
    then show ?thesis using 1(2) by (simp add: skip_bytes.simps)
  next
    case False
    then obtain data b2 where step: "take_bytes (min n read_chunk) b = Some (data, b2)" "data \<noteq> []" "skip_bytes (n - length data) b2 = Some b1"
      using 1(2) by (auto simp: skip_bytes.simps [of n b] split: option.splits if_splits)
    note taken = take_bytes_remaining [OF step(1)]
    have IH: "remaining b1 = drop (n - length data) (remaining b2) \<and> n - length data \<le> length (remaining b2) \<and>
        (sound (bl_stream b2) \<longrightarrow> sound (bl_stream b1))"
      using 1(1) [OF False step(1) refl] step by simp
    have len: "length data = min (min n read_chunk) (length (remaining b))" using taken(1) by simp
    have rem: "remaining b2 = drop (length data) (remaining b)" using taken len by (metis append_eq_conv_conj append_take_drop_id)
    have bounds: "length data \<le> n" "length data \<le> length (remaining b)" using len by simp_all
    moreover have "n - length data \<le> length (remaining b) - length data" using IH rem by simp
    ultimately have "n \<le> length (remaining b)" by linarith
    then show ?thesis using IH rem taken(3) bounds by simp
  qed
qed

section \<open>The members\<close>

function desc_members :: "blocks \<Rightarrow> str list \<Rightarrow> str list option" where
  "desc_members b checked =
     (case take_bytes 512 b of
        None \<Rightarrow> None
      | Some (head, b1) \<Rightarrow>
          if length head \<noteq> 512 then None
          else if list_all (\<lambda>c. c = NUL) head then Some []
          else (case check_ignored head checked of
            None \<Rightarrow> None
          | Some checked1 \<Rightarrow> (case header head of
              None \<Rightarrow> None
            | Some (n, name, kind) \<Rightarrow>
                if kind = CHR ''5'' then desc_members b1 checked1
                else if \<not> plain_file kind name then None
                else if desc_name name then
                  (case take_bytes n b1 of
                     None \<Rightarrow> None
                   | Some (body, b2) \<Rightarrow>
                       if length body \<noteq> n then None
                       else (case skip_bytes (padding n) b2 of
                         None \<Rightarrow> None
                       | Some b3 \<Rightarrow> map_option ((#) body) (desc_members b3 checked1)))
                else (case skip_bytes (n + padding n) b1 of None \<Rightarrow> None | Some b2 \<Rightarrow> desc_members b2 checked1))))"
  by pat_completeness auto

termination
proof (relation "measure (\<lambda>(b, _). length (remaining b))", goal_cases)
  case 1
  show ?case by simp
next
  case (2 b checked t head b1)
  then show ?case using take_bytes_remaining [of 512 b head b1] by auto
next
  case (3 b checked t head b1 checked1 h n u name kind t2 body b2 b3)
  then have "take_bytes 512 b = Some (head, b1)" "take_bytes n b1 = Some (body, b2)" "length head = 512" "skip_bytes (padding n) b2 = Some b3" by auto
  then show ?case using take_bytes_remaining [of 512 b head b1] take_bytes_remaining [of n b1 body b2] skip_bytes_remaining [of "padding n" b2 b3] by auto
next
  case (4 b checked t head b1 checked1 h n u name kind b2)
  then have "take_bytes 512 b = Some (head, b1)" "length head = 512" "skip_bytes (n + padding n) b1 = Some b2" by auto
  then show ?case using take_bytes_remaining [of 512 b head b1] skip_bytes_remaining [of "n + padding n" b1 b2] by auto
qed

declare desc_members.simps [simp del]

section \<open>The archive\<close>

definition parse_db :: "(str \<Rightarrow> stream) \<Rightarrow> (str \<Rightarrow> index_error + str list) \<Rightarrow> str \<Rightarrow> index_error + package_ref list" where
  "parse_db gunzip tar raw =
     (case desc_members (new_blocks (gunzip raw)) [] of
        Some descs \<Rightarrow> Inr (List.map_filter desc_package descs)
      | None \<Rightarrow> bind (tar raw) (\<lambda>descs. Inr (List.map_filter desc_package descs)))"

definition pacman_index_url :: "str \<Rightarrow> repo_config \<Rightarrow> str" where
  "pacman_index_url base r = base @ ''/'' @ opt_str (rp_repo_name r) @ ''.db.tar.gz''"

definition fetch_database :: "fetch_env \<Rightarrow> (str \<Rightarrow> stream) \<Rightarrow> (str \<Rightarrow> index_error + str list) \<Rightarrow> str \<Rightarrow> repo_config \<Rightarrow>
    index_error + (signers \<times> package_ref list)" where
  "fetch_database env gunzip tar base r =
     bind (signed_document env r (pacman_index_url base r) ''.sig'') (\<lambda>(raw, signers).
     bind (parse_db gunzip tar raw) (\<lambda>packages. Inr (signers, packages)))"

end
