(* ===== verification/Pacman_Props.thy ===== *)
theory Pacman_Props
  imports Pacman
begin

text \<open>
  The buffered tar reader against a reader of the whole byte string: neither the chunks in which the
  stream is decompressed nor the memory of checked headers changes what is read.
\<close>

section \<open>The reader over the whole archive\<close>

function members :: "str \<Rightarrow> str list option" where
  "members s =
     (if length s < 512 then None
      else if list_all (\<lambda>c. c = NUL) (take 512 s) then Some []
      else if \<not> list_all (\<lambda>(i, j). octal (slice i j (take 512 s)) \<noteq> None) ignored_numeric then None
      else (case header (take 512 s) of
          None \<Rightarrow> None
        | Some (n, name, kind) \<Rightarrow>
            if kind = CHR ''5'' then members (drop 512 s)
            else if \<not> plain_file kind name \<or> length s < 512 + (n + padding n) then None
            else map_option ((@) (if desc_name name then [take n (drop 512 s)] else [])) (members (drop (512 + (n + padding n)) s))))"
  by pat_completeness auto
termination by (relation "measure length") auto

declare members.simps [simp del]

definition valid_ignored :: "str \<Rightarrow> bool" where
  "valid_ignored x \<longleftrightarrow> list_all (\<lambda>(i, j). octal (slice i j x) \<noteq> None) [(0, 8), (8, 16), (16, 24), (24, 36), (36, 44), (44, 52)]"

lemma slice_append1: "j \<le> length xs \<Longrightarrow> slice i j (xs @ ys) = slice i j xs"
  by (simp add: slice_def)

lemma slice_append2: "length xs \<le> i \<Longrightarrow> slice i j (xs @ ys) = slice (i - length xs) (j - length xs) ys"
  by (simp add: slice_def)

lemma slice_slice: "k \<le> j - i \<Longrightarrow> slice m k (slice i j s) = slice (i + m) (i + k) s"
  by (simp add: slice_def drop_take min_def add.commute)

lemma length_slice: "j \<le> length s \<Longrightarrow> length (slice i j s) = j - i"
  by (simp add: slice_def)

lemma ignored_parts:
  assumes "length h = 512"
  shows "slice 0 8 (ignored_bytes h) = slice 100 108 h" "slice 8 16 (ignored_bytes h) = slice 108 116 h"
    "slice 16 24 (ignored_bytes h) = slice 116 124 h" "slice 24 36 (ignored_bytes h) = slice 136 148 h"
    "slice 36 44 (ignored_bytes h) = slice 329 337 h" "slice 44 52 (ignored_bytes h) = slice 337 345 h"
  using assms by (simp_all add: ignored_bytes_def slice_append1 slice_append2 length_slice slice_slice)

lemma valid_ignored_iff:
  "length h = 512 \<Longrightarrow> valid_ignored (ignored_bytes h) \<longleftrightarrow> list_all (\<lambda>(i, j). octal (slice i j h) \<noteq> None) ignored_numeric"
  by (simp add: valid_ignored_def ignored_numeric_def ignored_parts)

lemma check_ignored_valid:
  assumes "length h = 512" "\<forall>x \<in> set checked. valid_ignored x"
  shows "check_ignored h checked \<noteq> None \<longleftrightarrow> list_all (\<lambda>(i, j). octal (slice i j h) \<noteq> None) ignored_numeric"
    and "check_ignored h checked = Some checked1 \<Longrightarrow> \<forall>x \<in> set checked1. valid_ignored x"
  using assms valid_ignored_iff [OF assms(1)] by (auto simp: check_ignored_def split: if_splits)

section \<open>Equivalence\<close>

lemma take_bytes_sound: "sound (bl_stream b) \<Longrightarrow> \<exists>data b1. take_bytes n b = Some (data, b1)"
  using refill_sound [of "bl_stream b" n "bl_buffer b" "bl_start b"] by (auto simp: take_bytes_def Let_def)

lemma skip_bytes_sound: "sound (bl_stream b) \<Longrightarrow> n \<le> length (remaining b) \<Longrightarrow> skip_bytes n b \<noteq> None"
proof (induction n b rule: skip_bytes.induct)
  case (1 n b)
  show ?case
  proof (cases "n = 0")
    case False
    obtain data b1 where taken: "take_bytes (min n read_chunk) b = Some (data, b1)"
      using take_bytes_sound [OF 1(2)] by blast
    note facts = take_bytes_remaining [OF taken]
    have len: "length data = min n read_chunk" using facts(1) 1(3) by simp
    then have ne: "data \<noteq> []" using False by (auto simp: read_chunk_def)
    have "n - length data \<le> length (remaining b1)" using facts(2) len 1(3) by simp
    then have "skip_bytes (n - length data) b1 \<noteq> None" using 1(1) [OF False taken refl ne] facts(3) 1(2) by blast
    then show ?thesis using False taken ne by (simp add: skip_bytes.simps [of n b])
  qed (simp add: skip_bytes.simps)
qed

lemma append_one: "(@) [x] = (#) x"
  by (rule ext) simp

lemma desc_members_eq:
  "sound (bl_stream b) \<Longrightarrow> \<forall>x \<in> set checked. valid_ignored x \<Longrightarrow> desc_members b checked = members (remaining b)"
proof (induction b checked rule: desc_members.induct)
  case (1 b checked)
  obtain head b1 where taken: "take_bytes 512 b = Some (head, b1)" using take_bytes_sound [OF 1(4)] by blast
  note facts = take_bytes_remaining [OF taken]
  have ok1: "sound (bl_stream b1)" using facts(3) 1(4) by blast
  show ?case
  proof (cases "length head = 512 \<and> \<not> list_all (\<lambda>c. c = NUL) head")
    case False
    have "length head = 512 \<longleftrightarrow> 512 \<le> length (remaining b)" using facts(1) by auto
    then show ?thesis using False taken facts(1) by (auto simp: desc_members.simps [of b] members.simps [of "remaining b"])
  next
    case True
    then have h: "length head = 512" "\<not> list_all (\<lambda>c. c = NUL) head" "take 512 (remaining b) = head" "\<not> length (remaining b) < 512"
      using facts(1) by auto
    note checks = check_ignored_valid [OF h(1) 1(5)]
    show ?thesis
    proof (cases "check_ignored head checked")
      case None
      then show ?thesis using taken h checks(1) by (auto simp: desc_members.simps [of b] members.simps [of "remaining b"])
    next
      case (Some checked1)
      note valid = checks(2) [OF Some]
      have all: "list_all (\<lambda>(i, j). octal (slice i j head) \<noteq> None) ignored_numeric" using checks(1) Some by simp
      show ?thesis
      proof (cases "header head")
        case None
        then show ?thesis using taken h Some all by (simp add: desc_members.simps [of b] members.simps [of "remaining b"])
      next
        case hd: (Some entry)
        obtain n name kind where entry: "entry = (n, name, kind)" by (cases entry)
        note unfold = taken h Some all hd entry
        have len: "length (remaining b) = 512 + length (remaining b1)" using facts(2) h(4) by simp
        have IH5: "desc_members b1 checked1 = members (remaining b1)" if "kind = CHR ''5''"
          using 1(1) [OF taken refl] h Some hd entry that ok1 valid by simp
        consider "kind = CHR ''5''" | "kind \<noteq> CHR ''5''" "\<not> plain_file kind name"
          | "kind \<noteq> CHR ''5''" "plain_file kind name" "length (remaining b1) < n + padding n"
          | "kind \<noteq> CHR ''5''" "plain_file kind name" "n + padding n \<le> length (remaining b1)" by linarith
        then show ?thesis
        proof cases
          case 1
          then show ?thesis using IH5 unfold facts(2) by (simp add: desc_members.simps [of b] members.simps [of "remaining b"])
        next
          case 2
          then show ?thesis using unfold by (simp add: desc_members.simps [of b] members.simps [of "remaining b"])
        next
          case 3
          have right: "members (remaining b) = None" using unfold 3 len by (simp add: members.simps [of "remaining b"])
          show ?thesis
          proof (cases "desc_name name")
            case True
            obtain body b2 where body: "take_bytes n b1 = Some (body, b2)" using take_bytes_sound [OF ok1] by blast
            note bfacts = take_bytes_remaining [OF body]
            have "skip_bytes (padding n) b2 = None" if "length body = n"
            proof (rule ccontr)
              assume "skip_bytes (padding n) b2 \<noteq> None"
              then obtain b3 where "skip_bytes (padding n) b2 = Some b3" by blast
              then have "padding n \<le> length (remaining b2)" using skip_bytes_remaining by blast
              then show False using bfacts(1,2) 3(3) that by simp
            qed
            then show ?thesis unfolding right using unfold 3 True body by (simp add: desc_members.simps [of b])
          next
            case False
            have "skip_bytes (n + padding n) b1 = None"
              using 3(3) skip_bytes_remaining [of "n + padding n" b1] by (cases "skip_bytes (n + padding n) b1") auto
            then show ?thesis unfolding right using unfold 3 False by (simp add: desc_members.simps [of b])
          qed
        next
          case 4
          have right: "members (remaining b) = map_option ((@) (if desc_name name then [take n (remaining b1)] else []))
              (members (drop (n + padding n) (remaining b1)))"
          proof -
            have "drop 512 (remaining b) = remaining b1" "drop (512 + (n + padding n)) (remaining b) = drop (n + padding n) (remaining b1)"
              using facts(2) by (simp_all add: add.commute)
            moreover have "\<not> length (remaining b) < 512 + (n + padding n)" using 4(3) len by linarith
            ultimately show ?thesis using unfold 4 by (simp add: members.simps [of "remaining b"] del: drop_drop)
          qed
          show ?thesis
          proof (cases "desc_name name")
            case True
            obtain body b2 where body: "take_bytes n b1 = Some (body, b2)" using take_bytes_sound [OF ok1] by blast
            note bfacts = take_bytes_remaining [OF body]
            have ok2: "sound (bl_stream b2)" using bfacts(3) ok1 by blast
            have lb: "length body = n" using bfacts(1) 4(3) by simp
            have "padding n \<le> length (remaining b2)" using bfacts(2) 4(3) by simp
            then obtain b3 where skip: "skip_bytes (padding n) b2 = Some b3"
              using skip_bytes_sound [OF ok2] by blast
            have "desc_members b3 checked1 = members (remaining b3)"
              using 1(2) [OF taken refl] h Some hd entry 4 True body lb skip valid skip_bytes_remaining [OF skip] ok2 by simp
            moreover have "remaining b3 = drop (n + padding n) (remaining b1)"
              using skip_bytes_remaining [OF skip] bfacts(2) by (simp add: add.commute)
            ultimately show ?thesis unfolding right using unfold 4 True body lb skip bfacts(1)
              by (simp add: desc_members.simps [of b] append_one)
          next
            case False
            obtain b2 where skip: "skip_bytes (n + padding n) b1 = Some b2" using skip_bytes_sound [OF ok1 4(3)] by auto
            have "desc_members b2 checked1 = members (remaining b2)"
              using 1(3) [OF taken refl] h Some hd entry 4 False skip valid skip_bytes_remaining [OF skip] ok1 by simp
            moreover have "remaining b2 = drop (n + padding n) (remaining b1)" using skip_bytes_remaining [OF skip] by simp
            moreover have "map_option ((@) []) x = x" for x :: "str list option" by (cases x) simp_all
            ultimately show ?thesis unfolding right using unfold 4 False skip by (simp add: desc_members.simps [of b])
          qed
        qed
      qed
    qed
  qed
qed

text \<open>C24: the buffered reader of a pacman database reads what a reader of the whole decompressed archive
  reads, whatever chunks the stream comes in, and although it validates each combination of ignored
  header fields only once: on a stream without an error the two agree on every archive, also on which
  archives they decline.\<close>

theorem desc_reader_refines:
  assumes "sound s"
  shows "desc_members (new_blocks s) [] = members (stream_bytes s)"
  using desc_members_eq [of "new_blocks s" "[]"] assms by (simp add: new_blocks_def remaining_def)

section \<open>Archives\<close>

text \<open>A header field of a number, and a regular file with the checksum of its header.\<close>

fun octal_str :: "nat \<Rightarrow> str" where
  "octal_str n = (if n < 8 then [char_of (48 + n)] else octal_str (n div 8) @ [char_of (48 + n mod 8)])"

declare octal_str.simps [simp del]

definition padded :: "nat \<Rightarrow> str \<Rightarrow> str" where
  "padded n s = s @ replicate (n - length s) NUL"

definition header_with :: "str \<Rightarrow> nat \<Rightarrow> str \<Rightarrow> str" where
  "header_with name n chk =
     padded 100 name @ replicate 24 NUL @ padded 12 (octal_str n) @ replicate 12 NUL @ chk @ ''0'' @ replicate 100 NUL @ magic_posix @
     replicate 247 NUL"

definition tar_header :: "str \<Rightarrow> nat \<Rightarrow> str" where
  "tar_header name n = header_with name n (padded 8 (octal_str (byte_sum (header_with name n []) + 256)))"

definition tar_file :: "str \<times> str \<Rightarrow> str" where
  "tar_file m = (case m of (name, body) \<Rightarrow> tar_header name (length body) @ body @ replicate (padding (length body)) NUL)"

definition tar_archive :: "(str \<times> str) list \<Rightarrow> str" where
  "tar_archive ms = concat (map tar_file ms) @ replicate 512 NUL"

lemma octal_str_digits: "list_all octal_digit (octal_str n) \<and> octal_str n \<noteq> []"
proof (induction n rule: octal_str.induct)
  case (1 n)
  have "octal_digit (char_of (48 + k))" if "k < 8" for k :: nat
    using that by (simp add: octal_digit_def)
  then show ?case using 1 by (simp add: octal_str.simps [of n])
qed

lemma octal_str_value: "foldl (\<lambda>n c. 8 * n + (code c - 48)) 0 (octal_str n) = n"
proof (induction n rule: octal_str.induct)
  case (1 n)
  then show ?case by (subst octal_str.simps) simp
qed

lemma octal_str_length: "n < 8 ^ k \<Longrightarrow> 0 < k \<Longrightarrow> length (octal_str n) \<le> k"
proof (induction n arbitrary: k rule: octal_str.induct)
  case (1 n)
  show ?case
  proof (cases "n < 8")
    case True
    then show ?thesis using 1(3) by (subst octal_str.simps) simp
  next
    case False
    then obtain j where k: "k = Suc j" "0 < j" using 1(2,3) by (cases k; cases "k - 1") auto
    then have "n div 8 < 8 ^ j" using 1(2) by (simp add: less_mult_imp_div_less mult.commute)
    then have "length (octal_str (n div 8)) \<le> j" using 1(1) False k(2) by blast
    then show ?thesis using False k(1) by (subst octal_str.simps) simp
  qed
qed

lemma octal_padded: "octal (padded k (octal_str n)) = Some n"
proof -
  let ?d = "octal_str n" and ?z = "replicate (k - length (octal_str n)) NUL"
  have digits: "\<forall>c \<in> set ?d. octal_digit c" using octal_str_digits by (simp add: list_all_iff)
  have "\<not> octal_digit NUL" "CHR '' '' \<noteq> NUL" "\<not> octal_digit CHR '' ''" by (simp_all add: octal_digit_def NUL_def)
  then have parts: "takeWhile octal_digit (?d @ ?z) = ?d" "dropWhile octal_digit (?d @ ?z) = ?z"
    using digits by (auto simp: takeWhile_append dropWhile_append takeWhile_eq_all_conv intro: dropWhile_id)
  obtain c cs where "?d = c # cs" using octal_str_digits [of n] by (cases ?d) auto
  then have "dropWhile (\<lambda>c. c = CHR '' '') (?d @ ?z) = ?d @ ?z"
    using digits \<open>\<not> octal_digit CHR '' ''\<close> by auto
  then show ?thesis using parts by (simp add: octal_def padded_def Let_def octal_str_value list_all_iff blank_byte_def)
qed

lemma length_padded: "length s \<le> k \<Longrightarrow> length (padded k s) = k"
  by (simp add: padded_def)

lemma byte_sum_append: "byte_sum (s @ t) = byte_sum s + byte_sum t"
  by (simp add: byte_sum_def)

lemma byte_sum_bound: "byte_sum s \<le> 255 * length s"
proof (induction s)
  case (Cons c s)
  have "code c \<le> 255" using nat_of_char_less_256 [of c] by linarith
  then show ?case using Cons by (simp add: byte_sum_def)
qed (simp add: byte_sum_def)

lemma header_with_slices:
  assumes "length name \<le> 100" "length (octal_str n) \<le> 12" "length chk = 8"
  shows "length (header_with name n chk) = 512"
    "slice 0 100 (header_with name n chk) = padded 100 name" "slice 100 124 (header_with name n chk) = replicate 24 NUL"
    "slice 124 136 (header_with name n chk) = padded 12 (octal_str n)" "slice 136 148 (header_with name n chk) = replicate 12 NUL"
    "slice 148 156 (header_with name n chk) = chk" "header_with name n chk ! 156 = CHR ''0''"
    "slice 257 265 (header_with name n chk) = magic_posix" "slice 329 345 (header_with name n chk) = replicate 16 NUL"
    "header_with name n chk ! 345 = NUL"
  using assms
  by (simp_all add: header_with_def length_padded slice_def magic_posix_def nth_append)

lemma header_chars:
  assumes "length name \<le> 100" "length (octal_str n) \<le> 12"
  shows "byte_sum (header_with name n []) + 256 < 8 ^ 8"
proof -
  have "length (header_with name n []) \<le> 512"
    using assms by (simp add: header_with_def length_padded magic_posix_def)
  then have "byte_sum (header_with name n []) \<le> 255 * 512" using byte_sum_bound [of "header_with name n []"] by linarith
  then show ?thesis by simp
qed

lemma takeWhile_padded: "NUL \<notin> set s \<Longrightarrow> takeWhile (\<lambda>c. c \<noteq> NUL) (padded k s) = s"
  by (auto simp: padded_def takeWhile_append takeWhile_eq_all_conv)

lemma tar_header_reads:
  assumes "length name \<le> 100" "NUL \<notin> set name" "n < 8 ^ 12"
  shows "header (tar_header name n) = Some (n, name, CHR ''0'')" "length (tar_header name n) = 512"
    "list_all (\<lambda>(i, j). octal (slice i j (tar_header name n)) \<noteq> None) ignored_numeric"
    "\<not> list_all (\<lambda>c. c = NUL) (tar_header name n)"
proof -
  let ?chk = "padded 8 (octal_str (byte_sum (header_with name n []) + 256))"
  have ln: "length (octal_str n) \<le> 12" using octal_str_length [OF assms(3)] by simp
  have lc: "length ?chk = 8" using octal_str_length [OF header_chars [OF assms(1) ln]] by (simp add: length_padded)
  note parts = header_with_slices [OF assms(1) ln lc, folded tar_header_def]
  show "length (tar_header name n) = 512" by (rule parts(1))
  have "byte_sum (tar_header name n) = byte_sum (header_with name n []) + byte_sum ?chk"
    by (simp add: tar_header_def header_with_def byte_sum_append)
  then have "Some (byte_sum (tar_header name n) - byte_sum (slice 148 156 (tar_header name n)) + 256) = octal (slice 148 156 (tar_header name n))"
    unfolding parts(6) octal_padded by simp
  then show "header (tar_header name n) = Some (n, name, CHR ''0'')"
    using parts octal_padded takeWhile_padded [OF assms(2)] by (simp add: header_def Let_def)
  have zeros: "octal (replicate k NUL) = Some 0" for k
    by (cases k) (simp_all add: octal_def NUL_def octal_digit_def blank_byte_def list_all_iff Let_def)
  have "ignored_bytes (tar_header name n) = replicate 52 NUL"
    by (simp add: ignored_bytes_def parts flip: replicate_add)
  then have "valid_ignored (ignored_bytes (tar_header name n))"
    by (simp add: valid_ignored_def slice_def zeros drop_replicate take_replicate del: replicate.simps)
  then show "list_all (\<lambda>(i, j). octal (slice i j (tar_header name n)) \<noteq> None) ignored_numeric"
    using valid_ignored_iff [OF parts(1)] by blast
  have "tar_header name n ! 156 \<noteq> NUL" by (simp add: parts(7) NUL_def)
  then show "\<not> list_all (\<lambda>c. c = NUL) (tar_header name n)" using parts(1) by (auto simp: list_all_length intro: exI [of _ 156])
qed

definition plain_member :: "str \<times> str \<Rightarrow> bool" where
  "plain_member m \<longleftrightarrow> length (fst m) \<le> 100 \<and> NUL \<notin> set (fst m) \<and> length (snd m) < 8 ^ 12"

lemma members_archive:
  "\<forall>m \<in> set ms. plain_member m \<Longrightarrow> members (tar_archive ms) = Some (map snd (filter (\<lambda>m. desc_name (fst m)) ms))"
proof (induction ms)
  case Nil
  have "list_all (\<lambda>c. c = NUL) (replicate 512 NUL)" by (simp add: list_all_iff)
  then show ?case by (simp add: tar_archive_def members.simps [of "replicate 512 NUL"])
next
  case (Cons m ms)
  obtain name body where m: "m = (name, body)" by (cases m)
  have ok: "length name \<le> 100" "NUL \<notin> set name" "length body < 8 ^ 12" using Cons.prems m by (simp_all add: plain_member_def)
  note reads = tar_header_reads [OF ok]
  let ?rest = "tar_archive ms" and ?n = "length body"
  have arch: "tar_archive (m # ms) = tar_header name ?n @ body @ replicate (padding ?n) NUL @ ?rest"
    by (simp add: tar_archive_def tar_file_def m)
  have "take 512 (tar_archive (m # ms)) = tar_header name ?n" "take ?n (drop 512 (tar_archive (m # ms))) = body"
    "drop (512 + (?n + padding ?n)) (tar_archive (m # ms)) = ?rest" "512 + (?n + padding ?n) \<le> length (tar_archive (m # ms))"
    unfolding arch by (simp_all add: reads(2))
  moreover have "plain_file CHR ''0'' name" by (simp add: plain_file_def)
  moreover have "members ?rest = Some (map snd (filter (\<lambda>m. desc_name (fst m)) ms))" using Cons by simp
  ultimately show ?case
    using reads by (simp add: members.simps [of "tar_archive ((name, body) # ms)"] m del: take_append drop_append)
qed


section \<open>Examples\<close>

lemma desc_reader_refines_witness: "desc_members (new_blocks (Chunk ''ab'' (Chunk ''c'' End))) [] = members ''abc''"
  using desc_reader_refines [of "Chunk ''ab'' (Chunk ''c'' End)"] by simp

definition sample_desc :: str where
  "sample_desc = ''%NAME%'' @ [char_of (10::nat)] @ ''p'' @ [char_of (10::nat), char_of (10::nat)] @ ''%VERSION%'' @ [char_of (10::nat)] @ ''1''"


end
