(* ===== verification/Apk.thy ===== *)
theory Apk
  imports Index_Fetch
begin

text \<open>
  \<open>parsers/apk.py\<close> and \<open>verification/apk.py\<close>: the packages of an APKINDEX and the envelope of a signed
  index.  Inflating one gzip member, reading a tar archive, the key files and the outcome of
  \<open>openssl\<close> and \<open>apk\<close> are parameters.
\<close>

section \<open>The index\<close>

record apk_state =
  ak_packages :: "package_ref list"
  ak_name :: "utext option"
  ak_version :: "utext option"

definition apk_flush :: "apk_state \<Rightarrow> package_ref list" where
  "apk_flush s =
     (if given (ak_name s) \<and> given (ak_version s)
      then ak_packages s @ [\<lparr>pf_name = the (ak_name s), pf_version = the (ak_version s),
             pf_filename = Some (the (ak_name s) @ lit ''-'' @ the (ak_version s) @ lit ''.apk''), pf_hash = None\<rparr>]
      else ak_packages s)"

definition apk_line :: "apk_state \<Rightarrow> utext \<Rightarrow> apk_state" where
  "apk_line s line =
     (if line = [] then \<lparr>ak_packages = apk_flush s, ak_name = None, ak_version = None\<rparr>
      else if tstarts (lit ''P:'') line then s\<lparr>ak_name := Some (drop 2 line)\<rparr>
      else if tstarts (lit ''V:'') line then s\<lparr>ak_version := Some (drop 2 line)\<rparr> else s)"

definition apk_packages :: "utext \<Rightarrow> package_ref list" where
  "apk_packages t = apk_flush (foldl apk_line \<lparr>ak_packages = [], ak_name = None, ak_version = None\<rparr> (tsplitlines t))"

text \<open>A member of an archive: its name, its content (\<open>None\<close> when it is not a regular file) and its size.\<close>

record tar_member =
  tm_name :: utext
  tm_content :: "str option"
  tm_size :: nat

type_synonym tar = "str \<Rightarrow> tar_member list option"

definition parse_apkindex :: "tar \<Rightarrow> str \<Rightarrow> index_error + package_ref list" where
  "parse_apkindex tar raw =
     (case tar raw of
        None \<Rightarrow> Inl Decode_error
      | Some ms \<Rightarrow> (case find (\<lambda>m. tm_name m = lit ''APKINDEX'') ms of
          None \<Rightarrow> Inr []
        | Some m \<Rightarrow> (case tm_content m of None \<Rightarrow> Inr [] | Some body \<Rightarrow> Inr (apk_packages (decode body)))))"

section \<open>Signed indexes\<close>

text \<open>\<open>inflate\<close> yields the decoded bytes of the first gzip member and the rest of the data.\<close>

record apk_env =
  ap_fetch :: fetch_env
  ap_gz_tar :: tar
  ap_tar :: tar
  ap_inflate :: "str \<Rightarrow> (str \<times> str) option"
  ap_key :: "str \<Rightarrow> str \<Rightarrow> str option"
  ap_openssl :: "str \<Rightarrow> str \<Rightarrow> str \<Rightarrow> str \<Rightarrow> bool"
  ap_tools :: "nat option"
  ap_verify :: "str \<Rightarrow> str \<Rightarrow> str \<Rightarrow> bool"

definition gzip_member :: "apk_env \<Rightarrow> str \<Rightarrow> nat \<Rightarrow> index_error + (str \<times> str)" where
  "gzip_member env raw limit =
     (case ap_inflate env raw of
        None \<Rightarrow> Inl Signature_error
      | Some (decoded, rest) \<Rightarrow> if limit < length decoded then Inl Signature_error else Inr (decoded, rest))"

definition key_point :: "nat \<Rightarrow> bool" where
  "key_point n \<longleftrightarrow> (48 \<le> n \<and> n \<le> 57) \<or> (65 \<le> n \<and> n \<le> 90) \<or> (97 \<le> n \<and> n \<le> 122) \<or> n \<in> set (lit ''_@+.-'')"

text \<open>\<open>\.SIGN\.(RSA|RSA256)\.([A-Za-z0-9_@+.-]+)\<close>: the digest option and the name of the key.\<close>

definition key_of_signature :: "utext \<Rightarrow> (str \<times> str) option" where
  "key_of_signature name =
     (let parsed = (if tstarts (lit ''.SIGN.RSA.'') name then Some (''-sha1'', drop 10 name)
            else if tstarts (lit ''.SIGN.RSA256.'') name then Some (''-sha256'', drop 13 name) else None)
      in case parsed of
           None \<Rightarrow> None
         | Some (digest, key) \<Rightarrow> if key \<noteq> [] \<and> list_all key_point key then Some (digest, ascii_str key) else None)"

definition signature_in :: "apk_env \<Rightarrow> str \<Rightarrow> index_error + (str \<times> str \<times> str)" where
  "signature_in env signature_tar =
     (case ap_tar env signature_tar of
        Some [m] \<Rightarrow> (case (tm_content m, key_of_signature (tm_name m)) of
            (Some signature, Some (digest, key)) \<Rightarrow>
              if key \<in> set [''.'', ''..''] \<or> 16384 < tm_size m then Inl Signature_error else Inr (digest, key, signature)
          | _ \<Rightarrow> Inl Signature_error)
      | _ \<Rightarrow> Inl Signature_error)"

definition backend_accepts :: "apk_env \<Rightarrow> str \<Rightarrow> str \<Rightarrow> str \<Rightarrow> str \<Rightarrow> str \<Rightarrow> str \<Rightarrow> str \<Rightarrow> bool" where
  "backend_accepts env backend digest key_name key signature payload raw =
     (if backend = ''openssl'' then ap_openssl env digest key signature payload
      else if backend = ''apk-tools''
      then (case ap_tools env of None \<Rightarrow> False | Some major \<Rightarrow> 3 \<le> major \<and> ap_verify env key_name key raw)
      else False)"

definition verify_index :: "apk_env \<Rightarrow> str \<Rightarrow> str \<Rightarrow> str \<Rightarrow> index_error + str" where
  "verify_index env raw keys_dir backend =
     bind (gzip_member env raw (1024 * 1024)) (\<lambda>(signature_tar, payload).
       if payload = [] then Inl Signature_error
       else bind (gzip_member env payload (256 * 1024 * 1024)) (\<lambda>(_, trailing).
         if trailing \<noteq> [] then Inl Signature_error
         else bind (signature_in env signature_tar) (\<lambda>(digest, key_name, signature).
           case ap_key env keys_dir key_name of
             None \<Rightarrow> Inl Signature_error
           | Some key \<Rightarrow> if backend_accepts env backend digest key_name key signature payload raw then Inr payload else Inl Signature_error)))"

definition apk_index_url :: "str \<Rightarrow> repo_config \<Rightarrow> str" where
  "apk_index_url base r = base @ ''/'' @ rp_arch r @ ''/APKINDEX.tar.gz''"

definition fetch_apkindex :: "apk_env \<Rightarrow> str \<Rightarrow> repo_config \<Rightarrow> index_error + package_ref list" where
  "fetch_apkindex env base r =
     bind (http_get (fe_http (ap_fetch env)) (apk_index_url base r)) (\<lambda>raw.
     bind (if rp_verify r then verify_index env raw (opt_str (rp_apk_keys r)) (rp_apk_backend r) else Inr raw) (\<lambda>index.
       parse_apkindex (ap_gz_tar env) index))"

section \<open>Properties\<close>

text \<open>A record written line by line is read back.\<close>

definition apk_record :: "utext \<times> utext \<Rightarrow> utext list" where
  "apk_record p = [lit ''P:'' @ fst p, lit ''V:'' @ snd p, []]"

definition apk_ref :: "utext \<times> utext \<Rightarrow> package_ref" where
  "apk_ref p = \<lparr>pf_name = fst p, pf_version = snd p, pf_filename = Some (fst p @ lit ''-'' @ snd p @ lit ''.apk''), pf_hash = None\<rparr>"

lemma apk_record_read:
  assumes "fst p \<noteq> []" "snd p \<noteq> []"
  shows "foldl apk_line \<lparr>ak_packages = ps, ak_name = None, ak_version = None\<rparr> (apk_record p) =
    \<lparr>ak_packages = ps @ [apk_ref p], ak_name = None, ak_version = None\<rparr>"
  using assms by (simp add: apk_record_def apk_line_def apk_flush_def apk_ref_def given_def tstarts_def lit_def)

lemma apk_records_read:
  "\<forall>p \<in> set ps. fst p \<noteq> [] \<and> snd p \<noteq> [] \<Longrightarrow>
   foldl apk_line \<lparr>ak_packages = qs, ak_name = None, ak_version = None\<rparr> (concat (map apk_record ps)) =
     \<lparr>ak_packages = qs @ map apk_ref ps, ak_name = None, ak_version = None\<rparr>"
  by (induction ps arbitrary: qs) (simp_all add: apk_record_read)


section \<open>An example\<close>

definition sample_signature :: tar_member where
  "sample_signature = \<lparr>tm_name = lit ''.SIGN.RSA256.k.pub'', tm_content = Some ''sig'', tm_size = 3\<rparr>"

definition sample_index :: tar_member where
  "sample_index = \<lparr>tm_name = lit ''APKINDEX'', tm_content = Some ''P:a'', tm_size = 3\<rparr>"

definition sample_apk_env :: apk_env where
  "sample_apk_env = \<lparr>ap_fetch = \<lparr>fe_http = (\<lambda>_. Body ''si''), fe_gpgv = (\<lambda>_ _ _. None)\<rparr>, ap_gz_tar = (\<lambda>_. Some [sample_index]),
     ap_tar = (\<lambda>_. Some [sample_signature]), ap_inflate = (\<lambda>raw. if raw = ''si'' then Some (''S'', ''i'') else Some (''I'', [])),
     ap_key = (\<lambda>_ _. Some ''K''), ap_openssl = (\<lambda>_ _ _ _. True), ap_tools = None, ap_verify = (\<lambda>_ _ _. False)\<rparr>"

definition sample_apk :: repo_config where
  "sample_apk = sample_repo\<lparr>rp_type := ''apk'', rp_verify := True, rp_apk_keys := Some ''/keys'', rp_apk_backend := ''openssl''\<rparr>"

lemma sample_apk_fetched: "\<exists>ps. fetch_apkindex sample_apk_env ''u'' sample_apk = Inr ps"
  by (simp add: fetch_apkindex_def http_get_def sample_apk_env_def sample_apk_def verify_index_def gzip_member_def signature_in_def
    sample_signature_def key_of_signature_def tstarts_def lit_def key_point_def ascii_str_def backend_accepts_def parse_apkindex_def sample_index_def)


end
