(* ===== verification/Xbps.thy ===== *)
theory Xbps
  imports Apk
begin

text \<open>
  \<open>parsers/xbps.py\<close>: the entries of \<open>index.plist\<close>.  \<open>zstd\<close>, \<open>tarfile\<close> and \<open>plistlib\<close> are parameters; a property
  list is a string, a dictionary in document order, or something else.
\<close>

datatype plist = Plist_string utext | Plist_dict "(plist \<times> plist) list" | Plist_other

definition dict_string :: "(plist \<times> plist) list \<Rightarrow> str \<Rightarrow> utext option" where
  "dict_string info key = (case map_of (rev info) (Plist_string (lit key)) of Some (Plist_string t) \<Rightarrow> Some t | _ \<Rightarrow> None)"

definition xbps_package :: "plist \<times> plist \<Rightarrow> index_error + package_ref" where
  "xbps_package entry =
     (case entry of
        (Plist_string pkgname, Plist_dict info) \<Rightarrow>
          if pkgname = [] then Inl Value_error
          else (case dict_string info ''pkgver'' of
              None \<Rightarrow> Inl Value_error
            | Some pkgver \<Rightarrow>
                if \<not> tstarts (pkgname @ lit ''-'') pkgver then Inl Value_error
                else let version = drop (length pkgname + 1) pkgver in
                  if version = [] then Inl Value_error
                  else if \<not> given (dict_string info ''architecture'') then Inl Value_error
                  else let digest = dict_string info ''filename-sha256'' in
                    Inr \<lparr>pf_name = pkgname, pf_version = version,
                         pf_filename = Some (pkgver @ lit ''.'' @ the (dict_string info ''architecture'') @ lit ''.xbps''),
                         pf_hash = (case digest of Some h \<Rightarrow> if sha256_hex h then Some h else None | None \<Rightarrow> None)\<rparr>)
      | _ \<Rightarrow> Inl Value_error)"

fun xbps_entries :: "(plist \<times> plist) list \<Rightarrow> index_error + package_ref list" where
  "xbps_entries [] = Inr []"
| "xbps_entries (e # es) = bind (xbps_package e) (\<lambda>p. bind (xbps_entries es) (\<lambda>ps. Inr (p # ps)))"

record xbps_env =
  xb_fetch :: fetch_env
  xb_zstd :: "str \<Rightarrow> str option"
  xb_tar :: tar
  xb_plist :: "str \<Rightarrow> plist option"

definition parse_repodata :: "xbps_env \<Rightarrow> str \<Rightarrow> index_error + package_ref list" where
  "parse_repodata env raw =
     (case xb_zstd env raw of
        None \<Rightarrow> Inl Value_error
      | Some plain \<Rightarrow> (case xb_tar env plain of
          None \<Rightarrow> Inl Decode_error
        | Some ms \<Rightarrow> (case find (\<lambda>m. tm_name m = lit ''index.plist'') ms of
            None \<Rightarrow> Inl Value_error
          | Some m \<Rightarrow> (case tm_content m of
              None \<Rightarrow> Inl Value_error
            | Some body \<Rightarrow> (case xb_plist env body of
                Some (Plist_dict entries) \<Rightarrow> xbps_entries entries
              | Some _ \<Rightarrow> Inl Value_error
              | None \<Rightarrow> Inl Decode_error)))))"

definition xbps_index_url :: "str \<Rightarrow> repo_config \<Rightarrow> str" where
  "xbps_index_url base r = rstrip_char CHR ''/'' base @ ''/'' @ rp_arch r @ ''-repodata''"

definition fetch_repodata :: "xbps_env \<Rightarrow> str \<Rightarrow> repo_config \<Rightarrow> index_error + package_ref list" where
  "fetch_repodata env base r = bind (http_get (fe_http (xb_fetch env)) (xbps_index_url base r)) (\<lambda>raw. parse_repodata env raw)"

text \<open>The key of a package is its \<open>pkgver\<close>, which starts the name of its file.\<close>

lemma xbps_package_key:
  assumes "xbps_package (Plist_string name, Plist_dict info) = Inr p"
  shows "dict_string info ''pkgver'' = Some (ref_key p) \<and> pf_name p = name \<and> pf_version p \<noteq> [] \<and>
    (\<exists>arch. arch \<noteq> [] \<and> pf_filename p = Some (ref_key p @ lit ''.'' @ arch @ lit ''.xbps''))"
proof -
  obtain pkgver arch where parts: "dict_string info ''pkgver'' = Some pkgver" "tstarts (name @ lit ''-'') pkgver"
      "drop (length name + 1) pkgver \<noteq> []" "dict_string info ''architecture'' = Some arch" "arch \<noteq> []"
      "pf_name p = name" "pf_version p = drop (length name + 1) pkgver" "pf_filename p = Some (pkgver @ lit ''.'' @ arch @ lit ''.xbps'')"
    using assms by (auto simp: xbps_package_def given_def Let_def split: if_splits option.splits)
  obtain t where "pkgver = name @ lit ''-'' @ t" using parts(2) by (auto simp: tstarts_iff)
  then have "ref_key p = pkgver" using parts(6,7) by (simp add: ref_key_def lit_def)
  then show ?thesis using parts by auto
qed

lemma xbps_entries_all: "xbps_entries es = Inr ps \<Longrightarrow> list_all2 (\<lambda>e p. xbps_package e = Inr p) es ps"
  by (induction es arbitrary: ps) (auto simp: bind_Inr)

end
