(* ===== verification/Strict_Text.thy ===== *)
theory Strict_Text
  imports Index_Parser
begin

text \<open>
  \<open>bytes.decode('utf-8')\<close> without replacement, and how decoding and \<open>str.splitlines\<close> distribute over slices
  of a document that end right after a line feed.
\<close>

text \<open>A sequence is well formed when it is the encoding of the code point it is read as.\<close>

definition step_ok :: "nat \<Rightarrow> nat list \<Rightarrow> bool" where
  "step_ok b s \<longleftrightarrow> encode_point (fst (utf8_step b s)) = b # take (snd (utf8_step b s)) s"

function utf8_ok :: "nat list \<Rightarrow> bool" where
  "utf8_ok [] = True"
| "utf8_ok (b # s) = (step_ok b s \<and> utf8_ok (drop (snd (utf8_step b s)) s))"
  by pat_completeness auto
termination by (relation "measure length") auto

text \<open>\<open>None\<close> is the UnicodeDecodeError, which is a ValueError.\<close>

definition decode_strict :: "str \<Rightarrow> utext option" where
  "decode_strict s = (if utf8_ok (bytes_of s) then Some (decode s) else None)"

definition strict_text :: "str \<Rightarrow> index_error + utext" where
  "strict_text s = (case decode_strict s of None \<Rightarrow> Inl Value_error | Some t \<Rightarrow> Inr t)"

text \<open>\<open>t.partition(sep)\<close> when the separator occurs.\<close>

fun partition_sep :: "utext \<Rightarrow> utext \<Rightarrow> (utext \<times> utext) option" where
  "partition_sep sep [] = None"
| "partition_sep sep (c # t) =
     (if tstarts sep (c # t) then Some ([], drop (length sep) (c # t))
      else map_option (\<lambda>(a, b). (c # a, b)) (partition_sep sep t))"

lemma result_bind_assoc: "bind (bind x f) g = bind x (\<lambda>y. bind (f y) g)"
  by (cases x) simp_all

lemma result_bind_cong [fundef_cong]:
  "x = y \<Longrightarrow> (\<And>z. y = Inr z \<Longrightarrow> f z = g z) \<Longrightarrow> bind x f = bind y g"
  by (cases y) simp_all

lemma utf8_ok_append: "c < 128 \<Longrightarrow> utf8_ok (s @ c # t) \<longleftrightarrow> utf8_ok s \<and> utf8_ok t"
proof (induction s rule: utf8_ok.induct)
  case 1
  then show ?case by (simp add: step_ok_def step_ascii encode_point_def)
next
  case (2 b s)
  have step: "utf8_step b (s @ c # t) = utf8_step b s" using step_before_ascii [OF 2(2)] by blast
  have "snd (utf8_step b s) \<le> length s" by (rule step_bound)
  then show ?case using 2 by (simp add: step step_ok_def)
qed

lemma decode_append_ascii: "code c < 128 \<Longrightarrow> decode (s @ c # t) = decode s @ code c # decode t"
  by (simp add: decode_def utf8_append_ascii)

lemma strict_text_ascii: "\<forall>c \<in> set s. code c < 128 \<Longrightarrow> strict_text s = Inr (lit s)"
proof -
  assume ascii: "\<forall>c \<in> set s. code c < 128"
  have "utf8_ok (bytes_of s) \<and> utf8 (bytes_of s) = bytes_of s" using ascii
    by (induction s) (simp_all add: step_ok_def step_ascii encode_point_def)
  then show ?thesis by (simp add: strict_text_def decode_strict_def decode_def lit_def)
qed

lemma decode_strict_append:
  "code c < 128 \<Longrightarrow> decode_strict (s @ c # t) =
     (case (decode_strict s, decode_strict t) of (Some x, Some y) \<Rightarrow> Some (x @ code c # y) | _ \<Rightarrow> None)"
  by (simp add: decode_strict_def utf8_ok_append decode_append_ascii)

lemma tlines_acc_break:
  "break_point c \<Longrightarrow> tlines_acc w (c # d # s) = rev w # (if c = 13 \<and> d = 10 then tlines_acc [] s else tlines_acc [] (d # s))"
  by simp

lemma tlines_acc_append_lf: "tlines_acc w (a @ 10 # b) = tlines_acc w (a @ [10]) @ tlines_acc [] b"
proof (induction w a rule: tlines_acc.induct)
  case (1 w)
  then show ?case by (simp add: break_point_def split: list.splits)
next
  case (2 w c s)
  show ?case
  proof (cases "break_point c")
    case False
    then show ?thesis using 2 by simp
  next
    case True
    show ?thesis
    proof (cases s)
      case Nil
      then show ?thesis using True by (simp add: break_point_def split: list.splits)
    next
      case (Cons d s')
      have "tlines_acc w ((c # s) @ 10 # t) = rev w # (if c = 13 \<and> d = 10 then tlines_acc [] (s' @ 10 # t) else tlines_acc [] (s @ 10 # t))" for t
        using tlines_acc_break [OF True] unfolding Cons by simp
      then show ?thesis using 2(1,2) [OF True Cons] by (cases "c = 13 \<and> d = 10") (simp_all del: tlines_acc.simps)
    qed
  qed
qed

lemma tsplitlines_append_lf: "tsplitlines (a @ 10 # b) = tsplitlines (a @ [10]) @ tsplitlines b"
  unfolding tsplitlines_def by (rule tlines_acc_append_lf)

end
