(* ===== verification/Gentoo.thy ===== *)
theory Gentoo
  imports Strict_Text Index_Fetch
begin

text \<open>
  \<open>parsers/gentoo.py\<close>: the Packages index of a binary host, read in slices.  \<open>decimal\<close> gives the value of a
  Unicode decimal digit; a digit that \<open>str.isdigit\<close> knows and \<open>int\<close> does not is refused either way.
\<close>

section \<open>Lines\<close>

definition gentoo_slice :: nat where
  "gentoo_slice = 1024 * 1024"

text \<open>\<open>raw.find(b'\n', start)\<close>, relative to \<open>start\<close>; the end of the slice lies right after it.\<close>

definition slice_end :: "nat \<Rightarrow> str \<Rightarrow> nat" where
  "slice_end n s = (let rest = drop n s in if LF \<in> set rest then n + length (takeWhile (\<lambda>c. c \<noteq> LF) rest) + 1 else length s)"

lemma slice_end_pos: "s \<noteq> [] \<Longrightarrow> 0 < slice_end n s"
  by (simp add: slice_end_def Let_def)

function slices :: "nat \<Rightarrow> str \<Rightarrow> str list" where
  "slices n s = (if s = [] then [] else take (slice_end n s) s # slices n (drop (slice_end n s) s))"
  by pat_completeness auto
termination by (relation "measure (\<lambda>(_, s). length s)") (auto intro: diff_less slice_end_pos)

declare slices.simps [simp del]

fun each_lines :: "str list \<Rightarrow> index_error + utext list" where
  "each_lines [] = Inr [[]]"
| "each_lines (s # ss) = bind (strict_text s) (\<lambda>t. bind (each_lines ss) (\<lambda>ls. Inr (tsplitlines t @ ls)))"

definition gentoo_lines :: "str \<Rightarrow> index_error + utext list" where
  "gentoo_lines raw = each_lines (slices gentoo_slice raw)"

section \<open>Records\<close>

type_synonym fields = "(utext \<times> utext) list"

definition gentoo_line :: "fields list \<times> fields \<Rightarrow> utext \<Rightarrow> index_error + (fields list \<times> fields)" where
  "gentoo_line s line =
     (case s of (records, current) \<Rightarrow>
        if tstrip line = [] then Inr (if current \<noteq> [] then (records @ [current], []) else (records, current))
        else (case partition_sep (lit '': '') line of
            None \<Rightarrow> Inl Value_error
          | Some (key, v) \<Rightarrow>
              if map_of current key \<noteq> None then Inl Value_error else Inr (records, current @ [(key, tstrip v)])))"

fun run_lines :: "('s \<Rightarrow> utext \<Rightarrow> 'e + 's) \<Rightarrow> 's \<Rightarrow> utext list \<Rightarrow> 'e + 's" where
  "run_lines step s [] = Inr s"
| "run_lines step s (l # ls) = bind (step s l) (\<lambda>s'. run_lines step s' ls)"

section \<open>Packages\<close>

definition digit_point :: "nat \<Rightarrow> bool" where
  "digit_point n \<longleftrightarrow> 48 \<le> n \<and> n \<le> 57"

definition name_point :: "nat \<Rightarrow> bool" where
  "name_point n \<longleftrightarrow> (48 \<le> n \<and> n \<le> 57) \<or> (65 \<le> n \<and> n \<le> 90) \<or> (97 \<le> n \<and> n \<le> 122) \<or> n \<in> set (lit ''_+.-'')"

definition cp_name :: "utext \<Rightarrow> bool" where
  "cp_name t \<longleftrightarrow> (case split_on (code CHR ''/'') t of [c, p] \<Rightarrow> c \<noteq> [] \<and> p \<noteq> [] \<and> list_all name_point (c @ p) | _ \<Rightarrow> False)"

text \<open>The tail of a version: dotted numbers, a letter, suffixes, a revision.  Each part is read as far as it goes.\<close>

definition revision_ok :: "utext \<Rightarrow> bool" where
  "revision_ok t \<longleftrightarrow> t = [] \<or> (tstarts (lit ''-r'') t \<and> drop 2 t \<noteq> [] \<and> list_all digit_point (drop 2 t))"

definition suffix_length :: "utext \<Rightarrow> nat" where
  "suffix_length t =
     (case find (\<lambda>w. tstarts w t) (map lit [''_alpha'', ''_beta'', ''_pre'', ''_rc'', ''_p'']) of None \<Rightarrow> 0 | Some w \<Rightarrow> length w)"

function suffixes_ok :: "utext \<Rightarrow> bool" where
  "suffixes_ok t =
     (if 0 < suffix_length t \<and> t \<noteq> [] then suffixes_ok (dropWhile digit_point (drop (suffix_length t) t)) else revision_ok t)"
  by pat_completeness auto
termination
  by (relation "measure length") (auto intro: le_less_trans [OF length_dropWhile_le])

declare suffixes_ok.simps [simp del]

definition letter_ok :: "utext \<Rightarrow> bool" where
  "letter_ok t \<longleftrightarrow> (case t of c # t' \<Rightarrow> if 97 \<le> c \<and> c \<le> 122 then suffixes_ok t' else suffixes_ok t | [] \<Rightarrow> True)"

function numbers_ok :: "utext \<Rightarrow> bool" where
  "numbers_ok t =
     (let rest = dropWhile digit_point t in
      t \<noteq> [] \<and> digit_point (hd t) \<and>
      (case rest of c # t' \<Rightarrow> if c = code CHR ''.'' then numbers_ok t' else letter_ok rest | [] \<Rightarrow> True))"
  by pat_completeness auto
termination
proof (relation "measure length", goal_cases)
  case (2 t rest c t')
  then have "length (c # t') \<le> length t" using length_dropWhile_le [of digit_point t] by simp
  then show ?case by simp
qed simp

declare numbers_ok.simps [simp del]

text \<open>\<open>_CPV.fullmatch\<close>: the name is the longest one before a dash that leaves a version.\<close>

fun split_cpv :: "nat \<Rightarrow> utext \<Rightarrow> (utext \<times> utext) option" where
  "split_cpv 0 t = None"
| "split_cpv (Suc i) t =
     (if drop i t \<noteq> [] \<and> t ! i = code CHR ''-'' \<and> cp_name (take i t) \<and> numbers_ok (drop (Suc i) t)
      then Some (take i t, drop (Suc i) t) else split_cpv i t)"

definition match_cpv :: "utext \<Rightarrow> (utext \<times> utext) option" where
  "match_cpv t = split_cpv (length t) t"

definition point_digits :: "utext \<Rightarrow> nat" where
  "point_digits t = foldl (\<lambda>n c. 10 * n + (c - 48)) 0 t"

definition tends :: "utext \<Rightarrow> utext \<Rightarrow> bool" where
  "tends p t \<longleftrightarrow> tstarts (rev p) (rev t)"

definition lower_point :: "nat \<Rightarrow> nat" where
  "lower_point n = (if 65 \<le> n \<and> n \<le> 90 then n + 32 else n)"

definition build_version :: "utext \<Rightarrow> utext \<Rightarrow> index_error + utext" where
  "build_version version build =
     (if build = [] then Inr version
      else if \<not> list_all digit_point build \<or> point_digits build < 1 then Inl Value_error
      else Inr (version @ lit ''-build'' @ lit (show_nat (point_digits build))))"

definition gentoo_package :: "fields \<Rightarrow> index_error + package_ref" where
  "gentoo_package entry =
     (let get = map_of entry; cpv = (case get (lit ''CPV'') of None \<Rightarrow> [] | Some t \<Rightarrow> t) in
      case match_cpv cpv of
        None \<Rightarrow> Inl Value_error
      | Some (name, version) \<Rightarrow>
          bind (build_version version (case get (lit ''BUILD_ID'') of None \<Rightarrow> [] | Some t \<Rightarrow> t)) (\<lambda>v.
          bind (safe_package_path (if given (get (lit ''PATH'')) then the (get (lit ''PATH'')) else cpv @ lit ''.tbz2'')) (\<lambda>filename.
            if \<not> list_ex (\<lambda>w. tends (lit w) filename) [''.gpkg.tar'', ''.tbz2'', ''.xpak''] then Inl Value_error
            else (case get (lit ''SHA256'') of
                None \<Rightarrow> Inr \<lparr>pf_name = name, pf_version = v, pf_filename = Some filename, pf_hash = None\<rparr>
              | Some digest \<Rightarrow>
                  if \<not> sha256_hex digest then Inl Value_error
                  else Inr \<lparr>pf_name = name, pf_version = v, pf_filename = Some filename, pf_hash = Some (map lower_point digest)\<rparr>))))"

definition int_of_text :: "(nat \<Rightarrow> nat option) \<Rightarrow> utext \<Rightarrow> nat option" where
  "int_of_text decimal t =
     (if t = [] \<or> list_ex (\<lambda>c. decimal c = None) t then None else Some (foldl (\<lambda>n c. 10 * n + the (decimal c)) 0 t))"

definition trim_slash :: "utext \<Rightarrow> utext" where
  "trim_slash t = rev (dropWhile (\<lambda>c. c = code CHR ''/'') (rev t))"

definition gentoo_packages :: "(nat \<Rightarrow> nat option) \<Rightarrow> utext \<Rightarrow> str \<Rightarrow> index_error + package_ref list" where
  "gentoo_packages decimal upstream raw =
     bind (gentoo_lines raw) (\<lambda>ls.
     bind (run_lines gentoo_line ([], []) ls) (\<lambda>(records, _).
       case records of
         [] \<Rightarrow> Inl Value_error
       | heading # entries \<Rightarrow>
           if map_of heading (lit ''VERSION'') \<noteq> Some (lit ''0'') then Inl Value_error
           else if trim_slash (case map_of heading (lit ''URI'') of None \<Rightarrow> upstream | Some u \<Rightarrow> u) \<noteq> trim_slash upstream then Inl Value_error
           else if int_of_text decimal (case map_of heading (lit ''PACKAGES'') of None \<Rightarrow> [] | Some t \<Rightarrow> t) \<noteq> Some (length entries)
           then Inl Value_error
           else distinct_packages (\<lambda>e. map_sum id Some (gentoo_package e)) [] entries))"

definition gentoo_index_url :: "str \<Rightarrow> str" where
  "gentoo_index_url base = rstrip_char CHR ''/'' base @ ''/Packages''"

definition fetch_binhost :: "fetch_env \<Rightarrow> (nat \<Rightarrow> nat option) \<Rightarrow> str \<Rightarrow> index_error + package_ref list" where
  "fetch_binhost env decimal base =
     bind (http_get (fe_http env) (gentoo_index_url base)) (\<lambda>raw. gentoo_packages decimal (lit base) raw)"

section \<open>Slices\<close>

lemma slices_concat: "concat (slices n s) = s"
  by (induction n s rule: slices.induct) (subst slices.simps, simp)

lemma slice_end_lf: "slice_end n s < length s \<Longrightarrow> \<exists>a b. s = a @ LF # b \<and> take (slice_end n s) s = a @ [LF] \<and> drop (slice_end n s) s = b"
proof -
  assume less: "slice_end n s < length s"
  have lf: "LF \<in> set (drop n s)" and stop: "slice_end n s = n + length (takeWhile (\<lambda>c. c \<noteq> LF) (drop n s)) + 1"
    using less by (auto simp: slice_end_def Let_def split: if_splits)
  obtain w b where rest: "drop n s = w @ LF # b" "LF \<notin> set w" using split_list_first [OF lf] by blast
  have "takeWhile (\<lambda>c. c \<noteq> LF) (w @ LF # b) = w" using rest(2) by (auto simp: takeWhile_append)
  then have stop: "slice_end n s = n + length w + 1" using stop rest(1) by simp
  have n: "n \<le> length s" using rest(1) by (cases "n \<le> length s") simp_all
  obtain p where p: "p = take n s @ w" by blast
  have "s = take n s @ drop n s" by simp
  also have "\<dots> = p @ LF # b" by (simp only: p rest(1) append_assoc)
  finally have s: "s = p @ LF # b" .
  have "slice_end n s = length p + 1" using stop n by (simp add: p)
  then have "take (slice_end n s) s = p @ [LF]" "drop (slice_end n s) s = b" using s by simp_all
  then show ?thesis using s by blast
qed

text \<open>Reading the index slice by slice yields the lines of the whole document, or fails exactly when the whole
  is not valid UTF-8: no slice splits a character or a line.\<close>

theorem gentoo_lines_whole:
  "gentoo_lines raw = bind (strict_text raw) (\<lambda>t. Inr (tsplitlines t @ [[]]))"
proof -
  have "each_lines (slices n s) = bind (strict_text s) (\<lambda>t. Inr (tsplitlines t @ [[]]))" for n s
  proof (induction n s rule: slices.induct)
    case (1 n s)
    show ?case
    proof (cases "s = []")
      case True
      then show ?thesis by (simp add: slices.simps strict_text_def decode_strict_def decode_def tsplitlines_def)
    next
      case False
      let ?stop = "slice_end n s"
      have step: "each_lines (slices n s) = bind (strict_text (take ?stop s)) (\<lambda>t. bind (strict_text (drop ?stop s)) (\<lambda>u. Inr (tsplitlines t @ tsplitlines u @ [[]])))"
        using False 1 by (simp add: slices.simps [of n s] result_bind_assoc)
      show ?thesis
      proof (cases "?stop < length s")
        case False
        then show ?thesis unfolding step by (simp add: strict_text_def decode_strict_def decode_def tsplitlines_def)
      next
        case True
        then obtain a b where s: "s = a @ LF # b" "take ?stop s = a @ [LF]" "drop ?stop s = b" using slice_end_lf by blast
        have lf: "code LF < 128" "code LF = 10" by simp_all
        have nil: "decode_strict [] = Some []" by (simp add: decode_strict_def decode_def)
        note parts = decode_strict_append [OF lf(1), of a "[]"] decode_strict_append [OF lf(1), of a b]
        show ?thesis
        proof (cases "decode_strict a = None \<or> decode_strict b = None")
          case True
          then show ?thesis unfolding step s(2,3) unfolding s(1) using parts nil by (auto simp: strict_text_def split: option.splits)
        next
          case False
          then obtain x y where "decode_strict a = Some x" "decode_strict b = Some y" by auto
          then show ?thesis unfolding step s(2,3) unfolding s(1) using parts nil lf(2) tsplitlines_append_lf [of x y]
            by (simp add: strict_text_def)
        qed
      qed
    qed
  qed
  then show ?thesis by (simp add: gentoo_lines_def)
qed

end
