(* ===== verification/Slackware.thy ===== *)
theory Slackware
  imports Strict_Text Index_Fetch
begin

text \<open>
  \<open>parsers/slackware.py\<close>: PACKAGES.TXT and the check against a signed CHECKSUMS.md5.  \<open>md5\<close> is a parameter.
  A block without any line, an IndexError in the code, counts as a value error like the other refusals.
\<close>

section \<open>PACKAGES.TXT\<close>

definition summary_line :: "utext \<Rightarrow> bool" where
  "summary_line l \<longleftrightarrow>
     (let lead = lit ''Total size of all packages (compressed):''; rest = drop (length lead) l;
          number = dropWhile (\<lambda>c. c = 32) rest; ending = dropWhile (\<lambda>c. 48 \<le> c \<and> c \<le> 57) number
      in tstarts lead l \<and> tstarts [32] rest \<and> number \<noteq> ending \<and> ending = lit '' MB'')"

text \<open>\<open>re.split(r'^PACKAGE NAME: *', text)\<close> without its first part; the lines of a block are joined again.\<close>

definition name_line :: "utext \<Rightarrow> utext option" where
  "name_line l = (if tstarts (lit ''PACKAGE NAME:'') l then Some (dropWhile (\<lambda>c. c = 32) (drop 13 l)) else None)"

fun blocks_of :: "utext list \<Rightarrow> utext list list" where
  "blocks_of [] = []"
| "blocks_of (l # ls) =
     (case name_line l of
        None \<Rightarrow> blocks_of ls
      | Some rest \<Rightarrow> (rest # takeWhile (\<lambda>m. name_line m = None) ls) # blocks_of ls)"

definition block_text :: "utext list \<Rightarrow> bool \<Rightarrow> utext" where
  "block_text ls terminated = join [10] ls @ (if terminated then [10] else [])"

fun block_texts :: "utext list list \<Rightarrow> utext list" where
  "block_texts [] = []"
| "block_texts [b] = [block_text b False]"
| "block_texts (b # bs) = block_text b True # block_texts bs"

fun before :: "utext \<Rightarrow> utext \<Rightarrow> utext" where
  "before sep [] = []"
| "before sep (c # t) = (if tstarts sep (c # t) then [] else c # before sep t)"

text \<open>\<open>^PACKAGE LOCATION: *(\S+)\s*$\<close>\<close>

definition location_line :: "utext \<Rightarrow> utext option" where
  "location_line l =
     (let rest = dropWhile (\<lambda>c. c = 32) (drop 17 l); word = takeWhile (\<lambda>c. \<not> space_point c) rest
      in if tstarts (lit ''PACKAGE LOCATION:'') l \<and> word \<noteq> [] \<and> list_all space_point (drop (length word) rest) then Some word else None)"

definition locations :: "utext \<Rightarrow> utext list" where
  "locations block = List.map_filter location_line (split_on 10 (before (lit ''PACKAGE DESCRIPTION:'') block))"

definition dash :: nat where
  "dash = code CHR ''-''"

text \<open>\<open>filename[:-4].rsplit('-', 3)\<close>\<close>

definition name_parts :: "utext \<Rightarrow> utext list" where
  "name_parts filename =
     (let ws = split_on dash (take (length filename - 4) filename); n = length ws in
      if n \<le> 3 then ws else join [dash] (take (n - 3) ws) # drop (n - 3) ws)"

definition without_dot :: "utext \<Rightarrow> utext" where
  "without_dot t = (if tstarts (lit ''./'') t then drop 2 t else t)"

definition package_suffix :: "utext \<Rightarrow> bool" where
  "package_suffix t \<longleftrightarrow> list_ex (\<lambda>w. tstarts (rev (lit w)) (rev t)) [''.tgz'', ''.txz'', ''.tlz'', ''.tbz'']"

definition slackware_package :: "utext \<Rightarrow> utext \<Rightarrow> index_error + package_ref option" where
  "slackware_package arch block =
     (case tsplitlines block of
        [] \<Rightarrow> Inl Value_error
      | l # _ \<Rightarrow> bind (safe_package_path (tstrip l)) (\<lambda>filename.
          if code CHR ''/'' \<in> set filename \<or> \<not> package_suffix filename then Inl Value_error
          else (case name_parts filename of
            [name, version, package_arch, build] \<Rightarrow>
              if [] \<in> set [name, version, package_arch, build] then Inl Value_error
              else (case locations block of
                [location] \<Rightarrow>
                  bind (safe_package_path (if without_dot location \<noteq> [] then without_dot location @ lit ''/'' @ filename else filename)) (\<lambda>path.
                    if package_arch \<notin> set [arch, lit ''noarch'', lit ''fw''] then Inr None
                    else Inr (Some \<lparr>pf_name = name, pf_version = version @ lit ''-'' @ package_arch @ lit ''-'' @ build,
                           pf_filename = Some path, pf_hash = None\<rparr>))
              | _ \<Rightarrow> Inl Value_error)
          | _ \<Rightarrow> Inl Value_error)))"

definition slackware_packages :: "utext \<Rightarrow> str \<Rightarrow> index_error + package_ref list" where
  "slackware_packages arch raw =
     bind (strict_text raw) (\<lambda>t.
       if \<not> tstarts (lit ''PACKAGES.TXT;'') (dropWhile space_point t) then Inl Value_error
       else if \<not> list_ex summary_line (split_on 10 t) then Inl Value_error
       else distinct_packages (slackware_package arch) [] (block_texts (blocks_of (split_on 10 t))))"

section \<open>CHECKSUMS.md5\<close>

definition md5_line :: "utext \<Rightarrow> (utext \<times> utext) option" where
  "md5_line l =
     (let digest = take 32 l; rest = drop 32 l in
      if length digest = 32 \<and> list_all hex_point digest \<and> (tstarts (lit ''  '') rest \<or> tstarts (lit '' *'') rest) \<and> drop 2 rest \<noteq> []
      then Some (digest, drop 2 rest) else None)"

definition lower_digest :: "utext \<Rightarrow> utext" where
  "lower_digest t = map (\<lambda>n. if 65 \<le> n \<and> n \<le> 90 then n + 32 else n) t"

definition listed_digests :: "utext \<Rightarrow> utext \<Rightarrow> utext list" where
  "listed_digests checksums index_path =
     List.map_filter (\<lambda>l. case md5_line l of
         None \<Rightarrow> None
       | Some (digest, filename) \<Rightarrow> if without_dot filename = index_path then Some (lower_digest digest) else None)
       (tsplitlines checksums)"

definition check_md5 :: "(str \<Rightarrow> utext) \<Rightarrow> str \<Rightarrow> str \<Rightarrow> utext \<Rightarrow> index_error + unit" where
  "check_md5 md5 raw checksums index_path =
     bind (strict_text checksums) (\<lambda>t. if listed_digests t index_path = [md5 raw] then Inr () else Inl Signature_error)"

definition slackware_index_path :: "repo_config \<Rightarrow> str" where
  "slackware_index_path r = (if truthy (rp_component r) then opt_str (rp_component r) @ ''/PACKAGES.TXT'' else ''PACKAGES.TXT'')"

definition slackware_index_url :: "str \<Rightarrow> repo_config \<Rightarrow> str" where
  "slackware_index_url base r = rstrip_char CHR ''/'' base @ ''/'' @ slackware_index_path r"

definition fetch_slackware :: "fetch_env \<Rightarrow> (str \<Rightarrow> utext) \<Rightarrow> str \<Rightarrow> repo_config \<Rightarrow> index_error + (signers \<times> package_ref list)" where
  "fetch_slackware env md5 base r =
     bind (http_get (fe_http env) (slackware_index_url base r)) (\<lambda>raw.
     bind (if rp_verify r
           then let root = rstrip_char CHR ''/'' base in
             bind (http_get (fe_http env) (root @ ''/CHECKSUMS.md5'')) (\<lambda>checksums.
             bind (http_get (fe_http env) (root @ ''/CHECKSUMS.md5.asc'')) (\<lambda>signature.
             bind (detached_by env r checksums signature) (\<lambda>signers.
             bind (check_md5 md5 raw checksums (lit (slackware_index_path r))) (\<lambda>_. Inr signers))))
           else Inr []) (\<lambda>signers.
     bind (slackware_packages (lit (rp_arch r)) raw) (\<lambda>packages. Inr (signers, packages))))"

section \<open>Properties\<close>

lemma slackware_distinct:
  assumes "slackware_packages arch raw = Inr ps"
  shows "distinct (map ref_key ps)"
  using assms distinct_packages_ok [of _ "[]"] by (auto simp: slackware_packages_def bind_Inr split: if_splits)

lemma check_md5_ok:
  assumes "check_md5 md5 raw checksums index_path = Inr u"
  shows "\<exists>t. decode_strict checksums = Some t \<and> listed_digests t index_path = [md5 raw]"
  using assms by (auto simp: check_md5_def bind_Inr strict_text_def split: option.splits if_splits)

text \<open>With verification on, the packages of a Slackware repository are those of an index whose one digest is
  listed, under its path, in a checksum file that a key of the keyring signed.\<close>

theorem slackware_index_authenticated:
  assumes "fetch_slackware env md5 base r = Inr (signers, packages)" "rp_verify r"
  shows "\<exists>raw checksums signature keyring t. fe_http env (slackware_index_url base r) = Body raw \<and>
    fe_http env (rstrip_char CHR ''/'' base @ ''/CHECKSUMS.md5'') = Body checksums \<and>
    rp_keyring r = Some keyring \<and> vouched (fe_gpgv env) keyring signature checksums \<and>
    decode_strict checksums = Some t \<and> listed_digests t (lit (slackware_index_path r)) = [md5 raw] \<and>
    slackware_packages (lit (rp_arch r)) raw = Inr packages"
proof -
  obtain raw checksums signature u where steps: "fe_http env (slackware_index_url base r) = Body raw"
      "fe_http env (rstrip_char CHR ''/'' base @ ''/CHECKSUMS.md5'') = Body checksums"
      "detached_by env r checksums signature = Inr signers" "check_md5 md5 raw checksums (lit (slackware_index_path r)) = Inr u"
      "slackware_packages (lit (rp_arch r)) raw = Inr packages"
    using assms by (auto simp: fetch_slackware_def bind_Inr Let_def http_get_def split: http_answer.splits)
  then show ?thesis using detached_by_vouched [OF steps(3)] check_md5_ok [OF steps(4)] by blast
qed

end
