(* ===== verification/Apt_Rpm.thy ===== *)
theory Apt_Rpm
  imports Strict_Text Index_Fetch
begin

text \<open>
  \<open>parsers/apt_rpm.py\<close>: the signed release of an APT-RPM repository and its list of RPM headers, read from a
  decompressed stream.  The decompressors and the hash functions are parameters: \<open>inflate\<close> yields the
  decompressed bytes and whether the stream ends in an error.  \<open>decimal\<close> gives the value of a Unicode decimal
  digit; a digit that \<open>int\<close> does not read counts as a malformed size.
\<close>

section \<open>Release\<close>

type_synonym checksum = "str \<times> utext \<times> nat"

definition pgp_marker :: str where
  "pgp_marker = ''-----BEGIN PGP SIGNATURE-----''"

definition release_body :: "fetch_env \<Rightarrow> repo_config \<Rightarrow> str \<Rightarrow> index_error + (str \<times> signers)" where
  "release_body env r raw =
     (case partition_at pgp_marker raw of
        None \<Rightarrow> if rp_verify r \<and> truthy (rp_keyring r) then Inl Signature_error else Inr (raw, [])
      | Some (body, signature) \<Rightarrow>
          if rp_verify r \<and> truthy (rp_keyring r)
          then bind (detached_by env r body (pgp_marker @ signature)) (\<lambda>signers. Inr (body, signers))
          else Inr (body, []))"

definition algorithm_of :: "utext \<Rightarrow> str option" where
  "algorithm_of line =
     (if line = lit ''BLAKE2b:'' then Some ''blake2b'' else if line = lit ''SHA256:'' then Some ''sha256'' else None)"

definition rank_of :: "str \<Rightarrow> nat" where
  "rank_of algorithm = (if algorithm = ''blake2b'' then 2 else 1)"

definition decimal_value :: "(nat \<Rightarrow> nat option) \<Rightarrow> utext \<Rightarrow> nat option" where
  "decimal_value decimal t =
     (if t = [] \<or> list_ex (\<lambda>c. decimal c = None) t then None else Some (foldl (\<lambda>n c. 10 * n + the (decimal c)) 0 t))"

definition lower_hex :: "utext \<Rightarrow> utext" where
  "lower_hex t = map (\<lambda>n. if 65 \<le> n \<and> n \<le> 90 then n + 32 else n) t"

definition checksum_entry :: "(nat \<Rightarrow> nat option) \<Rightarrow> str \<Rightarrow> utext \<Rightarrow> index_error + (utext \<times> checksum)" where
  "checksum_entry decimal algorithm line =
     (case tsplit line of
        [digest, n, path] \<Rightarrow>
          if length digest \<noteq> (if algorithm = ''blake2b'' then 128 else 64) \<or> \<not> list_all hex_point digest then Inl Signature_error
          else (case decimal_value decimal n of None \<Rightarrow> Inl Signature_error | Some k \<Rightarrow> Inr (path, algorithm, lower_hex digest, k))
      | _ \<Rightarrow> Inl Signature_error)"

definition add_checksum :: "utext \<Rightarrow> checksum \<Rightarrow> (utext \<times> checksum) list \<Rightarrow> index_error + (utext \<times> checksum) list" where
  "add_checksum path entry entries =
     (case map_of entries path of
        None \<Rightarrow> Inr (AList.update path entry entries)
      | Some previous \<Rightarrow>
          if fst previous = fst entry then Inl Signature_error
          else if rank_of (fst previous) > rank_of (fst entry) then Inr entries
          else Inr (AList.update path entry entries))"

fun checksum_lines :: "(nat \<Rightarrow> nat option) \<Rightarrow> str option \<Rightarrow> utext list \<Rightarrow> (utext \<times> checksum) list \<Rightarrow> index_error + (utext \<times> checksum) list" where
  "checksum_lines decimal algorithm [] entries = Inr entries"
| "checksum_lines decimal algorithm (line # lines) entries =
     (if \<not> (tstarts (lit '' '') line \<or> tstarts [9] line) then checksum_lines decimal (algorithm_of line) lines entries
      else case algorithm of
        None \<Rightarrow> checksum_lines decimal algorithm lines entries
      | Some a \<Rightarrow> bind (checksum_entry decimal a line) (\<lambda>(path, entry).
                  bind (add_checksum path entry entries) (\<lambda>es. checksum_lines decimal algorithm lines es)))"

definition release_checksums :: "(nat \<Rightarrow> nat option) \<Rightarrow> str \<Rightarrow> index_error + (utext \<times> checksum) list" where
  "release_checksums decimal body = bind (strict_text body) (\<lambda>t. checksum_lines decimal None (tsplitlines t) [])"

definition check_digest :: "(str \<Rightarrow> str \<Rightarrow> utext) \<Rightarrow> str \<Rightarrow> checksum \<Rightarrow> bool" where
  "check_digest hash raw expected \<longleftrightarrow> (case expected of (algorithm, digest, n) \<Rightarrow> length raw = n \<and> hash algorithm raw = digest)"

section \<open>Bounded reading\<close>

definition max_expanded :: nat where
  "max_expanded = 512 * 1024 * 1024"

record reader =
  rd_done :: str
  rd_rest :: str
  rd_damaged :: bool

definition read_bytes :: "checksum option \<Rightarrow> nat \<Rightarrow> reader \<Rightarrow> index_error + (str \<times> reader)" where
  "read_bytes expected n r =
     (if length (rd_rest r) < n \<and> rd_damaged r then Inl Decode_error
      else let data = take n (rd_rest r); count = length (rd_done r) + length data in
        if count > max_expanded \<or> (case expected of None \<Rightarrow> False | Some (_, _, k) \<Rightarrow> count > k) then Inl Signature_error
        else Inr (data, r\<lparr>rd_done := rd_done r @ data, rd_rest := drop n (rd_rest r)\<rparr>))"

definition finish_reading :: "(str \<Rightarrow> str \<Rightarrow> utext) \<Rightarrow> checksum option \<Rightarrow> reader \<Rightarrow> index_error + unit" where
  "finish_reading hash expected r =
     (case expected of None \<Rightarrow> Inr () | Some e \<Rightarrow> if check_digest hash (rd_done r) e then Inr () else Inl Signature_error)"

section \<open>RPM headers\<close>

definition rpm_magic :: str where
  "rpm_magic = map char_of [0x8E, 0xAD, 0xE8, 1, 0, 0, 0, 0::nat]"

text \<open>\<open>struct.unpack('>I')\<close>\<close>

definition be32 :: "str \<Rightarrow> nat" where
  "be32 s = foldl (\<lambda>n c. 256 * n + code c) 0 (take 4 s)"

definition string_tags :: "nat list" where
  "string_tags = [1000, 1001, 1002, 1022, 1155, 1000000, 1000010]"

definition int_tags :: "nat list" where
  "int_tags = [1003, 1006]"

record tag_values =
  tv_seen :: "nat list"
  tv_strings :: "(nat \<times> utext) list"
  tv_ints :: "(nat \<times> nat) list"

definition no_values :: tag_values where
  "no_values = \<lparr>tv_seen = [], tv_strings = [], tv_ints = []\<rparr>"

definition read_tag :: "str \<Rightarrow> str \<Rightarrow> tag_values \<Rightarrow> index_error + tag_values" where
  "read_tag data entry v =
     (let tag = be32 entry; kind = be32 (drop 4 entry); offset = be32 (drop 8 entry); items = be32 (drop 12 entry) in
      if tag \<in> set (tv_seen v) \<or> offset \<ge> length data then Inl Value_error
      else let v1 = v\<lparr>tv_seen := tag # tv_seen v\<rparr> in
        if tag \<in> set string_tags then
          if kind \<noteq> 6 \<or> items \<noteq> 1 then Inl Value_error
          else if CHR 0x00 \<notin> set (drop offset data) then Inl Value_error
          else bind (strict_text (takeWhile (\<lambda>c. c \<noteq> CHR 0x00) (drop offset data))) (\<lambda>t.
               Inr (v1\<lparr>tv_strings := (tag, t) # tv_strings v1\<rparr>))
        else if tag \<in> set int_tags then
          if kind \<noteq> 4 \<or> items \<noteq> 1 \<or> offset + 4 > length data then Inl Value_error
          else Inr (v1\<lparr>tv_ints := (tag, be32 (drop offset data)) # tv_ints v1\<rparr>)
        else Inr v1)"

function read_tags :: "str \<Rightarrow> str \<Rightarrow> tag_values \<Rightarrow> index_error + tag_values" where
  "read_tags data index v =
     (if index = [] then Inr v else bind (read_tag data (take 16 index) v) (\<lambda>v1. read_tags data (drop 16 index) v1))"
  by pat_completeness auto
termination by (relation "measure (\<lambda>(_, index, _). length index)") auto

declare read_tags.simps [simp del]

definition rpm_relative :: "utext \<Rightarrow> index_error + utext" where
  "rpm_relative v =
     (if v = [] \<or> \<not> list_all package_path_point v \<or> tstarts (lit ''/'') v \<or>
         list_ex (\<lambda>p. p \<in> set [[], lit ''.'', lit ''..'']) (split_on (code CHR ''/'') v)
      then Inl Value_error else Inr v)"

definition rpm_version :: "tag_values \<Rightarrow> utext" where
  "rpm_version v =
     (let text = (\<lambda>tag. the (map_of (tv_strings v) tag)); num = (\<lambda>tag. case map_of (tv_ints v) tag of None \<Rightarrow> 0 | Some n \<Rightarrow> n)
      in (if num 1003 \<noteq> 0 then lit (show_nat (num 1003)) @ lit '':'' else []) @ text 1001 @ lit ''-'' @ text 1002 @
         (if given (map_of (tv_strings v) 1155) then lit '':'' @ text 1155 else []) @
         (if num 1006 \<noteq> 0 then lit ''@'' @ lit (show_nat (num 1006)) else []))"

definition rpm_package :: "utext \<Rightarrow> utext \<Rightarrow> tag_values \<Rightarrow> index_error + package_ref option" where
  "rpm_package arch component v =
     (let text = map_of (tv_strings v) in
      if list_ex (\<lambda>tag. \<not> given (text tag)) [1000, 1001, 1002, 1022, 1000000] then Inl Value_error
      else bind (rpm_relative (the (text 1000000))) (\<lambda>filename.
           bind (rpm_relative (case text 1000010 of None \<Rightarrow> lit ''RPMS.'' @ component | Some d \<Rightarrow> d)) (\<lambda>directory.
             if code CHR ''/'' \<in> set filename \<or> \<not> tstarts (rev (lit ''.rpm'')) (rev filename) then Inl Value_error
             else if the (text 1022) \<notin> set [arch, lit ''noarch''] then Inr None
             else Inr (Some \<lparr>pf_name = the (text 1000), pf_version = rpm_version v @ lit ''.'' @ the (text 1022),
                    pf_filename = Some (directory @ lit ''/'' @ filename), pf_hash = None\<rparr>))))"

text \<open>One header: \<open>None\<close> at the end of the stream.\<close>

definition read_header :: "checksum option \<Rightarrow> reader \<Rightarrow> index_error + ((str \<times> str) option \<times> reader)" where
  "read_header expected r =
     bind (read_bytes expected 16 r) (\<lambda>(header, r1).
       if header = [] then Inr (None, r1)
       else if length header \<noteq> 16 \<or> take 8 header \<noteq> rpm_magic then Inl Value_error
       else let count = be32 (drop 8 header); n = be32 (drop 12 header) in
         if \<not> (1 \<le> count \<and> count \<le> 65536) \<or> \<not> (1 \<le> n \<and> n \<le> 64 * 1024 * 1024) then Inl Value_error
         else bind (read_bytes expected (count * 16) r1) (\<lambda>(index, r2).
              bind (read_bytes expected n r2) (\<lambda>(data, r3).
                if length index \<noteq> count * 16 \<or> length data \<noteq> n then Inl Value_error else Inr (Some (index, data), r3))))"

lemma read_bytes_ok:
  assumes "read_bytes expected n r = Inr (data, r1)"
  shows "data = take n (rd_rest r)" "rd_rest r1 = drop n (rd_rest r)" "rd_done r1 = rd_done r @ data" "length (rd_done r1) \<le> max_expanded"
    "expected = Some (a, d, k) \<Longrightarrow> length (rd_done r1) \<le> k"
  using assms by (auto simp: read_bytes_def Let_def split: if_splits)

lemma read_header_ok:
  assumes "read_header expected r = Inr (found, r1)"
  shows "length (rd_rest r1) \<le> length (rd_rest r)" "found \<noteq> None \<Longrightarrow> length (rd_rest r1) < length (rd_rest r)"
    "rd_done r1 @ rd_rest r1 = rd_done r @ rd_rest r" "found = None \<Longrightarrow> rd_rest r1 = []"
proof -
  obtain header r2 where h: "read_bytes expected 16 r = Inr (header, r2)" using assms by (auto simp: read_header_def bind_Inr)
  note first = read_bytes_ok [OF h]
  have join1: "rd_done r2 @ rd_rest r2 = rd_done r @ rd_rest r" using first(1-3) by simp
  show "length (rd_rest r1) \<le> length (rd_rest r)" "found \<noteq> None \<Longrightarrow> length (rd_rest r1) < length (rd_rest r)"
    "rd_done r1 @ rd_rest r1 = rd_done r @ rd_rest r" "found = None \<Longrightarrow> rd_rest r1 = []"
  proof -
    have "(found = None \<and> r1 = r2 \<and> header = []) \<or> (\<exists>index data r3 n m. found = Some (index, data) \<and> length header = 16 \<and>
        read_bytes expected n r2 = Inr (index, r3) \<and> read_bytes expected m r3 = Inr (data, r1))"
      using assms h by (fastforce simp: read_header_def bind_Inr Let_def split: if_splits)
    then consider "found = None" "r1 = r2" "header = []" |
      index data r3 n m where "found = Some (index, data)" "length header = 16" "read_bytes expected n r2 = Inr (index, r3)"
        "read_bytes expected m r3 = Inr (data, r1)" by blast
    then have "length (rd_rest r1) \<le> length (rd_rest r) \<and> (found \<noteq> None \<longrightarrow> length (rd_rest r1) < length (rd_rest r)) \<and>
        rd_done r1 @ rd_rest r1 = rd_done r @ rd_rest r \<and> (found = None \<longrightarrow> rd_rest r1 = [])"
    proof cases
      case 1
      then show ?thesis using first join1 by auto
    next
      case 2
      note second = read_bytes_ok [OF 2(3)] and third = read_bytes_ok [OF 2(4)]
      have "rd_done r1 @ rd_rest r1 = rd_done r3 @ rd_rest r3" using third(1-3) by simp
      also have "\<dots> = rd_done r2 @ rd_rest r2" using second(1-3) by simp
      finally have "rd_done r1 @ rd_rest r1 = rd_done r2 @ rd_rest r2" .
      moreover have "length (rd_rest r2) + 16 \<le> length (rd_rest r)" using first(1,2) 2(2) by simp
      moreover have "length (rd_rest r1) \<le> length (rd_rest r2)" using second(2) third(2) by simp
      ultimately show ?thesis using join1 2(1) by simp
    qed
    then show "length (rd_rest r1) \<le> length (rd_rest r)" "found \<noteq> None \<Longrightarrow> length (rd_rest r1) < length (rd_rest r)"
      "rd_done r1 @ rd_rest r1 = rd_done r @ rd_rest r" "found = None \<Longrightarrow> rd_rest r1 = []" by blast+
  qed
qed

function rpm_loop :: "checksum option \<Rightarrow> utext \<Rightarrow> utext \<Rightarrow> package_ref list \<Rightarrow> reader \<Rightarrow> index_error + (package_ref list \<times> reader)" where
  "rpm_loop expected arch component packages r =
     bind (read_header expected r) (\<lambda>(found, r1).
       case found of
         None \<Rightarrow> Inr (packages, r1)
       | Some (index, data) \<Rightarrow>
           bind (read_tags data index no_values) (\<lambda>v.
           bind (rpm_package arch component v) (\<lambda>package.
             case package of
               None \<Rightarrow> rpm_loop expected arch component packages r1
             | Some p \<Rightarrow> if ref_key p \<in> set (map ref_key packages) then Inl Value_error
                         else rpm_loop expected arch component (packages @ [p]) r1)))"
  by pat_completeness auto
termination
proof (relation "measure (\<lambda>(_, _, _, _, r). length (rd_rest r))", goal_cases)
  case (2 expected arch component packages r z found r1 entry index data v p)
  then have "read_header expected r = Inr (Some (index, data), r1)" by simp
  then show ?case using read_header_ok(2) by auto
next
  case (3 expected arch component packages r z found r1 entry index data v p q)
  then have "read_header expected r = Inr (Some (index, data), r1)" by simp
  then show ?case using read_header_ok(2) by auto
qed simp

declare rpm_loop.simps [simp del]

definition parse_pkglist :: "(str \<Rightarrow> str \<Rightarrow> str \<times> bool) \<Rightarrow> (str \<Rightarrow> str \<Rightarrow> utext) \<Rightarrow> str \<Rightarrow> str \<Rightarrow> utext \<Rightarrow> utext \<Rightarrow> checksum option \<Rightarrow>
    index_error + package_ref list" where
  "parse_pkglist inflate hash raw compression arch component expected =
     (let (plain, damaged) = (if compression = [] then (raw, False) else inflate compression raw) in
      bind (rpm_loop expected arch component [] \<lparr>rd_done = [], rd_rest = plain, rd_damaged = damaged\<rparr>) (\<lambda>(packages, r).
      bind (finish_reading hash expected r) (\<lambda>_. Inr packages)))"

section \<open>Fetching\<close>

record apt_rpm_env =
  ar_fetch :: fetch_env
  ar_decimal :: "nat \<Rightarrow> nat option"
  ar_hash :: "str \<Rightarrow> str \<Rightarrow> utext"
  ar_expand :: "str \<Rightarrow> str \<Rightarrow> str \<times> bool"

definition rpm_release_url :: "str \<Rightarrow> str" where
  "rpm_release_url base = rstrip_char CHR ''/'' base @ ''/base/release''"

definition pkglist_name :: "repo_config \<Rightarrow> str" where
  "pkglist_name r = ''base/pkglist.'' @ opt_str (rp_component r)"

definition fetch_pkglist :: "apt_rpm_env \<Rightarrow> str \<Rightarrow> repo_config \<Rightarrow> index_error + (signers \<times> package_ref list)" where
  "fetch_pkglist env base r =
     bind (http_get (fe_http (ar_fetch env)) (rpm_release_url base)) (\<lambda>release.
     bind (release_body (ar_fetch env) r release) (\<lambda>(body, signers).
     bind (release_checksums (ar_decimal env) body) (\<lambda>entries.
       case find (\<lambda>e. map_of entries (lit (pkglist_name r @ e)) \<noteq> None) [''.xz'', ''.bz2'', ''.gz'', []] of
         None \<Rightarrow> Inl Signature_error
       | Some compression \<Rightarrow>
           let expected = the (map_of entries (lit (pkglist_name r @ compression))) in
           bind (http_get (fe_http (ar_fetch env)) (rstrip_char CHR ''/'' base @ ''/'' @ pkglist_name r @ compression)) (\<lambda>raw.
             if \<not> check_digest (ar_hash env) raw expected then Inl Signature_error
             else bind (parse_pkglist (ar_expand env) (ar_hash env) raw compression (lit (rp_arch r)) (lit (opt_str (rp_component r)))
                         (map_of entries (lit (pkglist_name r)))) (\<lambda>packages. Inr (signers, packages))))))"

section \<open>Properties\<close>

lemma rpm_loop_ok:
  "rpm_loop expected arch component packages r = Inr (ps, r1) \<Longrightarrow> distinct (map ref_key packages) \<Longrightarrow>
   distinct (map ref_key ps) \<and> rd_done r1 = rd_done r @ rd_rest r \<and> rd_rest r1 = [] \<and> length (rd_done r1) \<le> max_expanded \<and>
   (case expected of None \<Rightarrow> True | Some (_, _, k) \<Rightarrow> length (rd_done r1) \<le> k)"
proof (induction expected arch component packages r arbitrary: ps r1 rule: rpm_loop.induct)
  case (1 expected arch component packages r)
  obtain found r2 where head: "read_header expected r = Inr (found, r2)"
    using 1(3) by (auto simp: rpm_loop.simps [of expected arch component packages r] bind_Inr)
  note facts = read_header_ok [OF head]
  show ?case
  proof (cases found)
    case None
    have "r1 = r2" "ps = packages" using 1(3) head None by (simp_all add: rpm_loop.simps [of expected arch component packages r])
    moreover have "read_bytes expected 16 r = Inr ([], r2)"
      using head None by (auto simp: read_header_def bind_Inr Let_def split: if_splits)
    note last = read_bytes_ok [OF this]
    have "case expected of None \<Rightarrow> True | Some (_, _, k) \<Rightarrow> length (rd_done r2) \<le> k" using last(5) by (auto split: option.splits)
    ultimately show ?thesis using facts(3,4) None last(4) 1(4) by (auto split: option.splits)
  next
    case (Some entry)
    obtain index data where entry: "found = Some (index, data)" using Some by (cases entry) simp
    obtain v p where v: "read_tags data index no_values = Inr v" "rpm_package arch component v = Inr p"
      using 1(3) head entry by (auto simp: rpm_loop.simps [of expected arch component packages r] bind_Inr)
    show ?thesis
    proof (cases p)
      case None
      have "rpm_loop expected arch component packages r2 = Inr (ps, r1)"
        using 1(3) head entry v None by (simp add: rpm_loop.simps [of expected arch component packages r])
      then show ?thesis using 1(1) [OF head refl entry refl v None] 1(4) unfolding facts(3) by blast
    next
      case (Some q)
      have new: "ref_key q \<notin> set (map ref_key packages)" "rpm_loop expected arch component (packages @ [q]) r2 = Inr (ps, r1)"
        using 1(3) head entry v Some by (auto simp: rpm_loop.simps [of expected arch component packages r] split: if_splits)
      have "distinct (map ref_key (packages @ [q]))" using new(1) 1(4) by simp
      then show ?thesis using 1(2) [OF head refl entry refl v Some new(1)] new(2) unfolding facts(3) by blast
    qed
  qed
qed

text \<open>The reading of an APT-RPM list is bounded and complete: a list that is accepted was read to its last
  byte, is at most 512 MiB long when decompressed, and has the length and the digest that the release
  gives for the plain list, if it gives one; no two packages share a key.\<close>

theorem pkglist_bounded:
  assumes "parse_pkglist inflate hash raw compression arch component expected = Inr packages"
  shows "(let plain = (if compression = [] then raw else fst (inflate compression raw)) in
      length plain \<le> 512 * 1024 * 1024 \<and> (\<forall>a d k. expected = Some (a, d, k) \<longrightarrow> length plain = k \<and> hash a plain = d)) \<and>
    distinct (map ref_key packages)"
proof -
  obtain plain damaged where plain: "(if compression = [] then (raw, False) else inflate compression raw) = (plain, damaged)"
    by (cases "if compression = [] then (raw, False) else inflate compression raw") auto
  then have p: "plain = (if compression = [] then raw else fst (inflate compression raw))" by (auto split: if_splits)
  obtain r u where loop: "rpm_loop expected arch component [] \<lparr>rd_done = [], rd_rest = plain, rd_damaged = damaged\<rparr> = Inr (packages, r)"
      and fin: "finish_reading hash expected r = Inr u"
    using assms by (auto simp: parse_pkglist_def plain bind_Inr Let_def)
  have facts: "distinct (map ref_key packages)" "rd_done r = plain" "length plain \<le> max_expanded"
    using rpm_loop_ok [OF loop] by auto
  have "length plain = k \<and> hash a plain = d" if "expected = Some (a, d, k)" for a d k
    using fin that facts(2) by (auto simp: finish_reading_def check_digest_def split: if_splits)
  then show ?thesis using facts p by (simp add: Let_def max_expanded_def)
qed

section \<open>Headers that are written and read\<close>

definition be_bytes :: "nat \<Rightarrow> str" where
  "be_bytes n = map char_of [n div 16777216, n div 65536 mod 256, n div 256 mod 256, n mod 256]"

fun string_index :: "nat \<Rightarrow> (nat \<times> str) list \<Rightarrow> str" where
  "string_index offset [] = []"
| "string_index offset ((tag, t) # ts) =
     (be_bytes tag @ be_bytes 6 @ be_bytes offset @ be_bytes 1) @ string_index (offset + length t + 1) ts"

definition string_data :: "(nat \<times> str) list \<Rightarrow> str" where
  "string_data ts = concat (map (\<lambda>(_, t). t @ [CHR 0x00]) ts)"

lemma length_be_bytes [simp]: "length (be_bytes n) = 4"
  by (simp add: be_bytes_def)

lemma be32_bytes: "n < 4294967296 \<Longrightarrow> be32 (be_bytes n @ rest) = n"
proof -
  assume n: "n < 4294967296"
  have "code (char_of (k::nat)) = k mod 256" for k by simp
  then have "be32 (be_bytes n @ rest) = 256 * (256 * (256 * (n div 16777216 mod 256) + n div 65536 mod 256) + n div 256 mod 256) + n mod 256"
    by (simp add: be32_def be_bytes_def)
  also have "n div 16777216 mod 256 = n div 16777216" using n by simp
  also have "256 * (256 * (256 * (n div 16777216) + n div 65536 mod 256) + n div 256 mod 256) + n mod 256 = n"
  proof -
    have "n div 65536 = 256 * (n div 16777216) + n div 65536 mod 256" using div_mult2_eq [of n 65536 256] mult_div_mod_eq [of 256 "n div 65536"] by simp
    moreover have "n div 256 = 256 * (n div 65536) + n div 256 mod 256" using div_mult2_eq [of n 256 256] mult_div_mod_eq [of 256 "n div 256"] by simp
    moreover have "n = 256 * (n div 256) + n mod 256" by simp
    ultimately show ?thesis by simp
  qed
  finally show ?thesis .
qed

lemma be32_bytes_nil: "n < 4294967296 \<Longrightarrow> be32 (be_bytes n) = n"
  using be32_bytes [of n "[]"] by simp

lemma read_string_tag:
  assumes "tag \<in> set string_tags" "offset < length data" "offset < 4294967296" "tag \<notin> set (tv_seen v)"
    "drop offset data = t @ CHR 0x00 # rest" "CHR 0x00 \<notin> set t" "\<forall>c \<in> set t. code c < 128"
  shows "read_tag data (be_bytes tag @ be_bytes 6 @ be_bytes offset @ be_bytes 1) v =
    Inr (v\<lparr>tv_seen := tag # tv_seen v, tv_strings := (tag, lit t) # tv_strings v\<rparr>)"
proof -
  let ?e = "be_bytes tag @ be_bytes 6 @ be_bytes offset @ be_bytes 1"
  have "tag < 4294967296" using assms(1) by (auto simp: string_tags_def)
  then have parts: "be32 ?e = tag" "be32 (drop 4 ?e) = 6" "be32 (drop 8 ?e) = offset" "be32 (drop 12 ?e) = 1"
    using assms(3) by (simp_all add: be32_bytes be32_bytes_nil)
  have "takeWhile (\<lambda>c. c \<noteq> CHR 0x00) (drop offset data) = t" unfolding assms(5) using assms(6) by (auto simp: takeWhile_append)
  then have "strict_text (takeWhile (\<lambda>c. c \<noteq> CHR 0x00) (drop offset data)) = Inr (lit t)" using strict_text_ascii [OF assms(7)] by simp
  moreover have "CHR 0x00 \<in> set (drop offset data)" unfolding assms(5) by simp
  ultimately show ?thesis using assms(1,2,4) unfolding read_tag_def parts Let_def by simp
qed

definition plain_tag :: "nat \<times> str \<Rightarrow> bool" where
  "plain_tag p \<longleftrightarrow> fst p \<in> set string_tags \<and> CHR 0x00 \<notin> set (snd p) \<and> (\<forall>c \<in> set (snd p). code c < 128)"

lemma read_strings:
  "\<forall>p \<in> set ts. plain_tag p \<Longrightarrow> distinct (map fst ts) \<Longrightarrow> set (map fst ts) \<inter> set (tv_seen v) = {} \<Longrightarrow>
   length (pre @ string_data ts) < 4294967296 \<Longrightarrow>
   read_tags (pre @ string_data ts) (string_index (length pre) ts) v =
     Inr (v\<lparr>tv_seen := rev (map fst ts) @ tv_seen v, tv_strings := rev (map (\<lambda>(tag, t). (tag, lit t)) ts) @ tv_strings v\<rparr>)"
proof (induction ts arbitrary: pre v)
  case Nil
  then show ?case by (simp add: read_tags.simps)
next
  case (Cons p ts)
  obtain tag t where p: "p = (tag, t)" by (cases p)
  let ?e = "be_bytes tag @ be_bytes 6 @ be_bytes (length pre) @ be_bytes 1"
  let ?data = "pre @ string_data (p # ts)" and ?pre = "pre @ t @ [CHR 0x00]"
  let ?w = "v\<lparr>tv_seen := tag # tv_seen v, tv_strings := (tag, lit t) # tv_strings v\<rparr>"
  have data: "?data = ?pre @ string_data ts" by (simp add: string_data_def p)
  have "read_tag ?data ?e v = Inr ?w"
    by (rule read_string_tag [where rest = "string_data ts"]) (use Cons.prems in \<open>auto simp: p plain_tag_def string_data_def\<close>)
  moreover have "string_index (length pre) (p # ts) = ?e @ string_index (length ?pre) ts" by (simp add: p)
  moreover have "length ?e = 16" by simp
  ultimately have "read_tags ?data (string_index (length pre) (p # ts)) v = read_tags ?data (string_index (length ?pre) ts) ?w"
    by (simp only: read_tags.simps [of _ "?e @ _"] take_append drop_append) (simp add: be_bytes_def)
  also have "\<dots> = Inr (?w\<lparr>tv_seen := rev (map fst ts) @ tv_seen ?w, tv_strings := rev (map (\<lambda>(tag, t). (tag, lit t)) ts) @ tv_strings ?w\<rparr>)"
    unfolding data by (rule Cons.IH) (use Cons.prems data in \<open>auto simp: p\<close>)
  finally show ?case by (simp add: p)
qed

section \<open>An example\<close>

definition sample_strings :: "(nat \<times> str) list" where
  "sample_strings = [(1000, ''p''), (1001, ''1''), (1002, ''2''), (1022, ''noarch''), (1000000, ''p.rpm'')]"

definition sample_pkglist :: str where
  "sample_pkglist = rpm_magic @ be_bytes 5 @ be_bytes 19 @ string_index 0 sample_strings @ string_data sample_strings"

lemma sample_lengths: "length (string_index 0 sample_strings) = 80" "length (string_data sample_strings) = 19"
  by (simp_all add: string_data_def sample_strings_def)

lemma sample_read_header:
  "read_header None \<lparr>rd_done = [], rd_rest = sample_pkglist, rd_damaged = False\<rparr> =
     Inr (Some (string_index 0 sample_strings, string_data sample_strings), \<lparr>rd_done = sample_pkglist, rd_rest = [], rd_damaged = False\<rparr>)"
  by (simp add: read_header_def read_bytes_def sample_pkglist_def rpm_magic_def be_bytes_def be32_def max_expanded_def sample_lengths Let_def)

lemma sample_tags:
  "read_tags (string_data sample_strings) (string_index 0 sample_strings) no_values =
     Inr (no_values\<lparr>tv_seen := rev (map fst sample_strings), tv_strings := rev (map (\<lambda>(tag, t). (tag, lit t)) sample_strings)\<rparr>)"
  using read_strings [of sample_strings no_values "[]"]
  by (simp add: sample_lengths no_values_def) (simp add: sample_strings_def plain_tag_def string_tags_def)

definition sample_package :: package_ref where
  "sample_package = \<lparr>pf_name = lit ''p'', pf_version = lit ''1-2.noarch'', pf_filename = Some (lit ''RPMS.classic/p.rpm''), pf_hash = None\<rparr>"

lemma sample_rpm_package:
  "rpm_package (lit ''x86_64'') (lit ''classic'') (no_values\<lparr>tv_seen := rev (map fst sample_strings), tv_strings := rev (map (\<lambda>(tag, t). (tag, lit t)) sample_strings)\<rparr>) =
     Inr (Some sample_package)"
  by (simp add: rpm_package_def rpm_version_def rpm_relative_def sample_strings_def sample_package_def no_values_def given_def lit_def
    package_path_point_def tstarts_def)

lemma sample_parsed: "parse_pkglist (\<lambda>_ _. ([], False)) (\<lambda>_ _. []) sample_pkglist [] (lit ''x86_64'') (lit ''classic'') None = Inr [sample_package]"
proof -
  let ?done = "\<lparr>rd_done = sample_pkglist, rd_rest = [], rd_damaged = False\<rparr>"
  have "length sample_pkglist \<le> max_expanded" by (simp add: sample_pkglist_def rpm_magic_def sample_lengths max_expanded_def)
  then have "read_header None ?done = Inr (None, ?done)" by (simp add: read_header_def read_bytes_def)
  then have "rpm_loop None (lit ''x86_64'') (lit ''classic'') [sample_package] ?done = Inr ([sample_package], ?done)"
    by (simp add: rpm_loop.simps [of _ _ _ "[sample_package]"])
  then have "rpm_loop None (lit ''x86_64'') (lit ''classic'') [] \<lparr>rd_done = [], rd_rest = sample_pkglist, rd_damaged = False\<rparr> = Inr ([sample_package], ?done)"
    by (simp add: rpm_loop.simps [of _ _ _ "[]"] sample_read_header sample_tags sample_rpm_package)
  then show ?thesis by (simp add: parse_pkglist_def finish_reading_def)
qed

lemma pkglist_bounded_witness: "length sample_pkglist \<le> 512 * 1024 * 1024 \<and> distinct (map ref_key [sample_package])"
  using pkglist_bounded [OF sample_parsed] by (simp add: Let_def)

end
