(* ===== verification/Dnf.thy ===== *)
theory Dnf
  imports Strict_Text Index_Fetch
begin

text \<open>
  \<open>parsers/dnf.py\<close>: repomd.xml, the primary document it names, and the packages in it.  The XML parser, the
  decompressors and the hash functions are parameters.  A document that is not well-formed is refused
  before any of its packages is looked at; the code, which reads it as a stream, may refuse a package first.
\<close>

section \<open>XML\<close>

datatype xml = Element (x_tag: utext) (x_attrs: "(utext \<times> utext) list") (x_text: "utext option") (x_children: "xml list")

definition attr :: "xml \<Rightarrow> str \<Rightarrow> utext option" where
  "attr e name = map_of (x_attrs e) (lit name)"

definition in_repo :: "str \<Rightarrow> utext" where
  "in_repo name = lit (''{http://linux.duke.edu/metadata/repo}'' @ name)"

definition in_common :: "str \<Rightarrow> utext" where
  "in_common name = lit (''{http://linux.duke.edu/metadata/common}'' @ name)"

definition xml_base :: str where
  "xml_base = ''{http://www.w3.org/XML/1998/namespace}base''"

definition child :: "utext \<Rightarrow> xml \<Rightarrow> xml option" where
  "child tag e = find (\<lambda>c. x_tag c = tag) (x_children e)"

definition text_of :: "xml \<Rightarrow> utext" where
  "text_of e = (case x_text e of None \<Rightarrow> [] | Some t \<Rightarrow> t)"

fun has_base :: "xml \<Rightarrow> bool" where
  "has_base (Element tag attrs t children) \<longleftrightarrow> map_of attrs (lit xml_base) \<noteq> None \<or> list_ex has_base children"

section \<open>Locations\<close>

definition scheme_point :: "nat \<Rightarrow> bool" where
  "scheme_point n \<longleftrightarrow> (48 \<le> n \<and> n \<le> 57) \<or> (65 \<le> n \<and> n \<le> 90) \<or> (97 \<le> n \<and> n \<le> 122) \<or> n \<in> set (lit ''+-.'')"

text \<open>The parts that \<open>urlsplit\<close> finds in a text without whitespace or control characters.\<close>

definition has_scheme :: "utext \<Rightarrow> bool" where
  "has_scheme v \<longleftrightarrow>
     (let s = takeWhile (\<lambda>c. c \<noteq> code CHR '':'') v in
      length s < length v \<and> s \<noteq> [] \<and> list_all scheme_point s \<and> (65 \<le> hd s \<and> hd s \<le> 90 \<or> 97 \<le> hd s \<and> hd s \<le> 122))"

definition has_fragment :: "utext \<Rightarrow> bool" where
  "has_fragment v \<longleftrightarrow> drop 1 (dropWhile (\<lambda>c. c \<noteq> code CHR ''#'') v) \<noteq> []"

definition has_query :: "utext \<Rightarrow> bool" where
  "has_query v \<longleftrightarrow> drop 1 (dropWhile (\<lambda>c. c \<noteq> code CHR ''?'') (takeWhile (\<lambda>c. c \<noteq> code CHR ''#'') v)) \<noteq> []"

definition slash :: nat where
  "slash = code CHR ''/''"

definition path_parts :: "utext \<Rightarrow> utext list" where
  "path_parts v = filter (\<lambda>p. p \<noteq> [] \<and> p \<noteq> lit ''.'') (split_on slash v)"

definition relative_path :: "utext option \<Rightarrow> index_error + utext" where
  "relative_path v =
     (if \<not> given v \<or> list_ex (\<lambda>c. space_point c \<or> c < 32) (the v) then Inl Value_error
      else if has_scheme (the v) \<or> has_query (the v) \<or> has_fragment (the v) \<or> tstarts (lit ''/'') (the v) \<or>
          0x5C \<in> set (the v) \<or> code CHR ''%'' \<in> set (the v) then Inl Value_error
      else let parts = path_parts (the v) in
        if lit ''..'' \<in> set parts \<or> parts = [] then Inl Value_error else Inr (join [slash] parts))"

section \<open>repomd.xml\<close>

definition lower_text :: "utext \<Rightarrow> utext" where
  "lower_text t = map (\<lambda>n. if 65 \<le> n \<and> n \<le> 90 then n + 32 else n) t"

definition hex_lower :: "nat \<Rightarrow> bool" where
  "hex_lower n \<longleftrightarrow> (48 \<le> n \<and> n \<le> 57) \<or> (97 \<le> n \<and> n \<le> 102)"

definition digest_sizes :: "(str \<times> nat) list" where
  "digest_sizes = [(''sha256'', 64), (''sha512'', 128), (''sha384'', 96), (''sha224'', 56), (''sha1'', 40), (''md5'', 32)]"

definition checksum_of :: "xml \<Rightarrow> index_error + (str \<times> utext)" where
  "checksum_of e =
     (let declared = lower_text (case attr e ''type'' of None \<Rightarrow> [] | Some t \<Rightarrow> t);
          algorithm = (if declared = lit ''sha'' then lit ''sha1'' else declared);
          digest = lower_text (tstrip (text_of e))
      in case find (\<lambda>(name, _). lit name = algorithm) digest_sizes of
           None \<Rightarrow> Inl Signature_error
         | Some (name, n) \<Rightarrow> if length digest = n \<and> list_all hex_lower digest then Inr (name, digest) else Inl Signature_error)"

definition required_checksum :: "xml option \<Rightarrow> index_error + (str \<times> utext)" where
  "required_checksum e = (case e of None \<Rightarrow> Inl Signature_error | Some x \<Rightarrow> checksum_of x)"

definition optional_checksum :: "xml option \<Rightarrow> index_error + (str \<times> utext) option" where
  "optional_checksum e = (case e of None \<Rightarrow> Inr None | Some x \<Rightarrow> bind (checksum_of x) (\<lambda>c. Inr (Some c)))"

definition size_digits :: "utext \<Rightarrow> nat option" where
  "size_digits t =
     (if t = [] \<or> \<not> list_all (\<lambda>n. 48 \<le> n \<and> n \<le> 57) t then None else Some (foldl (\<lambda>n c. 10 * n + (c - 48)) 0 t))"

definition size_of :: "xml option \<Rightarrow> index_error + nat option" where
  "size_of e =
     (case e of None \<Rightarrow> Inr None
      | Some x \<Rightarrow> (case size_digits (tstrip (text_of x)) of None \<Rightarrow> Inl Value_error | Some n \<Rightarrow> Inr (Some n)))"

record primary_metadata =
  pm_href :: utext
  pm_checksum :: "str \<times> utext"
  pm_size :: "nat option"
  pm_open_checksum :: "(str \<times> utext) option"
  pm_open_size :: "nat option"

definition parse_repomd :: "(str \<Rightarrow> xml option) \<Rightarrow> str \<Rightarrow> index_error + primary_metadata" where
  "parse_repomd xml raw =
     (case xml raw of
        None \<Rightarrow> Inl Decode_error
      | Some doc \<Rightarrow>
          if x_tag doc \<noteq> in_repo ''repomd'' then Inl Value_error
          else if has_base doc then Inl Value_error
          else (case filter (\<lambda>d. x_tag d = in_repo ''data'' \<and> attr d ''type'' = Some (lit ''primary'')) (x_children doc) of
            [primary] \<Rightarrow>
              bind (relative_path (Option.bind (child (in_repo ''location'') primary) (\<lambda>l. attr l ''href''))) (\<lambda>href.
              bind (required_checksum (child (in_repo ''checksum'') primary)) (\<lambda>checksum.
              bind (optional_checksum (child (in_repo ''open-checksum'') primary)) (\<lambda>open_checksum.
              bind (size_of (child (in_repo ''size'') primary)) (\<lambda>n.
              bind (size_of (child (in_repo ''open-size'') primary)) (\<lambda>open_size.
                Inr \<lparr>pm_href = href, pm_checksum = checksum, pm_size = n, pm_open_checksum = open_checksum, pm_open_size = open_size\<rparr>)))))
          | _ \<Rightarrow> Inl Value_error))"

section \<open>Packages\<close>

text \<open>The package elements in the order in which they end.\<close>

fun package_elements :: "xml \<Rightarrow> xml list" where
  "package_elements (Element tag attrs t children) =
     concat (map package_elements children) @ (if tag = in_common ''package'' then [Element tag attrs t children] else [])"

definition child_text :: "utext \<Rightarrow> xml \<Rightarrow> utext option" where
  "child_text tag e = map_option text_of (child tag e)"

definition dnf_hash :: "xml \<Rightarrow> utext option" where
  "dnf_hash e =
     (case child (in_common ''checksum'') e of
        None \<Rightarrow> None
      | Some c \<Rightarrow> if attr c ''type'' = Some (lit ''sha256'') \<and> given (x_text c) \<and> sha256_hex (the (x_text c)) then x_text c else None)"

definition dnf_package :: "utext \<Rightarrow> xml \<Rightarrow> index_error + package_ref option" where
  "dnf_package arch e =
     (let name = child_text (in_common ''name'') e; package_arch = child_text (in_common ''arch'') e in
      if attr e ''type'' \<noteq> Some (lit ''rpm'') then Inl Value_error
      else if \<not> given name \<or> \<not> given package_arch then Inl Value_error
      else (case child (in_common ''version'') e of
          None \<Rightarrow> Inl Value_error
        | Some version \<Rightarrow>
            (let ver = attr version ''ver''; rel = attr version ''rel'';
                 epoch = size_digits (case attr version ''epoch'' of None \<Rightarrow> lit ''0'' | Some t \<Rightarrow> t)
             in if \<not> given ver \<or> \<not> given rel \<or> epoch = None then Inl Value_error
                else bind (relative_path (Option.bind (child (in_common ''location'') e) (\<lambda>l. attr l ''href''))) (\<lambda>filename.
                  if the package_arch \<notin> set [arch, lit ''noarch''] then Inr None
                  else Inr (Some \<lparr>pf_name = the name,
                    pf_version = (if the epoch \<noteq> 0 then lit (show_nat (the epoch)) @ lit '':'' else []) @ the ver @ lit ''-'' @ the rel @
                      lit ''.'' @ the package_arch,
                    pf_filename = Some filename, pf_hash = dnf_hash e\<rparr>)))))"

definition parse_primary :: "xml option \<Rightarrow> utext \<Rightarrow> index_error + package_ref list" where
  "parse_primary doc arch =
     (case doc of
        None \<Rightarrow> Inl Decode_error
      | Some e \<Rightarrow>
          if x_tag e \<noteq> in_common ''metadata'' then Inl Value_error
          else if has_base e then Inl Value_error
          else let declared = attr e ''packages''; count = Option.bind declared size_digits; found = package_elements e in
            if declared \<noteq> None \<and> count = None then Inl Value_error
            else bind (distinct_packages (dnf_package arch) [] found) (\<lambda>packages.
              if count \<noteq> None \<and> count \<noteq> Some (length found) then Inl Value_error else Inr packages))"

section \<open>Fetching\<close>

record dnf_env =
  dn_fetch :: fetch_env
  dn_xml :: "str \<Rightarrow> xml option"
  dn_hash :: "str \<Rightarrow> str \<Rightarrow> utext"
  dn_open :: "str \<Rightarrow> str \<Rightarrow> str option"

definition verify_bytes :: "dnf_env \<Rightarrow> str \<Rightarrow> (str \<times> utext) option \<Rightarrow> nat option \<Rightarrow> bool" where
  "verify_bytes env raw checksum n \<longleftrightarrow>
     (case n of None \<Rightarrow> True | Some k \<Rightarrow> length raw = k) \<and>
     (case checksum of None \<Rightarrow> True | Some (algorithm, digest) \<Rightarrow> dn_hash env algorithm raw = digest)"

definition compression_of :: "utext \<Rightarrow> str option" where
  "compression_of href =
     find (\<lambda>e. tstarts (rev (lit e)) (rev href)) [''.gz'', ''.xz'', ''.bz2'', ''.zst'', ''.zstd'', ''.xml'']"

definition open_primary :: "dnf_env \<Rightarrow> str \<Rightarrow> utext \<Rightarrow> index_error + str" where
  "open_primary env raw href =
     (case compression_of href of
        None \<Rightarrow> Inl Value_error
      | Some e \<Rightarrow> if e = ''.xml'' then Inr raw else (case dn_open env e raw of None \<Rightarrow> Inl Decode_error | Some plain \<Rightarrow> Inr plain))"

definition checked_primary :: "dnf_env \<Rightarrow> str \<Rightarrow> primary_metadata \<Rightarrow> utext \<Rightarrow> index_error + package_ref list" where
  "checked_primary env raw m arch =
     (if \<not> verify_bytes env raw (Some (pm_checksum m)) (pm_size m) then Inl Signature_error
      else bind (open_primary env raw (pm_href m)) (\<lambda>plain.
           bind (parse_primary (dn_xml env plain) arch) (\<lambda>packages.
             if verify_bytes env plain (pm_open_checksum m) (pm_open_size m) then Inr packages else Inl Signature_error)))"

definition dnf_index_url :: "str \<Rightarrow> str" where
  "dnf_index_url base = rstrip_char CHR ''/'' base @ ''/repodata/repomd.xml''"

definition fetch_rpm_md :: "dnf_env \<Rightarrow> str \<Rightarrow> repo_config \<Rightarrow> index_error + (signers \<times> package_ref list)" where
  "fetch_rpm_md env base r =
     bind (signed_document (dn_fetch env) r (dnf_index_url base) ''.asc'') (\<lambda>(raw, signers).
     bind (parse_repomd (dn_xml env) raw) (\<lambda>m.
     bind (http_get (fe_http (dn_fetch env)) (rstrip_char CHR ''/'' base @ ''/'' @ ascii_str (pm_href m))) (\<lambda>primary.
     bind (checked_primary env primary m (lit (rp_arch r))) (\<lambda>packages. Inr (signers, packages)))))"

section \<open>Properties\<close>

lemma relative_path_ok:
  assumes "relative_path v = Inr p"
  shows "\<exists>parts. p = join [slash] parts \<and> parts \<noteq> [] \<and> (\<forall>q \<in> set parts. q \<noteq> [] \<and> q \<noteq> lit ''.'' \<and> q \<noteq> lit ''..'' \<and> slash \<notin> set q)"
proof -
  have p: "p = join [slash] (path_parts (the v))" "path_parts (the v) \<noteq> []" "lit ''..'' \<notin> set (path_parts (the v))"
    using assms by (auto simp: relative_path_def Let_def split: if_splits)
  have "q \<noteq> [] \<and> q \<noteq> lit ''.'' \<and> slash \<notin> set q" if "q \<in> set (path_parts (the v))" for q
    using that split_on_no_sep [of q slash "the v"] by (auto simp: path_parts_def)
  then show ?thesis using p by metis
qed

lemma dnf_package_location:
  assumes "dnf_package arch e = Inr (Some p)"
  shows "\<exists>f href. pf_filename p = Some f \<and> relative_path href = Inr f"
  using assms by (auto simp: dnf_package_def bind_Inr Let_def split: if_splits option.splits)

lemma parse_primary_ok:
  assumes "parse_primary doc arch = Inr ps"
  shows "\<exists>e. doc = Some e \<and> distinct (map ref_key ps) \<and> ps = List.map_filter (chosen (dnf_package arch)) (package_elements e) \<and>
    (attr e ''packages'' = None \<or> Option.bind (attr e ''packages'') size_digits = Some (length (package_elements e)))"
  using assms distinct_packages_ok [of "dnf_package arch" "[]"]
  by (auto simp: parse_primary_def bind_Inr Let_def split: option.splits if_splits)

text \<open>The packages of an RPM-MD repository come from the one primary document that repomd.xml describes: its
  compressed bytes have the listed digest and size, its plain bytes the listed open digest and size if
  any; with verification on, repomd.xml itself is signed by a key of the keyring; keys are distinct, and
  every file lies below the repository, by a path without empty, dot or dot-dot parts.\<close>

theorem rpm_md_authenticated:
  assumes "fetch_rpm_md env base r = Inr (signers, packages)"
  shows "\<exists>raw m primary plain. fe_http (dn_fetch env) (dnf_index_url base) = Body raw \<and>
    (rp_verify r \<longrightarrow> (\<exists>signature keyring. rp_keyring r = Some keyring \<and> vouched (fe_gpgv (dn_fetch env)) keyring signature raw)) \<and>
    parse_repomd (dn_xml env) raw = Inr m \<and> dn_hash env (fst (pm_checksum m)) primary = snd (pm_checksum m) \<and>
    (\<forall>n. pm_size m = Some n \<longrightarrow> length primary = n) \<and> open_primary env primary (pm_href m) = Inr plain \<and>
    (\<forall>a d. pm_open_checksum m = Some (a, d) \<longrightarrow> dn_hash env a plain = d) \<and> (\<forall>n. pm_open_size m = Some n \<longrightarrow> length plain = n) \<and>
    parse_primary (dn_xml env plain) (lit (rp_arch r)) = Inr packages \<and> distinct (map ref_key packages) \<and>
    (\<forall>p \<in> set packages. \<exists>f parts. pf_filename p = Some f \<and> f = join [slash] parts \<and> parts \<noteq> [] \<and>
       (\<forall>q \<in> set parts. q \<noteq> [] \<and> q \<noteq> lit ''.'' \<and> q \<noteq> lit ''..'' \<and> slash \<notin> set q))"
proof -
  obtain raw m primary where steps: "signed_document (dn_fetch env) r (dnf_index_url base) ''.asc'' = Inr (raw, signers)"
      "parse_repomd (dn_xml env) raw = Inr m" "checked_primary env primary m (lit (rp_arch r)) = Inr packages"
    using assms by (auto simp: fetch_rpm_md_def bind_Inr)
  obtain plain where plain: "verify_bytes env primary (Some (pm_checksum m)) (pm_size m)" "open_primary env primary (pm_href m) = Inr plain"
      "parse_primary (dn_xml env plain) (lit (rp_arch r)) = Inr packages" "verify_bytes env plain (pm_open_checksum m) (pm_open_size m)"
    using steps(3) by (auto simp: checked_primary_def bind_Inr split: if_splits)
  have packed: "dn_hash env (fst (pm_checksum m)) primary = snd (pm_checksum m)" "\<forall>n. pm_size m = Some n \<longrightarrow> length primary = n"
    using plain(1) by (auto simp: verify_bytes_def split: option.splits prod.splits)
  have unpacked: "\<forall>a d. pm_open_checksum m = Some (a, d) \<longrightarrow> dn_hash env a plain = d" "\<forall>n. pm_open_size m = Some n \<longrightarrow> length plain = n"
    using plain(4) by (auto simp: verify_bytes_def split: option.splits prod.splits)
  obtain e where e: "distinct (map ref_key packages)" "packages = List.map_filter (chosen (dnf_package (lit (rp_arch r)))) (package_elements e)"
    using parse_primary_ok [OF plain(3)] by blast
  have "\<exists>f parts. pf_filename p = Some f \<and> f = join [slash] parts \<and> parts \<noteq> [] \<and>
      (\<forall>q \<in> set parts. q \<noteq> [] \<and> q \<noteq> lit ''.'' \<and> q \<noteq> lit ''..'' \<and> slash \<notin> set q)" if "p \<in> set packages" for p
  proof -
    have "p \<in> set (List.map_filter (chosen (dnf_package (lit (rp_arch r)))) (package_elements e))" using that e(2) by simp
    from map_filter_mem [OF this] obtain x where "chosen (dnf_package (lit (rp_arch r))) x = Some p" by blast
    then have "dnf_package (lit (rp_arch r)) x = Inr (Some p)" by (simp add: chosen_def split: sum.splits)
    then show ?thesis using dnf_package_location relative_path_ok by metis
  qed
  then show ?thesis using signed_document_vouched [OF steps(1)] steps(2) plain(2,3) packed unpacked e(1) by blast
qed

section \<open>An example\<close>

definition sample_repomd :: xml where
  "sample_repomd = Element (in_repo ''repomd'') [] None
     [Element (in_repo ''data'') [(lit ''type'', lit ''primary'')] None
        [Element (in_repo ''location'') [(lit ''href'', lit ''repodata/primary.xml'')] None [],
         Element (in_repo ''checksum'') [(lit ''type'', lit ''md5'')] (Some (lit ''0123456789abcdef0123456789abcdef'')) [],
         Element (in_repo ''size'') [] (Some (lit ''1'')) []]]"

definition sample_primary :: xml where
  "sample_primary = Element (in_common ''metadata'') [(lit ''packages'', lit ''1'')] None
     [Element (in_common ''package'') [(lit ''type'', lit ''rpm'')] None
        [Element (in_common ''name'') [] (Some (lit ''p'')) [], Element (in_common ''arch'') [] (Some (lit ''noarch'')) [],
         Element (in_common ''version'') [(lit ''ver'', lit ''1''), (lit ''rel'', lit ''2'')] None [],
         Element (in_common ''location'') [(lit ''href'', lit ''p.rpm'')] None []]]"

definition sample_dnf_env :: dnf_env where
  "sample_dnf_env = \<lparr>dn_fetch = \<lparr>fe_http = (\<lambda>url. if url = ''u/repodata/repomd.xml'' then Body ''R'' else Body ''P''), fe_gpgv = (\<lambda>_ _ _. None)\<rparr>,
     dn_xml = (\<lambda>raw. if raw = ''R'' then Some sample_repomd else Some sample_primary),
     dn_hash = (\<lambda>_ _. lit ''0123456789abcdef0123456789abcdef''), dn_open = (\<lambda>_ _. None)\<rparr>"

definition sample_dnf :: repo_config where
  "sample_dnf = sample_repo\<lparr>rp_type := ''dnf'', rp_verify := False, rp_arch := ''x86_64''\<rparr>"

lemma lit_eq: "lit a = lit b \<longleftrightarrow> a = b"
  by (simp add: lit_def inj_map_eq_map inj_def)

lemma tag_eq: "in_repo a = in_repo b \<longleftrightarrow> a = b" "in_common a = in_common b \<longleftrightarrow> a = b"
  by (simp_all add: in_repo_def in_common_def lit_eq)

lemma sample_paths: "relative_path (Some (lit ''repodata/primary.xml'')) = Inr (lit ''repodata/primary.xml'')"
    "relative_path (Some (lit ''p.rpm'')) = Inr (lit ''p.rpm'')" "size_digits (lit ''1'') = Some 1" "size_digits (lit ''0'') = Some 0"
    "tstrip (lit ''1'') = lit ''1''" "tstrip (lit ''0123456789abcdef0123456789abcdef'') = lit ''0123456789abcdef0123456789abcdef''"
    "lower_text (lit ''md5'') = lit ''md5''" "lower_text (lit ''0123456789abcdef0123456789abcdef'') = lit ''0123456789abcdef0123456789abcdef''"
    "list_all hex_lower (lit ''0123456789abcdef0123456789abcdef'')" "length (lit ''0123456789abcdef0123456789abcdef'') = 32"
  by (simp_all add: relative_path_def given_def space_point_def has_scheme_def has_query_def has_fragment_def path_parts_def slash_def
    scheme_point_def tstarts_def size_digits_def tstrip_def lower_text_def hex_lower_def lit_def Let_def)

lemma sample_no_base: "\<not> has_base sample_repomd" "\<not> has_base sample_primary"
  by (simp_all add: sample_repomd_def sample_primary_def lit_eq xml_base_def)

lemma sample_checksum:
  "checksum_of (Element tag [(lit ''type'', lit ''md5'')] (Some (lit ''0123456789abcdef0123456789abcdef'')) []) =
     Inr (''md5'', lit ''0123456789abcdef0123456789abcdef'')"
  by (simp add: checksum_of_def attr_def text_of_def sample_paths lit_eq digest_sizes_def Let_def)

lemma sample_parse_repomd:
  "parse_repomd (\<lambda>_. Some sample_repomd) raw =
     Inr \<lparr>pm_href = lit ''repodata/primary.xml'', pm_checksum = (''md5'', lit ''0123456789abcdef0123456789abcdef''), pm_size = Some 1,
       pm_open_checksum = None, pm_open_size = None\<rparr>"
  using sample_no_base(1)
  by (simp add: parse_repomd_def sample_repomd_def attr_def child_def lit_eq tag_eq sample_paths required_checksum_def optional_checksum_def
    sample_checksum size_of_def text_of_def)

lemma sample_parse_primary:
  "parse_primary (Some sample_primary) (lit ''x86_64'') =
     Inr [\<lparr>pf_name = lit ''p'', pf_version = lit ''1'' @ lit ''-'' @ lit ''2'' @ lit ''.'' @ lit ''noarch'', pf_filename = Some (lit ''p.rpm''), pf_hash = None\<rparr>]"
proof -
  have "lit s = [] \<longleftrightarrow> s = []" for s by (simp add: lit_def)
  then show ?thesis using sample_no_base(2)
    by (simp add: parse_primary_def sample_primary_def attr_def child_def lit_eq tag_eq sample_paths child_text_def text_of_def dnf_package_def
      given_def dnf_hash_def Let_def)
qed

lemma sample_fetched: "\<exists>ps. fetch_rpm_md sample_dnf_env ''u'' sample_dnf = Inr ([], ps) \<and> ps \<noteq> []"
proof -
  have url: "dnf_index_url ''u'' = ''u/repodata/repomd.xml''" by (simp add: dnf_index_url_def rstrip_char_def)
  have "compression_of (lit ''repodata/primary.xml'') = Some ''.xml''"
    by (simp add: compression_of_def tstarts_def lit_def)
  then have "open_primary sample_dnf_env ''P'' (lit ''repodata/primary.xml'') = Inr ''P''" by (simp add: open_primary_def)
  moreover have "rstrip_char CHR ''/'' ''u'' @ ''/'' @ ascii_str (lit ''repodata/primary.xml'') = ''u/repodata/primary.xml''"
    by (simp add: rstrip_char_def)
  moreover have "parse_repomd (dn_xml sample_dnf_env) ''R'' = parse_repomd (\<lambda>_. Some sample_repomd) ''R''"
    by (simp add: parse_repomd_def sample_dnf_env_def)
  ultimately show ?thesis using sample_parse_primary
    by (simp add: fetch_rpm_md_def signed_document_def url http_get_def sample_parse_repomd checked_primary_def verify_bytes_def)
      (simp add: sample_dnf_env_def sample_dnf_def verify_bytes_def)
qed

lemma rpm_md_authenticated_witness:
  "\<exists>m (primary :: str) ps. parse_repomd (dn_xml sample_dnf_env) ''R'' = Inr m \<and> (\<forall>n. pm_size m = Some n \<longrightarrow> length primary = n) \<and>
     ps \<noteq> [] \<and> distinct (map ref_key ps)"
proof -
  obtain ps where ps: "fetch_rpm_md sample_dnf_env ''u'' sample_dnf = Inr ([], ps)" "ps \<noteq> []" using sample_fetched by blast
  have "fe_http (dn_fetch sample_dnf_env) (dnf_index_url ''u'') = Body ''R''"
    by (simp add: sample_dnf_env_def dnf_index_url_def rstrip_char_def)
  moreover obtain raw m and primary :: str where "fe_http (dn_fetch sample_dnf_env) (dnf_index_url ''u'') = Body raw"
      "parse_repomd (dn_xml sample_dnf_env) raw = Inr m" "\<forall>n. pm_size m = Some n \<longrightarrow> length primary = n" "distinct (map ref_key ps)"
    using rpm_md_authenticated [OF ps(1)] by (elim exE conjE) (rule that, assumption+)
  ultimately show ?thesis using ps(2) by auto
qed

end
