(* ===== verification/Nix_Index.thy ===== *)
theory Nix_Index
  imports Index_Parser "HOL-Library.List_Lexorder"
begin

text \<open>
  \<open>parsers/nix.py\<close>: the catalog that the Nix command line evaluates.  \<open>run\<close> is \<open>processes.run\<close> (the process with a
  clean environment and a time limit); \<open>json.loads\<close> is a parameter, and \<open>format\<close> is what \<open>str\<close> makes of a value
  that is not a string.  Dumping and loading the merged catalog again is the identity on its values.
\<close>

datatype json = Json_text utext | Json_object "(utext \<times> json) list" | Json_other

section \<open>Store paths\<close>

definition base32_chars :: utext where
  "base32_chars = lit ''0123456789abcdfghijklmnpqrsvwxyz''"

text \<open>\<open>STORE_PATH.fullmatch\<close>: the hash of the path.\<close>

definition store_path :: "utext \<Rightarrow> utext option" where
  "store_path t =
     (let dir = lit ''/nix/store/''; hash = take 32 (drop (length dir) t); rest = drop (length dir + 32) t in
      if tstarts dir t \<and> length hash = 32 \<and> set hash \<subseteq> set base32_chars \<and>
         tstarts (lit ''-'') rest \<and> tl rest \<noteq> [] \<and> list_all (\<lambda>n. n \<noteq> code CHR ''/'' \<and> \<not> space_point n) (tl rest)
      then Some hash else None)"

section \<open>Running Nix\<close>

record process =
  ps_code :: int
  ps_out :: str
  ps_err :: str

type_synonym runner = "utext list \<Rightarrow> index_error + process"

definition nix_options :: "utext list" where
  "nix_options = map lit [''--option'', ''allow-import-from-derivation'', ''false'', ''--option'', ''max-jobs'', ''0'',
     ''--option'', ''builders'', [], ''--option'', ''accept-flake-config'', ''false'']"

definition run_nix :: "runner \<Rightarrow> utext list \<Rightarrow> index_error + str" where
  "run_nix run arguments =
     bind (run (arguments @ nix_options)) (\<lambda>p.
       if ps_code p \<noteq> 0 then Inl Value_error
       else if list_ex (\<lambda>marker. contains marker (ps_err p)) [''error:'', ''failed to evaluate'', ''errors were encountered'']
       then Inl Value_error else Inr (ps_out p))"

section \<open>The catalog\<close>

definition json_get :: "utext \<Rightarrow> (utext \<times> json) list \<Rightarrow> json option" where
  "json_get key d = map_of d key"

fun nix_outputs :: "utext \<Rightarrow> utext \<Rightarrow> nat \<Rightarrow> package_ref list \<Rightarrow> (utext \<times> json) list \<Rightarrow> index_error + package_ref list" where
  "nix_outputs attribute label maximum result [] = Inr result"
| "nix_outputs attribute label maximum result ((out, path) # rest) =
     (case (case path of Json_text p \<Rightarrow> store_path p | _ \<Rightarrow> None) of
        None \<Rightarrow> Inl Value_error
      | Some hash \<Rightarrow>
          let result' = result @ [\<lparr>pf_name = attribute @ lit '':'' @ out, pf_version = label @ lit ''@'' @ hash,
                pf_filename = Some (hash @ lit ''.narinfo''), pf_hash = None\<rparr>]
          in if maximum < length result' then Inl Value_error else nix_outputs attribute label maximum result' rest)"

fun nix_entries :: "(json \<Rightarrow> utext) \<Rightarrow> utext \<Rightarrow> nat \<Rightarrow> package_ref list \<Rightarrow> (utext \<times> json) list \<Rightarrow> index_error + package_ref list" where
  "nix_entries format system maximum result [] = Inr result"
| "nix_entries format system maximum result ((attribute, package) # rest) =
     (case package of
        Json_object d \<Rightarrow>
          (case json_get (lit ''outputs'') d of
             Some (Json_object outs) \<Rightarrow>
               if json_get (lit ''system'') d \<noteq> Some (Json_text system) then Inl Value_error
               else let label = (case json_get (lit ''name'') d of None \<Rightarrow> attribute | Some (Json_text t) \<Rightarrow> t | Some v \<Rightarrow> format v) in
                 bind (nix_outputs attribute label maximum result (sort_key fst outs)) (\<lambda>result'.
                   nix_entries format system maximum result' rest)
           | _ \<Rightarrow> Inl Value_error)
      | _ \<Rightarrow> Inl Value_error)"

definition parse_catalog :: "(json \<Rightarrow> utext) \<Rightarrow> json \<Rightarrow> utext \<Rightarrow> nat \<Rightarrow> index_error + package_ref list" where
  "parse_catalog format catalog system maximum =
     (case catalog of Json_object d \<Rightarrow> nix_entries format system maximum [] (sort_key fst d) | _ \<Rightarrow> Inl Value_error)"

section \<open>Fetching\<close>

record nix_source_env =
  nx_run :: runner
  nx_json :: "str \<Rightarrow> json option"
  nx_format :: "json \<Rightarrow> utext"

text \<open>What a repository asks for: the URL of its source, system, attributes and limit.\<close>

record nix_request =
  nq_source :: utext
  nq_system :: utext
  nq_attributes :: "utext list"
  nq_max :: nat

definition loads :: "nix_source_env \<Rightarrow> str \<Rightarrow> index_error + json" where
  "loads env raw = (case nx_json env raw of None \<Rightarrow> Inl Value_error | Some j \<Rightarrow> Inr j)"

definition prefixed :: "utext \<Rightarrow> utext \<Rightarrow> utext" where
  "prefixed attribute name =
     (if tstarts attribute name then name else attribute @ (if name = [] then [] else lit ''.'' @ name))"

text \<open>Evaluating one attribute after the other; a later one replaces an equal name.\<close>

fun merge_attributes :: "nix_source_env \<Rightarrow> utext list \<Rightarrow> utext list \<Rightarrow> (utext \<times> json) list \<Rightarrow> index_error + (utext \<times> json) list" where
  "merge_attributes env command [] catalog = Inr catalog"
| "merge_attributes env command (a # as) catalog =
     bind (run_nix (nx_run env) (command @ [lit ''--attr'', a])) (\<lambda>data. bind (loads env data) (\<lambda>part.
       (case part of
          Json_object d \<Rightarrow> merge_attributes env command as (fold (\<lambda>(name, v). AList.update (prefixed a name) v) d catalog)
        | _ \<Rightarrow> Inl Decode_error)))"

definition resolve_command :: "nix_request \<Rightarrow> utext list" where
  "resolve_command q =
     map lit [''nix-instantiate'', ''--eval'', ''--json'', ''--expr'', ''{ url }: builtins.fetchTarball url'', ''--argstr'', ''url''] @
     [nq_source q] @ map lit [''--option'', ''tarball-ttl'', ''0'']"

definition query_command :: "nix_request \<Rightarrow> utext \<Rightarrow> utext list" where
  "query_command q source =
     map lit [''nix-env'', ''--query'', ''--available'', ''--json'', ''--out-path'', ''--file''] @ [source] @
     map lit [''--argstr'', ''system''] @ [nq_system q, lit ''--system-filter'', nq_system q] @ map lit [''--option'', ''tarball-ttl'', ''0'']"

definition fetch_catalog :: "nix_source_env \<Rightarrow> nix_request \<Rightarrow> index_error + package_ref list" where
  "fetch_catalog env q =
     bind (run_nix (nx_run env) (resolve_command q)) (\<lambda>resolved. bind (loads env resolved) (\<lambda>source.
       (case source of
          Json_text path \<Rightarrow>
            if store_path path = None then Inl Value_error
            else bind (if nq_attributes q \<noteq> []
                       then bind (merge_attributes env (query_command q path) (nq_attributes q) []) (\<lambda>d. Inr (Json_object d))
                       else bind (run_nix (nx_run env) (query_command q path)) (\<lambda>data. loads env data))
                 (\<lambda>catalog. parse_catalog (nx_format env) catalog (nq_system q) (nq_max q))
        | _ \<Rightarrow> Inl Value_error)))"

section \<open>What a catalog yields\<close>

lemma store_path_hash: "store_path t = Some h \<Longrightarrow> length h = 32 \<and> set h \<subseteq> set base32_chars"
  by (auto simp: store_path_def Let_def split: if_splits)

text \<open>An output of an entry, and the package it becomes.\<close>

definition output_ref :: "(json \<Rightarrow> utext) \<Rightarrow> utext \<Rightarrow> (utext \<times> json) list \<Rightarrow> utext \<Rightarrow> utext \<Rightarrow> package_ref" where
  "output_ref format attribute d out hash =
     \<lparr>pf_name = attribute @ lit '':'' @ out,
      pf_version = (case json_get (lit ''name'') d of None \<Rightarrow> attribute | Some (Json_text t) \<Rightarrow> t | Some v \<Rightarrow> format v) @ lit ''@'' @ hash,
      pf_filename = Some (hash @ lit ''.narinfo''), pf_hash = None\<rparr>"

definition catalog_output :: "(utext \<times> json) list \<Rightarrow> utext \<Rightarrow> utext \<Rightarrow> (utext \<times> json) list \<Rightarrow> utext \<Rightarrow> utext \<Rightarrow> bool" where
  "catalog_output entries system attribute d out hash \<longleftrightarrow>
     (\<exists>outs path. (attribute, Json_object d) \<in> set entries \<and> json_get (lit ''outputs'') d = Some (Json_object outs) \<and>
        json_get (lit ''system'') d = Some (Json_text system) \<and> (out, Json_text path) \<in> set outs \<and> store_path path = Some hash)"

lemma nix_outputs_exact:
  assumes "nix_outputs attribute label maximum result outs = Inr result'"
  shows "set result' = set result \<union>
     {p. \<exists>out path hash. (out, Json_text path) \<in> set outs \<and> store_path path = Some hash \<and>
        p = \<lparr>pf_name = attribute @ lit '':'' @ out, pf_version = label @ lit ''@'' @ hash,
             pf_filename = Some (hash @ lit ''.narinfo''), pf_hash = None\<rparr>} \<and>
     length result' = length result + length outs \<and> (length result \<le> maximum \<longrightarrow> length result' \<le> maximum)"
  using assms
proof (induction outs arbitrary: result)
  case Nil
  then show ?case by simp
next
  case (Cons x outs)
  obtain out path hash where x: "x = (out, Json_text path)" "store_path path = Some hash"
    using Cons.prems by (cases x; cases "snd x") (auto split: option.splits)
  let ?p = "\<lparr>pf_name = attribute @ lit '':'' @ out, pf_version = label @ lit ''@'' @ hash,
             pf_filename = Some (hash @ lit ''.narinfo''), pf_hash = None\<rparr>"
  have rest: "nix_outputs attribute label maximum (result @ [?p]) outs = Inr result'" "length (result @ [?p]) \<le> maximum"
    using Cons.prems x by (auto simp: Let_def split: if_splits)
  show ?case using Cons.IH [OF rest(1)] rest(2) x by auto
qed

lemma some_output:
  "(\<exists>a e out hash. ((a = attribute \<and> e = d \<and> R out hash) \<or> C a e out hash) \<and> Q a e out hash) \<longleftrightarrow>
   (\<exists>out hash. R out hash \<and> Q attribute d out hash) \<or> (\<exists>a e out hash. C a e out hash \<and> Q a e out hash)"
  by blast

lemma nix_entries_exact:
  assumes "nix_entries format system maximum result entries = Inr result'" "length result \<le> maximum"
  shows "set result' = set result \<union>
      {p. \<exists>attribute d out hash. catalog_output entries system attribute d out hash \<and> p = output_ref format attribute d out hash} \<and>
    length result' \<le> maximum \<and> (\<forall>(attribute, package) \<in> set entries. \<exists>d outs. package = Json_object d \<and>
      json_get (lit ''outputs'') d = Some (Json_object outs) \<and> json_get (lit ''system'') d = Some (Json_text system))"
  using assms
proof (induction entries arbitrary: result)
  case Nil
  then show ?case by (simp add: catalog_output_def)
next
  case (Cons x entries)
  obtain attribute d outs where x: "x = (attribute, Json_object d)" "json_get (lit ''outputs'') d = Some (Json_object outs)"
      "json_get (lit ''system'') d = Some (Json_text system)"
    using Cons.prems(1) by (cases x; cases "snd x") (auto split: option.splits json.splits if_splits)
  let ?label = "case json_get (lit ''name'') d of None \<Rightarrow> attribute | Some (Json_text t) \<Rightarrow> t | Some v \<Rightarrow> format v"
  obtain result1 where one: "nix_outputs attribute ?label maximum result (sort_key fst outs) = Inr result1"
      "nix_entries format system maximum result1 entries = Inr result'"
    using Cons.prems(1) x by (auto simp: bind_Inr Let_def)
  have first: "set result1 = set result \<union> {p. \<exists>out hash. (\<exists>path. (out, Json_text path) \<in> set outs \<and> store_path path = Some hash) \<and>
      p = output_ref format attribute d out hash}" "length result1 \<le> maximum"
    using nix_outputs_exact [OF one(1)] Cons.prems(2) by (auto simp: output_ref_def)
  have outs: "catalog_output (x # entries) system a e out hash \<longleftrightarrow>
      (a = attribute \<and> e = d \<and> (\<exists>path. (out, Json_text path) \<in> set outs \<and> store_path path = Some hash)) \<or>
      catalog_output entries system a e out hash" for a e out hash
    using x by (auto simp: catalog_output_def)
  have split: "{p. \<exists>a e out hash. catalog_output (x # entries) system a e out hash \<and> p = output_ref format a e out hash} =
     {p. \<exists>out hash. (\<exists>path. (out, Json_text path) \<in> set outs \<and> store_path path = Some hash) \<and> p = output_ref format attribute d out hash} \<union>
     {p. \<exists>a e out hash. catalog_output entries system a e out hash \<and> p = output_ref format a e out hash}"
    unfolding outs some_output Collect_disj_eq by (rule refl)
  note rest = Cons.IH [OF one(2) first(2)]
  show ?case unfolding split using rest first(1) x by (simp add: Un_assoc)
qed

end
