(* ===== verification/Url_Split.thy ===== *)
theory Url_Split
  imports Strict_Text
begin

text \<open>
  \<open>urlsplit\<close>, \<open>urljoin\<close> and \<open>unquote\<close> of \<open>urllib.parse\<close> (Python 3.11) on texts.  \<open>netloc_ok\<close> stands for the two
  checks of a network location that look outside the text: the IP address between brackets and the NFKC
  normalisation of a name that is not ASCII.
\<close>

record split_url =
  su_scheme :: utext
  su_netloc :: utext
  su_path :: utext
  su_query :: utext
  su_fragment :: utext

section \<open>Splitting\<close>

text \<open>\<open>t.split(c, 1)\<close> when \<open>c\<close> occurs.\<close>

definition cut_at :: "nat \<Rightarrow> utext \<Rightarrow> (utext \<times> utext) option" where
  "cut_at c t = (case dropWhile (\<lambda>n. n \<noteq> c) t of [] \<Rightarrow> None | _ # rest \<Rightarrow> Some (takeWhile (\<lambda>n. n \<noteq> c) t, rest))"

definition cut_default :: "nat \<Rightarrow> utext \<Rightarrow> utext \<times> utext" where
  "cut_default c t = (case cut_at c t of None \<Rightarrow> (t, []) | Some x \<Rightarrow> x)"

definition alpha_point :: "nat \<Rightarrow> bool" where
  "alpha_point n \<longleftrightarrow> (65 \<le> n \<and> n \<le> 90) \<or> (97 \<le> n \<and> n \<le> 122)"

definition scheme_chars :: "nat \<Rightarrow> bool" where
  "scheme_chars n \<longleftrightarrow> alpha_point n \<or> (48 \<le> n \<and> n \<le> 57) \<or> n \<in> set (lit ''+-.'')"

definition lower_alpha :: "nat \<Rightarrow> nat" where
  "lower_alpha n = (if 65 \<le> n \<and> n \<le> 90 then n + 32 else n)"

text \<open>Leading control characters and blanks, and every tab and line break, are removed first.\<close>

definition cleaned :: "utext \<Rightarrow> utext" where
  "cleaned t = filter (\<lambda>n. n \<notin> {9, 10, 13}) (dropWhile (\<lambda>n. n \<le> 32) t)"

definition split_scheme :: "utext \<Rightarrow> utext \<Rightarrow> utext \<times> utext" where
  "split_scheme otherwise t =
     (case cut_at (code CHR '':'') t of
        Some (s, rest) \<Rightarrow>
          if s \<noteq> [] \<and> alpha_point (hd s) \<and> list_all scheme_chars s then (map lower_alpha s, rest) else (otherwise, t)
      | None \<Rightarrow> (otherwise, t))"

definition netloc_end :: "nat \<Rightarrow> bool" where
  "netloc_end n \<longleftrightarrow> n \<in> set (lit ''/?#'')"

definition split_netloc :: "utext \<Rightarrow> utext \<times> utext" where
  "split_netloc t =
     (if tstarts (lit ''//'') t
      then (takeWhile (\<lambda>n. \<not> netloc_end n) (drop 2 t), dropWhile (\<lambda>n. \<not> netloc_end n) (drop 2 t)) else ([], t))"

definition brackets_ok :: "utext \<Rightarrow> bool" where
  "brackets_ok t \<longleftrightarrow> (code CHR ''['' \<in> set t \<longleftrightarrow> code CHR '']'' \<in> set t)"

text \<open>\<open>None\<close> is the ValueError.\<close>

definition urlsplit :: "(utext \<Rightarrow> bool) \<Rightarrow> utext \<Rightarrow> utext \<Rightarrow> split_url option" where
  "urlsplit netloc_ok otherwise t =
     (let (scheme, t1) = split_scheme otherwise (cleaned t);
          (netloc, t2) = split_netloc t1;
          (t3, fragment) = cut_default (code CHR ''#'') t2;
          (path, query) = cut_default (code CHR ''?'') t3
      in if brackets_ok netloc \<and> netloc_ok netloc
         then Some \<lparr>su_scheme = scheme, su_netloc = netloc, su_path = path, su_query = query, su_fragment = fragment\<rparr>
         else None)"

text \<open>Whether \<open>username\<close> or \<open>password\<close> of the result is a non-empty text.\<close>

definition has_userinfo :: "utext \<Rightarrow> bool" where
  "has_userinfo netloc \<longleftrightarrow>
     (let at = code CHR ''@''; info = rev (tl (dropWhile (\<lambda>n. n \<noteq> at) (rev netloc))) in
      at \<in> set netloc \<and> (case cut_at (code CHR '':'') info of None \<Rightarrow> info \<noteq> [] | Some (user, password) \<Rightarrow> user \<noteq> [] \<or> password \<noteq> []))"

section \<open>Joining\<close>

definition uses_relative :: "utext list" where
  "uses_relative = map lit [[], ''ftp'', ''http'', ''gopher'', ''nntp'', ''imap'', ''wais'', ''file'', ''https'', ''shttp'', ''mms'',
     ''prospero'', ''rtsp'', ''rtsps'', ''rtspu'', ''sftp'', ''svn'', ''svn+ssh'', ''ws'', ''wss'']"

definition uses_netloc :: "utext list" where
  "uses_netloc = map lit [[], ''ftp'', ''http'', ''gopher'', ''nntp'', ''telnet'', ''imap'', ''wais'', ''file'', ''mms'', ''https'', ''shttp'',
     ''snews'', ''prospero'', ''rtsp'', ''rtsps'', ''rtspu'', ''rsync'', ''svn'', ''svn+ssh'', ''sftp'', ''nfs'', ''git'', ''git+ssh'', ''ws'', ''wss'']"

definition uses_params :: "utext list" where
  "uses_params = map lit [[], ''ftp'', ''hdl'', ''prospero'', ''http'', ''https'', ''shttp'', ''rtsp'', ''rtsps'', ''rtspu'', ''sip'', ''sips'',
     ''mms'', ''sftp'', ''tel'']"

text \<open>\<open>_splitparams\<close> looks for a semicolon in the last segment.\<close>

definition split_params :: "utext \<Rightarrow> utext \<Rightarrow> utext \<times> utext" where
  "split_params scheme path =
     (if scheme \<in> set uses_params
      then let slash = code CHR ''/'';
               dir = rev (dropWhile (\<lambda>n. n \<noteq> slash) (rev path));
               (file, params) = cut_default (code CHR '';'') (drop (length dir) path)
           in (dir @ file, params)
      else (path, []))"

definition urlunsplit :: "split_url \<Rightarrow> utext" where
  "urlunsplit u =
     (let path = su_path u;
          slashed = (if path \<noteq> [] \<and> hd path \<noteq> code CHR ''/'' then code CHR ''/'' # path else path);
          t = (if su_netloc u \<noteq> [] \<or> (su_scheme u \<noteq> [] \<and> su_scheme u \<in> set uses_netloc) \<or> tstarts (lit ''//'') path
               then lit ''//'' @ su_netloc u @ slashed else path)
      in (if su_scheme u \<noteq> [] then su_scheme u @ lit '':'' else []) @ t @
         (if su_query u \<noteq> [] then lit ''?'' @ su_query u else []) @
         (if su_fragment u \<noteq> [] then lit ''#'' @ su_fragment u else []))"

definition with_params :: "utext \<Rightarrow> utext \<Rightarrow> utext" where
  "with_params path params = (if params = [] then path else path @ lit '';'' @ params)"

text \<open>Segments that would only repeat a slash are left out, then the dots are resolved.\<close>

definition squeezed :: "utext list \<Rightarrow> utext list" where
  "squeezed s = (case s of a # b # rest \<Rightarrow> a # filter (\<lambda>x. x \<noteq> []) (butlast (b # rest)) @ [last (b # rest)] | _ \<Rightarrow> s)"

definition resolve_step :: "utext list \<Rightarrow> utext \<Rightarrow> utext list" where
  "resolve_step resolved seg = (if seg = lit ''..'' then butlast resolved else if seg = lit ''.'' then resolved else resolved @ [seg])"

definition resolve_dots :: "utext list \<Rightarrow> utext list" where
  "resolve_dots segments =
     foldl resolve_step [] segments @ (if last segments \<in> {lit ''.'', lit ''..''} then [[]] else [])"

definition directory_parts :: "utext \<Rightarrow> utext list" where
  "directory_parts path = (let parts = split_on (code CHR ''/'') path in if last parts \<noteq> [] then butlast parts else parts)"

definition joined_path :: "utext \<Rightarrow> utext \<Rightarrow> utext" where
  "joined_path base path =
     (let parts = split_on (code CHR ''/'') path;
          segments = (if path \<noteq> [] \<and> hd path = code CHR ''/'' then parts else squeezed (directory_parts base @ parts));
          joined = join (lit ''/'') (resolve_dots segments)
      in if joined = [] then lit ''/'' else joined)"

definition urljoin :: "(utext \<Rightarrow> bool) \<Rightarrow> utext \<Rightarrow> utext \<Rightarrow> utext option" where
  "urljoin netloc_ok base t =
     (if base = [] then Some t else if t = [] then Some base
      else case urlsplit netloc_ok [] base of
        None \<Rightarrow> None
      | Some b \<Rightarrow> (case urlsplit netloc_ok (su_scheme b) t of
          None \<Rightarrow> None
        | Some u \<Rightarrow>
            let (bpath, bparams) = split_params (su_scheme b) (su_path b);
                (path, params) = split_params (su_scheme u) (su_path u)
            in if su_scheme u \<noteq> su_scheme b \<or> su_scheme u \<notin> set uses_relative then Some t
               else if su_scheme u \<in> set uses_netloc \<and> su_netloc u \<noteq> []
               then Some (urlunsplit (u\<lparr>su_path := with_params path params\<rparr>))
               else let u' = (if su_scheme u \<in> set uses_netloc then u\<lparr>su_netloc := su_netloc b\<rparr> else u) in
                 if path = [] \<and> params = []
                 then Some (urlunsplit (u'\<lparr>su_path := with_params bpath bparams, su_query := if su_query u = [] then su_query b else su_query u\<rparr>))
                 else Some (urlunsplit (u'\<lparr>su_path := with_params (joined_path bpath path) params\<rparr>))))"

section \<open>Percent decoding\<close>

definition hex_value :: "nat \<Rightarrow> nat option" where
  "hex_value n = (if 48 \<le> n \<and> n \<le> 57 then Some (n - 48) else if 97 \<le> n \<and> n \<le> 102 then Some (n - 87)
     else if 65 \<le> n \<and> n \<le> 70 then Some (n - 55) else None)"

fun unquote_bytes :: "nat list \<Rightarrow> nat list" where
  "unquote_bytes (c # a # b # s) =
     (case (if c = code CHR ''%'' then (hex_value a, hex_value b) else (None, None)) of
        (Some x, Some y) \<Rightarrow> (16 * x + y) # unquote_bytes s
      | _ \<Rightarrow> c # unquote_bytes (a # b # s))"
| "unquote_bytes s = s"

text \<open>Each run of ASCII characters is decoded on its own, with replacement.\<close>

function unquote :: "utext \<Rightarrow> utext" where
  "unquote [] = []"
| "unquote (c # t) =
     (if c < 128
      then utf8 (unquote_bytes (takeWhile (\<lambda>n. n < 128) (c # t))) @ unquote (dropWhile (\<lambda>n. n < 128) (c # t))
      else c # unquote t)"
  by pat_completeness auto
termination by (relation "measure length") (auto intro: le_less_trans [OF length_dropWhile_le])

section \<open>Lemmas\<close>

lemma utf8_ascii: "\<forall>c \<in> set s. c < 128 \<Longrightarrow> utf8 s = s"
  by (induction s) (simp_all add: step_ascii)

lemma unquote_bytes_plain: "code CHR ''%'' \<notin> set s \<Longrightarrow> unquote_bytes s = s"
  by (induction s rule: unquote_bytes.induct) auto

text \<open>The short cut of \<open>unquote\<close> for a text without a percent sign.\<close>

lemma unquote_plain: "code CHR ''%'' \<notin> set t \<Longrightarrow> unquote t = t"
proof (induction t rule: unquote.induct)
  case 1
  then show ?case by simp
next
  case (2 c t)
  show ?case
  proof (cases "c < 128")
    case True
    let ?run = "takeWhile (\<lambda>n. n < 128) (c # t)" and ?rest = "dropWhile (\<lambda>n. n < 128) (c # t)"
    have "unquote ?rest = ?rest" using 2(1) [OF True] 2(3) by (meson set_dropWhileD)
    moreover have "utf8 (unquote_bytes ?run) = ?run"
    proof -
      have "code CHR ''%'' \<notin> set ?run" using 2(3) by (meson set_takeWhileD)
      moreover have "\<forall>c \<in> set ?run. c < 128" by (meson set_takeWhileD)
      ultimately show ?thesis by (simp add: unquote_bytes_plain utf8_ascii del: takeWhile.simps)
    qed
    ultimately have "unquote (c # t) = ?run @ ?rest" using True by (simp del: takeWhile.simps dropWhile.simps)
    then show ?thesis by (simp only: takeWhile_dropWhile_id)
  next
    case False
    then show ?thesis using 2 by simp
  qed
qed

text \<open>A path without the delimiters is its own path.\<close>

lemma cut_at_absent: "c \<notin> set t \<Longrightarrow> cut_at c t = None"
proof -
  assume "c \<notin> set t"
  then have "dropWhile (\<lambda>n. n \<noteq> c) t = []" unfolding dropWhile_eq_Nil_conv by blast
  then show ?thesis unfolding cut_at_def by (simp only: list.case)
qed

lemma cut_at_first: "c \<notin> set a \<Longrightarrow> cut_at c (a @ c # b) = Some (a, b)"
proof -
  assume "c \<notin> set a"
  then have "\<forall>n \<in> set a. n \<noteq> c" by blast
  then have "takeWhile (\<lambda>n. n \<noteq> c) (a @ c # b) = a \<and> dropWhile (\<lambda>n. n \<noteq> c) (a @ c # b) = c # b"
    by (simp add: takeWhile_tail dropWhile_append3)
  then show ?thesis by (simp add: cut_at_def)
qed

end
