(* ===== verification/Nix_Narinfo.thy ===== *)
theory Nix_Narinfo
  imports Nix_Index Url_Split
begin

text \<open>
  The first half of \<open>cache/nix.py\<close>: hashes in Nix's base 32, the address of an archive and the found of a
  narinfo document.  \<open>decimal\<close> gives the value of a Unicode decimal digit, as \<open>int\<close> reads it.
\<close>

section \<open>Hashes\<close>

definition base32_index :: "nat \<Rightarrow> nat" where
  "base32_index c = length (takeWhile (\<lambda>n. n \<noteq> c) base32_chars)"

definition base32_number :: "utext \<Rightarrow> nat" where
  "base32_number t = foldl (\<lambda>n c. 32 * n + base32_index c) 0 t"

definition hex_text :: "nat list \<Rightarrow> str" where
  "hex_text bs = concat (map (\<lambda>b. [''0123456789abcdef'' ! (b div 16), ''0123456789abcdef'' ! (b mod 16)]) bs)"

text \<open>\<open>number.to_bytes(n, 'little')\<close> of a number that fits\<close>

fun little_bytes :: "nat \<Rightarrow> nat \<Rightarrow> nat list" where
  "little_bytes 0 n = []"
| "little_bytes (Suc k) n = n mod 256 # little_bytes k (n div 256)"

definition hex_hash :: "utext \<Rightarrow> bool" where
  "hex_hash t \<longleftrightarrow> length t = 64 \<and> list_all (\<lambda>n. (48 \<le> n \<and> n \<le> 57) \<or> (97 \<le> n \<and> n \<le> 102)) t"

text \<open>\<open>sha256_hex\<close>\<close>

definition nix_sha256 :: "utext \<Rightarrow> index_error + str" where
  "nix_sha256 t =
     (case cut_at (code CHR '':'') t of
        None \<Rightarrow> Inl Value_error
      | Some (algorithm, encoded) \<Rightarrow>
          if algorithm \<noteq> lit ''sha256'' then Inl Value_error
          else if hex_hash encoded then Inr (ascii_str encoded)
          else if length encoded \<noteq> 52 \<or> \<not> set encoded \<subseteq> set base32_chars then Inl Value_error
          else let number = base32_number encoded in
            if number < 256 ^ 32 then Inr (hex_text (little_bytes 32 number)) else Inl Value_error)"

text \<open>What Nix writes: the digits of the number, the most significant first.\<close>

fun base32_digits :: "nat \<Rightarrow> nat \<Rightarrow> utext" where
  "base32_digits 0 n = []"
| "base32_digits (Suc k) n = base32_digits k (n div 32) @ [base32_chars ! (n mod 32)]"

fun little_number :: "nat list \<Rightarrow> nat" where
  "little_number [] = 0"
| "little_number (b # bs) = b + 256 * little_number bs"

definition nix_base32 :: "nat list \<Rightarrow> utext" where
  "nix_base32 digest = base32_digits 52 (little_number digest)"

lemma base32_length: "length base32_chars = 32"
  by (simp add: base32_chars_def lit_def)

lemma base32_index_nth: "i < 32 \<Longrightarrow> base32_index (base32_chars ! i) = i"
proof -
  have "\<forall>i \<in> set [0..<32]. base32_index (base32_chars ! i) = i" by code_simp
  then show "i < 32 \<Longrightarrow> base32_index (base32_chars ! i) = i" by simp
qed

lemma base32_number_snoc: "base32_number (t @ [c]) = 32 * base32_number t + base32_index c"
  by (simp add: base32_number_def)

lemma base32_number_digits: "n < 32 ^ k \<Longrightarrow> base32_number (base32_digits k n) = n"
proof (induction k arbitrary: n)
  case 0
  then show ?case by (simp add: base32_number_def)
next
  case (Suc k)
  then have "n div 32 < 32 ^ k" by (simp add: less_mult_imp_div_less mult.commute)
  with Suc.IH show ?case by (simp add: base32_number_snoc base32_index_nth)
qed

lemma base32_digits_ok: "length (base32_digits k n) = k \<and> set (base32_digits k n) \<subseteq> set base32_chars"
  by (induction k arbitrary: n) (auto simp: base32_length)

lemma little_bytes_number: "list_all (\<lambda>b. b < 256) bs \<Longrightarrow> little_bytes (length bs) (little_number bs) = bs"
  by (induction bs) auto

lemma little_number_bound: "list_all (\<lambda>b. b < 256) bs \<Longrightarrow> little_number bs < 256 ^ length bs"
  by (induction bs) auto

lemma not_hex_hash: "length t = 52 \<Longrightarrow> \<not> hex_hash t"
  by (simp add: hex_hash_def)

text \<open>Reading a hash in Nix's base 32 undoes writing it: for every digest of 32 bytes the text Nix writes is accepted and
  becomes the hexadecimal text of the same bytes.\<close>

theorem nix_sha256_encoded:
  assumes "length digest = 32" "list_all (\<lambda>b. b < 256) digest"
  shows "nix_sha256 (lit ''sha256:'' @ nix_base32 digest) = Inr (hex_text digest)"
proof -
  let ?n = "little_number digest" and ?t = "nix_base32 digest"
  have n: "?n < 256 ^ 32" using little_number_bound [OF assms(2)] assms(1) by simp
  then have "?n < 32 ^ 52" by simp
  then have number: "base32_number ?t = ?n" unfolding nix_base32_def by (rule base32_number_digits)
  have len: "length ?t = 52" and chars: "set ?t \<subseteq> set base32_chars" using base32_digits_ok by (auto simp: nix_base32_def)
  have "cut_at (code CHR '':'') (lit ''sha256'' @ code CHR '':'' # ?t) = Some (lit ''sha256'', ?t)"
    by (rule cut_at_first) (simp add: lit_def)
  then have cut: "cut_at (code CHR '':'') (lit ''sha256:'' @ ?t) = Some (lit ''sha256'', ?t)" by (simp add: lit_def)
  have "little_bytes 32 ?n = digest" using little_bytes_number [OF assms(2)] assms(1) by simp
  then show ?thesis using cut number len chars n not_hex_hash [OF len] by (simp add: nix_sha256_def)
qed

lemma nix_sha256_encoded_witness: "nix_sha256 (lit ''sha256:'' @ nix_base32 (replicate 32 255)) = Inr (hex_text (replicate 32 255))"
  by (rule nix_sha256_encoded) (simp_all add: list_all_iff)

section \<open>Numbers\<close>

text \<open>\<open>int(t)\<close>: blanks around it, a sign, decimal digits with single underscores between them, at most 4300 of them.\<close>

fun int_digits :: "(nat \<Rightarrow> nat option) \<Rightarrow> nat \<Rightarrow> utext \<Rightarrow> nat option" where
  "int_digits decimal n [] = Some n"
| "int_digits decimal n [c] = (case decimal c of None \<Rightarrow> None | Some v \<Rightarrow> Some (10 * n + v))"
| "int_digits decimal n (c # d # t) =
     (case decimal c of
        Some v \<Rightarrow> int_digits decimal (10 * n + v) (d # t)
      | None \<Rightarrow> if c = code CHR ''_'' then (case decimal d of None \<Rightarrow> None | Some v \<Rightarrow> int_digits decimal (10 * n + v) t) else None)"

definition int_limit :: nat where
  "int_limit = 4300"

definition int_of :: "(nat \<Rightarrow> nat option) \<Rightarrow> utext \<Rightarrow> index_error + int" where
  "int_of decimal t =
     (let s = tstrip t;
          minus = tstarts (lit ''-'') s;
          digits = (if minus \<or> tstarts (lit ''+'') s then tl s else s)
      in if digits = [] \<or> decimal (hd digits) = None \<or> int_limit < length (filter (\<lambda>n. n \<noteq> code CHR ''_'') digits) then Inl Value_error
         else (case int_digits decimal 0 digits of None \<Rightarrow> Inl Value_error | Some n \<Rightarrow> Inr (if minus then - int n else int n)))"

section \<open>The address of an archive\<close>

definition rstrip_slash :: "utext \<Rightarrow> utext" where
  "rstrip_slash t = rev (dropWhile (\<lambda>n. n = code CHR ''/'') (rev t))"

definition nar_filename :: "(utext \<Rightarrow> bool) \<Rightarrow> utext \<Rightarrow> utext \<Rightarrow> index_error + utext" where
  "nar_filename netloc_ok upstream v =
     (let cache = rstrip_slash upstream @ lit ''/'' in
      case (urlsplit netloc_ok [] cache, urljoin netloc_ok cache v, urlsplit netloc_ok [] v) of
        (Some base, Some target, Some original) \<Rightarrow>
          (case urlsplit netloc_ok [] target of
             None \<Rightarrow> Inl Value_error
           | Some parsed \<Rightarrow>
               if su_scheme parsed \<noteq> su_scheme base \<or> su_netloc parsed \<noteq> su_netloc base \<or> su_fragment parsed \<noteq> [] \<or>
                  has_userinfo (su_netloc parsed) \<or> \<not> tstarts (su_path base) (su_path parsed) \<or>
                  list_ex (\<lambda>p. p = lit ''.'' \<or> p = lit ''..'') (split_on (code CHR ''/'') (su_path original)) \<or>
                  \<not> (tstarts (lit ''/'') (su_path parsed) \<and> tl (su_path parsed) \<noteq> [] \<and> list_all package_path_point (tl (su_path parsed))) \<or>
                  list_ex (\<lambda>n. space_point n \<or> n < 32) v
               then Inl Value_error
               else let filename = drop (length (su_path base)) (su_path parsed) in
                 if filename = [] \<or> hd filename = code CHR ''/'' then Inl Value_error
                 else Inr (filename @ (if su_query parsed \<noteq> [] then lit ''?'' @ su_query parsed else [])))
      | _ \<Rightarrow> Inl Value_error)"

section \<open>Fields\<close>

text \<open>\<open>NARINFO.fullmatch\<close>\<close>

definition narinfo_name :: "utext \<Rightarrow> bool" where
  "narinfo_name t \<longleftrightarrow> drop 32 t = lit ''.narinfo'' \<and> set (take 32 t) \<subseteq> set base32_chars"

text \<open>Only \<open>Sig\<close> may be repeated.\<close>

fun narinfo_fields :: "(utext \<times> utext) list \<Rightarrow> utext list \<Rightarrow> index_error + (utext \<times> utext) list" where
  "narinfo_fields found [] = Inr found"
| "narinfo_fields found (line # rest) =
     (if line = [] then narinfo_fields found rest
      else case partition_sep (lit '': '') line of
        None \<Rightarrow> Inl Value_error
      | Some (name, v) \<Rightarrow>
          if map_of found name \<noteq> None \<and> name \<noteq> lit ''Sig'' then Inl Value_error
          else narinfo_fields (AList.update name v found) rest)"

record nix_info =
  ni_path :: utext
  ni_refs :: "utext list"
  ni_file :: utext
  ni_hash :: "str option"
  ni_size :: "nat option"

fun nix_refs :: "utext list \<Rightarrow> index_error + utext list" where
  "nix_refs [] = Inr []"
| "nix_refs (r # rs) =
     (case store_path (lit ''/nix/store/'' @ r) of
        None \<Rightarrow> Inl Value_error
      | Some hash \<Rightarrow> bind (nix_refs rs) (\<lambda>refs. Inr ((hash @ lit ''.narinfo'') # refs)))"

definition field :: "(utext \<times> utext) list \<Rightarrow> str \<Rightarrow> utext option" where
  "field found name = map_of found (lit name)"

definition optional_field :: "(utext \<times> utext) list \<Rightarrow> str \<Rightarrow> (utext \<Rightarrow> index_error + 'a) \<Rightarrow> index_error + 'a option" where
  "optional_field found name read =
     (case field found name of None \<Rightarrow> Inr None | Some t \<Rightarrow> bind (read t) (\<lambda>x. Inr (Some x)))"

definition natural :: "(nat \<Rightarrow> nat option) \<Rightarrow> utext \<Rightarrow> index_error + nat" where
  "natural decimal t = bind (int_of decimal t) (\<lambda>n. if n < 0 then Inl Value_error else Inr (nat n))"

record nix_text_env =
  nt_decimal :: "nat \<Rightarrow> nat option"
  nt_netloc :: "utext \<Rightarrow> bool"

definition narinfo_of :: "nix_text_env \<Rightarrow> (utext \<times> utext) list \<Rightarrow> utext \<Rightarrow> utext \<Rightarrow> index_error + nix_info" where
  "narinfo_of env found filename upstream =
     (case (field found ''StorePath'', field found ''NarHash'', field found ''URL'', field found ''NarSize'') of
        (Some path, Some nar_hash, Some url, Some nar_size) \<Rightarrow>
          if map_option (\<lambda>h. h @ lit ''.narinfo'') (store_path path) \<noteq> Some filename then Inl Value_error
          else if nar_hash = [] \<or> url = [] then Inl Value_error
          else bind (natural (nt_decimal env) nar_size) (\<lambda>_. bind (nix_sha256 nar_hash) (\<lambda>_.
               bind (nix_refs (tsplit (case field found ''References'' of None \<Rightarrow> [] | Some t \<Rightarrow> t))) (\<lambda>refs.
               bind (optional_field found ''FileSize'' (natural (nt_decimal env))) (\<lambda>size.
               bind (nar_filename (nt_netloc env) upstream url) (\<lambda>file.
               bind (optional_field found ''FileHash'' nix_sha256) (\<lambda>hash.
                 Inr \<lparr>ni_path = path, ni_refs = refs, ni_file = file, ni_hash = hash, ni_size = size\<rparr>))))))
      | _ \<Rightarrow> Inl Value_error)"

definition parse_narinfo :: "nix_text_env \<Rightarrow> str \<Rightarrow> utext \<Rightarrow> utext \<Rightarrow> index_error + nix_info" where
  "parse_narinfo env raw filename upstream =
     (if \<not> narinfo_name filename then Inl Value_error
      else bind (strict_text raw) (\<lambda>text. bind (narinfo_fields [] (tsplitlines text)) (\<lambda>found.
        narinfo_of env found filename upstream)))"

section \<open>What a narinfo that was read says\<close>

lemma nix_refs_names: "nix_refs rs = Inr refs \<Longrightarrow> \<forall>r \<in> set refs. narinfo_name r"
proof (induction rs arbitrary: refs)
  case (Cons r rs)
  then obtain hash rest where "store_path (lit ''/nix/store/'' @ r) = Some hash" "nix_refs rs = Inr rest"
      "refs = (hash @ lit ''.narinfo'') # rest"
    by (auto simp: bind_Inr split: option.splits)
  then show ?case using Cons.IH [of rest] store_path_hash [of "lit ''/nix/store/'' @ r" hash] by (auto simp: narinfo_name_def)
qed simp

lemma parse_narinfo_names:
  assumes "parse_narinfo env raw filename upstream = Inr info"
  shows "narinfo_name filename" and "\<forall>r \<in> set (ni_refs info). narinfo_name r"
    and "map_option (\<lambda>h. h @ lit ''.narinfo'') (store_path (ni_path info)) = Some filename"
proof -
  obtain found where name: "narinfo_name filename" and "narinfo_of env found filename upstream = Inr info"
    using assms by (auto simp: parse_narinfo_def bind_Inr split: if_splits)
  then obtain t where "nix_refs t = Inr (ni_refs info)" and path: "map_option (\<lambda>h. h @ lit ''.narinfo'') (store_path (ni_path info)) = Some filename"
    by (auto simp: narinfo_of_def bind_Inr split: option.splits if_splits)
  then show "\<forall>r \<in> set (ni_refs info). narinfo_name r" using nix_refs_names by blast
  show "narinfo_name filename" "map_option (\<lambda>h. h @ lit ''.narinfo'') (store_path (ni_path info)) = Some filename"
    by (rule name, rule path)
qed

text \<open>The address of an archive stays below the path of its cache, without an escape.\<close>

lemma nar_filename_parts:
  assumes "nar_filename netloc_ok upstream v = Inr f"
  obtains base target parsed where "urlsplit netloc_ok [] (rstrip_slash upstream @ lit ''/'') = Some base"
    "urljoin netloc_ok (rstrip_slash upstream @ lit ''/'') v = Some target" "urlsplit netloc_ok [] target = Some parsed"
    "su_scheme parsed = su_scheme base" "su_netloc parsed = su_netloc base"
    "f = drop (length (su_path base)) (su_path parsed) @ (if su_query parsed \<noteq> [] then lit ''?'' @ su_query parsed else [])"
    "su_path parsed = su_path base @ drop (length (su_path base)) (su_path parsed)"
    "list_all package_path_point (tl (su_path parsed))" "f \<noteq> []" "hd f \<noteq> code CHR ''/''"
  using assms that
  by (auto simp: nar_filename_def Let_def tstarts_iff split: option.splits if_splits)

end
