(* ===== verification/Nix_Cache.thy ===== *)
theory Nix_Cache
  imports Nix_Narinfo Cache_Probe Store_Repositories
begin

text \<open>
  The second half of \<open>cache/nix.py\<close>: the closure of a store path, its signatures, and warming and purging the
  files of closures.  File names are texts while a closure is read; the database and the cache see their UTF-8
  bytes.  Outside the program are the answers of the binary cache, the \<open>nix\<close> command with the directory it
  reads, SHA-256, the downloads through the cache, and whether the scheduler still admits an automatic
  download at the moments it is asked.
\<close>

section \<open>Environment\<close>

datatype moment = Before_closure str | Before_download str | Before_retry str | After_closure str

record nix_env =
  nv_text :: nix_text_env
  nv_http :: "str \<Rightarrow> http_answer"
  nv_upstream :: str
  nv_store :: utext
  nv_verify :: "(utext \<times> str) list \<Rightarrow> runner"
  nv_sha256 :: "str \<Rightarrow> str"
  nv_download :: "str \<Rightarrow> str option \<Rightarrow> nat option \<Rightarrow> bool \<times> int option"
  nv_again :: "str \<Rightarrow> str option \<Rightarrow> nat option \<Rightarrow> bool \<times> int option"
  nv_admit :: "moment \<Rightarrow> bool"

type_synonym records = "(utext \<times> str \<times> nix_info) list"

section \<open>Closures\<close>

definition narinfo_limit :: nat where
  "narinfo_limit = 1024 * 1024"

definition fetch_narinfo :: "nix_env \<Rightarrow> utext \<Rightarrow> index_error + (str \<times> nix_info)" where
  "fetch_narinfo env f =
     bind (http_get (nv_http env) (rstrip_char CHR ''/'' (nv_upstream env) @ ''/'' @ ascii_str f)) (\<lambda>raw.
       if narinfo_limit < length raw then Inl Value_error
       else bind (parse_narinfo (nv_text env) raw f (lit (nv_upstream env))) (\<lambda>info. Inr (raw, info)))"

text \<open>The pending names are a stack with its top first.\<close>

function discover_loop :: "nix_env \<Rightarrow> nat \<Rightarrow> records \<Rightarrow> records \<Rightarrow> utext list \<Rightarrow> index_error + records" where
  "discover_loop env limit cached records [] = Inr records"
| "discover_loop env limit cached records (f # pending) =
     (if map_of records f \<noteq> None then discover_loop env limit cached records pending
      else if limit \<le> length records then Inl Value_error
      else if \<not> narinfo_name f then Inl Value_error
      else bind (case map_of cached f of Some e \<Rightarrow> Inr e | None \<Rightarrow> fetch_narinfo env f) (\<lambda>e.
             discover_loop env limit cached (records @ [(f, e)]) (rev (ni_refs (snd e)) @ pending)))"
  by pat_completeness auto
termination
  by (relation "measures [\<lambda>(_, limit, _, records, _). limit - length records, \<lambda>(_, _, _, _, pending). length pending]") auto

text \<open>The copy that Nix verifies has no \<open>CA\<close> field, so that a signature is required.\<close>

definition signed_copy :: "str \<Rightarrow> str" where
  "signed_copy raw = join [LF] (filter (\<lambda>line. \<not> starts_with ''CA: '' line) (split_on LF raw))"

definition cache_info_text :: str where
  "cache_info_text = ''StoreDir: /nix/store'' @ [LF] @ ''WantMassQuery: 0'' @ [LF] @ ''Priority: 40'' @ [LF]"

definition verify_command :: "utext \<Rightarrow> str list \<Rightarrow> utext list \<Rightarrow> utext list" where
  "verify_command store keys paths =
     map lit [''nix'', ''--extra-experimental-features'', ''nix-command'', ''store'', ''verify'', ''--store''] @ [store] @
     map lit [''--no-contents'', ''--sigs-needed'', ''1'', ''--option'', ''trusted-public-keys'', join '' '' keys] @ paths"

definition verify_batch :: nat where
  "verify_batch = 128"

function verify_paths :: "runner \<Rightarrow> utext \<Rightarrow> str list \<Rightarrow> utext list \<Rightarrow> index_error + unit" where
  "verify_paths run store keys paths =
     (if paths = [] then Inr ()
      else case run_nix run (verify_command store keys (take verify_batch paths)) of
        Inl _ \<Rightarrow> Inl Signature_error
      | Inr _ \<Rightarrow> verify_paths run store keys (drop verify_batch paths))"
  by pat_completeness auto
termination by (relation "measure (\<lambda>(_, _, _, paths). length paths)") (auto simp: verify_batch_def)

declare verify_paths.simps [simp del]

definition signature_files :: "records \<Rightarrow> (utext \<times> str) list" where
  "signature_files records = (lit ''nix-cache-info'', cache_info_text) # map (\<lambda>(f, raw, info). (f, signed_copy raw)) records"

definition verify_metadata :: "nix_env \<Rightarrow> str list \<Rightarrow> records \<Rightarrow> index_error + unit" where
  "verify_metadata env keys records =
     verify_paths (nv_verify env (signature_files records)) (nv_store env) keys (map (\<lambda>(f, raw, info). ni_path info) records)"

text \<open>The records of the closure, and the cache of records with them.\<close>

definition discover :: "nix_env \<Rightarrow> repo_config \<Rightarrow> records \<Rightarrow> utext \<Rightarrow> index_error + (records \<times> records)" where
  "discover env r cached start =
     bind (discover_loop env (nat (rp_nix_max_paths r)) cached [] [start]) (\<lambda>records.
     bind (if rp_verify r then verify_metadata env (rp_nix_keys r) records else Inr ()) (\<lambda>_.
       Inr (records, fold (\<lambda>(f, e). AList.update f e) records cached)))"

section \<open>Warming\<close>

type_synonym artifact = "str \<times> str option \<times> nat option"
type_synonym download = "index_error + (bool \<times> int option)"

definition artifacts_of :: "nix_env \<Rightarrow> utext \<times> str \<times> nix_info \<Rightarrow> artifact list" where
  "artifacts_of env x = (case x of (f, raw, info) \<Rightarrow>
     [(encode f, Some (nv_sha256 env raw), Some (length raw)), (encode (ni_file info), ni_hash info, ni_size info)])"

definition caught :: "config_error + 'a \<Rightarrow> index_error + 'a" where
  "caught x = (case x of Inl _ \<Rightarrow> Inl Value_error | Inr y \<Rightarrow> Inr y)"

definition evict :: "env \<Rightarrow> config \<Rightarrow> repo_config \<Rightarrow> str \<Rightarrow> index_error + str option" where
  "evict e c r name =
     bind (if ng_enable_probe (cf_nginx c) then Inr (en_purge_raw e r [(name, name)]) else caught (purge_selected e c r [(name, name)]))
       (\<lambda>removed. Inr (map_of removed name))"

text \<open>A cached answer with the wrong bytes is evicted once and downloaded again.\<close>

definition download_artifact :: "nix_env \<Rightarrow> env \<Rightarrow> config \<Rightarrow> repo_config \<Rightarrow> bool \<Rightarrow> artifact \<Rightarrow> download" where
  "download_artifact nv e c r force a =
     (case a of (name, digest, expected) \<Rightarrow>
        if \<not> force \<and> \<not> nv_admit nv (Before_download name) then Inr (False, None)
        else bind (caught (warm_url c r name)) (\<lambda>url.
          let result = nv_download nv url digest expected in
          if \<not> fst result \<and> snd result = Some 200 \<and> ng_enable_purge (cf_nginx c)
          then bind (evict e c r name) (\<lambda>removed.
                 if removed \<in> {Some ''purged'', Some ''not_cached''} \<and> (force \<or> nv_admit nv (Before_retry name))
                 then Inr (nv_again nv url digest expected) else Inr result)
          else Inr result))"

text \<open>A shared artifact is downloaded once in a run; \<open>memo\<close> holds the answers.\<close>

fun fetch_artifacts :: "(artifact \<Rightarrow> download) \<Rightarrow> artifact list \<Rightarrow> (artifact \<times> download) list \<Rightarrow> download list \<times> (artifact \<times> download) list" where
  "fetch_artifacts get [] memo = ([], memo)"
| "fetch_artifacts get (a # as) memo =
     (let (x, memo') = (case map_of memo a of Some x \<Rightarrow> (x, memo) | None \<Rightarrow> (get a, memo @ [(a, get a)]));
          (xs, memo'') = fetch_artifacts get as memo'
      in (x # xs, memo''))"

fun gathered :: "('e + 'a) list \<Rightarrow> 'e + 'a list" where
  "gathered [] = Inr []"
| "gathered (x # xs) = bind x (\<lambda>y. bind (gathered xs) (\<lambda>ys. Inr (y # ys)))"

definition closure_result :: "(bool \<times> int option) list \<Rightarrow> bool \<times> int option" where
  "closure_result results =
     (if list_all fst results then (True, Some 200)
      else (False, case find (\<lambda>x. \<not> fst x) results of Some x \<Rightarrow> snd x | None \<Rightarrow> None))"

record nix_state =
  ns_info :: "bool option"
  ns_found :: records
  ns_memo :: "(artifact \<times> download) list"
  ns_failed :: bool
  ns_checked :: bool
  ns_outcomes :: outcomes
  ns_db :: db

definition cache_info_ok :: "nix_env \<Rightarrow> config \<Rightarrow> repo_config \<Rightarrow> nix_state \<Rightarrow> index_error + bool" where
  "cache_info_ok nv c r s =
     (case ns_info s of Some b \<Rightarrow> Inr b
      | None \<Rightarrow> bind (caught (warm_url c r ''nix-cache-info'')) (\<lambda>url. Inr (fst (nv_download nv url None None))))"

text \<open>The \<open>try\<close> block: the closure of one package.\<close>

definition nix_attempt :: "nix_env \<Rightarrow> env \<Rightarrow> config \<Rightarrow> repo_config \<Rightarrow> bool \<Rightarrow> str \<Rightarrow> str \<Rightarrow> nix_state \<Rightarrow> download \<times> nix_state" where
  "nix_attempt nv e c r force key filename s =
     (case cache_info_ok nv c r s of
        Inl err \<Rightarrow> (Inl err, s)
      | Inr ok \<Rightarrow>
          let s1 = s\<lparr>ns_info := Some ok\<rparr> in
          if \<not> ok then (Inl Value_error, s1)
          else (case discover nv r (ns_found s1) (lit filename) of
              Inl err \<Rightarrow> (Inl err, s1)
            | Inr (records, found) \<Rightarrow>
                let artifacts = concat (map (artifacts_of nv) records);
                    (answers, memo) = fetch_artifacts (download_artifact nv e c r force) artifacts (ns_memo s1)
                in (bind (gathered answers) (\<lambda>results. Inr (closure_result results)),
                    s1\<lparr>ns_found := found, ns_checked := ns_checked s1 \<or> rp_verify r, ns_memo := memo,
                       ns_db := record_nix_artifacts (rp_id r) key artifacts (ns_db s1)\<rparr>)))"

fun warm_closures :: "nix_env \<Rightarrow> env \<Rightarrow> config \<Rightarrow> repo_config \<Rightarrow> warming_policy \<Rightarrow> bool \<Rightarrow> (str \<times> str) list \<Rightarrow> nix_state \<Rightarrow> nix_state" where
  "warm_closures nv e c r policy force [] s = s"
| "warm_closures nv e c r policy force ((key, filename) # rest) s =
     (if \<not> force \<and> \<not> nv_admit nv (Before_closure key) then s
      else if \<not> allows policy key then warm_closures nv e c r policy force rest s
      else let s1 = (if force then s\<lparr>ns_db := record_interest (rp_id r) [key] (identity_of e r) (ns_db s)\<rparr> else s);
               (answer, s2) = nix_attempt nv e c r force key filename s1;
               (ok, status) = (case answer of Inl _ \<Rightarrow> (False, None) | Inr x \<Rightarrow> x);
               s3 = s2\<lparr>ns_failed := ns_failed s2 \<or> answer = Inl Signature_error\<rparr>
           in if \<not> force \<and> \<not> nv_admit nv (After_closure key) then s3
              else warm_closures nv e c r policy force rest
                     (s3\<lparr>ns_db := record_warmed_package (en_now e) (en_blob e key) (rp_id r) key filename ok status ''prefetch'' (ns_db s3),
                        ns_outcomes := AList.update key ok (ns_outcomes s3)\<rparr>))"

definition closures_message :: "outcomes \<Rightarrow> str" where
  "closures_message outcomes = show_nat (length (filter (\<lambda>x. \<not> snd x) outcomes)) @ ''/'' @ show_nat (length outcomes) @
     '' Nix closures failed to warm''"

definition notify_signature :: "env \<Rightarrow> config \<Rightarrow> repo_config \<Rightarrow> nix_state \<Rightarrow> payload list \<times> db" where
  "notify_signature e c r s =
     (if ns_failed s
      then record_failure_and_maybe_notify (notify_of c) (en_deliver e) (en_now e) (rp_id r) ''gpg''
             ''Nix narinfo signature verification failed'' (ns_db s)
      else if ns_checked s then record_success_and_maybe_notify (notify_of c) (en_deliver e) (rp_id r) ''gpg'' (ns_db s)
      else ([], ns_db s))"

definition notify_closures :: "env \<Rightarrow> config \<Rightarrow> repo_config \<Rightarrow> outcomes \<Rightarrow> db \<Rightarrow> payload list \<times> db" where
  "notify_closures e c r outcomes d =
     (if outcomes = [] then ([], d)
      else if list_all snd outcomes then record_success_and_maybe_notify (notify_of c) (en_deliver e) (rp_id r) ''prefetch'' d
      else record_failure_and_maybe_notify (notify_of c) (en_deliver e) (en_now e) (rp_id r) ''prefetch'' (closures_message outcomes) d)"

definition nix_start :: "db \<Rightarrow> nix_state" where
  "nix_start d = \<lparr>ns_info = None, ns_found = [], ns_memo = [], ns_failed = False, ns_checked = False, ns_outcomes = [], ns_db = d\<rparr>"

text \<open>\<open>warm\<close>; \<open>blob\<close> is the new random revision of a row whose trust has changed.\<close>

definition nix_warm :: "nix_env \<Rightarrow> (warmed_package \<Rightarrow> str) \<Rightarrow> env \<Rightarrow> config \<Rightarrow> repo_config \<Rightarrow> (str \<times> str) list \<Rightarrow> bool \<Rightarrow> db
    \<Rightarrow> (config_error + outcomes) \<times> hook list \<times> db" where
  "nix_warm nv blob e c r packages force d =
     (if \<not> force \<and> \<not> rp_prefetch r then (Inr [], [], d)
      else let d1 = update_nix_trust blob (rp_id r) (rp_verify r) (rp_nix_keys r) None d;
               s = warm_closures nv e c r (make_policy r d1) force packages (nix_start d1);
               (out1, d2) = notify_signature e c r s;
               (out2, d3) = notify_closures e c r (ns_outcomes s) d2
           in (Inr (ns_outcomes s), map Streak (out1 @ out2), d3))"

section \<open>Purging\<close>

definition nix_names :: "repo_config \<Rightarrow> db \<Rightarrow> str \<times> str \<Rightarrow> str list" where
  "nix_names r d item = unique (snd item # map fst (get_nix_artifacts (rp_id r) (fst item) d))"

text \<open>Per key the names to remove and whether a name was kept; \<open>shared\<close> grows when an owner is unknown.\<close>

fun purge_selections :: "repo_config \<Rightarrow> db \<Rightarrow> bool \<Rightarrow> str list \<Rightarrow> (str \<times> str) list \<Rightarrow> (str \<times> str list \<times> bool) list" where
  "purge_selections r d unknown shared [] = []"
| "purge_selections r d unknown shared (item # rest) =
     (let names = nix_names r d item;
          shared' = (if unknown then names @ shared else shared)
      in (fst item, filter (\<lambda>n. n \<notin> set shared') names, list_ex (\<lambda>n. n \<in> set shared') names) #
         purge_selections r d unknown shared' rest)"

definition nix_purge_plan :: "repo_config \<Rightarrow> (str \<times> str) list \<Rightarrow> db \<Rightarrow> (str \<times> str list \<times> bool) list" where
  "nix_purge_plan r packages d =
     (let keys = map fst packages;
          current = (case get_packages (rp_id r) d of None \<Rightarrow> [] | Some ps \<Rightarrow> ps)
      in purge_selections r d (nix_has_unknown_owners (rp_id r) keys d)
           (nix_shared_files (rp_id r) keys d @ map snd (filter (\<lambda>(key, f). key \<notin> set keys) current)) packages)"

definition plan_files :: "(str \<times> str list \<times> bool) list \<Rightarrow> (str \<times> str) list" where
  "plan_files plan = map (\<lambda>n. (n, n)) (unique (concat (map (fst \<circ> snd) plan)))"

text \<open>Which error a set of names reports first is not determined by the code; here it is the first in order.\<close>

definition nix_outcome :: "(str \<times> str) list \<Rightarrow> str \<times> str list \<times> bool \<Rightarrow> str \<times> str" where
  "nix_outcome results entry =
     (case entry of (key, names, retained) \<Rightarrow>
        let answers = map (\<lambda>n. case map_of results n of Some x \<Rightarrow> x | None \<Rightarrow> []) names in
        (key, case filter (\<lambda>x. x \<notin> set [''purged'', ''not_cached'']) answers of
                e # _ \<Rightarrow> e
              | [] \<Rightarrow> if retained then ''retained_shared'' else if ''purged'' \<in> set answers then ''purged'' else ''not_cached''))"

definition nix_purge :: "env \<Rightarrow> config \<Rightarrow> repo_config \<Rightarrow> (str \<times> str) list \<Rightarrow> db \<Rightarrow> (config_error + (str \<times> str) list) \<times> db" where
  "nix_purge e c r packages d =
     (let plan = nix_purge_plan r packages d in
      (bind (if ng_enable_probe (cf_nginx c) then Inr (en_purge_raw e r (plan_files plan)) else purge_selected e c r (plan_files plan))
         (\<lambda>results. Inr (map (nix_outcome results) plan)), d))"

text \<open>The Nix operations of an environment.\<close>

definition with_nix :: "nix_env \<Rightarrow> (warmed_package \<Rightarrow> str) \<Rightarrow> config \<Rightarrow> env \<Rightarrow> env" where
  "with_nix nv blob c e = e\<lparr>en_nix_warm := nix_warm nv blob e c, en_nix_purge := nix_purge e c\<rparr>"

end
