(* ===== verification/Nix_Props.thy ===== *)
theory Nix_Props
  imports Nix_Cache
begin

text \<open>
  What \<open>cache/nix.py\<close> guarantees: a discovered closure is closed, reachable and within its limit; a package that
  was warmed has every file of its closure; purging spares the files of other packages.
\<close>

section \<open>Closures\<close>

definition refers :: "records \<Rightarrow> utext \<Rightarrow> utext \<Rightarrow> bool" where
  "refers records f g \<longleftrightarrow> (\<exists>raw info. map_of records f = Some (raw, info) \<and> g \<in> set (ni_refs info))"

lemma refers_append: "refers records f g \<Longrightarrow> refers (records @ new) f g"
  by (auto simp: refers_def)

text \<open>What the loop adds to the records it starts with.\<close>

definition sound_record :: "nix_env \<Rightarrow> records \<Rightarrow> utext list \<Rightarrow> records \<Rightarrow> utext \<times> str \<times> nix_info \<Rightarrow> bool" where
  "sound_record env cached pending result x \<longleftrightarrow>
     set (ni_refs (snd (snd x))) \<subseteq> fst ` set result \<and> (\<exists>p \<in> set pending. (refers result)\<^sup>*\<^sup>* p (fst x)) \<and>
     (map_of cached (fst x) = Some (snd x) \<or> fetch_narinfo env (fst x) = Inr (snd x))"

definition extends :: "nix_env \<Rightarrow> nat \<Rightarrow> records \<Rightarrow> records \<Rightarrow> utext list \<Rightarrow> records \<Rightarrow> bool" where
  "extends env limit cached records pending result \<longleftrightarrow>
     (\<exists>new. result = records @ new \<and> distinct (map fst new) \<and> fst ` set new \<inter> fst ` set records = {} \<and>
        (length records \<le> limit \<longrightarrow> length result \<le> limit) \<and> set pending \<subseteq> fst ` set result \<and>
        (\<forall>x \<in> set new. sound_record env cached pending result x))"

lemma extends_known:
  assumes "extends env limit cached records pending result" "f \<in> fst ` set records"
  shows "extends env limit cached records (f # pending) result"
proof -
  obtain new where new: "result = records @ new \<and> distinct (map fst new) \<and> fst ` set new \<inter> fst ` set records = {} \<and>
        (length records \<le> limit \<longrightarrow> length result \<le> limit) \<and> set pending \<subseteq> fst ` set result"
      and each: "\<forall>x \<in> set new. sound_record env cached pending result x"
    using assms(1) unfolding extends_def by blast
  have "set (f # pending) \<subseteq> fst ` set result" using new assms(2) by auto
  moreover have "\<forall>x \<in> set new. sound_record env cached (f # pending) result x" using each by (simp add: sound_record_def)
  ultimately show ?thesis unfolding extends_def using new by blast
qed

lemma sound_record_step:
  assumes "sound_record env cached (rev refs @ pending) result x" "\<forall>g \<in> set refs. refers result f g"
  shows "sound_record env cached (f # pending) result x"
proof -
  obtain p where p: "p \<in> set refs \<or> p \<in> set pending" "(refers result)\<^sup>*\<^sup>* p (fst x)"
    using assms(1) by (auto simp: sound_record_def)
  have "\<exists>p \<in> set (f # pending). (refers result)\<^sup>*\<^sup>* p (fst x)"
    using p assms(2) by (auto intro: converse_rtranclp_into_rtranclp)
  then show ?thesis using assms(1) by (simp add: sound_record_def)
qed

lemma extends_step:
  assumes "extends env limit cached (records @ [(f, e)]) (rev (ni_refs (snd e)) @ pending) result"
    and "map_of records f = None" "length records < limit" "map_of cached f = Some e \<or> fetch_narinfo env f = Inr e"
  shows "extends env limit cached records (f # pending) result"
proof -
  obtain new where new: "result = (records @ [(f, e)]) @ new" "distinct (map fst new)"
      "fst ` set new \<inter> fst ` set (records @ [(f, e)]) = {}" "length result \<le> limit"
      "set (rev (ni_refs (snd e)) @ pending) \<subseteq> fst ` set result"
      and each: "\<forall>x \<in> set new. sound_record env cached (rev (ni_refs (snd e)) @ pending) result x"
    using assms(1,3) unfolding extends_def by auto
  have here: "map_of result f = Some e" unfolding new(1) using assms(2) by (simp add: map_add_Some_iff)
  have refs: "\<forall>g \<in> set (ni_refs (snd e)). refers result f g" using here by (cases e) (auto simp: refers_def)
  have "sound_record env cached (f # pending) result (f, e)" using new(5) assms(4) by (simp add: sound_record_def)
  then have "\<forall>x \<in> set ((f, e) # new). sound_record env cached (f # pending) result x"
    using each sound_record_step [OF _ refs] by simp
  moreover have "f \<notin> fst ` set records" using assms(2) by (simp add: map_of_eq_None_iff)
  moreover have "set (f # pending) \<subseteq> fst ` set result" using new(1,5) by auto
  ultimately show ?thesis unfolding extends_def
    using new by (intro exI [of _ "(f, e) # new"]) simp
qed

lemma discover_loop_extends:
  "discover_loop env limit cached records pending = Inr result \<Longrightarrow> extends env limit cached records pending result"
proof (induction env limit cached records pending rule: discover_loop.induct)
  case (1 env limit cached records)
  then show ?case by (simp add: extends_def)
next
  case (2 env limit cached records f pending)
  show ?case
  proof (cases "map_of records f = None")
    case False
    then have "extends env limit cached records pending result" "f \<in> fst ` set records"
      using 2(1,3) by (auto simp: map_of_eq_None_iff)
    then show ?thesis by (rule extends_known)
  next
    case True
    obtain e where e: "(case map_of cached f of Some e \<Rightarrow> Inr e | None \<Rightarrow> fetch_narinfo env f) = Inr e"
        and ok: "length records < limit" "narinfo_name f"
        and loop: "discover_loop env limit cached (records @ [(f, e)]) (rev (ni_refs (snd e)) @ pending) = Inr result"
      using 2(3) True by (auto simp: bind_Inr not_le split: if_splits)
    have "extends env limit cached (records @ [(f, e)]) (rev (ni_refs (snd e)) @ pending) result"
      using 2(2) [OF _ _ _ e] True ok loop by simp
    moreover have "map_of cached f = Some e \<or> fetch_narinfo env f = Inr e" using e by (auto split: option.splits)
    ultimately show ?thesis using True ok(1) by (intro extends_step)
  qed
qed

definition verified_paths :: "nix_env \<Rightarrow> str list \<Rightarrow> records \<Rightarrow> bool" where
  "verified_paths env keys records \<longleftrightarrow>
     (\<forall>(f, raw, info) \<in> set records. \<exists>paths out. ni_path info \<in> set paths \<and>
        run_nix (nv_verify env (signature_files records)) (verify_command (nv_store env) keys paths) = Inr out)"

lemma verify_paths_all:
  "verify_paths run store keys paths = Inr u \<Longrightarrow> p \<in> set paths \<Longrightarrow>
   \<exists>batch out. p \<in> set batch \<and> run_nix run (verify_command store keys batch) = Inr out"
proof (induction run store keys paths rule: verify_paths.induct)
  case (1 run store keys paths)
  from 1(3) have "paths \<noteq> []" by auto
  then obtain out where out: "run_nix run (verify_command store keys (take verify_batch paths)) = Inr out"
      "verify_paths run store keys (drop verify_batch paths) = Inr u"
    using 1(2) by (subst (asm) verify_paths.simps) (auto split: sum.splits)
  have "p \<in> set (take verify_batch paths) \<or> p \<in> set (drop verify_batch paths)"
    using 1(3) by (metis Un_iff append_take_drop_id set_append)
  then show ?case using 1(1) [OF \<open>paths \<noteq> []\<close> out(1) out(2)] out(1) by blast
qed

lemma verify_metadata_all: "verify_metadata env keys records = Inr u \<Longrightarrow> verified_paths env keys records"
  unfolding verify_metadata_def verified_paths_def by (force dest: verify_paths_all)

text \<open>C27: a discovered closure is the closure: it contains the requested narinfo, with each record everything that record
  refers to, nothing that the references do not lead to, no record twice and no more than the configured limit; every
  record is one the run already had or what the cache answered; and when signatures are required, Nix accepted the
  store path of every single record.\<close>

theorem nix_closure_complete:
  assumes "discover env r cached start = Inr (records, cached')"
  shows "start \<in> fst ` set records \<and> distinct (map fst records) \<and> length records \<le> nat (rp_nix_max_paths r) \<and>
    (\<forall>x \<in> set records. set (ni_refs (snd (snd x))) \<subseteq> fst ` set records \<and> (refers records)\<^sup>*\<^sup>* start (fst x) \<and>
       (map_of cached (fst x) = Some (snd x) \<or> fetch_narinfo env (fst x) = Inr (snd x))) \<and>
    (rp_verify r \<longrightarrow> verified_paths env (rp_nix_keys r) records)"
proof -
  have loop: "discover_loop env (nat (rp_nix_max_paths r)) cached [] [start] = Inr records"
    and verified: "rp_verify r \<longrightarrow> verified_paths env (rp_nix_keys r) records"
    using assms verify_metadata_all by (auto simp: discover_def bind_Inr)
  have "extends env (nat (rp_nix_max_paths r)) cached [] [start] records" by (rule discover_loop_extends [OF loop])
  then have "start \<in> fst ` set records \<and> distinct (map fst records) \<and> length records \<le> nat (rp_nix_max_paths r) \<and>
    (\<forall>x \<in> set records. set (ni_refs (snd (snd x))) \<subseteq> fst ` set records \<and> (refers records)\<^sup>*\<^sup>* start (fst x) \<and>
       (map_of cached (fst x) = Some (snd x) \<or> fetch_narinfo env (fst x) = Inr (snd x)))"
    unfolding extends_def sound_record_def by simp
  with verified show ?thesis by blast
qed


section \<open>What a purge asks for\<close>

lemma purge_selections_spare:
  "(key, names, retained) \<in> set (purge_selections r d unknown shared items) \<Longrightarrow> f \<in> set names \<Longrightarrow>
   f \<notin> set shared \<and> \<not> unknown \<and> (\<exists>item \<in> set items. fst item = key \<and> f \<in> set (nix_names r d item))"
proof (induction items arbitrary: shared)
  case Nil
  then show ?case by simp
next
  case (Cons item items)
  then show ?case by (cases unknown) (auto simp: Let_def)
qed

lemma plan_files_names: "f \<in> fst ` set (plan_files plan) \<longleftrightarrow> (\<exists>key names retained. (key, names, retained) \<in> set plan \<and> f \<in> set names)"
  by (force simp: plan_files_def unique_def)

text \<open>C28: a purge never takes a file that another package of the catalog needs: whatever is selected, a requested file is
  neither the narinfo nor any recorded artifact of a package outside the selection, and nothing at all is requested
  while the artifacts of some other package are unknown.\<close>

theorem nix_purge_spares_others:
  assumes "get_packages (rp_id r) d = Some current" "f \<in> fst ` set (plan_files (nix_purge_plan r packages d))"
    and "p \<in> set (repo_packages d)" "pk_repo p = rp_id r" "pk_key p \<notin> fst ` set packages"
  shows "pk_file p \<noteq> f \<and> has_artifact (rp_id r) (pk_key p) d \<and> f \<notin> fst ` set (get_nix_artifacts (rp_id r) (pk_key p) d)"
proof -
  let ?keys = "map fst packages"
  obtain key names retained where plan: "(key, names, retained) \<in> set (nix_purge_plan r packages d)" "f \<in> set names"
    using assms(2) plan_files_names by auto
  have spare: "f \<notin> set (nix_shared_files (rp_id r) ?keys d @ map snd (filter (\<lambda>(key, f). key \<notin> set ?keys) current))"
      "\<not> nix_has_unknown_owners (rp_id r) ?keys d"
    using purge_selections_spare [OF plan(1) [unfolded nix_purge_plan_def Let_def assms(1) option.case] plan(2)] by blast+
  have "(pk_key p, pk_file p) \<in> set current"
    using assms(1,3,4) by (auto simp: get_packages_def split: if_splits)
  then have "pk_file p \<noteq> f" using spare(1) assms(5) by force
  moreover have "has_artifact (rp_id r) (pk_key p) d"
    using spare(2) assms(3-5) by (auto simp: nix_has_unknown_owners_def list_ex_iff)
  moreover have "f \<notin> fst ` set (get_nix_artifacts (rp_id r) (pk_key p) d)"
  proof
    assume "f \<in> fst ` set (get_nix_artifacts (rp_id r) (pk_key p) d)"
    then obtain a where "a \<in> set (nix_artifacts d)" "na_repo a = rp_id r" "na_key a = pk_key p" "na_file a = f"
      by (auto simp: get_nix_artifacts_def)
    moreover have "in_catalog (rp_id r) (pk_key p) d" using assms(3,4) by (auto simp: in_catalog_def list_ex_iff)
    ultimately have "f \<in> set (nix_shared_files (rp_id r) ?keys d)" using assms(5) by (auto simp: nix_shared_files_def)
    then show False using spare(1) by simp
  qed
  ultimately show ?thesis by blast
qed

section \<open>What a warmed closure has\<close>

definition delivered :: "nix_env \<Rightarrow> config \<Rightarrow> repo_config \<Rightarrow> artifact \<Rightarrow> bool" where
  "delivered nv c r a \<longleftrightarrow> (\<exists>url. warm_url c r (fst a) = Inr url \<and>
     (fst (nv_download nv url (fst (snd a)) (snd (snd a))) \<or> fst (nv_again nv url (fst (snd a)) (snd (snd a)))))"

lemma download_delivered: "download_artifact nv e c r force a = Inr x \<Longrightarrow> fst x \<Longrightarrow> delivered nv c r a"
  by (cases a) (auto simp: download_artifact_def delivered_def caught_def bind_Inr Let_def split: if_splits sum.splits)

definition memo_ok :: "nix_env \<Rightarrow> config \<Rightarrow> repo_config \<Rightarrow> (artifact \<times> download) list \<Rightarrow> bool" where
  "memo_ok nv c r memo \<longleftrightarrow> (\<forall>a x. map_of memo a = Some (Inr x) \<longrightarrow> fst x \<longrightarrow> delivered nv c r a)"

lemma fetch_artifacts_ok:
  assumes "fetch_artifacts (download_artifact nv e c r force) as memo = (xs, memo')" "memo_ok nv c r memo"
  shows "memo_ok nv c r memo' \<and> list_all2 (\<lambda>a x. \<forall>y. x = Inr y \<longrightarrow> fst y \<longrightarrow> delivered nv c r a) as xs"
  using assms
proof (induction as arbitrary: memo xs)
  case Nil
  then show ?case by simp
next
  case (Cons a as)
  define x where "x = (case map_of memo a of Some x \<Rightarrow> x | None \<Rightarrow> download_artifact nv e c r force a)"
  define memo1 where "memo1 = (if map_of memo a = None then memo @ [(a, x)] else memo)"
  obtain ys where step: "fetch_artifacts (download_artifact nv e c r force) as memo1 = (ys, memo')" "xs = x # ys"
    using Cons.prems(1) by (auto simp: x_def memo1_def Let_def split: prod.splits option.splits)
  have x: "\<forall>y. x = Inr y \<longrightarrow> fst y \<longrightarrow> delivered nv c r a"
  proof (intro allI impI)
    fix y assume y: "x = Inr y" "fst y"
    show "delivered nv c r a"
    proof (cases "map_of memo a")
      case None
      then have "download_artifact nv e c r force a = Inr y" using y(1) by (simp add: x_def)
      then show ?thesis using y(2) by (rule download_delivered)
    next
      case (Some z)
      then have "map_of memo a = Some (Inr y)" using y(1) by (simp add: x_def)
      then show ?thesis using Cons.prems(2) y(2) unfolding memo_ok_def by blast
    qed
  qed
  then have "memo_ok nv c r memo1" using Cons.prems(2) by (auto simp: memo1_def memo_ok_def map_add_Some_iff split: if_splits)
  then show ?case using Cons.IH [OF step(1)] x step(2) by simp
qed

lemma gathered_Inr: "gathered xs = Inr ys \<Longrightarrow> xs = map Inr ys"
  by (induction xs arbitrary: ys) (auto simp: bind_Inr)

lemma gathered_delivered:
  assumes "gathered xs = Inr ys" "fst (closure_result ys)"
    and "list_all2 (\<lambda>a x. \<forall>y. x = Inr y \<longrightarrow> fst y \<longrightarrow> delivered nv c r a) as xs"
  shows "\<forall>a \<in> set as. delivered nv c r a"
proof -
  have "list_all fst ys" using assms(2) by (auto simp: closure_result_def split: if_splits)
  then show ?thesis using assms(3) unfolding gathered_Inr [OF assms(1)]
    by (induction ys arbitrary: as) (auto simp: list_all2_Cons2)
qed

text \<open>What a true outcome says, in the database it is reported with.\<close>

definition warmed_closure :: "nix_env \<Rightarrow> config \<Rightarrow> repo_config \<Rightarrow> (str \<times> str) list \<Rightarrow> str \<Rightarrow> db \<Rightarrow> bool" where
  "warmed_closure nv c r packages key d \<longleftrightarrow>
     (\<exists>filename cached records cached'. (key, filename) \<in> set packages \<and> discover nv r cached (lit filename) = Inr (records, cached') \<and>
        (\<forall>x \<in> set records. \<forall>a \<in> set (artifacts_of nv x).
           delivered nv c r a \<and> (rp_id r, key, fst a) \<in> na_pkey ` set (nix_artifacts d)))"

lemma warmed_closure_mono:
  "warmed_closure nv c r packages key d \<Longrightarrow> set packages \<subseteq> set packages' \<Longrightarrow>
   na_pkey ` set (nix_artifacts d) \<subseteq> na_pkey ` set (nix_artifacts d') \<Longrightarrow> warmed_closure nv c r packages' key d'"
  unfolding warmed_closure_def by (elim exE conjE) (intro exI conjI, erule (1) subsetD, assumption, blast)

lemma record_nix_artifacts_keys:
  "na_pkey ` set (nix_artifacts (record_nix_artifacts repo key as d)) =
   (\<lambda>a. (repo, key, fst a)) ` set as \<union> na_pkey ` set (nix_artifacts d)"
proof -
  let ?news = "map (\<lambda>(file, hash, expected). \<lparr>na_repo = repo, na_key = key, na_file = file, na_hash = hash, na_size = expected\<rparr>) as"
  have "na_pkey ` set ?news = (\<lambda>a. (repo, key, fst a)) ` set as" by (force simp: na_pkey_def)
  moreover have "nix_artifacts (record_nix_artifacts repo key as d) = fold (upsert na_pkey na_replace) ?news (nix_artifacts d)"
    by (simp add: record_nix_artifacts_def)
  ultimately show ?thesis by (metis na.keys_fold_upsert)
qed

lemma nix_attempt_facts:
  assumes "nix_attempt nv e c r force key filename s = (answer, s')" "memo_ok nv c r (ns_memo s)" "(key, filename) \<in> set packages"
  shows "memo_ok nv c r (ns_memo s') \<and> ns_outcomes s' = ns_outcomes s \<and>
    na_pkey ` set (nix_artifacts (ns_db s)) \<subseteq> na_pkey ` set (nix_artifacts (ns_db s')) \<and>
    nix_trusts (ns_db s') = nix_trusts (ns_db s) \<and>
    (\<forall>x. answer = Inr x \<longrightarrow> fst x \<longrightarrow> warmed_closure nv c r packages key (ns_db s'))"
proof (cases "\<exists>ok. cache_info_ok nv c r s = Inr ok \<and> ok \<and> (\<exists>x. discover nv r (ns_found s) (lit filename) = Inr x)")
  case False
  then have "(\<exists>err. answer = Inl err) \<and> ns_memo s' = ns_memo s \<and> ns_outcomes s' = ns_outcomes s \<and> ns_db s' = ns_db s"
    using assms(1) by (auto simp: nix_attempt_def Let_def split: sum.splits if_splits)
  then show ?thesis using assms(2) by auto
next
  case True
  then obtain records found where ok: "cache_info_ok nv c r s = Inr True" and found: "discover nv r (ns_found s) (lit filename) = Inr (records, found)"
    by auto
  let ?artifacts = "concat (map (artifacts_of nv) records)"
  obtain answers memo where fetched: "fetch_artifacts (download_artifact nv e c r force) ?artifacts (ns_memo s) = (answers, memo)"
    by (metis prod.exhaust)
  have parts: "answer = bind (gathered answers) (\<lambda>results. Inr (closure_result results))"
      "ns_memo s' = memo" "ns_outcomes s' = ns_outcomes s" "ns_db s' = record_nix_artifacts (rp_id r) key ?artifacts (ns_db s)"
    using assms(1) ok found fetched by (auto simp: nix_attempt_def Let_def)
  have all: "memo_ok nv c r memo" "list_all2 (\<lambda>a x. \<forall>y. x = Inr y \<longrightarrow> fst y \<longrightarrow> delivered nv c r a) ?artifacts answers"
    using fetch_artifacts_ok [OF fetched assms(2)] by blast+
  have keys: "na_pkey ` set (nix_artifacts (ns_db s')) =
      (\<lambda>a. (rp_id r, key, fst a)) ` set ?artifacts \<union> na_pkey ` set (nix_artifacts (ns_db s))"
    unfolding parts(4) by (rule record_nix_artifacts_keys)
  have closure: "warmed_closure nv c r packages key (ns_db s')" if x: "answer = Inr x" "fst x" for x
  proof -
    obtain ys where "gathered answers = Inr ys" "x = closure_result ys"
      using x(1) unfolding parts(1) by (auto simp: bind_Inr)
    then have "\<forall>a \<in> set ?artifacts. delivered nv c r a" using gathered_delivered [OF _ _ all(2)] x(2) by simp
    moreover have "\<forall>a \<in> set ?artifacts. (rp_id r, key, fst a) \<in> na_pkey ` set (nix_artifacts (ns_db s'))" unfolding keys by blast
    ultimately show ?thesis unfolding warmed_closure_def using assms(3) found by fastforce
  qed
  have "nix_trusts (ns_db s') = nix_trusts (ns_db s)" by (simp add: parts(4) record_nix_artifacts_def)
  then show ?thesis using all(1) parts(2,3) keys closure by blast
qed

text \<open>What the loop keeps: \<open>packages\<close> is the whole selection.\<close>

definition closures_ok :: "nix_env \<Rightarrow> config \<Rightarrow> repo_config \<Rightarrow> (str \<times> str) list \<Rightarrow> db \<Rightarrow> nix_state \<Rightarrow> bool" where
  "closures_ok nv c r packages d s \<longleftrightarrow> memo_ok nv c r (ns_memo s) \<and> nix_trusts (ns_db s) = nix_trusts d \<and>
     (\<forall>key. map_of (ns_outcomes s) key = Some True \<longrightarrow> warmed_closure nv c r packages key (ns_db s))"

lemma recorded_tables:
  "nix_artifacts (record_interest repo keys identity d) = nix_artifacts d"
  "nix_trusts (record_interest repo keys identity d) = nix_trusts d"
  "nix_artifacts (record_warmed_package now blob repo key filename ok http source d) = nix_artifacts d"
  "nix_trusts (record_warmed_package now blob repo key filename ok http source d) = nix_trusts d"
  by (simp_all add: record_interest_def record_warmed_package_def)

lemma closures_ok_step:
  assumes ok: "closures_ok nv c r packages d s" and mem: "(key, filename) \<in> set packages"
    and attempt: "nix_attempt nv e c r force key filename s1 = (answer, s2)"
    and s1: "s1 = (if force then s\<lparr>ns_db := record_interest (rp_id r) [key] identity (ns_db s)\<rparr> else s)"
    and good: "good = (case answer of Inl _ \<Rightarrow> False | Inr x \<Rightarrow> fst x)"
  shows "closures_ok nv c r packages d (s2\<lparr>ns_failed := failed\<rparr>)"
    and "closures_ok nv c r packages d (s2\<lparr>ns_failed := failed,
       ns_db := record_warmed_package now blob (rp_id r) key filename good http source (ns_db s2),
       ns_outcomes := AList.update key good (ns_outcomes s2)\<rparr>)"
proof -
  have before: "memo_ok nv c r (ns_memo s1)" "nix_trusts (ns_db s1) = nix_trusts d" "ns_outcomes s1 = ns_outcomes s"
      "nix_artifacts (ns_db s1) = nix_artifacts (ns_db s)"
    using ok by (auto simp: s1 closures_ok_def recorded_tables)
  note facts = nix_attempt_facts [OF attempt before(1) mem]
  have old: "warmed_closure nv c r packages k (ns_db s2)" if "map_of (ns_outcomes s) k = Some True" for k
  proof -
    have "warmed_closure nv c r packages k (ns_db s)" using ok that unfolding closures_ok_def by blast
    then show ?thesis using facts before(4) by (elim warmed_closure_mono) auto
  qed
  have new: "warmed_closure nv c r packages key (ns_db s2)" if "good"
    using that facts by (auto simp: good split: sum.splits)
  have same: "warmed_closure nv c r packages k d1 \<longleftrightarrow> warmed_closure nv c r packages k d2"
    if "nix_artifacts d1 = nix_artifacts d2" for k d1 d2
    using that by (simp add: warmed_closure_def)
  show "closures_ok nv c r packages d (s2\<lparr>ns_failed := failed\<rparr>)"
    using facts before old by (simp add: closures_ok_def)
  have "warmed_closure nv c r packages k (record_warmed_package now blob (rp_id r) key filename good http source (ns_db s2))"
    if "map_of (AList.update key good (ns_outcomes s2)) k = Some True" for k
  proof -
    have "warmed_closure nv c r packages k (ns_db s2)"
      using that facts before(3) old [of k] new by (cases "k = key") (simp_all add: update_conv')
    then show ?thesis using same recorded_tables(3) by blast
  qed
  then show "closures_ok nv c r packages d (s2\<lparr>ns_failed := failed,
       ns_db := record_warmed_package now blob (rp_id r) key filename good http source (ns_db s2),
       ns_outcomes := AList.update key good (ns_outcomes s2)\<rparr>)"
    using facts before by (simp add: closures_ok_def recorded_tables)
qed

lemma warm_closures_ok:
  "set todo \<subseteq> set packages \<Longrightarrow> closures_ok nv c r packages d s \<Longrightarrow>
   closures_ok nv c r packages d (warm_closures nv e c r policy force todo s)"
proof (induction todo arbitrary: s)
  case Nil
  then show ?case by simp
next
  case (Cons item todo)
  obtain key filename where item: "item = (key, filename)" by (cases item)
  then have mem: "(key, filename) \<in> set packages" and rest: "set todo \<subseteq> set packages" using Cons.prems(1) by auto
  define s1 where "s1 = (if force then s\<lparr>ns_db := record_interest (rp_id r) [key] (identity_of e r) (ns_db s)\<rparr> else s)"
  obtain answer s2 where attempt: "nix_attempt nv e c r force key filename s1 = (answer, s2)" by (metis prod.exhaust)
  obtain good http where answer: "(case answer of Inl _ \<Rightarrow> (False, None) | Inr x \<Rightarrow> x) = (good, http)" by (metis prod.exhaust)
  then have good: "good = (case answer of Inl _ \<Rightarrow> False | Inr x \<Rightarrow> fst x)" by (auto split: sum.splits)
  note step = closures_ok_step [OF Cons.prems(2) mem attempt s1_def good]
  have pick: "closures_ok nv c r packages d (if b then x else y)"
    if "closures_ok nv c r packages d x" "closures_ok nv c r packages d y" for b x y
    using that by simp
  have same: "ns_db (s2\<lparr>ns_failed := b\<rparr>) = ns_db s2" "ns_outcomes (s2\<lparr>ns_failed := b\<rparr>) = ns_outcomes s2" for b by simp_all
  show ?case unfolding item warm_closures.simps s1_def [symmetric] attempt answer Let_def prod.case same
    by (intro pick Cons.prems(2) Cons.IH [OF rest Cons.prems(2)] Cons.IH [OF rest step(2)] step(1))
qed

text \<open>A notification changes the streaks only.\<close>

lemma notified_db:
  "\<exists>fs. snd (record_failure_and_maybe_notify n deliver now repo kind message d) = d\<lparr>failure_states := fs\<rparr>"
  "\<exists>fs. snd (record_success_and_maybe_notify n deliver repo kind d) = d\<lparr>failure_states := fs\<rparr>"
proof -
  have same: "\<exists>fs. d = d\<lparr>failure_states := fs\<rparr>" for d :: db by (rule exI [of _ "failure_states d"]) simp
  show "\<exists>fs. snd (record_failure_and_maybe_notify n deliver now repo kind message d) = d\<lparr>failure_states := fs\<rparr>"
    by (auto simp: record_failure_and_maybe_notify_def bump_failure_def mark_failure_notified_def Let_def split: prod.splits option.splits)
  show "\<exists>fs. snd (record_success_and_maybe_notify n deliver repo kind d) = d\<lparr>failure_states := fs\<rparr>"
    using same [of d] by (auto simp: record_success_and_maybe_notify_def reset_failure_def Let_def split: prod.splits option.splits)
qed

lemma nix_warm_parts:
  assumes "nix_warm nv blob e c r packages force d = (Inr outcomes, hooks, d')" "force \<or> rp_prefetch r"
  obtains s fs where "closures_ok nv c r packages (update_nix_trust blob (rp_id r) (rp_verify r) (rp_nix_keys r) None d) s"
    "outcomes = ns_outcomes s" "d' = (ns_db s)\<lparr>failure_states := fs\<rparr>"
proof -
  define d1 where "d1 = update_nix_trust blob (rp_id r) (rp_verify r) (rp_nix_keys r) None d"
  define s where "s = warm_closures nv e c r (make_policy r d1) force packages (nix_start d1)"
  obtain out1 d2 where one: "notify_signature e c r s = (out1, d2)" by (metis prod.exhaust)
  obtain out2 d3 where two: "notify_closures e c r (ns_outcomes s) d2 = (out2, d3)" by (metis prod.exhaust)
  have run: "\<not> (\<not> force \<and> \<not> rp_prefetch r)" using assms(2) by blast
  have result: "outcomes = ns_outcomes s" "d' = d3"
    using assms(1) unfolding nix_warm_def if_not_P [OF run] Let_def d1_def [symmetric] s_def [symmetric] one prod.case two by simp_all
  have same: "\<exists>fs. d = d\<lparr>failure_states := fs\<rparr>" for d :: db by (rule exI [of _ "failure_states d"]) simp
  have "\<exists>fs. d2 = (ns_db s)\<lparr>failure_states := fs\<rparr>"
    using one notified_db same by (auto simp: notify_signature_def split: if_splits) (metis snd_conv)+
  moreover have "\<exists>fs. d3 = d2\<lparr>failure_states := fs\<rparr>"
    using two notified_db same by (auto simp: notify_closures_def split: if_splits) (metis snd_conv)+
  ultimately obtain fs where "d3 = (ns_db s)\<lparr>failure_states := fs\<rparr>" by auto
  moreover have "closures_ok nv c r packages d1 s" unfolding s_def
    by (rule warm_closures_ok) (simp_all add: nix_start_def closures_ok_def memo_ok_def)
  ultimately show ?thesis using that result unfolding d1_def by blast
qed


section \<open>Trust\<close>

lemma update_nix_trust_sets:
  "\<exists>t. lookup nt_repo repo (nix_trusts (update_nix_trust blob repo verify keys source d)) = Some t \<and>
     nt_policy t = (verify, sort (remdups keys), source)"
  by (cases "lookup nt_repo repo (nix_trusts d)")
    (simp_all add: update_nix_trust_def Let_def nt.lookup_upsert nt_replace_def)

lemma update_nix_trust_fails:
  assumes "lookup nt_repo repo (nix_trusts d) = Some t" "nt_policy t \<noteq> (verify, sort (remdups keys), source)"
    and "w \<in> set (warmed_packages (update_nix_trust blob repo verify keys source d))" "wm_repo w = repo"
  shows "wm_status w = ''failed''"
proof -
  have "warmed_packages (update_nix_trust blob repo verify keys source d) =
      update_where (\<lambda>w. wm_repo w = repo) (\<lambda>w. w\<lparr>wm_status := ''failed'', wm_revision := blob w\<rparr>) (warmed_packages d)"
    unfolding update_nix_trust_def Let_def assms(1) option.case by (subst if_not_P [OF assms(2)]) simp
  then obtain v where "w = (if wm_repo v = repo then v\<lparr>wm_status := ''failed'', wm_revision := blob v\<rparr> else v)"
    using assms(3) by (simp only: update_where_def set_map) (erule imageE, rule that)
  then show ?thesis using assms(4) by (cases "wm_repo v = repo") simp_all
qed


end
