(* ===== verification/Nix_Samples.thy ===== *)
theory Nix_Samples
  imports Nix_Props
begin

text \<open>Concrete closures, and the properties of \<open>Nix_Props\<close> at them.\<close>

section \<open>A concrete closure\<close>

text \<open>A narinfo that refers to itself, and a cache that serves it.\<close>

definition sample_hash :: str where "sample_hash = ''00000000000000000000000000000000''"
definition sample_raw :: str where
  "sample_raw = ''StorePath: /nix/store/'' @ sample_hash @ ''-a'' @ [LF] @ ''URL: nar/a'' @ [LF] @
     ''NarHash: sha256:'' @ ''0000000000000000000000000000000000000000000000000000000000000000'' @ [LF] @ ''NarSize: 1'' @ [LF] @ ''References: '' @ sample_hash @ ''-a'' @ [LF]"
definition sample_text :: nix_text_env where
  "sample_text = \<lparr>nt_decimal = (\<lambda>n. if 48 \<le> n \<and> n \<le> 57 then Some (n - 48) else None), nt_netloc = (\<lambda>_. True)\<rparr>"

definition sample_info :: nix_info where
  "sample_info = \<lparr>ni_path = lit (''/nix/store/'' @ sample_hash @ ''-a''), ni_refs = [lit (sample_hash @ ''.narinfo'')], ni_file = lit ''nar/a'', ni_hash = None, ni_size = None\<rparr>"
lemma sample_decoded: "strict_text sample_raw = Inr (lit sample_raw)"
  by (rule strict_text_ascii) (simp add: sample_raw_def sample_hash_def)
lemma sample_lines: "tsplitlines (lit sample_raw) = map lit [''StorePath: /nix/store/'' @ sample_hash @ ''-a'', ''URL: nar/a'', ''NarHash: sha256:'' @ ''0000000000000000000000000000000000000000000000000000000000000000'', ''NarSize: 1'', ''References: '' @ sample_hash @ ''-a'']"
  by (simp add: sample_raw_def sample_hash_def tsplitlines_def lit_def break_point_def)
lemma sample_fields: "narinfo_fields [] (map lit [''StorePath: /nix/store/'' @ sample_hash @ ''-a'', ''URL: nar/a'', ''NarHash: sha256:'' @ ''0000000000000000000000000000000000000000000000000000000000000000'', ''NarSize: 1'', ''References: '' @ sample_hash @ ''-a'']) =
  Inr [(lit ''StorePath'', lit (''/nix/store/'' @ sample_hash @ ''-a'')), (lit ''URL'', lit ''nar/a''), (lit ''NarHash'', lit (''sha256:'' @ ''0000000000000000000000000000000000000000000000000000000000000000'')), (lit ''NarSize'', lit ''1''), (lit ''References'', lit (sample_hash @ ''-a''))]"
  by (simp add: lit_def tstarts_def)

lemma sample_store: "store_path (lit (''/nix/store/'' @ sample_hash @ ''-a'')) = Some (lit sample_hash)"
  by (simp add: store_path_def lit_def sample_hash_def tstarts_def base32_chars_def space_point_def Let_def)
lemma sample_digest: "nix_sha256 (lit (''sha256:'' @ ''0000000000000000000000000000000000000000000000000000000000000000'')) = Inr ''0000000000000000000000000000000000000000000000000000000000000000''"
  by (simp add: nix_sha256_def cut_at_def lit_def hex_hash_def ascii_str_def) code_simp
lemma sample_refs: "nix_refs (tsplit (lit (sample_hash @ ''-a''))) = Inr [lit (sample_hash @ ''.narinfo'')]"
 using sample_store by (simp add: tsplit_def lit_def sample_hash_def space_point_def)
lemma sample_number: "natural (nt_decimal sample_text) (lit ''1'') = Inr 1"
 by (simp add: natural_def int_of_def sample_text_def lit_def tstrip_def space_point_def tstarts_def int_limit_def Let_def)

lemma sample_address: "nar_filename (\<lambda>_. True) (lit ''http://u'') (lit ''nar/a'') = Inr (lit ''nar/a'')"
  by (simp add: nar_filename_def rstrip_slash_def lit_def urlsplit_def urljoin_def Let_def cleaned_def split_scheme_def cut_at_def cut_default_def alpha_point_def scheme_chars_def lower_alpha_def split_netloc_def tstarts_def netloc_end_def brackets_ok_def  split_params_def uses_params_def uses_relative_def uses_netloc_def urlunsplit_def joined_path_def with_params_def directory_parts_def squeezed_def resolve_dots_def resolve_step_def has_userinfo_def package_path_point_def space_point_def)
lemma sample_lookups: "field [(lit ''StorePath'', a), (lit ''URL'', b), (lit ''NarHash'', c), (lit ''NarSize'', d), (lit ''References'', e)] ''StorePath'' = Some a"
 "field [(lit ''StorePath'', a), (lit ''URL'', b), (lit ''NarHash'', c), (lit ''NarSize'', d), (lit ''References'', e)] ''URL'' = Some b"
 "field [(lit ''StorePath'', a), (lit ''URL'', b), (lit ''NarHash'', c), (lit ''NarSize'', d), (lit ''References'', e)] ''NarHash'' = Some c"
 "field [(lit ''StorePath'', a), (lit ''URL'', b), (lit ''NarHash'', c), (lit ''NarSize'', d), (lit ''References'', e)] ''NarSize'' = Some d"
 "field [(lit ''StorePath'', a), (lit ''URL'', b), (lit ''NarHash'', c), (lit ''NarSize'', d), (lit ''References'', e)] ''References'' = Some e"
 "field [(lit ''StorePath'', a), (lit ''URL'', b), (lit ''NarHash'', c), (lit ''NarSize'', d), (lit ''References'', e)] ''FileSize'' = None"
 "field [(lit ''StorePath'', a), (lit ''URL'', b), (lit ''NarHash'', c), (lit ''NarSize'', d), (lit ''References'', e)] ''FileHash'' = None"
 by (simp_all add: field_def lit_def)
lemma sample_name: "narinfo_name (lit (sample_hash @ ''.narinfo''))"
  by (simp add: narinfo_name_def sample_hash_def lit_def base32_chars_def)
lemma lit_append: "lit (a @ b) = lit a @ lit b"
  by (simp add: lit_def)

lemma lit_Nil: "lit s = [] \<longleftrightarrow> s = []"
  by (simp add: lit_def)

lemma sample_narinfo: "parse_narinfo sample_text sample_raw (lit (sample_hash @ ''.narinfo'')) (lit ''http://u'') = Inr sample_info"
proof -
  note steps = sample_store sample_digest sample_refs sample_number
  have net: "nt_netloc sample_text = (\<lambda>_. True)" by (simp add: sample_text_def)
  show ?thesis
    by (simp only: parse_narinfo_def sample_name sample_decoded sample_lines sample_fields bind_simps not_True_eq_False if_False narinfo_of_def sample_lookups option.case prod.case steps option.map
      optional_field_def net sample_address sample_info_def lit_append [symmetric] lit_Nil simp_thms append_is_Nil_conv list.distinct)
qed

definition sample_nix :: repo_config where
  "sample_nix = sample_core\<lparr>rp_id := ''nixos'', rp_type := ''nix'', rp_verify := True, rp_nix_keys := [''key''], rp_nix_max_paths := 5\<rparr>"

definition sample_nix_env :: nix_env where
  "sample_nix_env = \<lparr>nv_text = sample_text, nv_http = (\<lambda>_. Body sample_raw), nv_upstream = ''http://u'', nv_store = lit ''file:///tmp'',
     nv_verify = (\<lambda>_ _. Inr \<lparr>ps_code = 0, ps_out = [], ps_err = []\<rparr>), nv_sha256 = (\<lambda>_. ''digest''),
     nv_download = (\<lambda>_ _ _. (True, Some 200)), nv_again = (\<lambda>_ _ _. (False, None)), nv_admit = (\<lambda>_. True)\<rparr>"

definition sample_root :: utext where
  "sample_root = lit (sample_hash @ ''.narinfo'')"

lemma sample_verified: "verify_metadata sample_nix_env keys [(f, raw, info)] = Inr ()"
  by (simp add: verify_metadata_def verify_paths.simps sample_nix_env_def run_nix_def verify_batch_def)

lemma sample_narinfo_fetched: "fetch_narinfo sample_nix_env sample_root = Inr (sample_raw, sample_info)"
proof -
  have "length sample_raw \<le> narinfo_limit" by (simp add: sample_raw_def sample_hash_def narinfo_limit_def)
  then show ?thesis by (simp add: fetch_narinfo_def sample_nix_env_def http_get_def sample_root_def sample_narinfo)
qed

lemma sample_discovered:
  "discover sample_nix_env sample_nix [] sample_root = Inr ([(sample_root, sample_raw, sample_info)], [(sample_root, sample_raw, sample_info)])"
proof -
  have "narinfo_name sample_root" "ni_refs sample_info = [sample_root]"
    by (simp_all add: sample_root_def sample_name sample_info_def)
  then show ?thesis by (simp add: discover_def sample_narinfo_fetched sample_verified sample_nix_def)
qed

lemma nix_closure_complete_witness:
  "(refers [(sample_root, sample_raw, sample_info)])\<^sup>*\<^sup>* sample_root sample_root \<and>
   verified_paths sample_nix_env [''key''] [(sample_root, sample_raw, sample_info)]"
proof -
  have "rp_verify sample_nix" "rp_nix_keys sample_nix = [''key'']" by (simp_all add: sample_nix_def)
  then show ?thesis using nix_closure_complete [OF sample_discovered] by auto
qed

lemma sample_warmed_nix:
  "\<exists>hooks d'. nix_warm sample_nix_env (\<lambda>_. ''x'') sample_env sample_site sample_nix [(''a'', sample_hash @ ''.narinfo'')] True empty_db =
     (Inr [(''a'', True)], hooks, d')"
proof -
  have root: "lit (sample_hash @ ''.narinfo'') = sample_root" by (simp add: sample_root_def)
  have "expand sample_nix = Inr None" by code_simp
  then have url: "\<exists>url. warm_url sample_site sample_nix f = Inr url" for f
    by (simp add: warm_url_def package_path_def package_prefix_def repo_prefix_def) (simp add: sample_nix_def)
  have got: "download_artifact sample_nix_env sample_env sample_site sample_nix True a = Inr (True, Some 200)" for a
    using url [of "fst a"] by (cases a) (auto simp: download_artifact_def caught_def sample_nix_env_def)
  have info: "cache_info_ok sample_nix_env sample_site sample_nix s = Inr True" if "ns_info s = None" for s
    using url [of "''nix-cache-info''"] that by (auto simp: cache_info_ok_def caught_def sample_nix_env_def)
  have all: "\<exists>memo. fetch_artifacts (\<lambda>a. Inr (True, Some 200)) as [] = (map (\<lambda>_. Inr (True, Some 200)) as, memo)" for as :: "artifact list"
  proof -
    have "\<exists>memo'. fetch_artifacts (\<lambda>a. Inr (True, Some 200)) as memo = (map (\<lambda>_. Inr (True, Some 200)) as, memo')"
      if "\<forall>x \<in> set memo. snd x = Inr (True, Some 200)" for memo :: "(artifact \<times> download) list"
      using that
    proof (induction as arbitrary: memo)
      case Nil
      then show ?case by simp
    next
      case (Cons a as)
      show ?case
      proof (cases "map_of memo a")
        case None
        then show ?thesis using Cons.IH [of "memo @ [(a, Inr (True, Some 200))]"] Cons.prems by auto
      next
        case (Some x)
        then have "x = Inr (True, Some 200)" using Cons.prems by (force dest: map_of_SomeD)
        then show ?thesis using Cons.IH [of memo] Cons.prems Some by auto
      qed
    qed
    then show ?thesis by simp
  qed
  have good: "gathered (map (\<lambda>_. Inr x) as) = Inr (map (\<lambda>_. x) as)" for x :: "bool \<times> int option" and as :: "artifact list"
    by (induction as) simp_all
  have attempt: "\<exists>s'. nix_attempt sample_nix_env sample_env sample_site sample_nix True ''a'' (sample_hash @ ''.narinfo'') s = (Inr (True, Some 200), s') \<and>
      ns_outcomes s' = ns_outcomes s" if "ns_info s = None" "ns_found s = []" "ns_memo s = []" for s
    using that all [of "concat (map (artifacts_of sample_nix_env) [(sample_root, sample_raw, sample_info)])"]
    by (auto simp: nix_attempt_def info root sample_discovered got [abs_def] good closure_result_def list_all_iff Let_def)
  let ?d = "update_nix_trust (\<lambda>_. ''x'') (rp_id sample_nix) (rp_verify sample_nix) (rp_nix_keys sample_nix) None empty_db"
  let ?s = "(nix_start ?d)\<lparr>ns_db := record_interest (rp_id sample_nix) [''a''] (identity_of sample_env sample_nix) ?d\<rparr>"
  have allowed: "allows (make_policy sample_nix ?d) ''a''" by code_simp
  obtain s' where s': "nix_attempt sample_nix_env sample_env sample_site sample_nix True ''a'' (sample_hash @ ''.narinfo'') ?s = (Inr (True, Some 200), s')"
      "ns_outcomes s' = []"
    using attempt [of ?s] by (auto simp: nix_start_def)
  have same: "ns_db (nix_start d) = d" for d by (simp add: nix_start_def)
  have "ns_outcomes (warm_closures sample_nix_env sample_env sample_site sample_nix (make_policy sample_nix ?d) True
      [(''a'', sample_hash @ ''.narinfo'')] (nix_start ?d)) = [(''a'', True)]"
    using s' allowed by (simp add: same)
  then show ?thesis by (simp add: nix_warm_def Let_def split: prod.splits)
qed


section \<open>A concrete purge\<close>

definition shared_db :: db where
  "shared_db = empty_db\<lparr>
     repo_states := [\<lparr>rs_repo = ''nixos'', rs_last_check = Some 1, rs_changed_at = None, rs_etag = None, rs_modified = None,
        rs_count = None, rs_key_expires = None, rs_key_known = False, rs_revision = 0, rs_identity = None\<rparr>],
     repo_packages := [\<lparr>pk_repo = ''nixos'', pk_key = ''a'', pk_name = None, pk_file = ''a.narinfo'', pk_hash = None\<rparr>,
        \<lparr>pk_repo = ''nixos'', pk_key = ''b'', pk_name = None, pk_file = ''b.narinfo'', pk_hash = None\<rparr>],
     nix_artifacts := [\<lparr>na_repo = ''nixos'', na_key = ''a'', na_file = ''nar/a'', na_hash = None, na_size = None\<rparr>,
        \<lparr>na_repo = ''nixos'', na_key = ''a'', na_file = ''nar/c'', na_hash = None, na_size = None\<rparr>,
        \<lparr>na_repo = ''nixos'', na_key = ''b'', na_file = ''nar/c'', na_hash = None, na_size = None\<rparr>]\<rparr>"

lemma nix_purge_spares_others_witness:
  "plan_files (nix_purge_plan sample_nix [(''a'', ''a.narinfo'')] shared_db) = [(''a.narinfo'', ''a.narinfo''), (''nar/a'', ''nar/a'')] \<and>
   ''nar/a'' \<notin> fst ` set (get_nix_artifacts ''nixos'' ''b'' shared_db)"
proof -
  let ?p = "\<lparr>pk_repo = ''nixos'', pk_key = ''b'', pk_name = None, pk_file = ''b.narinfo'', pk_hash = None\<rparr>"
  have id: "rp_id sample_nix = ''nixos''" by (simp add: sample_nix_def)
  have plan: "plan_files (nix_purge_plan sample_nix [(''a'', ''a.narinfo'')] shared_db) = [(''a.narinfo'', ''a.narinfo''), (''nar/a'', ''nar/a'')]"
    by code_simp
  have current: "get_packages (rp_id sample_nix) shared_db = Some [(''a'', ''a.narinfo''), (''b'', ''b.narinfo'')]" by code_simp
  have "?p \<in> set (repo_packages shared_db)" by (simp add: shared_db_def)
  moreover have "''nar/a'' \<in> fst ` set (plan_files (nix_purge_plan sample_nix [(''a'', ''a.narinfo'')] shared_db))" by (simp add: plan)
  ultimately have "''nar/a'' \<notin> fst ` set (get_nix_artifacts (rp_id sample_nix) (pk_key ?p) shared_db)"
    using nix_purge_spares_others [OF current, where f = "''nar/a''" and packages = "[(''a'', ''a.narinfo'')]" and p = ?p]
    by (simp add: id)
  with plan show ?thesis by (simp add: id)
qed

section \<open>A concrete change of trust\<close>

definition trusted_db :: db where
  "trusted_db = empty_db\<lparr>warmed_packages := [\<lparr>wm_repo = ''nixos'', wm_key = ''a'', wm_file = ''a.narinfo'', wm_at = 1, wm_status = ''ok'',
       wm_http = Some 200, wm_source = None, wm_revision = ''r''\<rparr>],
     nix_trusts := [\<lparr>nt_repo = ''nixos'', nt_policy = (True, [''key''], None)\<rparr>]\<rparr>"


end
