(* ===== verification/Transport.thy ===== *)
theory Transport
  imports Nix_Samples
begin

text \<open>
  \<open>cache/transport.py\<close>: streaming one file through the local cache.  An answer is refused before it starts, or
  has a status and chunks of at most 64 KiB, and breaks off or ends.  \<open>sha256\<close> is \<open>hashlib\<close>'s hex digest.  The
  second component of the result is what the bandwidth limiter was charged, chunk by chunk.
\<close>

datatype response = No_response | Response nat "str list" bool

definition success_status :: "nat \<Rightarrow> bool" where
  "success_status n \<longleftrightarrow> 200 \<le> n \<and> n < 300"

text \<open>The loop over the chunks: whether it ran to the end, the body so far, and the charges.\<close>

fun receive :: "nat option \<Rightarrow> str \<Rightarrow> nat list \<Rightarrow> str list \<Rightarrow> bool \<times> str \<times> nat list" where
  "receive expected body charged [] = (True, body, charged)"
| "receive expected body charged (chunk # chunks) =
     (let body' = body @ chunk; charged' = charged @ [length chunk] in
      if (case expected of None \<Rightarrow> False | Some n \<Rightarrow> n < length body') then (False, body', charged')
      else receive expected body' charged' chunks)"

definition digest_matches :: "(str \<Rightarrow> str) \<Rightarrow> str option \<Rightarrow> str \<Rightarrow> bool" where
  "digest_matches sha256 expected body \<longleftrightarrow> (truthy expected \<longrightarrow> sha256 body = lower (the expected))"

definition download_package :: "(str \<Rightarrow> str) \<Rightarrow> response \<Rightarrow> str option \<Rightarrow> nat option \<Rightarrow> (bool \<times> int option) \<times> nat list" where
  "download_package sha256 response digest expected =
     (case response of
        No_response \<Rightarrow> ((False, None), [])
      | Response status chunks whole \<Rightarrow>
          if \<not> success_status status then ((False, Some (int status)), [])
          else let (ended, body, charged) = receive expected [] [] chunks in
            if \<not> ended then ((False, Some (int status)), charged)
            else if \<not> whole then ((False, None), charged)
            else (((case expected of None \<Rightarrow> True | Some n \<Rightarrow> n = length body) \<and> digest_matches sha256 digest body,
                   Some (int status)), charged))"

text \<open>The downloads of a Nix environment, from the answers of the local cache.\<close>

definition download_of :: "(str \<Rightarrow> str) \<Rightarrow> (str \<Rightarrow> response) \<Rightarrow> str \<Rightarrow> str option \<Rightarrow> nat option \<Rightarrow> bool \<times> int option" where
  "download_of sha256 cache url digest expected = fst (download_package sha256 (cache url) digest expected)"

lemma receive_ended: "receive expected body charged chunks = (True, result, charged') \<Longrightarrow> result = body @ concat chunks"
proof (induction chunks arbitrary: body charged)
  case (Cons c chunks)
  then show ?case using Cons.IH [of "body @ c" "charged @ [length c]"] by (auto simp: Let_def split: if_splits option.splits)
qed simp

text \<open>What was charged is what came over the network, and stops with the first chunk beyond the expected length.\<close>

lemma receive_charged:
  "receive expected body charged chunks = (ended, result, charged') \<Longrightarrow> sum_list charged = length body \<Longrightarrow>
   sum_list charged' = length result \<and>
   (\<forall>n. expected = Some n \<longrightarrow> length body \<le> n \<longrightarrow> (\<forall>c \<in> set chunks. length c \<le> limit) \<longrightarrow> length result \<le> n + limit)"
proof (induction chunks arbitrary: body charged)
  case Nil
  then show ?case by auto
next
  case (Cons c chunks)
  show ?case
  proof (cases "case expected of None \<Rightarrow> False | Some n \<Rightarrow> n < length (body @ c)")
    case True
    then have "result = body @ c" "charged' = charged @ [length c]" using Cons.prems(1) by (auto simp: Let_def)
    then show ?thesis using Cons.prems(2) by auto
  next
    case False
    then have "receive expected (body @ c) (charged @ [length c]) chunks = (ended, result, charged')"
      using Cons.prems(1) by (simp add: Let_def)
    from Cons.IH [OF this] False Cons.prems(2) show ?thesis by (auto split: option.splits)
  qed
qed

lemma receive_stopped:
  "receive expected body charged chunks = (False, result, charged') \<Longrightarrow> \<exists>n. expected = Some n \<and> n < length (body @ concat chunks)"
proof (induction chunks arbitrary: body charged)
  case (Cons c chunks)
  then show ?case using Cons.IH [of "body @ c" "charged @ [length c]"] by (auto simp: Let_def split: if_splits option.splits)
qed simp

text \<open>C31: a download is reported as successful exactly when the answer had a success status, ended, has the expected length and
  the expected SHA-256; and an answer that is too long costs the bandwidth budget at most one chunk more than the
  expected length.\<close>

theorem download_exact:
  assumes "download_package sha256 response digest expected = ((ok, http), charged)"
    and "\<forall>status chunks whole. response = Response status chunks whole \<longrightarrow> (\<forall>c \<in> set chunks. length c \<le> limit)"
  shows "(ok \<longleftrightarrow> (\<exists>status chunks. response = Response status chunks True \<and> success_status status \<and> http = Some (int status) \<and>
        (\<forall>n. expected = Some n \<longrightarrow> length (concat chunks) = n) \<and> digest_matches sha256 digest (concat chunks))) \<and>
    (\<forall>n. expected = Some n \<longrightarrow> sum_list charged \<le> n + limit)"
proof (cases response)
  case No_response
  then show ?thesis using assms(1) by (auto simp: download_package_def)
next
  case (Response status chunks whole)
  show ?thesis
  proof (cases "success_status status")
    case False
    then show ?thesis using assms(1) Response by (auto simp: download_package_def)
  next
    case True
    obtain ended body charged' where r: "receive expected [] [] chunks = (ended, body, charged')" by (metis prod_cases3)
    have "charged = charged'" using assms(1) Response True r by (auto simp: download_package_def split: if_splits)
    moreover have "length body \<le> n + limit" if "expected = Some n" for n
      using receive_charged [OF r, of limit] assms(2) Response that by simp
    moreover have "sum_list charged' = length body" using receive_charged [OF r] by simp
    moreover have "ok \<longleftrightarrow> ended \<and> whole \<and> (\<forall>n. expected = Some n \<longrightarrow> n = length body) \<and> digest_matches sha256 digest body"
        "ok \<Longrightarrow> http = Some (int status)"
      using assms(1) Response True r by (auto simp: download_package_def split: if_splits option.splits)
    moreover have "ended \<Longrightarrow> body = concat chunks" using receive_ended r by fastforce
    moreover have "\<not> ended \<Longrightarrow> \<exists>n. expected = Some n \<and> n < length (concat chunks)" using receive_stopped r by fastforce
    moreover have "whole \<Longrightarrow> \<not> ok \<or> http = Some (int status)" using assms(1) Response True r
      by (auto simp: download_package_def split: if_splits)
    ultimately show ?thesis using Response True by auto
  qed
qed

lemma download_exact_witness:
  "download_package (\<lambda>b. b) (Response 200 [''ab'', ''c''] True) (Some ''ABC'') (Some 3) = ((True, Some 200), [2, 1]) \<and>
   sum_list [2, 1] \<le> (3 :: nat) + 2"
proof -
  have run: "download_package (\<lambda>b. b) (Response 200 [''ab'', ''c''] True) (Some ''ABC'') (Some 3) = ((True, Some 200), [2, 1])"
    by (simp add: download_package_def success_status_def digest_matches_def lower_def) code_simp
  have "\<forall>status chunks whole. Response 200 [''ab'', ''c''] True = Response status chunks whole \<longrightarrow> (\<forall>c \<in> set chunks. length c \<le> 2)"
    by auto
  then show ?thesis using download_exact [OF run, of 2] run by simp
qed

end
