(* ===== verification/Syslog.thy ===== *)
theory Syslog
  imports Url_Split Routing Store_Requests Store_Cache
begin

text \<open>
  \<open>runtime/syslog.py\<close>: the listener that turns the access log of nginx into request records and demand.  A datagram is
  a byte string; its fields are texts.  A name in the database is the UTF-8 bytes of its text.  \<open>digit\<close> tells the
  Unicode decimal digits; \<open>netloc_ok\<close> is the part of \<open>urlsplit\<close> that \<open>Url_Split\<close> leaves open.  The environment also has
  the clock, the digest of a catalog identity and fresh revisions.  An operation that the code runs in a
  \<open>try\<close> block of its own is a total update here; the only exception that leaves the handler is \<open>urlsplit\<close>'s ValueError.
\<close>

section \<open>Log lines\<close>

record parsed_request =
  pq_ip :: utext
  pq_method :: utext
  pq_path :: utext
  pq_status :: "utext option"
  pq_cache :: "utext option"
  pq_prefetch :: bool

text \<open>What follows the tag, an optional process number and the colon, if this is where the pattern matches.\<close>

definition message_here :: "(nat \<Rightarrow> bool) \<Rightarrow> utext \<Rightarrow> utext \<Rightarrow> utext option" where
  "message_here digit tag t =
     (if \<not> tstarts tag t then None
      else let s = drop (length tag) t;
               number = takeWhile digit (tl s);
               rest = drop (Suc (length number)) s;
               message = (if tstarts (lit ''['') s \<and> number \<noteq> [] \<and> tstarts (lit '']:'') rest then Some (drop 2 rest)
                          else if tstarts (lit '':'') s then Some (drop 1 s) else None)
           in case message of
                None \<Rightarrow> None
              | Some m \<Rightarrow> if 10 \<in> set (dropWhile space_point m) then None else Some (dropWhile space_point m))"

fun find_message :: "(nat \<Rightarrow> bool) \<Rightarrow> utext \<Rightarrow> utext \<Rightarrow> utext option" where
  "find_message digit tag [] = message_here digit tag []"
| "find_message digit tag (c # t) =
     (case message_here digit tag (c # t) of Some m \<Rightarrow> Some m | None \<Rightarrow> find_message digit tag t)"

definition request_of_fields :: "utext list \<Rightarrow> parsed_request option" where
  "request_of_fields fs =
     (if length fs < 3 then None
      else Some \<lparr>pq_ip = fs ! 0, pq_method = fs ! 1, pq_path = fs ! 2,
             pq_status = (if length fs > 3 then Some (fs ! 3) else None),
             pq_cache = (if length fs > 4 then Some (fs ! 4) else None),
             pq_prefetch = (length fs > 5 \<and> fs ! 5 = lit ''1'')\<rparr>)"

definition parse_syslog_line :: "(nat \<Rightarrow> bool) \<Rightarrow> str \<Rightarrow> str \<Rightarrow> parsed_request option" where
  "parse_syslog_line digit tag raw =
     (let text = tstrip (decode raw) in
      if text = [] then None
      else case find_message digit (lit tag) text of None \<Rightarrow> None | Some m \<Rightarrow> request_of_fields (tsplit m))"

section \<open>Matching routes\<close>

type_synonym matcher = "(str \<times> utext \<times> utext) list"

text \<open>A repository without a route of its own is left out.\<close>

fun repo_matcher :: "repo_config list \<Rightarrow> matcher" where
  "repo_matcher [] = []"
| "repo_matcher (r # rs) =
     (case repo_prefix r of
        Inl _ \<Rightarrow> repo_matcher rs
      | Inr p \<Rightarrow> (rp_id r, lit p, lit p @ lit ''/'') # repo_matcher rs)"

definition match_path :: "matcher \<Rightarrow> utext \<Rightarrow> str option" where
  "match_path m path =
     (case filter (\<lambda>(repo, prefix, child). path = prefix \<or> tstarts child path) m of [(repo, _)] \<Rightarrow> Some repo | _ \<Rightarrow> None)"

definition match_repo_id :: "utext \<Rightarrow> repo_config list \<Rightarrow> str option" where
  "match_repo_id path repos = match_path (repo_matcher repos) path"

section \<open>The index of package paths\<close>

type_synonym owners = "(utext \<times> str list) list"

record path_index =
  ix_prefix :: utext
  ix_relative :: owners
  ix_absolute :: owners

definition index_get :: "path_index \<Rightarrow> utext \<Rightarrow> str list option" where
  "index_get ix path =
     (if tstarts (ix_prefix ix) path then map_of (ix_relative ix) (drop (length (ix_prefix ix)) path)
      else map_of (ix_absolute ix) path)"

definition index_keys :: "path_index \<Rightarrow> utext list" where
  "index_keys ix = map (\<lambda>x. ix_prefix ix @ fst x) (ix_relative ix) @ map fst (ix_absolute ix)"

definition index_size :: "path_index \<Rightarrow> nat" where
  "index_size ix = length (ix_relative ix) + length (ix_absolute ix)"

definition add_owner :: "utext \<Rightarrow> str \<Rightarrow> owners \<Rightarrow> owners" where
  "add_owner name key m = AList.update name ((case map_of m name of None \<Rightarrow> [] | Some ks \<Rightarrow> ks) @ [key]) m"

definition special_chars :: "nat list" where
  "special_chars = lit ''%?#'' @ [9, 13, 10]"

definition ordinary :: "utext \<Rightarrow> bool" where
  "ordinary t \<longleftrightarrow> set t \<inter> set special_chars = {}"

text \<open>\<open>None\<close> is the ValueError of \<open>urlsplit\<close>.\<close>

definition routed_path :: "(utext \<Rightarrow> bool) \<Rightarrow> utext \<Rightarrow> utext option" where
  "routed_path netloc_ok t = map_option (\<lambda>u. unquote (su_path u)) (urlsplit netloc_ok [] t)"

definition add_package :: "(utext \<Rightarrow> bool) \<Rightarrow> path_index \<Rightarrow> str \<times> str \<Rightarrow> path_index option" where
  "add_package netloc_ok ix item =
     (case item of (key, filename) \<Rightarrow>
        let prefix = ix_prefix ix; name = decode filename in
        if filename = [] then Some ix
        else if (\<not> tstarts (lit ''//'') prefix \<and> ordinary prefix) \<and> \<not> (prefix = lit ''/'' \<and> tstarts (lit ''/'') name) \<and> ordinary name
        then Some (ix\<lparr>ix_relative := add_owner name key (ix_relative ix)\<rparr>)
        else case routed_path netloc_ok (prefix @ name) of
          None \<Rightarrow> None
        | Some path \<Rightarrow> Some (if tstarts prefix path
            then ix\<lparr>ix_relative := add_owner (drop (length prefix) path) key (ix_relative ix)\<rparr>
            else ix\<lparr>ix_absolute := add_owner path key (ix_absolute ix)\<rparr>))"

fun add_packages :: "(utext \<Rightarrow> bool) \<Rightarrow> path_index \<Rightarrow> (str \<times> str) list \<Rightarrow> path_index option" where
  "add_packages netloc_ok ix [] = Some ix"
| "add_packages netloc_ok ix (p # ps) =
     (case add_package netloc_ok ix p of None \<Rightarrow> None | Some ix' \<Rightarrow> add_packages netloc_ok ix' ps)"

definition package_path_index :: "(utext \<Rightarrow> bool) \<Rightarrow> str \<Rightarrow> (str \<times> str) list \<Rightarrow> path_index option" where
  "package_path_index netloc_ok base packages =
     add_packages netloc_ok \<lparr>ix_prefix = lit base @ lit ''/'', ix_relative = [], ix_absolute = []\<rparr> packages"

definition match_all_package_keys :: "(utext \<Rightarrow> bool) \<Rightarrow> utext \<Rightarrow> (str \<times> path_index) list \<Rightarrow> (str \<times> str) list option" where
  "match_all_package_keys netloc_ok path by_path =
     map_option (\<lambda>p. concat (map (\<lambda>(repo, ix). case index_get ix p of None \<Rightarrow> [] | Some ks \<Rightarrow> map (\<lambda>k. (repo, k)) ks) by_path))
       (routed_path netloc_ok path)"

section \<open>The listener\<close>

record listener =
  li_repos :: "repo_config list"
  li_matcher :: matcher
  li_packages :: "(str \<times> (str \<times> str) list) list"
  li_paths :: "(str \<times> path_index) list"
  li_revisions :: "(str \<times> nat option \<times> str) list"

record listen_env =
  le_netloc :: "utext \<Rightarrow> bool"
  le_digit :: "nat \<Rightarrow> bool"
  le_now :: stamp
  le_digest :: "identity_fields \<Rightarrow> str"
  le_blob :: "str \<Rightarrow> str"
  le_touch :: "warmed_package \<Rightarrow> str"

definition keep_active :: "str list \<Rightarrow> (str \<times> 'a) list \<Rightarrow> (str \<times> 'a) list" where
  "keep_active active m = filter (\<lambda>x. fst x \<in> set active) m"

text \<open>One repository of \<open>refresh_package_indexes\<close>: its index is rebuilt when the generation or the route changed.\<close>

definition refresh_repo :: "listen_env \<Rightarrow> db \<Rightarrow> repo_config \<Rightarrow> listener \<Rightarrow> listener option" where
  "refresh_repo e d r l =
     (let revision = (map_of (get_snapshot_revisions d) (rp_id r), catalog_identity (le_digest e) r) in
      if map_of (li_revisions l) (rp_id r) = Some revision then Some l
      else let packages = (case get_packages (rp_id r) d of None \<Rightarrow> [] | Some ps \<Rightarrow> ps) in
        case package_prefix r of
          Inl _ \<Rightarrow> None
        | Inr p \<Rightarrow> (case package_path_index (le_netloc e) p packages of
            None \<Rightarrow> None
          | Some ix \<Rightarrow> Some (l\<lparr>li_packages := AList.update (rp_id r) packages (li_packages l),
              li_paths := AList.update (rp_id r) ix (li_paths l), li_revisions := AList.update (rp_id r) revision (li_revisions l)\<rparr>)))"

fun refresh_repos :: "listen_env \<Rightarrow> db \<Rightarrow> repo_config list \<Rightarrow> listener \<Rightarrow> listener option" where
  "refresh_repos e d [] l = Some l"
| "refresh_repos e d (r # rs) l = (case refresh_repo e d r l of None \<Rightarrow> None | Some l' \<Rightarrow> refresh_repos e d rs l')"

definition refresh_package_indexes :: "listen_env \<Rightarrow> repo_config list \<Rightarrow> db \<Rightarrow> listener \<Rightarrow> listener option" where
  "refresh_package_indexes e repos d l =
     (let active = map rp_id repos in
      refresh_repos e d repos (l\<lparr>li_packages := keep_active active (li_packages l), li_paths := keep_active active (li_paths l),
         li_revisions := keep_active active (li_revisions l)\<rparr>))"

definition new_listener :: "repo_config list \<Rightarrow> listener" where
  "new_listener repos = \<lparr>li_repos = repos, li_matcher = repo_matcher repos, li_packages = [], li_paths = [], li_revisions = []\<rparr>"

definition start_listener :: "listen_env \<Rightarrow> repo_config list \<Rightarrow> db \<Rightarrow> listener option" where
  "start_listener e repos d = refresh_package_indexes e repos d (new_listener repos)"

text \<open>Re-reading the configuration; a configuration that does not load (\<open>None\<close>) leaves the previous list.\<close>

definition reload_listener :: "listen_env \<Rightarrow> repo_config list option \<Rightarrow> db \<Rightarrow> listener \<Rightarrow> listener option" where
  "reload_listener e loaded d l =
     (let repos = (case loaded of None \<Rightarrow> li_repos l | Some rs \<Rightarrow> rs) in
      refresh_package_indexes e repos d (l\<lparr>li_repos := repos, li_matcher := repo_matcher repos\<rparr>))"

section \<open>One request\<close>

definition request_row :: "listener \<Rightarrow> parsed_request \<Rightarrow> (str \<times> str) list \<Rightarrow> request_in" where
  "request_row l q matches =
     (let owner = (case matches of [(repo, key)] \<Rightarrow> Some (repo, key) | _ \<Rightarrow> None) in
      \<lparr>ri_repo = match_path (li_matcher l) (pq_path q), ri_ip = Some (encode (pq_ip q)), ri_method = encode (pq_method q),
       ri_path = encode (pq_path q), ri_status = map_option encode (pq_status q), ri_cache = map_option encode (pq_cache q),
       ri_pkey = map_option snd owner, ri_prepo = map_option fst owner\<rparr>)"

definition touch_nix :: "listen_env \<Rightarrow> parsed_request \<Rightarrow> repo_config \<Rightarrow> db \<Rightarrow> db" where
  "touch_nix e q r d =
     (case (if rp_type r = ''nix'' then repo_prefix r else Inl (Config_error [])) of
        Inl _ \<Rightarrow> d
      | Inr p \<Rightarrow>
          let prefix = lit (rstrip_char CHR ''/'' p) @ lit ''/''; name = encode (drop (length prefix) (pq_path q)) in
          if tstarts prefix (pq_path q)
          then let d' = touch_nix_artifact (le_now e) (le_touch e) (rp_id r) name d in
            if pq_method q = lit ''GET'' then record_artifact_interest (rp_id r) name (catalog_identity (le_digest e) r) d' else d'
          else d)"

definition record_match :: "listen_env \<Rightarrow> listener \<Rightarrow> parsed_request \<Rightarrow> str \<times> str \<Rightarrow> db \<Rightarrow> db" where
  "record_match e l q x d =
     (case x of (repo_id, key) \<Rightarrow>
        let repo = find (\<lambda>r. rp_id r = repo_id) (li_repos l);
            d' = (case repo of
                Some r \<Rightarrow> if pq_method q = lit ''GET'' then record_interest repo_id [key] (catalog_identity (le_digest e) r) d else d
              | None \<Rightarrow> d);
            filename = (case map_of (li_packages l) repo_id of None \<Rightarrow> [] | Some ps \<Rightarrow> (case map_of ps key of None \<Rightarrow> [] | Some f \<Rightarrow> f))
        in if (case repo of Some r \<Rightarrow> rp_type r = ''nix'' | None \<Rightarrow> False) then d'
           else record_warmed_package (le_now e) (le_blob e key) repo_id key filename True (Some 200) ''client'' d')"

text \<open>\<open>None\<close>: the exception ends the listener.\<close>

definition handle_request :: "listen_env \<Rightarrow> listener \<Rightarrow> parsed_request \<Rightarrow> db \<Rightarrow> db option" where
  "handle_request e l q d =
     (if pq_prefetch q then Some d
      else case match_all_package_keys (le_netloc e) (pq_path q) (li_paths l) of
        None \<Rightarrow> None
      | Some matches \<Rightarrow>
          let d1 = record_request (le_now e) (request_row l q matches) d in
          Some (if pq_status q = Some (lit ''200'')
                then fold (record_match e l q) matches (fold (touch_nix e q) (li_repos l) d1) else d1))"

definition handle_datagram :: "listen_env \<Rightarrow> listener \<Rightarrow> str \<Rightarrow> db \<Rightarrow> db option" where
  "handle_datagram e l raw d =
     (case parse_syslog_line (le_digit e) ''repowatch'' raw of None \<Rightarrow> Some d | Some q \<Rightarrow> handle_request e l q d)"

text \<open>The loop: each event is a datagram, with a re-read configuration when more than a minute has passed.\<close>

datatype arrival = Datagram str | Reload_then "repo_config list option" str

definition listen_step :: "listen_env \<Rightarrow> arrival \<Rightarrow> listener \<times> db \<Rightarrow> (listener \<times> db) option" where
  "listen_step e a s =
     (case (a, s) of
        (Datagram raw, (l, d)) \<Rightarrow> map_option (\<lambda>d'. (l, d')) (handle_datagram e l raw d)
      | (Reload_then loaded raw, (l, d)) \<Rightarrow>
          (case reload_listener e loaded d l of
             None \<Rightarrow> None
           | Some l' \<Rightarrow> map_option (\<lambda>d'. (l', d')) (handle_datagram e l' raw d)))"

fun run_listener :: "listen_env \<Rightarrow> arrival list \<Rightarrow> listener \<times> db \<Rightarrow> (listener \<times> db) option" where
  "run_listener e [] s = Some s"
| "run_listener e (a # as) s = (case listen_step e a s of None \<Rightarrow> None | Some s' \<Rightarrow> run_listener e as s')"

end
