(* ===== verification/Syslog_Props.thy ===== *)
theory Syslog_Props
  imports Syslog Warm
begin

text \<open>
  What the listener guarantees: its index finds exactly the owners of a path, and what one request leaves in the
  database.
\<close>

section \<open>The index is the list of its packages\<close>

text \<open>The reference: the keys whose routed path is the wanted one, in the order of the catalog.\<close>

definition owner_keys :: "(utext \<Rightarrow> bool) \<Rightarrow> utext \<Rightarrow> (str \<times> str) list \<Rightarrow> utext \<Rightarrow> str list" where
  "owner_keys netloc_ok pre packages path =
     map fst (filter (\<lambda>(key, f). f \<noteq> [] \<and> routed_path netloc_ok (pre @ decode f) = Some path) packages)"

lemma cleaned_ordinary:
  assumes "ordinary t" "t \<noteq> []" "32 < hd t"
  shows "cleaned t = t"
proof -
  have "\<forall>n \<in> set t. n \<notin> {9, 10, 13}" using assms(1) by (auto simp: ordinary_def special_chars_def)
  moreover have "dropWhile (\<lambda>n. n \<le> 32) t = t" using assms(2,3) by (cases t) simp_all
  ultimately show ?thesis by (simp add: cleaned_def filter_id_conv)
qed

lemma routed_ordinary:
  assumes "ordinary t" "tstarts (lit ''/'') t" "\<not> tstarts (lit ''//'') t"
    and "netloc_ok []"
  shows "routed_path netloc_ok t = Some t"
proof -
  have slash: "t \<noteq> []" "hd t = 47" using assms(2) by (auto simp: tstarts_iff lit_def)
  have special: "code CHR ''#'' \<notin> set t" "code CHR ''?'' \<notin> set t" "code CHR ''%'' \<notin> set t"
    using assms(1) by (auto simp: ordinary_def special_chars_def lit_def)
  have clean: "cleaned t = t" using slash by (intro cleaned_ordinary assms(1)) simp_all
  have "split_scheme [] t = ([], t)"
  proof (cases "cut_at (code CHR '':'') t")
    case None
    then show ?thesis by (simp add: split_scheme_def)
  next
    case (Some x)
    then have "fst x = takeWhile (\<lambda>n. n \<noteq> code CHR '':'') t" by (auto simp: cut_at_def split: list.splits)
    then have "fst x \<noteq> [] \<and> hd (fst x) = 47" using slash by (cases t) auto
    then show ?thesis using Some by (cases x) (simp add: split_scheme_def alpha_point_def)
  qed
  then show ?thesis
    using special assms(3,4) clean
    by (simp add: routed_path_def urlsplit_def split_netloc_def cut_default_def cut_at_absent brackets_ok_def unquote_plain Let_def)
qed

definition owners_of :: "owners \<Rightarrow> utext \<Rightarrow> str list" where
  "owners_of m name = (case map_of m name of None \<Rightarrow> [] | Some ks \<Rightarrow> ks)"

lemma owners_add: "owners_of (add_owner name key m) x = owners_of m x @ (if x = name then [key] else [])"
  by (simp add: owners_of_def add_owner_def update_conv')

definition index_owners :: "path_index \<Rightarrow> utext \<Rightarrow> str list" where
  "index_owners ix path =
     (if tstarts (ix_prefix ix) path then owners_of (ix_relative ix) (drop (length (ix_prefix ix)) path)
      else owners_of (ix_absolute ix) path)"

lemma index_get_owners: "(case index_get ix path of None \<Rightarrow> [] | Some ks \<Rightarrow> ks) = index_owners ix path"
  by (simp add: index_get_def index_owners_def owners_of_def)

lemma add_package_owners:
  assumes "add_package netloc_ok ix (key, filename) = Some ix'" "tstarts (lit ''/'') (ix_prefix ix)" "netloc_ok []"
  shows "ix_prefix ix' = ix_prefix ix \<and>
    index_owners ix' path = index_owners ix path @ owner_keys netloc_ok (ix_prefix ix) [(key, filename)] path"
proof (cases "filename = []")
  case True
  then show ?thesis using assms(1) by (simp add: add_package_def owner_keys_def)
next
  case False
  let ?p = "ix_prefix ix" and ?n = "decode filename"
  let ?fast = "(\<not> tstarts (lit ''//'') ?p \<and> ordinary ?p) \<and> \<not> (?p = lit ''/'' \<and> tstarts (lit ''/'') ?n) \<and> ordinary ?n"
  have fast: "routed_path netloc_ok (?p @ ?n) = Some (?p @ ?n)" if f: ?fast
  proof (rule routed_ordinary)
    show "ordinary (?p @ ?n)" using f by (auto simp: ordinary_def)
    show "tstarts (lit ''/'') (?p @ ?n)" using assms(2) by (auto simp: tstarts_iff)
    show "netloc_ok []" by (rule assms(3))
    obtain q where q: "?p = lit ''/'' @ q" using assms(2) by (auto simp: tstarts_iff)
    show "\<not> tstarts (lit ''//'') (?p @ ?n)"
      using f q by (cases q; cases ?n) (auto simp: tstarts_def lit_def)
  qed
  obtain target where target: "routed_path netloc_ok (?p @ ?n) = Some target"
    and ix': "ix' = (if tstarts ?p target then ix\<lparr>ix_relative := add_owner (drop (length ?p) target) key (ix_relative ix)\<rparr>
        else ix\<lparr>ix_absolute := add_owner target key (ix_absolute ix)\<rparr>)"
  proof (cases ?fast)
    case True
    have "tstarts ?p (?p @ ?n)" by (auto simp: tstarts_iff)
    then show ?thesis using that [OF fast [OF True]] assms(1) True False by (simp add: add_package_def Let_def)
  next
    case slow: False
    then have "(case routed_path netloc_ok (?p @ ?n) of None \<Rightarrow> None
        | Some path \<Rightarrow> Some (if tstarts ?p path then ix\<lparr>ix_relative := add_owner (drop (length ?p) path) key (ix_relative ix)\<rparr>
            else ix\<lparr>ix_absolute := add_owner path key (ix_absolute ix)\<rparr>)) = Some ix'"
      using assms(1) False unfolding add_package_def prod.case Let_def by (simp only: if_False)
    then show ?thesis using that by (auto split: option.splits)
  qed
  have "owner_keys netloc_ok ?p [(key, filename)] path = (if path = target then [key] else [])"
    using False target by (auto simp: owner_keys_def)
  moreover have "drop (length ?p) path = drop (length ?p) target \<longleftrightarrow> path = target" if "tstarts ?p path" "tstarts ?p target"
    using that by (auto simp: tstarts_iff)
  ultimately show ?thesis unfolding ix' index_owners_def by (auto simp: owners_add)
qed

lemma add_packages_owners:
  assumes "add_packages netloc_ok ix packages = Some ix'" "tstarts (lit ''/'') (ix_prefix ix)" "netloc_ok []"
  shows "index_owners ix' path = index_owners ix path @ owner_keys netloc_ok (ix_prefix ix) packages path"
  using assms
proof (induction packages arbitrary: ix)
  case Nil
  then show ?case by (simp add: owner_keys_def)
next
  case (Cons p packages)
  obtain key filename where p: "p = (key, filename)" by (cases p)
  obtain ix1 where one: "add_package netloc_ok ix (key, filename) = Some ix1" "add_packages netloc_ok ix1 packages = Some ix'"
    using Cons.prems(1) by (auto simp: p split: option.splits)
  have step: "ix_prefix ix1 = ix_prefix ix"
      "index_owners ix1 path = index_owners ix path @ owner_keys netloc_ok (ix_prefix ix) [p] path"
    using add_package_owners [OF one(1) Cons.prems(2,3)] by (simp_all add: p)
  have "owner_keys netloc_ok (ix_prefix ix) (p # packages) path =
      owner_keys netloc_ok (ix_prefix ix) [p] path @ owner_keys netloc_ok (ix_prefix ix) packages path"
    by (simp add: owner_keys_def)
  then show ?case using Cons.IH [OF one(2)] Cons.prems(2,3) step by simp
qed

text \<open>C32: the two maps of a path index and its short cut for plain names are exactly the reference: looking a path up gives
  the keys, in catalog order, of the packages whose full URL path, split and unquoted the way a logged request is, is
  that path.\<close>

theorem path_index_is_reference:
  assumes "package_path_index netloc_ok base packages = Some ix" "tstarts (lit ''/'') (lit base @ lit ''/'')" "netloc_ok []"
  shows "(case index_get ix path of None \<Rightarrow> [] | Some ks \<Rightarrow> ks) = owner_keys netloc_ok (lit base @ lit ''/'') packages path"
proof -
  have "index_owners ix path = [] @ owner_keys netloc_ok (lit base @ lit ''/'') packages path"
    using add_packages_owners [OF assms(1) [unfolded package_path_index_def], of path] assms(2,3)
    by (simp add: index_owners_def owners_of_def)
  then show ?thesis by (simp add: index_get_owners)
qed

section \<open>What a request leaves\<close>

definition matches_of :: "listener \<Rightarrow> utext \<Rightarrow> (str \<times> str) list" where
  "matches_of l path = concat (map (\<lambda>(repo, ix). map (\<lambda>k. (repo, k)) (index_owners ix path)) (li_paths l))"

lemma match_all_matches: "match_all_package_keys netloc_ok path (li_paths l) = map_option (matches_of l) (routed_path netloc_ok path)"
proof -
  have "(case index_get ix p of None \<Rightarrow> [] | Some ks \<Rightarrow> map (\<lambda>k. (repo, k)) ks) = map (\<lambda>k. (repo, k)) (index_owners ix p)" for repo :: str and ix p
    unfolding index_get_owners [symmetric] by (simp split: option.split)
  then show ?thesis by (simp add: match_all_package_keys_def matches_of_def [abs_def])
qed

definition status_of :: "str \<times> str \<Rightarrow> db \<Rightarrow> str option" where
  "status_of x d = map_option wm_status (lookup wm_pkey x (warmed_packages d))"

lemma touch_nix_frame:
  "status_of x (touch_nix e q r d) = status_of x d \<and> request_events (touch_nix e q r d) = request_events d \<and>
   (pq_method q \<noteq> lit ''GET'' \<longrightarrow> package_interests (touch_nix e q r d) = package_interests d)"
proof -
  have "lookup wm_pkey x (update_where P (\<lambda>w. w\<lparr>wm_at := now, wm_revision := blob w\<rparr>) t) =
      map_option (\<lambda>w. if P w then w\<lparr>wm_at := now, wm_revision := blob w\<rparr> else w) (lookup wm_pkey x t)" for P now blob t
    by (rule lookup_update) (simp add: wm_pkey_def)
  then have "status_of x (touch_nix_artifact now blob repo name d) = status_of x d" for now blob repo name
    by (cases "lookup wm_pkey x (warmed_packages d)") (simp_all add: status_of_def touch_nix_artifact_def)
  moreover have "status_of x (record_artifact_interest repo name identity d) = status_of x d" for repo name identity d
    by (simp add: status_of_def record_artifact_interest_def record_interest_def)
  moreover have "request_events (touch_nix_artifact now blob repo name d) = request_events d \<and>
      package_interests (touch_nix_artifact now blob repo name d) = package_interests d" for now blob repo name
    by (simp add: touch_nix_artifact_def)
  moreover have "request_events (record_artifact_interest repo name identity d) = request_events d" for repo name identity d
    by (simp add: record_artifact_interest_def record_interest_def)
  ultimately show ?thesis by (simp add: touch_nix_def Let_def split: sum.split)
qed

lemma fold_touch_nix_frame:
  "status_of x (fold (touch_nix e q) rs d) = status_of x d \<and> request_events (fold (touch_nix e q) rs d) = request_events d \<and>
   (pq_method q \<noteq> lit ''GET'' \<longrightarrow> package_interests (fold (touch_nix e q) rs d) = package_interests d)"
proof (induction rs arbitrary: d)
  case (Cons r rs)
  then show ?case using Cons.IH [of "touch_nix e q r d"] touch_nix_frame [of x e q r d] by simp
qed simp

definition nix_match :: "listener \<Rightarrow> str \<times> str \<Rightarrow> bool" where
  "nix_match l x \<longleftrightarrow> (case find (\<lambda>r. rp_id r = fst x) (li_repos l) of Some r \<Rightarrow> rp_type r = ''nix'' | None \<Rightarrow> False)"

lemma record_match_frame:
  "status_of y (record_match e l q x d) = (if y = x \<and> \<not> nix_match l x then Some ''ok'' else status_of y d) \<and>
   request_events (record_match e l q x d) = request_events d \<and>
   (pq_method q \<noteq> lit ''GET'' \<longrightarrow> package_interests (record_match e l q x d) = package_interests d)"
proof -
  obtain repo key where x: "x = (repo, key)" by (cases x)
  let ?repo = "find (\<lambda>r. rp_id r = repo) (li_repos l)"
  define d1 where "d1 = (case ?repo of
      Some r \<Rightarrow> if pq_method q = lit ''GET'' then record_interest repo [key] (catalog_identity (le_digest e) r) d else d | None \<Rightarrow> d)"
  have d1: "status_of y d1 = status_of y d" "request_events d1 = request_events d"
      "pq_method q \<noteq> lit ''GET'' \<longrightarrow> package_interests d1 = package_interests d"
    by (auto simp: d1_def status_of_def record_interest_def split: option.split)
  have warmed: "status_of y (record_warmed_package now blob repo key f True http source d1) = (if y = x then Some ''ok'' else status_of y d1)"
    for now blob f http source
    by (simp add: status_of_def warmed_lookup x Let_def wm_replace_def split: option.split)
  have other: "request_events (record_warmed_package now blob repo key f True http source d1) = request_events d1"
      "package_interests (record_warmed_package now blob repo key f True http source d1) = package_interests d1" for now blob f http source
    by (simp_all add: record_warmed_package_def)
  show ?thesis unfolding x record_match_def Let_def prod.case d1_def [symmetric]
    using d1 warmed other by (auto simp: nix_match_def x)
qed

lemma fold_record_match_frame:
  "status_of y (fold (record_match e l q) xs d) = (if y \<in> set xs \<and> \<not> nix_match l y then Some ''ok'' else status_of y d) \<and>
   request_events (fold (record_match e l q) xs d) = request_events d \<and>
   (pq_method q \<noteq> lit ''GET'' \<longrightarrow> package_interests (fold (record_match e l q) xs d) = package_interests d)"
proof (induction xs arbitrary: d)
  case (Cons x xs)
  then show ?case using Cons.IH [of "record_match e l q x d"] record_match_frame [of y e l q x d] by auto
qed simp

lemma record_request_frame:
  "status_of y (record_request now r d) = status_of y d \<and> package_interests (record_request now r d) = package_interests d \<and>
   (\<exists>id. request_events (record_request now r d) = request_events d @
     [\<lparr>rq_id = id, rq_ts = now, rq_repo = ri_repo r, rq_ip = ri_ip r, rq_method = ri_method r, rq_path = ri_path r,
       rq_status = ri_status r, rq_cache = ri_cache r, rq_pkey = ri_pkey r, rq_prepo = ri_prepo r\<rparr>])"
  by (simp add: record_request_def rollup_insert_def Let_def status_of_def)

text \<open>C33: one client request is recorded once, with the repository of its route and a link to a package only when a single
  package owns its path; every owner outside Nix of a file served with status 200 becomes warmed, no other package
  changes its state, and only a \<open>GET\<close> served in full can create demand.\<close>

theorem client_request_effect:
  assumes "handle_request e l q d = Some d'" "\<not> pq_prefetch q"
  shows "\<exists>path id. routed_path (le_netloc e) (pq_path q) = Some path \<and>
    request_events d' = request_events d @
      [\<lparr>rq_id = id, rq_ts = le_now e, rq_repo = match_path (li_matcher l) (pq_path q), rq_ip = Some (encode (pq_ip q)),
        rq_method = encode (pq_method q), rq_path = encode (pq_path q), rq_status = map_option encode (pq_status q),
        rq_cache = map_option encode (pq_cache q),
        rq_pkey = (case matches_of l path of [(r, k)] \<Rightarrow> Some k | _ \<Rightarrow> None),
        rq_prepo = (case matches_of l path of [(r, k)] \<Rightarrow> Some r | _ \<Rightarrow> None)\<rparr>] \<and>
    (\<forall>x. status_of x d' = (if pq_status q = Some (lit ''200'') \<and> x \<in> set (matches_of l path) \<and> \<not> nix_match l x
        then Some ''ok'' else status_of x d)) \<and>
    (pq_method q \<noteq> lit ''GET'' \<or> pq_status q \<noteq> Some (lit ''200'') \<longrightarrow> package_interests d' = package_interests d)"
proof -
  obtain path where path: "routed_path (le_netloc e) (pq_path q) = Some path"
    using assms by (auto simp: handle_request_def match_all_matches split: option.splits)
  let ?ms = "matches_of l path" and ?d1 = "record_request (le_now e) (request_row l q (matches_of l path)) d"
  have d': "d' = (if pq_status q = Some (lit ''200'') then fold (record_match e l q) ?ms (fold (touch_nix e q) (li_repos l) ?d1) else ?d1)"
    using assms path by (simp add: handle_request_def match_all_matches Let_def)
  obtain id where row: "request_events ?d1 = request_events d @
     [\<lparr>rq_id = id, rq_ts = le_now e, rq_repo = match_path (li_matcher l) (pq_path q), rq_ip = Some (encode (pq_ip q)),
        rq_method = encode (pq_method q), rq_path = encode (pq_path q), rq_status = map_option encode (pq_status q),
        rq_cache = map_option encode (pq_cache q),
        rq_pkey = (case ?ms of [(r, k)] \<Rightarrow> Some k | _ \<Rightarrow> None), rq_prepo = (case ?ms of [(r, k)] \<Rightarrow> Some r | _ \<Rightarrow> None)\<rparr>]"
  proof -
    have own: "map_option snd (case ?ms of [(r, k)] \<Rightarrow> Some (r, k) | _ \<Rightarrow> None) = (case ?ms of [(r, k)] \<Rightarrow> Some k | _ \<Rightarrow> None)"
        "map_option fst (case ?ms of [(r, k)] \<Rightarrow> Some (r, k) | _ \<Rightarrow> None) = (case ?ms of [(r, k)] \<Rightarrow> Some r | _ \<Rightarrow> None)"
      by (simp_all split: list.split)
    show ?thesis using that record_request_frame [of "([], [])" "le_now e" "request_row l q ?ms" d]
      unfolding request_row_def Let_def own by auto
  qed
  have one: "status_of x ?d1 = status_of x d" "package_interests ?d1 = package_interests d" for x
    using record_request_frame by blast+
  have "request_events d' = request_events ?d1"
    by (simp add: d' fold_record_match_frame fold_touch_nix_frame)
  moreover have "\<forall>x. status_of x d' = (if pq_status q = Some (lit ''200'') \<and> x \<in> set ?ms \<and> \<not> nix_match l x then Some ''ok'' else status_of x d)"
    by (simp add: d' fold_record_match_frame fold_touch_nix_frame one)
  moreover have "pq_method q \<noteq> lit ''GET'' \<or> pq_status q \<noteq> Some (lit ''200'') \<longrightarrow> package_interests d' = package_interests d"
    by (simp add: d' fold_record_match_frame fold_touch_nix_frame one)
  ultimately show ?thesis using path row by (intro exI [of _ path] exI [of _ id] conjI) simp_all
qed

section \<open>What ends the listener\<close>

lemma bracket_unroutable:
  assumes "code CHR '']'' \<notin> set t" "t' = lit ''//['' @ t"
  shows "routed_path netloc_ok t' = None"
proof -
  let ?net = "filter (\<lambda>n. n \<notin> {9, 10, 13}) t"
  have clean: "cleaned t' = lit ''//['' @ ?net" by (simp add: assms(2) cleaned_def lit_def)
  have "split_scheme [] (lit ''//['' @ ?net) = ([], lit ''//['' @ ?net)"
    by (simp add: split_scheme_def cut_at_def lit_def alpha_point_def split: list.split)
  moreover have "split_netloc (lit ''//['' @ ?net) =
      (code CHR ''['' # takeWhile (\<lambda>n. \<not> netloc_end n) ?net, dropWhile (\<lambda>n. \<not> netloc_end n) ?net)"
    by (simp add: split_netloc_def tstarts_def lit_def netloc_end_def)
  moreover have "\<not> brackets_ok (code CHR ''['' # takeWhile (\<lambda>n. \<not> netloc_end n) ?net)"
    using assms(1) by (auto simp: brackets_ok_def dest: set_takeWhileD)
  ultimately show ?thesis by (simp add: routed_path_def urlsplit_def clean Let_def split: prod.splits)
qed


section \<open>Concrete requests\<close>

definition sample_listen :: listen_env where
  "sample_listen = \<lparr>le_netloc = (\<lambda>_. True), le_digit = (\<lambda>n. 48 \<le> n \<and> n \<le> 57), le_now = 7, le_digest = (\<lambda>_. ''id''),
     le_blob = (\<lambda>k. k), le_touch = (\<lambda>_. ''t'')\<rparr>"

definition sample_index :: path_index where
  "sample_index = \<lparr>ix_prefix = lit ''/u/'', ix_relative = [(lit ''x'', [''a'']), (lit ''y+'', [''b''])], ix_absolute = []\<rparr>"

lemma sample_indexed: "package_path_index (\<lambda>_. True) ''/u'' [(''a'', ''x''), (''b'', ''y%2B'')] = Some sample_index"
proof -
  have ascii: "decode f = lit f" if "\<forall>c \<in> set f. code c < 128" for f
  proof -
    have "strict_text f = Inr (lit f)" by (rule strict_text_ascii [OF that])
    then show ?thesis by (simp add: strict_text_def decode_strict_def split: if_splits)
  qed
  have names: "decode ''x'' = lit ''x''" "decode ''y%2B'' = lit ''y%2B''" by (simp_all add: ascii)
  have path: "routed_path (\<lambda>_. True) (lit ''/u/'' @ lit ''y%2B'') = Some (lit ''/u/y+'')"
    by (simp add: routed_path_def urlsplit_def cleaned_def lit_def split_scheme_def cut_at_def cut_default_def split_netloc_def tstarts_def
      brackets_ok_def hex_value_def step_ascii Let_def)
  show ?thesis
    by (simp add: package_path_index_def add_package_def names add_owner_def sample_index_def Let_def ordinary_def special_chars_def)
      (use path in \<open>simp add: lit_def tstarts_def add_owner_def\<close>)
qed

lemma path_index_is_reference_witness:
  "index_get sample_index (lit ''/u/y+'') = Some [''b''] \<and>
   owner_keys (\<lambda>_. True) (lit ''/u'' @ lit ''/'') [(''a'', ''x''), (''b'', ''y%2B'')] (lit ''/u/y+'') = [''b'']"
proof -
  have "tstarts (lit ''/'') (lit ''/u'' @ lit ''/'')" by (simp add: tstarts_def lit_def)
  note ref = path_index_is_reference [OF sample_indexed this, of "lit ''/u/y+''"]
  have "index_get sample_index (lit ''/u/y+'') = Some [''b'']" by (simp add: index_get_def sample_index_def tstarts_def lit_def)
  then show ?thesis using ref by simp
qed

definition sample_listener :: listener where
  "sample_listener = \<lparr>li_repos = [sample_core], li_matcher = repo_matcher [sample_core],
     li_packages = [(''core'', [(''a'', ''x''), (''b'', ''y%2B'')])], li_paths = [(''core'', sample_index)], li_revisions = []\<rparr>"

definition sample_get :: parsed_request where
  "sample_get = \<lparr>pq_ip = lit ''10.0.0.1'', pq_method = lit ''GET'', pq_path = lit ''/u/x'', pq_status = Some (lit ''200''),
     pq_cache = Some (lit ''MISS''), pq_prefetch = False\<rparr>"

lemma client_request_effect_witness:
  "\<exists>d'. handle_request sample_listen sample_listener sample_get empty_db = Some d' \<and>
     status_of (''core'', ''a'') d' = Some ''ok'' \<and> length (request_events d') = 1"
proof -
  have routed: "routed_path (le_netloc sample_listen) (pq_path sample_get) = Some (lit ''/u/x'')"
    by (simp add: sample_listen_def sample_get_def) (rule routed_ordinary, simp_all add: ordinary_def special_chars_def lit_def tstarts_def)
  have matches: "matches_of sample_listener (lit ''/u/x'') = [(''core'', ''a'')]"
    by (simp add: matches_of_def sample_listener_def index_owners_def owners_of_def sample_index_def tstarts_def lit_def)
  have plain: "\<not> nix_match sample_listener (''core'', ''a'')"
    by (simp add: nix_match_def sample_listener_def sample_core_def sample_repo_def)
  have "\<not> pq_prefetch sample_get" by (simp add: sample_get_def)
  then obtain d' where run: "handle_request sample_listen sample_listener sample_get empty_db = Some d'"
    using routed \<open>\<not> pq_prefetch sample_get\<close> by (auto simp: handle_request_def match_all_matches Let_def)
  from client_request_effect [OF run \<open>\<not> pq_prefetch sample_get\<close>]
  have "status_of (''core'', ''a'') d' = Some ''ok'' \<and> length (request_events d') = 1"
    using routed matches plain by (auto simp: sample_get_def empty_db_def)
  with run show ?thesis by blast
qed

definition bracket_line :: str where
  "bracket_line = ''<1>h repowatch: 10.0.0.1 GET //[x 404''"

lemma bracket_parsed:
  "parse_syslog_line (le_digit sample_listen) ''repowatch'' bracket_line =
     Some \<lparr>pq_ip = lit ''10.0.0.1'', pq_method = lit ''GET'', pq_path = lit ''//['' @ lit ''x'', pq_status = Some (lit ''404''), pq_cache = None, pq_prefetch = False\<rparr>"
proof -
  have "strict_text bracket_line = Inr (lit bracket_line)" by (rule strict_text_ascii) (simp add: bracket_line_def)
  then have decoded: "decode bracket_line = lit bracket_line" by (simp add: strict_text_def decode_strict_def split: if_splits)
  show ?thesis unfolding parse_syslog_line_def decoded
    by (simp add: bracket_line_def lit_def tstrip_def space_point_def message_here_def tstarts_def sample_listen_def tsplit_def request_of_fields_def Let_def)
qed


end
