(* ===== verification/Ip_Address.thy ===== *)
theory Ip_Address
  imports PyString
begin

text \<open>
  IP addresses and networks as \<open>ipaddress\<close> of the standard library reads them.  An address is its
  number, with the scope of a version 6 address; a network is a number and the length of its prefix.
\<close>

section \<open>Reading addresses\<close>

definition ipv4_octet :: "str \<Rightarrow> bool" where
  "ipv4_octet o4 \<longleftrightarrow> o4 \<noteq> [] \<and> list_all ascii_digit o4 \<and> length o4 \<le> 3 \<and> (o4 = ''0'' \<or> hd o4 \<noteq> CHR ''0'') \<and> nat_of_digits o4 \<le> 255"

definition ipv4_octets :: "str \<Rightarrow> nat list option" where
  "ipv4_octets s = (let parts = split_on CHR ''.'' s in
     if length parts = 4 \<and> list_all ipv4_octet parts then Some (map nat_of_digits parts) else None)"

definition nibble :: "char \<Rightarrow> nat" where
  "nibble c = (if ascii_digit c then code c - 48 else if ascii_lower c then code c - 87 else code c - 55)"

definition hextet :: "str \<Rightarrow> nat option" where
  "hextet s = (if s \<noteq> [] \<and> list_all ascii_hex s \<and> length s \<le> 4 then Some (foldl (\<lambda>n c. n * 16 + nibble c) 0 s) else None)"

fun hextets :: "str list \<Rightarrow> nat list option" where
  "hextets [] = Some []"
| "hextets (p # ps) = (case (hextet p, hextets ps) of (Some n, Some ns) \<Rightarrow> Some (n # ns) | _ \<Rightarrow> None)"

text \<open>The parts between colons: an IPv4 address in the last place is two of them.\<close>

definition ipv6_parts :: "str \<Rightarrow> (str list \<times> nat list) option" where
  "ipv6_parts s = (let parts = split_on CHR '':'' s in
     if length parts < 3 then None
     else if CHR ''.'' \<in> set (List.last parts)
     then (case ipv4_octets (List.last parts) of
             Some [a, b, c, d] \<Rightarrow> Some (butlast parts, [a * 256 + b, c * 256 + d])
           | _ \<Rightarrow> None)
     else Some (parts, []))"

text \<open>The eight words: without an empty part inside, all are given; with one, the words at both sides of it.
  \<open>tail\<close> holds the two words of an IPv4 address in the last place.\<close>

definition ipv6_words :: "str \<Rightarrow> nat list option" where
  "ipv6_words s = (case ipv6_parts s of
      None \<Rightarrow> None
    | Some (ps, quad) \<Rightarrow>
        let n = length ps + length quad;
            inner = filter (\<lambda>i. ps ! i = []) [1..<min (length ps) (n - 1)] in
        if 9 < n then None
        else (case inner of
          [] \<Rightarrow> if n = 8 then map_option (\<lambda>ws. ws @ quad) (hextets ps) else None
        | [k] \<Rightarrow>
            let high = (if hd ps = [] then 0 else k);
                low = (if quad = [] \<and> List.last ps = [] then 0 else n - k - 1) in
            if (hd ps = [] \<and> k \<noteq> 1) \<or> (quad = [] \<and> List.last ps = [] \<and> n - k - 1 \<noteq> 1) \<or> 8 - (high + low) < 1 then None
            else (case (hextets (take high ps), hextets (if low = 0 then [] else drop (k + 1) ps)) of
                    (Some hi, Some lo) \<Rightarrow> Some (hi @ replicate (8 - (high + low)) 0 @ lo @ quad)
                  | _ \<Rightarrow> None)
        | _ \<Rightarrow> None))"

definition scope_split :: "str \<Rightarrow> (str \<times> str) option" where
  "scope_split s = (case split_on CHR 0x25 s of
      [a] \<Rightarrow> Some (a, []) | [a, scope] \<Rightarrow> if scope = [] then None else Some (a, CHR 0x25 # scope) | _ \<Rightarrow> None)"

section \<open>Addresses\<close>

datatype ip_addr = V4 nat | V6 nat str

definition ip_address :: "str \<Rightarrow> ip_addr option" where
  "ip_address s =
     (case ipv4_octets s of
        Some os \<Rightarrow> Some (V4 (foldl (\<lambda>n o8. n * 256 + o8) 0 os))
      | None \<Rightarrow> if CHR ''/'' \<in> set s then None
          else (case scope_split s of
             None \<Rightarrow> None
           | Some (a, scope) \<Rightarrow> map_option (\<lambda>ws. V6 (foldl (\<lambda>n w. n * 65536 + w) 0 ws) scope) (ipv6_words a)))"

text \<open>\<open>getattr(address, 'ipv4_mapped', None) or address\<close>\<close>

fun unmapped :: "ip_addr \<Rightarrow> ip_addr" where
  "unmapped (V4 n) = V4 n"
| "unmapped (V6 n scope) = (if n div 2 ^ 32 = 65535 then V4 (n mod 2 ^ 32) else V6 n scope)"

fun is_loopback :: "ip_addr \<Rightarrow> bool" where
  "is_loopback (V4 n) = (n div 2 ^ 24 = 127)"
| "is_loopback (V6 n _) = (n = 1)"

section \<open>Networks\<close>

datatype ip_network = Net4 nat nat | Net6 nat nat

text \<open>A decimal prefix length of at most \<open>limit\<close>.\<close>

definition prefix_length :: "nat \<Rightarrow> str \<Rightarrow> nat option" where
  "prefix_length limit s =
     (if s \<noteq> [] \<and> list_all ascii_digit s \<and> nat_of_digits s \<le> limit then Some (nat_of_digits s) else None)"

text \<open>A netmask in dotted notation, or its complement.\<close>

definition mask_length :: "nat \<Rightarrow> nat option" where
  "mask_length n = find (\<lambda>p. n = 2 ^ 32 - 2 ^ (32 - p)) [0..<33]"

definition dotted_length :: "str \<Rightarrow> nat option" where
  "dotted_length s =
     (case ipv4_octets s of
        None \<Rightarrow> None
      | Some os \<Rightarrow> let n = foldl (\<lambda>n o8. n * 256 + o8) 0 os in
          (case mask_length n of Some p \<Rightarrow> Some p | None \<Rightarrow> mask_length (2 ^ 32 - 1 - n)))"

text \<open>\<open>ipaddress.ip_network(network, strict=False)\<close>\<close>

definition ip_network4 :: "str \<Rightarrow> str option \<Rightarrow> ip_network option" where
  "ip_network4 a netmask =
     (case ipv4_octets a of
        None \<Rightarrow> None
      | Some os \<Rightarrow> map_option (Net4 (foldl (\<lambda>n o8. n * 256 + o8) 0 os))
          (case netmask of None \<Rightarrow> Some 32
           | Some m \<Rightarrow> (case prefix_length 32 m of Some p \<Rightarrow> Some p | None \<Rightarrow> dotted_length m)))"

definition ip_network6 :: "str \<Rightarrow> str option \<Rightarrow> ip_network option" where
  "ip_network6 a netmask =
     (case scope_split a of
        None \<Rightarrow> None
      | Some (b, _) \<Rightarrow> (case ipv6_words b of
          None \<Rightarrow> None
        | Some ws \<Rightarrow> map_option (Net6 (foldl (\<lambda>n w. n * 65536 + w) 0 ws))
            (case netmask of None \<Rightarrow> Some 128 | Some m \<Rightarrow> prefix_length 128 m)))"

definition ip_network :: "str \<Rightarrow> ip_network option" where
  "ip_network s =
     (case split_on CHR ''/'' s of
        [a] \<Rightarrow> (case ip_network4 a None of Some n \<Rightarrow> Some n | None \<Rightarrow> ip_network6 a None)
      | [a, m] \<Rightarrow> (case ip_network4 a (Some m) of Some n \<Rightarrow> Some n | None \<Rightarrow> ip_network6 a (Some m))
      | _ \<Rightarrow> None)"

text \<open>\<open>address in network\<close>: the leading bits agree.\<close>

fun in_network :: "ip_addr \<Rightarrow> ip_network \<Rightarrow> bool" where
  "in_network (V4 n) (Net4 m p) = (n div 2 ^ (32 - p) = m div 2 ^ (32 - p))"
| "in_network (V6 n _) (Net6 m p) = (n div 2 ^ (128 - p) = m div 2 ^ (128 - p))"
| "in_network _ _ = False"

end
