(* ===== verification/Render.thy ===== *)
theory Render
  imports Dedup_Cleanup Index_Check Ip_Address
begin

text \<open>
  \<open>nginx/render.py\<close>: the text of the four generated files, the server configuration, its purge locations,
  its probe locations and the probe script.  A file is the list of its lines, joined by line feeds as the
  code does.  The map of redirects and its sizes are in \<open>Dedup\<close>, the generation of the policy in
  \<open>Dedup_Cleanup\<close>.
\<close>

section \<open>Templates\<close>

text \<open>A literal of the code: a backquote stands for the double quote and a percent sign for the backslash,
  neither of which occurs in the templates.\<close>

definition tx :: "str \<Rightarrow> str" where
  "tx s = map (\<lambda>c. if c = CHR 0x60 then CHR 0x22 else if c = CHR 0x25 then CHR 0x5C else c) s"

text \<open>\<open>re.escape\<close>\<close>

definition regex_special :: "char \<Rightarrow> bool" where
  "regex_special c \<longleftrightarrow> c \<in> set ''()[]{}?*+-|^$.&~# '' \<or> c = CHR 0x5C \<or> c \<in> {CHR 0x09, CHR 0x0A, CHR 0x0B, CHR 0x0C, CHR 0x0D}"

definition re_escape :: "str \<Rightarrow> str" where
  "re_escape s = concat (map (\<lambda>c. if regex_special c then [CHR 0x5C, c] else [c]) s)"

definition render_error :: "config_error + 'a" where
  "render_error = Inl (Config_error ''nginx'')"

text \<open>\<open>_path\<close>: \<open>[A-Za-z0-9_./+-]\<close> after a leading slash, and no segment that climbs.\<close>

definition file_path :: "str \<Rightarrow> config_error + str" where
  "file_path v = (case v of
      c # r \<Rightarrow> if c = CHR ''/'' \<and> r \<noteq> [] \<and> list_all (\<lambda>x. ascii_alnum x \<or> x \<in> set ''_./+-'') r \<and>
                   ''..'' \<notin> set (split_on CHR ''/'' v) then Inr v else render_error
    | [] \<Rightarrow> render_error)"

section \<open>The address of the syslog listener\<close>

text \<open>\<open>ipaddress.ip_address\<close> with \<open>is_loopback\<close>, and the host as the code writes it.  The only loopback address
  of version 6 is \<open>::1\<close> (an IPv4 address mapped into version 6 counts as one only from Python 3.13 on, which is
  not modelled); the text of an IPv4 address is the one it was read from.\<close>

definition loopback_host :: "str \<Rightarrow> str option" where
  "loopback_host s =
     (case ipv4_octets s of
        Some os \<Rightarrow> if hd os = 127 then Some s else None
      | None \<Rightarrow> if CHR ''/'' \<in> set s then None
          else (case scope_split s of
             None \<Rightarrow> None
           | Some (a, scope) \<Rightarrow> if ipv6_words a = Some [0, 0, 0, 0, 0, 0, 0, 1] then Some (''[::1'' @ scope @ '']'') else None))"

section \<open>The server configuration\<close>

record conf_paths =
  pa_cache_dir :: str
  pa_access_log :: str
  pa_purge_conf :: str
  pa_dedup_conf :: str
  pa_probe_conf :: str
  pa_probe_js :: str

definition default_paths :: conf_paths where
  "default_paths = \<lparr>pa_cache_dir = ''/var/cache/nginx/repowatch'', pa_access_log = ''/var/log/nginx/repo-cache.access.log'',
     pa_purge_conf = ''/etc/nginx/repowatch/purge.conf'', pa_dedup_conf = ''/etc/nginx/repowatch/dedup.map'',
     pa_probe_conf = ''/etc/nginx/repowatch/probe.conf'', pa_probe_js = ''/etc/nginx/repowatch/probe.js''\<rparr>"

definition generated_note :: str where
  "generated_note = ''# Generated by repowatch; edit YAML parameters, not this file.''"

definition user_agent :: str where
  "user_agent = ''repowatch/0.1 (+https://github.com/you/repowatch)''"

definition cache_lines :: "nginx_config \<Rightarrow> conf_paths \<Rightarrow> str list" where
  "cache_lines n paths =
     [generated_note,
      ''proxy_cache_path '' @ pa_cache_dir paths @ '' levels=1:2 keys_zone=repo_cache:64m max_size='' @ ng_cache_max_size n @
        '' inactive=180d use_temp_path=off;'',
      tx ''log_format cache_status '' @ [CHR 0x27] @ tx ''$remote_addr - $request `$upstream_cache_status` -> $upstream_addr'' @ [CHR 0x27] @ '';'']"

definition size_lines :: "nginx_config \<Rightarrow> (str \<times> str) list \<Rightarrow> str list" where
  "size_lines n pairs =
     (if ng_enable_dedup n
      then (case dedup_hash_sizes pairs of (max_size, bucket_size) \<Rightarrow>
              [''map_hash_max_size '' @ show_nat max_size @ '';'', ''map_hash_bucket_size '' @ show_nat bucket_size @ '';''])
      else [])"

definition generation_lines :: "(policy \<Rightarrow> str) \<Rightarrow> config \<Rightarrow> (str \<times> str) list \<Rightarrow> config_error + str list" where
  "generation_lines hash c pairs =
     (if ng_enable_purge (cf_nginx c) \<and> ng_enable_probe (cf_nginx c)
      then bind (dedup_generation hash c pairs) (\<lambda>generation.
             Inr [''map $arg_cleanup_generation $repowatch_cleanup_generation_valid {'',
                  ''    default 0;'', tx ''    `` 1;'', tx ''    `~^'' @ generation @ tx ''$` 1;'', ''}''])
      else Inr [])"

definition syslog_lines :: "config \<Rightarrow> str list" where
  "syslog_lines c =
     (if sy_enabled (cf_syslog c)
      then [tx ''map $http_user_agent $repowatch_is_prefetch { default 0; `~*^'' @
              re_escape (hd (split_on CHR ''/'' user_agent)) @ tx ''/` 1; }'',
            ''log_format repowatch_requests '' @ [CHR 0x27] @ ''$remote_addr $request_method $request_uri $status '' @
              ''$upstream_cache_status $repowatch_is_prefetch'' @ [CHR 0x27] @ '';'']
      else [])"

definition dedup_lines :: "nginx_config \<Rightarrow> conf_paths \<Rightarrow> config_error + str list" where
  "dedup_lines n paths =
     (if ng_enable_dedup n
      then bind (file_path (pa_dedup_conf paths)) (\<lambda>p.
             Inr [''map $uri $repowatch_canonical_uri {'', ''    include '' @ p @ '';'', ''}''])
      else Inr [])"

definition probe_import :: "nginx_config \<Rightarrow> conf_paths \<Rightarrow> config_error + str list" where
  "probe_import n paths =
     (if ng_enable_probe n
      then bind (file_path (pa_probe_js paths)) (\<lambda>p. Inr [''js_import cache_probe from '' @ p @ '';''])
      else Inr [])"

text \<open>The line that sets the key of a location or of the server.\<close>

definition set_key_line :: "str \<Rightarrow> str \<Rightarrow> str" where
  "set_key_line indent template = indent @ tx ''proxy_cache_key `'' @ template @ tx ''`;''"

definition server_key :: "str \<Rightarrow> str" where
  "server_key key_prefix = key_prefix @ ''$scheme$proxy_host$request_uri''"

definition server_lines :: "nginx_config \<Rightarrow> conf_paths \<Rightarrow> str \<Rightarrow> str list" where
  "server_lines n paths key_prefix =
     [''server {'', ''    listen '' @ ng_listen n @ '';'', ''    server_name '' @ ng_server_name n @ '';'',
      ''    resolver '' @ join '' '' (ng_resolvers n) @ '' valid=300s ipv6=off;'',
      ''    resolver_timeout 5s;'', ''    access_log '' @ pa_access_log paths @ '' cache_status;'',
      ''    proxy_cache repo_cache;'', ''    proxy_cache_valid 200 206 '' @ show_int (ng_package_ttl n) @ ''s;'',
      ''    proxy_cache_use_stale error timeout updating http_500 http_502 http_503 http_504;'',
      ''    proxy_cache_lock on;'', set_key_line ''    '' (server_key key_prefix),
      ''    add_header X-Cache-Status $upstream_cache_status always;'',
      ''    location / { return 404; }'']"

definition syslog_target :: "config \<Rightarrow> config_error + str list" where
  "syslog_target c =
     (if sy_enabled (cf_syslog c)
      then (case loopback_host (sy_bind (cf_syslog c)) of
              None \<Rightarrow> render_error
            | Some host \<Rightarrow>
                if \<not> (1 \<le> sy_port (cf_syslog c) \<and> sy_port (cf_syslog c) \<le> 65535) then render_error
                else Inr [''    access_log syslog:server='' @ host @ '':'' @ show_int (sy_port (cf_syslog c)) @
                       '',facility=local6,tag=repowatch,severity=info repowatch_requests;''])
      else Inr [])"

section \<open>Locations\<close>

text \<open>The index files of every repository type.\<close>

definition index_patterns :: "(str \<times> str) list" where
  "index_patterns =
     [(''pacman'', tx ''[^/]+%.(db|files)(%.tar%.(gz|xz|zst))?(%.sig)?$''),
      (''apt'', tx ''dists/(?!.*%.(?:deb|udeb|ddeb)$)''), (''apk'', tx ''APKINDEX%.tar%.gz$''),
      (''dnf'', ''repodata/''), (''apt-rpm'', ''base/''), (''xbps'', ''[^/]+-repodata$''),
      (''nix'', tx ''(nix-cache-info|[^/]+%.narinfo)$''), (''gentoo'', tx ''Packages(%.gz)?$''),
      (''slackware'', tx ''(.*%/)?(PACKAGES%.TXT|CHECKSUMS%.md5|FILELIST%.TXT|ChangeLog%.txt|MANIFEST|GPG-KEY)(%.(gz|bz2))?(%.asc)?$'')]"

definition redirect_lines :: "str list" where
  "redirect_lines =
     [''        if ($repowatch_canonical_uri) {'',
      ''            set $repowatch_dedup_target $repowatch_canonical_uri;'',
      tx ''            set $repowatch_canonical_uri ``;'',
      ''            rewrite ^ $repowatch_dedup_target last;'',
      ''        }'']"

definition proxy_lines :: "nat \<Rightarrow> str \<Rightarrow> route \<Rightarrow> str list" where
  "proxy_lines number local rt =
     [''        set $rw_backend_'' @ show_nat number @ '' '' @ ro_host rt @ '';''] @
     (if local \<noteq> ro_remote rt
      then [''        rewrite ^'' @ re_escape local @ ''(.*)$ '' @ ro_remote rt @ ''$1 break;''] else []) @
     [''        proxy_pass '' @ ro_scheme rt @ ''://$rw_backend_'' @ show_nat number @ '';'',
      ''        proxy_http_version 1.1;'', ''        proxy_set_header Host '' @ ro_host rt @ '';'',
      ''        proxy_ssl_server_name on;'']"

definition valid_line :: "int \<Rightarrow> str" where
  "valid_line ttl = ''        proxy_cache_valid 200 206 '' @ show_int ttl @ ''s;''"

definition nix_lines :: "nginx_config \<Rightarrow> str \<Rightarrow> bool \<Rightarrow> str list" where
  "nix_lines n key_prefix index =
     [set_key_line ''        '' (key_prefix @ ''$scheme$proxy_host'' @ (if ng_enable_dedup n then ''$uri$is_args$args'' else ''$request_uri'')),
      ''        proxy_cache_valid 404 1s;''] @
     (if index then [] else [valid_line (ng_package_ttl n)])"

definition index_lines :: "str \<Rightarrow> str \<Rightarrow> int \<Rightarrow> str list" where
  "index_lines key_prefix kind ttl =
     (if kind = ''pacman'' then [set_key_line ''        '' (key_prefix @ ''arch-index-v2:$scheme$proxy_host$request_uri'')] else []) @
     [valid_line ttl]"

definition content_lines :: "nginx_config \<Rightarrow> str \<Rightarrow> str \<Rightarrow> int \<Rightarrow> str list" where
  "content_lines n key_prefix kind ttl =
     (if ng_enable_dedup n \<and> kind \<noteq> ''nix'' then [set_key_line ''        '' (key_prefix @ ''$scheme$proxy_host$uri'')] else []) @
     (if kind = ''apt-rpm'' then [valid_line (min ttl (ng_package_ttl n)), ''        proxy_cache_revalidate on;''] else [])"

text \<open>The body of one location block.\<close>

definition location_body :: "nginx_config \<Rightarrow> str \<Rightarrow> nat \<Rightarrow> str \<Rightarrow> route \<Rightarrow> str \<Rightarrow> bool \<Rightarrow> str list" where
  "location_body n key_prefix number local rt kind index =
     (if \<not> index \<and> ng_enable_dedup n then redirect_lines else []) @
     proxy_lines number local rt @
     (if kind = ''nix'' then nix_lines n key_prefix index else []) @
     (if index then index_lines key_prefix kind (ro_ttl rt) else content_lines n key_prefix kind (ro_ttl rt))"

definition location_lines :: "nginx_config \<Rightarrow> str \<Rightarrow> nat \<Rightarrow> str \<Rightarrow> route \<Rightarrow> str \<Rightarrow> bool \<Rightarrow> str \<Rightarrow> str list" where
  "location_lines n key_prefix number local rt kind index pattern =
     [''    location '' @ (if index then ''~ ^'' @ re_escape local @ pattern else local) @ '' {''] @
     location_body n key_prefix number local rt kind index @ [''    }'']"

fun route_lines :: "nginx_config \<Rightarrow> str \<Rightarrow> (str \<times> str) list \<Rightarrow> nat \<Rightarrow> (str \<times> route) list \<Rightarrow> config_error + str list" where
  "route_lines n key_prefix kinds number [] = Inr []"
| "route_lines n key_prefix kinds number ((local, rt) # more_routes) =
     (let kind = the (map_of kinds local) in
      case map_of index_patterns kind of
        None \<Rightarrow> route_error
      | Some pattern \<Rightarrow>
          bind (route_lines n key_prefix kinds (Suc number) more_routes) (\<lambda>later.
            Inr (location_lines n key_prefix number local rt kind True pattern @
                 location_lines n key_prefix number local rt kind False pattern @ later)))"

definition include_lines :: "nginx_config \<Rightarrow> conf_paths \<Rightarrow> config_error + str list" where
  "include_lines n paths =
     bind (if ng_enable_purge n then bind (file_path (pa_purge_conf paths)) (\<lambda>p. Inr [''    include '' @ p @ '';'']) else Inr []) (\<lambda>purge.
     bind (if ng_enable_probe n then bind (file_path (pa_probe_conf paths)) (\<lambda>p. Inr [''    include '' @ p @ '';'']) else Inr []) (\<lambda>probe.
       Inr (purge @ probe)))"

definition render :: "(policy \<Rightarrow> str) \<Rightarrow> config \<Rightarrow> conf_paths \<Rightarrow> (str \<times> str) list \<Rightarrow> config_error + str" where
  "render hash c paths pairs =
     (let n = cf_nginx c in
      bind (file_path (pa_cache_dir paths)) (\<lambda>_.
      bind (file_path (pa_access_log paths)) (\<lambda>_.
      bind (compute_routes c) (\<lambda>(key_prefix, routes, kinds).
      bind (generation_lines hash c pairs) (\<lambda>generation.
      bind (dedup_lines n paths) (\<lambda>redirects.
      bind (probe_import n paths) (\<lambda>probe.
      bind (syslog_target c) (\<lambda>target.
      bind (route_lines n key_prefix kinds 0 (sort_key fst routes)) (\<lambda>locations.
      bind (include_lines n paths) (\<lambda>includes.
        Inr (join [LF] (cache_lines n paths @ size_lines n pairs @ generation @ syslog_lines c @ redirects @ probe @
               server_lines n paths key_prefix @ target @ locations @ includes @ [''}'', []]))))))))))))"

section \<open>The purge and probe files\<close>

definition purge_template :: "nginx_config \<Rightarrow> str \<Rightarrow> str \<Rightarrow> route \<Rightarrow> str \<Rightarrow> str" where
  "purge_template n key_prefix local rt kind =
     key_prefix @ ''${scheme}'' @ ro_host rt @ (if ng_enable_dedup n then ro_remote rt else local) @ ''$1'' @
     (if kind = ''nix'' then ''$is_args$args'' else [])"

definition purge_lines :: "nginx_config \<Rightarrow> str \<Rightarrow> (str \<times> str) list \<Rightarrow> str \<times> route \<Rightarrow> str list" where
  "purge_lines n key_prefix kinds entry = (case entry of (local, rt) \<Rightarrow>
     [''    location ~ ^/purge'' @ re_escape local @ ''(.*)$ {'',
      ''        allow 127.0.0.1;'',
      ''        deny all;'',
      tx ''        proxy_cache_purge repo_cache `'' @ purge_template n key_prefix local rt (the (map_of kinds local)) @ tx ''`;'',
      ''    }''])"

definition raw_purge_lines :: "str list" where
  "raw_purge_lines =
     [''    location = /purge-raw {'',
      ''        allow 127.0.0.1;'',
      ''        deny all;'',
      ''        if ($repowatch_cleanup_generation_valid = 0) { return 409; }'',
      ''        proxy_cache_purge repo_cache $arg_key;'',
      ''    }'']"

definition render_purge :: "config \<Rightarrow> config_error + str" where
  "render_purge c = (let n = cf_nginx c in
     bind (compute_routes c) (\<lambda>(key_prefix, routes, kinds).
       Inr (join [LF] (generated_note #
         (if ng_enable_purge n
          then concat (map (purge_lines n key_prefix kinds) (sort_key fst routes)) @
               (if ng_enable_probe n then raw_purge_lines else [])
          else [])) @ [LF])))"

definition js_string :: "str \<Rightarrow> str" where
  "js_string v = [CHR 0x27] @ concat (map (\<lambda>c. if c = CHR 0x5C \<or> c = CHR 0x27 then [CHR 0x5C, c] else [c]) v) @ [CHR 0x27]"

text \<open>\<open>str.replace\<close> of a nonempty text; \<open>skip\<close> counts the characters of a match still to pass over.\<close>

fun replace_from :: "nat \<Rightarrow> str \<Rightarrow> str \<Rightarrow> str \<Rightarrow> str" where
  "replace_from skip old new [] = []"
| "replace_from (Suc k) old new (c # cs) = replace_from k old new cs"
| "replace_from 0 old new (c # cs) =
     (if starts_with old (c # cs) then new @ replace_from (length old - 1) old new cs else c # replace_from 0 old new cs)"

text \<open>\<open>script\<close> is the text of \<open>probe.js\<close>, which lies beside the module.\<close>

definition render_probe_js :: "(policy \<Rightarrow> str) \<Rightarrow> str \<Rightarrow> config \<Rightarrow> str \<Rightarrow> (str \<times> str) list \<Rightarrow> config_error + str" where
  "render_probe_js hash script c cache_dir pairs =
     (if \<not> ng_enable_probe (cf_nginx c) then Inr (''// Generated by repowatch; edit YAML parameters, not this file.'' @ [LF])
      else bind (dedup_generation hash c pairs) (\<lambda>generation.
        Inr (''// Generated by repowatch; edit YAML parameters, not this file.'' @ [LF] @
             replace_from 0 ''__REPOWATCH_DEDUP_GENERATION__'' (js_string generation)
               (replace_from 0 ''__REPOWATCH_CACHE_DIR__'' (js_string cache_dir) script))))"

definition render_probe_conf :: "config \<Rightarrow> str" where
  "render_probe_conf c =
     join [LF] (generated_note #
       (if ng_enable_probe (cf_nginx c)
        then [''    location = /cache-probe {'',
              ''        allow 127.0.0.1;'',
              ''        deny all;'',
              ''        js_content cache_probe.probe;'',
              ''    }'',
              ''    location = /cache-scan {'',
              ''        allow 127.0.0.1;'',
              ''        deny all;'',
              ''        js_content cache_probe.scan;'',
              ''    }'']
        else [])) @ [LF]"

end
