(* ===== verification/Render_Props.thy ===== *)
theory Render_Props
  imports Render
begin

text \<open>
  What the generated files make nginx do with a package: the keys its content location stores under and its
  purge location evicts.  The interpolation of variables in a template is written out below as
  nginx documents it; how nginx decodes and merges the path of a request is a parameter.
\<close>

section \<open>Variables in templates\<close>

record nginx_request =
  rq_scheme :: str
  rq_proxy_host :: str
  rq_request_uri :: str
  rq_uri :: str
  rq_args :: str
  rq_capture :: str

definition variable :: "nginx_request \<Rightarrow> str \<Rightarrow> str" where
  "variable q name =
     (if name = ''scheme'' then rq_scheme q
      else if name = ''proxy_host'' then rq_proxy_host q
      else if name = ''request_uri'' then rq_request_uri q
      else if name = ''uri'' then rq_uri q
      else if name = ''is_args'' then (if rq_args q = [] then [] else ''?'')
      else if name = ''args'' then rq_args q
      else [])"

definition name_char :: "char \<Rightarrow> bool" where
  "name_char c \<longleftrightarrow> ascii_alnum c \<or> c = CHR ''_''"

lemma length_tl_dropWhile: "length (dropWhile P (tl s)) - Suc 0 \<le> length s"
  using length_dropWhile_le [of P "tl s"] by simp

function interpolate :: "nginx_request \<Rightarrow> str \<Rightarrow> str" where
  "interpolate q [] = []"
| "interpolate q (c # s) =
     (if c \<noteq> CHR ''$'' then c # interpolate q s
      else if s = [] then [c]
      else if hd s = CHR ''{''
        then variable q (takeWhile (\<lambda>x. x \<noteq> CHR ''}'') (tl s)) @ interpolate q (tl (dropWhile (\<lambda>x. x \<noteq> CHR ''}'') (tl s)))
      else if ascii_digit (hd s) then rq_capture q @ interpolate q (tl s)
      else variable q (takeWhile name_char s) @ interpolate q (dropWhile name_char s))"
  by pat_completeness auto

termination
  by (relation "measure (\<lambda>(q, s). length s)") (auto simp: less_Suc_eq_le length_dropWhile_le length_tl_dropWhile)

declare interpolate.simps(2) [simp del]

lemma interpolate_plain: "CHR ''$'' \<notin> set a \<Longrightarrow> interpolate q (a @ s) = a @ interpolate q s"
  by (induction a) (auto simp: interpolate.simps(2))

lemma interpolate_capture: "interpolate q (''$1'' @ s) = rq_capture q @ interpolate q s"
  by (simp add: interpolate.simps(2) ascii_digit_def)

lemma interpolate_braced: "interpolate q (''${scheme}'' @ s) = rq_scheme q @ interpolate q s"
  by (simp add: interpolate.simps(2) variable_def ascii_digit_def)

lemmas interpolate_name = interpolate.simps(2) variable_def name_char_def ascii_digit_def ascii_alnum_def ascii_lower_def ascii_upper_def

lemma interpolate_request: "interpolate q ''$scheme$proxy_host$request_uri'' = rq_scheme q @ rq_proxy_host q @ rq_request_uri q"
  by (simp add: interpolate_name)

lemma interpolate_uri: "interpolate q ''$scheme$proxy_host$uri'' = rq_scheme q @ rq_proxy_host q @ rq_uri q"
  by (simp add: interpolate_name)

lemma interpolate_uri_args: "rq_args q = [] \<Longrightarrow>
    interpolate q ''$scheme$proxy_host$uri$is_args$args'' = rq_scheme q @ rq_proxy_host q @ rq_uri q"
  by (simp add: interpolate_name)

lemma interpolate_args: "rq_args q = [] \<Longrightarrow> interpolate q ''$is_args$args'' = []"
  by (simp add: interpolate_name)

section \<open>Templates of a block\<close>

text \<open>The quoted argument of the line that begins with \<open>directive\<close>.\<close>

definition quoted_argument :: "str \<Rightarrow> str \<Rightarrow> str option" where
  "quoted_argument directive line =
     (if starts_with (directive @ [CHR 0x22]) line
      then Some (takeWhile (\<lambda>c. c \<noteq> CHR 0x22) (drop (length directive + 1) line)) else None)"

fun block_template :: "str \<Rightarrow> str list \<Rightarrow> str option" where
  "block_template directive [] = None"
| "block_template directive (l # ls) =
     (case quoted_argument directive l of Some t \<Rightarrow> Some t | None \<Rightarrow> block_template directive ls)"

definition key_directive :: str where
  "key_directive = ''        proxy_cache_key ''"

definition purge_directive :: str where
  "purge_directive = ''        proxy_cache_purge repo_cache ''"

definition has_block :: "str \<Rightarrow> str list \<Rightarrow> bool" where
  "has_block file block \<longleftrightarrow> (\<exists>before after. file = join [LF] (before @ block @ after))"

text \<open>What nginx knows when it builds the key: a package request in its content location, whose \<open>rewrite\<close>
  replaces the local prefix in \<open>$uri\<close>, and a purge request, whose location captures the rest of the path.  The
  server listens for plain HTTP.\<close>

definition served_request :: "(str \<Rightarrow> str) \<Rightarrow> str \<Rightarrow> route \<Rightarrow> str \<Rightarrow> nginx_request" where
  "served_request normal local rt path =
     \<lparr>rq_scheme = ''http'', rq_proxy_host = ro_host rt, rq_request_uri = path,
      rq_uri = (if local \<noteq> ro_remote rt then ro_remote rt @ drop (length local) (normal path) else normal path),
      rq_args = [], rq_capture = []\<rparr>"

definition purge_request :: "(str \<Rightarrow> str) \<Rightarrow> str \<Rightarrow> str \<Rightarrow> nginx_request" where
  "purge_request normal local path =
     \<lparr>rq_scheme = ''http'', rq_proxy_host = [], rq_request_uri = path, rq_uri = normal path, rq_args = [],
      rq_capture = drop (length (''/purge'' @ local)) (normal path)\<rparr>"

text \<open>The key of the block: its own template, or the one of the server.\<close>

definition stored_key :: "str \<Rightarrow> str list \<Rightarrow> nginx_request \<Rightarrow> str" where
  "stored_key key_prefix block q =
     interpolate q (case block_template key_directive block of Some t \<Rightarrow> t | None \<Rightarrow> server_key key_prefix)"

definition evicted_key :: "str list \<Rightarrow> nginx_request \<Rightarrow> str option" where
  "evicted_key block q = map_option (interpolate q) (block_template purge_directive block)"

lemma block_template_append:
  "block_template d (xs @ ys) = (case block_template d xs of Some t \<Rightarrow> Some t | None \<Rightarrow> block_template d ys)"
  by (induction xs) (auto split: option.splits)

lemma quoted_argument_line:
  "CHR 0x22 \<notin> set t \<Longrightarrow> quoted_argument d (d @ CHR 0x22 # t @ CHR 0x22 # rest) = Some t"
proof -
  assume "CHR 0x22 \<notin> set t"
  then have "takeWhile (\<lambda>c. c \<noteq> CHR 0x22) (t @ CHR 0x22 # rest) = t" by (induction t) auto
  then show ?thesis by (simp add: quoted_argument_def starts_with_iff)
qed


lemma key_line_quoted: "CHR 0x22 \<notin> set t \<Longrightarrow> quoted_argument key_directive (set_key_line ''        '' t) = Some t"
  using quoted_argument_line [of t key_directive "'';''"] by (simp add: set_key_line_def key_directive_def tx_def)

lemma other_line: "\<not> starts_with key_directive l \<Longrightarrow> quoted_argument key_directive l = None"
  by (auto simp: quoted_argument_def starts_with_iff)

lemma silent_lines: "\<forall>l \<in> set ls. \<not> starts_with key_directive l \<Longrightarrow> block_template key_directive ls = None"
  by (induction ls) (simp_all add: other_line)

lemma silent_redirect: "block_template key_directive redirect_lines = None"
  by (rule silent_lines) (simp add: redirect_lines_def tx_def starts_with_def key_directive_def)

lemma silent_proxy: "block_template key_directive (proxy_lines number l rt) = None"
  by (rule silent_lines) (simp add: proxy_lines_def starts_with_def key_directive_def)

lemma silent_valid: "quoted_argument key_directive (valid_line ttl) = None"
  "quoted_argument key_directive ''        proxy_cache_revalidate on;'' = None"
  "quoted_argument key_directive (''    location '' @ s) = None"
  "quoted_argument key_directive ''    }'' = None"
  by (rule other_line, simp add: valid_line_def starts_with_def key_directive_def)+

lemmas silent_header = silent_valid(3) [simplified]

lemma content_template:
  assumes "CHR 0x22 \<notin> set kp"
  shows "block_template key_directive (location_lines n kp number l rt kind False pattern) =
    (if kind = ''nix'' then Some (kp @ ''$scheme$proxy_host'' @ (if ng_enable_dedup n then ''$uri$is_args$args'' else ''$request_uri''))
     else if ng_enable_dedup n then Some (kp @ ''$scheme$proxy_host$uri'') else None)"
  using assms
  by (simp add: location_lines_def location_body_def nix_lines_def content_lines_def block_template_append
      silent_redirect silent_proxy silent_valid silent_header key_line_quoted)

lemma purge_template_of:
  assumes "CHR 0x22 \<notin> set (purge_template n kp l rt (the (map_of kinds l)))"
  shows "block_template purge_directive (purge_lines n kp kinds (l, rt)) = Some (purge_template n kp l rt (the (map_of kinds l)))"
  using quoted_argument_line [OF assms, of purge_directive "'';''"]
  by (simp add: purge_lines_def tx_def) (simp add: quoted_argument_def starts_with_def purge_directive_def)

section \<open>Blocks of the files\<close>

lemma route_lines_block:
  assumes "route_lines n kp kinds k routes = Inr ls" "(l, rt) \<in> set routes"
  shows "\<exists>number pattern before after. ls = before @ location_lines n kp number l rt (the (map_of kinds l)) False pattern @ after"
  using assms
proof (induction n kp kinds k routes arbitrary: ls rule: route_lines.induct)
  case (2 n kp kinds number local rt' rest)
  obtain pattern later where parts: "route_lines n kp kinds (Suc number) rest = Inr later"
      "ls = location_lines n kp number local rt' (the (map_of kinds local)) True pattern @
            location_lines n kp number local rt' (the (map_of kinds local)) False pattern @ later"
      "map_of index_patterns (the (map_of kinds local)) = Some pattern"
    using 2(2) by (auto simp: Let_def bind_Inr split: option.splits)
  show ?case
  proof (cases "(l, rt) = (local, rt')")
    case True
    then show ?thesis using parts(2) by blast
  next
    case False
    then have "(l, rt) \<in> set rest" using 2(3) by auto
    from 2(1) [OF refl parts(3,1) this] obtain number' pattern' before after where
      "later = before @ location_lines n kp number' l rt (the (map_of kinds l)) False pattern' @ after" by blast
    with parts(2) show ?thesis by (metis append.assoc)
  qed
qed simp

lemma render_block:
  assumes "render hash c paths pairs = Inr file" "compute_routes c = Inr (kp, routes, kinds)" "(l, rt) \<in> set routes"
  shows "\<exists>number pattern. has_block file (location_lines (cf_nginx c) kp number l rt (the (map_of kinds l)) False pattern)"
proof -
  obtain head locations rest where main: "file = join [LF] (head @ locations @ rest)"
      and lines: "route_lines (cf_nginx c) kp kinds 0 (sort_key fst routes) = Inr locations"
    using assms(1,2) by (auto simp: render_def Let_def bind_Inr) (metis append.assoc)
  have "(l, rt) \<in> set (sort_key fst routes)" using assms(3) by simp
  from route_lines_block [OF lines this] obtain number pattern before after where
    "locations = before @ location_lines (cf_nginx c) kp number l rt (the (map_of kinds l)) False pattern @ after" by blast
  with main have "file = join [LF] ((head @ before) @
      location_lines (cf_nginx c) kp number l rt (the (map_of kinds l)) False pattern @ (after @ rest))" by simp
  then show ?thesis unfolding has_block_def by blast
qed

lemma join_end: "xs \<noteq> [] \<Longrightarrow> join sep xs @ sep = join sep (xs @ [[]])"
  by (induction sep xs rule: join.induct) auto

lemma render_purge_block:
  assumes "render_purge c = Inr file" "compute_routes c = Inr (kp, routes, kinds)" "(l, rt) \<in> set routes"
    and "ng_enable_purge (cf_nginx c)"
  shows "has_block file (purge_lines (cf_nginx c) kp kinds (l, rt))"
proof -
  have "(l, rt) \<in> set (sort_key fst routes)" using assms(3) by simp
  then obtain xs ys where "sort_key fst routes = xs @ (l, rt) # ys" by (meson split_list)
  then have "file = join [LF] ((generated_note # concat (map (purge_lines (cf_nginx c) kp kinds) xs)) @
      purge_lines (cf_nginx c) kp kinds (l, rt) @ (concat (map (purge_lines (cf_nginx c) kp kinds) ys) @
        (if ng_enable_probe (cf_nginx c) then raw_purge_lines else []))) @ [LF]"
    using assms(1,2,4) by (auto simp: render_purge_def Let_def bind_Inr)
  then show ?thesis unfolding has_block_def by (subst (asm) join_end) (simp, metis append.assoc)
qed

section \<open>The keys of a package\<close>

text \<open>Characters that neither a template nor a quoted argument treats specially.\<close>

definition inert :: "str \<Rightarrow> bool" where
  "inert s \<longleftrightarrow> CHR ''$'' \<notin> set s \<and> CHR 0x22 \<notin> set s"

lemma inert_append [simp]: "inert (a @ b) \<longleftrightarrow> inert a \<and> inert b"
  by (auto simp: inert_def)

lemma inert_all: "list_all P s \<Longrightarrow> \<not> P CHR ''$'' \<Longrightarrow> \<not> P CHR 0x22 \<Longrightarrow> inert s"
  by (auto simp: inert_def list_all_iff)

lemma inert_path: "list_all path_char s \<Longrightarrow> inert s"
  by (erule inert_all) (simp_all add: path_char_def segment_char_def ascii_alnum_def ascii_digit_def ascii_lower_def ascii_upper_def)

lemma inert_netloc: "plain_netloc s \<Longrightarrow> inert s"
proof -
  have words: "all_in Q w \<Longrightarrow> \<not> Q CHR ''$'' \<Longrightarrow> \<not> Q CHR 0x22 \<Longrightarrow> inert w" for Q w
    by (auto simp: all_in_def intro: inert_all)
  assume "plain_netloc s"
  then have "\<forall>w \<in> set (split_on CHR '':'' s). inert w"
    by (auto simp: plain_netloc_def ascii_alnum_def ascii_digit_def ascii_lower_def ascii_upper_def split: list.splits
        intro!: words)
  moreover have "inert (join '':'' vs)" if "\<forall>w \<in> set vs. inert w" for vs
    using that by (induction "'':''" vs rule: join.induct) (auto simp: inert_def)
  ultimately have "inert (join '':'' (split_on CHR '':'' s))" by blast
  then show ?thesis by (simp add: split_on_join)
qed

lemma inert_key_prefix:
  assumes "compute_routes c = Inr (kp, routes, kinds)" "list_all (\<lambda>x. word_char x \<or> x = CHR ''-'') (ng_key_version (cf_nginx c))"
  shows "inert kp"
proof -
  have "inert (ng_key_version (cf_nginx c))"
    using assms(2) by (rule inert_all) (simp_all add: word_char_def ascii_alnum_def ascii_digit_def ascii_lower_def ascii_upper_def)
  then show ?thesis using assms(1) by (auto simp: compute_routes_def bind_Inr inert_def split: if_splits)
qed

lemma stored_key_of:
  assumes "inert kp" "rq_args q = []" "rq_scheme q = ''http''"
  shows "stored_key kp (location_lines n kp number l rt kind False pattern) q =
    kp @ ''http'' @ rq_proxy_host q @ (if ng_enable_dedup n then rq_uri q else rq_request_uri q)"
  using assms
  by (simp add: stored_key_def content_template inert_def server_key_def interpolate_plain interpolate_uri interpolate_request
      interpolate_uri_args [simplified])

lemma evicted_key_of:
  assumes "inert kp" "inert l" "inert (ro_host rt)" "inert (ro_remote rt)" "rq_args q = []" "rq_scheme q = ''http''"
  shows "evicted_key (purge_lines n kp kinds (l, rt)) q =
    Some (kp @ ''http'' @ ro_host rt @ (if ng_enable_dedup n then ro_remote rt else l) @ rq_capture q)"
proof -
  let ?t = "purge_template n kp l rt (the (map_of kinds l))"
  have "CHR 0x22 \<notin> set ?t" using assms(1-4) by (simp add: purge_template_def inert_def)
  moreover have "interpolate q ?t = kp @ ''http'' @ ro_host rt @ (if ng_enable_dedup n then ro_remote rt else l) @ rq_capture q"
    using assms interpolate_braced [of q] interpolate_capture [of q] interpolate_args [of q]
    by (simp add: purge_template_def inert_def interpolate_plain)
  ultimately show ?thesis by (simp add: evicted_key_def purge_template_of)
qed

lemma package_route:
  assumes rts: "compute_routes c = Inr (kp, routes, kinds)" and r: "r \<in> set (cf_repos c)" "package_path r filename = Inr path"
  shows "\<exists>l rt rest. path = l @ rest \<and> map_of routes l = Some rt \<and> inert l \<and> inert (ro_host rt) \<and> inert (ro_remote rt) \<and>
      compute_cache_key c r filename =
        Inr (kp @ ''http'' @ ro_host rt @ (if ng_enable_dedup (cf_nginx c) then ro_remote rt else l) @ rest)"
proof -
  have kb: "make_key_builder c = Inr \<lparr>kb_prefix = kp, kb_routes = routes, kb_dedup = ng_enable_dedup (cf_nginx c)\<rparr>"
    using rts by (simp add: make_key_builder_def bind_def)
  from for_repo_own [OF kb r(1)] obtain p l u remote where own: "package_prefix r = Inr p" "local_prefix r = Inr l"
      "rp_upstream r = Some u" "remote_prefix r u = Inr remote" "plain_upstream u" "starts_with l (p @ ''/'')"
      "for_repo \<lparr>kb_prefix = kp, kb_routes = routes, kb_dedup = ng_enable_dedup (cf_nginx c)\<rparr> r =
        Inr \<lparr>bk_base = kp @ ''http'' @ u_netloc u, bk_local = p @ ''/'',
          bk_remote = remote @ drop (length l) (p @ ''/''), bk_dedup = ng_enable_dedup (cf_nginx c)\<rparr>" by auto
  obtain rt where rt: "map_of routes l = Some rt" "ro_host rt = u_netloc u" "ro_remote rt = remote"
    using routes_serve_every [OF rts r(1)] own(2-4) by auto
  obtain d where d: "p @ ''/'' = l @ d" using own(6) by (auto simp: starts_with_iff)
  have path: "path = l @ d @ filename"
    using r(2) own(1) d by (simp add: package_path_def bind_def) (metis append.assoc append_Cons append_Nil)
  have "compute_cache_key c r filename =
      Inr (kp @ ''http'' @ ro_host rt @ (if ng_enable_dedup (cf_nginx c) then ro_remote rt else l) @ d @ filename)"
    using own(7) d by (simp add: compute_cache_key_def kb bind_def cache_key_def rt(2,3))
  moreover have "inert l" "inert (ro_remote rt)" "inert (ro_host rt)"
    using own(2,4,5) rt(2,3)
    by (auto simp: local_prefix_Inr safe_uri_Inr remote_prefix_def bind_Inr plain_upstream_def
        intro: inert_path inert_netloc split: if_splits)
  ultimately show ?thesis using path rt(1) by blast
qed


definition sample_purging :: config where
  "sample_purging = sample_site\<lparr>cf_nginx := (cf_nginx sample_site)\<lparr>ng_enabled := True, ng_enable_purge := True, ng_enable_dedup := True\<rparr>\<rparr>"

lemma sample_purging_routes: "compute_routes sample_purging = Inr ([], kb_routes sample_builder,
    [(''/arch/core/os/x86_64/'', ''pacman''), (''/arch/core/x86_64/'', ''apk'')])"
  by code_simp

lemma route_lines_total:
  "list_all (\<lambda>(l, rt). the (map_of kinds l) \<in> set (map fst index_patterns)) routes \<Longrightarrow> \<exists>ls. route_lines n kp kinds k routes = Inr ls"
proof (induction routes arbitrary: k)
  case (Cons e routes)
  obtain l rt where e: "e = (l, rt)" by (cases e)
  have "the (map_of kinds l) \<in> fst ` set index_patterns" using Cons.prems by (simp add: e)
  then obtain pattern where "map_of index_patterns (the (map_of kinds l)) = Some pattern"
    by (metis domD dom_map_of_conv_image_fst)
  moreover obtain ls where "route_lines n kp kinds (Suc k) routes = Inr ls" using Cons by auto
  ultimately show ?case by (simp add: e bind_def Let_def)
qed simp

lemma default_paths_valid:
  "file_path (pa_cache_dir default_paths) = Inr (pa_cache_dir default_paths)"
  "file_path (pa_access_log default_paths) = Inr (pa_access_log default_paths)"
  "file_path (pa_purge_conf default_paths) = Inr (pa_purge_conf default_paths)"
  "file_path (pa_dedup_conf default_paths) = Inr (pa_dedup_conf default_paths)"
  by code_simp+

lemma sample_purging_target: "\<exists>ls. syslog_target sample_purging = Inr ls"
proof -
  have "loopback_host ''127.0.0.1'' = Some ''127.0.0.1''" by code_simp
  then show ?thesis by (simp add: syslog_target_def sample_purging_def sample_site_def sample_config_def)
qed

lemma sample_purging_files:
  "\<exists>main. render (\<lambda>_. []) sample_purging default_paths [] = Inr main"
  "\<exists>purges. render_purge sample_purging = Inr purges"
proof -
  have n: "ng_enable_purge (cf_nginx sample_purging)" "ng_enable_dedup (cf_nginx sample_purging)"
    "\<not> ng_enable_probe (cf_nginx sample_purging)"
    by (simp_all add: sample_purging_def sample_site_def sample_config_def sample_nginx_def)
  obtain target where target: "syslog_target sample_purging = Inr target" using sample_purging_target by blast
  have "\<exists>ls. route_lines (cf_nginx sample_purging) [] [(''/arch/core/os/x86_64/'', ''pacman''), (''/arch/core/x86_64/'', ''apk'')] 0
      (sort_key fst (kb_routes sample_builder)) = Inr ls"
    by (rule route_lines_total) (simp add: sample_builder_def index_patterns_def)
  then obtain ls where "route_lines (cf_nginx sample_purging) []
      [(''/arch/core/os/x86_64/'', ''pacman''), (''/arch/core/x86_64/'', ''apk'')] 0 (sort_key fst (kb_routes sample_builder)) = Inr ls"
    by blast
  then show "\<exists>main. render (\<lambda>_. []) sample_purging default_paths [] = Inr main"
    by (simp add: render_def Let_def bind_def sample_purging_routes default_paths_valid generation_lines_def dedup_lines_def
        probe_import_def include_lines_def n target)
  show "\<exists>purges. render_purge sample_purging = Inr purges"
    by (simp add: render_purge_def Let_def bind_def sample_purging_routes)
qed


end
