(* ===== verification/Nginx_Apply.thy ===== *)
theory Nginx_Apply
  imports Render
begin

text \<open>
  \<open>nginx/apply.py\<close> with \<open>nginx/reconcile.py\<close> and \<open>nginx/policy.py\<close>: publishing the five generated files as one
  transaction.  The state holds the published files, the backups of the last working ones, the
  status file and the files nginx has loaded.  Every write and every command may fail: the environment
  says, at each tick of a clock, how the next one ends.  A command that fails can still have made nginx
  take the files, which is why the code reloads once more after it has restored them.
\<close>

section \<open>State\<close>

datatype out_file = Out_active | Out_purge | Out_dedup | Out_probe_conf | Out_probe_js

datatype apply_status =
    Applied_status str "str option"  \<comment> \<open>\<open>ok: true\<close> with the digests of the files and of the inputs\<close>
  | Failed_status str bool           \<comment> \<open>\<open>ok: false\<close> with the digest of the candidate and \<open>rollback_failed\<close>\<close>

type_synonym files = "out_file \<Rightarrow> str option"

record apply_state =
  as_clock :: nat
  as_files :: files
  as_backup :: files
  as_status :: "apply_status option"  \<comment> \<open>\<open>None\<close> for a missing or unreadable file\<close>
  as_loaded :: "files option"

datatype ending = Works | Breaks | Breaks_late

record apply_world =
  aw_write :: "nat \<Rightarrow> bool"
  aw_run :: "nat \<Rightarrow> ending"

definition tick :: "apply_state \<Rightarrow> apply_state" where
  "tick s = s\<lparr>as_clock := Suc (as_clock s)\<rparr>"

text \<open>\<open>_write\<close>: the content is written to a temporary file that then replaces the target, so a failing write
  leaves the target as it was.\<close>

definition write_file :: "apply_world \<Rightarrow> out_file \<Rightarrow> str \<Rightarrow> apply_state \<Rightarrow> bool \<times> apply_state" where
  "write_file w f content s =
     (if aw_write w (as_clock s) then (True, (tick s)\<lparr>as_files := (as_files s)(f := Some content)\<rparr>) else (False, tick s))"

definition remove_file :: "apply_world \<Rightarrow> out_file \<Rightarrow> apply_state \<Rightarrow> bool \<times> apply_state" where
  "remove_file w f s =
     (if aw_write w (as_clock s) then (True, (tick s)\<lparr>as_files := (as_files s)(f := None)\<rparr>) else (False, tick s))"

definition write_backup :: "apply_world \<Rightarrow> out_file \<Rightarrow> str \<Rightarrow> apply_state \<Rightarrow> bool \<times> apply_state" where
  "write_backup w f content s =
     (if aw_write w (as_clock s) then (True, (tick s)\<lparr>as_backup := (as_backup s)(f := Some content)\<rparr>) else (False, tick s))"

definition write_status :: "apply_world \<Rightarrow> apply_status \<Rightarrow> apply_state \<Rightarrow> bool \<times> apply_state" where
  "write_status w st s =
     (if aw_write w (as_clock s) then (True, (tick s)\<lparr>as_status := Some st\<rparr>) else (False, tick s))"

text \<open>\<open>nginx -t\<close>, and \<open>_reload\<close>, after which nginx serves by the files as they are.\<close>

definition run_test :: "apply_world \<Rightarrow> apply_state \<Rightarrow> bool \<times> apply_state" where
  "run_test w s = (aw_run w (as_clock s) = Works, tick s)"

definition run_reload :: "apply_world \<Rightarrow> apply_state \<Rightarrow> bool \<times> apply_state" where
  "run_reload w s =
     (case aw_run w (as_clock s) of
        Works \<Rightarrow> (True, (tick s)\<lparr>as_loaded := Some (as_files s)\<rparr>)
      | Breaks \<Rightarrow> (False, tick s)
      | Breaks_late \<Rightarrow> (False, (tick s)\<lparr>as_loaded := Some (as_files s)\<rparr>))"

definition activate :: "apply_world \<Rightarrow> apply_state \<Rightarrow> bool \<times> apply_state" where
  "activate w s = (case run_test w s of (ok, s1) \<Rightarrow> if ok then run_reload w s1 else (False, s1))"

section \<open>Digests\<close>

text \<open>\<open>sha\<close> is the SHA-256 of a text.\<close>

definition rendered_digest :: "(str \<Rightarrow> str) \<Rightarrow> str list \<Rightarrow> str" where
  "rendered_digest sha contents = sha (concat (map sha contents))"

definition managed :: "out_file list" where
  "managed = [Out_active, Out_purge, Out_dedup, Out_probe_conf, Out_probe_js]"

definition output_digest :: "(str \<Rightarrow> str) \<Rightarrow> files \<Rightarrow> str option" where
  "output_digest sha fs =
     (if list_all (\<lambda>f. fs f \<noteq> None) managed then Some (sha (concat (map (\<lambda>f. sha (the (fs f))) managed))) else None)"

record apply_policy =
  po_directory :: str
  po_cache_dir :: str
  po_access_log :: str

text \<open>The state database: its identity, and its content unless it cannot be read.\<close>

record db_file =
  df_device :: nat
  df_inode :: nat
  df_db :: "db option"

type_synonym digest_data = "config \<times> apply_policy \<times> str \<times> (nat \<times> nat \<times> (str \<times> nat) list) option"

text \<open>\<open>hash\<close> is the SHA-256 of the JSON text of the data, \<open>code\<close> the digest of the installed code.\<close>

definition input_digest :: "(digest_data \<Rightarrow> str) \<Rightarrow> str \<Rightarrow> config \<Rightarrow> apply_policy \<Rightarrow> db_file option \<Rightarrow> str option" where
  "input_digest hash installed c policy file =
     (if ng_enable_dedup (cf_nginx c)
      then (case file of
              None \<Rightarrow> Some (hash (c, policy, installed, None))
            | Some f \<Rightarrow> (case df_db f of
                None \<Rightarrow> None
              | Some d \<Rightarrow> Some (hash (c, policy, installed, Some (df_device f, df_inode f, get_snapshot_revisions d)))))
      else Some (hash (c, policy, installed, None)))"

definition matches :: "(str \<Rightarrow> str) \<Rightarrow> str option \<Rightarrow> apply_state \<Rightarrow> bool" where
  "matches sha inputs s \<longleftrightarrow>
     inputs \<noteq> None \<and>
     (case as_status s of
        Some (Applied_status active saved) \<Rightarrow> saved = inputs \<and> Some active = output_digest sha (as_files s)
      | _ \<Rightarrow> False)"

section \<open>The policy file\<close>

record path_info =
  pa_symlink :: bool
  pa_uid :: nat
  pa_mode :: nat

text \<open>\<open>st_mode & 0o022\<close>\<close>

definition writable_by_others :: "nat \<Rightarrow> bool" where
  "writable_by_others mode \<longleftrightarrow> odd (mode div 16) \<or> odd (mode div 2)"

definition check_policy_owner :: "path_info list \<Rightarrow> config_error + unit" where
  "check_policy_owner infos =
     (if list_ex (\<lambda>i. pa_symlink i \<or> pa_uid i \<noteq> 0 \<or> writable_by_others (pa_mode i)) infos
      then Inl (Config_error ''nginx policy'') else Inr ())"

section \<open>Publishing\<close>

fun publish :: "apply_world \<Rightarrow> (out_file \<times> str \<times> str option) list \<Rightarrow> (out_file \<times> str option) list \<Rightarrow> apply_state \<Rightarrow>
    bool \<times> (out_file \<times> str option) list \<times> apply_state" where
  "publish w [] published s = (True, published, s)"
| "publish w ((f, content, original) # todo) published s =
     (case write_file w f content s of (ok, s1) \<Rightarrow>
        if ok then publish w todo (published @ [(f, original)]) s1 else (False, published, s1))"

definition restore :: "apply_world \<Rightarrow> out_file \<Rightarrow> str option \<Rightarrow> apply_state \<Rightarrow> bool \<times> apply_state" where
  "restore w f original s = (case original of None \<Rightarrow> remove_file w f s | Some content \<Rightarrow> write_file w f content s)"

fun roll_back :: "apply_world \<Rightarrow> (out_file \<times> str option) list \<Rightarrow> apply_state \<Rightarrow> bool \<times> apply_state" where
  "roll_back w [] s = (True, s)"
| "roll_back w ((f, original) # todo) s =
     (case restore w f original s of (ok, s1) \<Rightarrow>
      case roll_back w todo s1 of (rest_ok, s2) \<Rightarrow> (ok \<and> rest_ok, s2))"

datatype apply_error = Refused config_error | Database_failed | Write_failed | Apply_failed | Rollback_failed

definition undo :: "apply_world \<Rightarrow> str option \<Rightarrow> (out_file \<times> str option) list \<Rightarrow> str \<Rightarrow> apply_state \<Rightarrow>
    (apply_error + bool) \<times> apply_state" where
  "undo w old published digest s =
     (case roll_back w (rev published) s of (restored, s1) \<Rightarrow>
      case (if restored \<and> old \<noteq> None then activate w s1 else (restored, s1)) of (ok, s2) \<Rightarrow>
        (Inl (if ok then Apply_failed else Rollback_failed), snd (write_status w (Failed_status digest (\<not> ok)) s2)))"

fun keep_backups :: "apply_world \<Rightarrow> (out_file \<times> str option) list \<Rightarrow> apply_state \<Rightarrow> bool \<times> apply_state" where
  "keep_backups w [] s = (True, s)"
| "keep_backups w ((f, None) # todo) s = keep_backups w todo s"
| "keep_backups w ((f, Some content) # todo) s =
     (case write_backup w f content s of (ok, s1) \<Rightarrow> if ok then keep_backups w todo s1 else (False, s1))"

text \<open>The five candidates, in the order of \<open>managed\<close>.\<close>

definition conf_paths_of :: "apply_policy \<Rightarrow> conf_paths" where
  "conf_paths_of policy = \<lparr>pa_cache_dir = po_cache_dir policy, pa_access_log = po_access_log policy,
     pa_purge_conf = po_directory policy @ ''/purge.conf'', pa_dedup_conf = po_directory policy @ ''/dedup.map'',
     pa_probe_conf = po_directory policy @ ''/probe.conf'', pa_probe_js = po_directory policy @ ''/probe.js''\<rparr>"

definition candidates :: "(policy \<Rightarrow> str) \<Rightarrow> str \<Rightarrow> config \<Rightarrow> apply_policy \<Rightarrow> (str \<times> str) list \<Rightarrow> config_error + (out_file \<times> str) list" where
  "candidates hash script c policy pairs =
     bind (render hash c (conf_paths_of policy) pairs) (\<lambda>candidate.
     bind (render_purge c) (\<lambda>purge.
     bind (render_probe_js hash script c (po_cache_dir policy) pairs) (\<lambda>js.
       Inr [(Out_active, candidate), (Out_purge, purge), (Out_dedup, render_dedup pairs),
            (Out_probe_conf, render_probe_conf c), (Out_probe_js, js)])))"

definition candidate_of :: "(out_file \<times> str) list \<Rightarrow> out_file \<Rightarrow> str" where
  "candidate_of cs f = the (map_of cs f)"

definition remember :: "apply_world \<Rightarrow> str \<Rightarrow> str option \<Rightarrow> str option \<Rightarrow> bool \<Rightarrow> apply_state \<Rightarrow> (apply_error + bool) \<times> apply_state" where
  "remember w digest inputs inputs_now changed s =
     (case write_status w (Applied_status digest (if inputs = inputs_now then inputs else None)) s of (ok, s1) \<Rightarrow>
        (if ok then Inr changed else Inl Write_failed, s1))"

text \<open>The part of \<open>apply\<close> after the candidates are rendered.\<close>

definition replace_files :: "apply_world \<Rightarrow> (out_file \<times> str) list \<Rightarrow> str \<Rightarrow> str option \<Rightarrow> str option \<Rightarrow> bool \<Rightarrow> apply_state \<Rightarrow>
    (apply_error + bool) \<times> apply_state" where
  "replace_files w cs digest inputs inputs_now force s =
     (let old = as_files s in
      if list_all (\<lambda>f. old f = Some (candidate_of cs f)) managed \<and> \<not> force \<and>
         (case as_status s of Some (Applied_status _ _) \<Rightarrow> True | _ \<Rightarrow> False)
      then remember w digest inputs inputs_now False s
      else (case publish w (map (\<lambda>f. (f, candidate_of cs f, old f)) [Out_purge, Out_dedup, Out_probe_conf, Out_probe_js, Out_active]) [] s of
        (written, published, s1) \<Rightarrow>
        case (if written then activate w s1 else (False, s1)) of (ok, s2) \<Rightarrow>
          if \<not> ok then undo w (old Out_active) published digest s2
          else (case keep_backups w (map (\<lambda>f. (f, old f)) managed) s2 of (kept, s3) \<Rightarrow>
                  if kept then remember w digest inputs inputs_now True s3 else (Inl Write_failed, s3))))"

record apply_input =
  ai_owners :: "path_info list"
  ai_link_ok :: bool
  ai_config :: "config_error + config"
  ai_policy :: apply_policy
  ai_file :: "db_file option"
  ai_file_now :: "db_file option"
  ai_force :: bool

record apply_env =
  ae_sha :: "str \<Rightarrow> str"
  ae_data_hash :: "digest_data \<Rightarrow> str"
  ae_policy_hash :: "policy \<Rightarrow> str"
  ae_installed :: str
  ae_script :: str

text \<open>The redirects for this configuration; the database may be missing or unreadable.\<close>

definition pairs_of :: "config \<Rightarrow> db_file option \<Rightarrow> apply_error + (str \<times> str) list" where
  "pairs_of c file =
     (if ng_enable_dedup (cf_nginx c)
      then (case file of
              None \<Rightarrow> Inr []
            | Some f \<Rightarrow> (case df_db f of
                None \<Rightarrow> Inl Database_failed
              | Some d \<Rightarrow> map_sum Refused id (accepted_pairs c d (find_duplicate_files d))))
      else Inr [])"

definition nginx_apply :: "apply_env \<Rightarrow> apply_world \<Rightarrow> apply_input \<Rightarrow> apply_state \<Rightarrow> (apply_error + bool) \<times> apply_state" where
  "nginx_apply env w i s =
     (case check_policy_owner (ai_owners i) of
        Inl e \<Rightarrow> (Inl (Refused e), s)
      | Inr _ \<Rightarrow>
        if \<not> ai_link_ok i then (Inl (Refused (Config_error ''site symlink'')), s)
        else (case ai_config i of
          Inl e \<Rightarrow> (Inl (Refused e), s)
        | Inr c \<Rightarrow>
          if \<not> ng_enabled (cf_nginx c) then (Inr False, s)
          else if ng_cache_dir (cf_nginx c) \<noteq> None \<and> ng_cache_dir (cf_nginx c) \<noteq> Some (po_cache_dir (ai_policy i))
            then (Inl (Refused (Config_error ''cache_dir'')), s)
          else (let inputs = input_digest (ae_data_hash env) (ae_installed env) c (ai_policy i) (ai_file i) in
            if \<not> ai_force i \<and> matches (ae_sha env) inputs s then (Inr False, s)
            else (case bind (pairs_of c (ai_file i)) (\<lambda>pairs.
                    map_sum Refused id (candidates (ae_policy_hash env) (ae_script env) c (ai_policy i) pairs)) of
                Inl e \<Rightarrow> (Inl e, s)
              | Inr cs \<Rightarrow> replace_files w cs (rendered_digest (ae_sha env) (map snd cs)) inputs
                  (input_digest (ae_data_hash env) (ae_installed env) c (ai_policy i) (ai_file_now i)) (ai_force i) s))))"

section \<open>Lemmas\<close>

lemma tick_simps [simp]: "as_files (tick s) = as_files s" "as_backup (tick s) = as_backup s"
  "as_status (tick s) = as_status s" "as_loaded (tick s) = as_loaded s"
  by (simp_all add: tick_def)

lemmas effect_defs = write_file_def remove_file_def write_backup_def write_status_def run_test_def run_reload_def

text \<open>What a published list restores, whatever part of it was written.\<close>

definition restored_by :: "(out_file \<times> str option) list \<Rightarrow> files \<Rightarrow> files" where
  "restored_by published fs f = (case map_of published f of Some original \<Rightarrow> original | None \<Rightarrow> fs f)"

lemma publish_spec:
  assumes "publish w todo published s = (ok, published', s')" "distinct (map fst published @ map fst todo)"
    and "\<forall>(f, c, original) \<in> set todo. original = restored_by published (as_files s) f"
  shows "restored_by published' (as_files s') = restored_by published (as_files s) \<and> distinct (map fst published') \<and>
    as_backup s' = as_backup s \<and> as_status s' = as_status s \<and> as_loaded s' = as_loaded s \<and>
    (ok \<longrightarrow> as_files s' = (\<lambda>f. case map_of todo f of Some (c, _) \<Rightarrow> Some c | None \<Rightarrow> as_files s f))"
  using assms
proof (induction w todo published s rule: publish.induct)
  case (2 w f content original todo published s)
  show ?case
  proof (cases "aw_write w (as_clock s)")
    case True
    let ?s1 = "(tick s)\<lparr>as_files := (as_files s)(f := Some content)\<rparr>"
    have fresh: "f \<notin> fst ` set published" "f \<notin> fst ` set todo" using 2(3) by auto
    then have none: "map_of published f = None" "map_of todo f = None" by (simp_all add: map_of_eq_None_iff)
    have origin: "original = as_files s f" using 2(4) none by (simp add: restored_by_def)
    have same: "restored_by (published @ [(f, original)]) (as_files ?s1) = restored_by published (as_files s)"
      using none origin by (auto simp: restored_by_def map_add_def fun_eq_iff split: option.splits)
    have "publish w todo (published @ [(f, original)]) ?s1 = (ok, published', s')" using 2(2) True by (simp add: write_file_def)
    moreover have "distinct (map fst (published @ [(f, original)]) @ map fst todo)" using 2(3) by auto
    moreover have "\<forall>(g, c, o') \<in> set todo. o' = restored_by (published @ [(f, original)]) (as_files ?s1) g"
      using 2(4) same by auto
    moreover have "(True, ?s1) = write_file w f content s" using True by (simp add: write_file_def)
    ultimately have *: "restored_by published' (as_files s') = restored_by (published @ [(f, original)]) (as_files ?s1) \<and>
        distinct (map fst published') \<and> as_backup s' = as_backup ?s1 \<and> as_status s' = as_status ?s1 \<and> as_loaded s' = as_loaded ?s1 \<and>
        (ok \<longrightarrow> as_files s' = (\<lambda>g. case map_of todo g of Some (c, _) \<Rightarrow> Some c | None \<Rightarrow> as_files ?s1 g))"
      using 2(1) [OF _ TrueI] by blast
    then show ?thesis using same none by (auto simp: fun_eq_iff split: option.splits)
  next
    case False
    then show ?thesis using 2(2,3) by (auto simp: write_file_def)
  qed
qed auto

end
