(* ===== verification/Nginx_Apply_Props.thy ===== *)
theory Nginx_Apply_Props
  imports Nginx_Apply Render_Props
begin

text \<open>
  What one run of \<open>nginx_apply\<close> leaves behind, whichever of its writes and commands fail: the published files,
  their backups, the status and what nginx has loaded.
\<close>

section \<open>Rolling back\<close>

lemma restored_by_Cons: "f \<notin> fst ` set todo \<Longrightarrow> restored_by ((f, original) # todo) fs = restored_by todo (fs(f := original))"
  by (auto simp: restored_by_def fun_eq_iff map_of_eq_None_iff [symmetric] split: option.splits)

lemma restored_by_rev: "distinct (map fst published) \<Longrightarrow> restored_by (rev published) fs = restored_by published fs"
proof -
  assume d: "distinct (map fst published)"
  then have "distinct (map fst (rev published))" by (simp add: rev_map [symmetric])
  with d have "map_of (rev published) = map_of published"
    by (intro map_of_inject_set [THEN iffD2]) auto
  then show ?thesis by (simp add: restored_by_def fun_eq_iff)
qed

lemma restore_spec:
  "restore w f original s = (ok, s') \<Longrightarrow>
     as_backup s' = as_backup s \<and> as_status s' = as_status s \<and> as_loaded s' = as_loaded s \<and>
     (ok \<longrightarrow> as_files s' = (as_files s)(f := original))"
  by (auto simp: restore_def effect_defs split: option.splits if_splits)

lemma roll_back_spec:
  "roll_back w todo s = (ok, s') \<Longrightarrow> distinct (map fst todo) \<Longrightarrow>
     as_backup s' = as_backup s \<and> as_status s' = as_status s \<and> as_loaded s' = as_loaded s \<and>
     (ok \<longrightarrow> as_files s' = restored_by todo (as_files s))"
proof (induction todo arbitrary: s ok)
  case (Cons e todo)
  obtain f original where e: "e = (f, original)" by (cases e)
  obtain ok1 s1 where one: "restore w f original s = (ok1, s1)" by (cases "restore w f original s")
  obtain ok2 where two: "roll_back w todo s1 = (ok2, s')" "ok = (ok1 \<and> ok2)" using Cons.prems(1) one by (auto simp: e split: prod.splits)
  have d: "distinct (map fst todo)" "f \<notin> fst ` set todo" using Cons.prems(2) by (auto simp: e)
  from Cons.IH [OF two(1) d(1)] restore_spec [OF one] show ?case
    using restored_by_Cons [OF d(2), of original "as_files s"] two(2) by (auto simp: e fun_upd_def)
qed (simp add: restored_by_def fun_eq_iff)

lemma activate_spec:
  "activate w s = (ok, s') \<Longrightarrow>
     as_files s' = as_files s \<and> as_backup s' = as_backup s \<and> as_status s' = as_status s \<and> (ok \<longrightarrow> as_loaded s' = Some (as_files s))"
  by (auto simp: activate_def effect_defs split: prod.splits if_splits ending.splits)

lemma write_status_spec:
  "write_status w st s = (ok, s') \<Longrightarrow>
     as_files s' = as_files s \<and> as_backup s' = as_backup s \<and> as_loaded s' = as_loaded s \<and>
     as_status s' = (if ok then Some st else as_status s)"
  by (auto simp: write_status_def split: if_splits)

lemma undo_spec:
  assumes "undo w old published digest s = (r, s')" "distinct (map fst published)"
  shows "as_backup s' = as_backup s \<and>
    (r = Inl Rollback_failed \<or>
     r = Inl Apply_failed \<and> as_files s' = restored_by published (as_files s) \<and>
       (old \<noteq> None \<longrightarrow> as_loaded s' = Some (as_files s')) \<and> as_status s' \<in> {as_status s, Some (Failed_status digest False)})"
proof -
  obtain restored s1 where rolled: "roll_back w (rev published) s = (restored, s1)" by (cases "roll_back w (rev published) s")
  obtain ok s2 where act: "(if restored \<and> old \<noteq> None then activate w s1 else (restored, s1)) = (ok, s2)"
    by (cases "if restored \<and> old \<noteq> None then activate w s1 else (restored, s1)")
  obtain done_ok where status: "write_status w (Failed_status digest (\<not> ok)) s2 = (done_ok, s')"
      and r: "r = Inl (if ok then Apply_failed else Rollback_failed)"
    using assms(1) rolled act by (cases "write_status w (Failed_status digest (\<not> ok)) s2") (simp add: undo_def)
  have d: "distinct (map fst (rev published))" using assms(2) by (simp add: rev_map [symmetric])
  note b = roll_back_spec [OF rolled d, unfolded restored_by_rev [OF assms(2)]]
  have a: "as_files s2 = as_files s1 \<and> as_backup s2 = as_backup s1 \<and> as_status s2 = as_status s1 \<and>
      (ok \<longrightarrow> restored) \<and> (ok \<and> old \<noteq> None \<longrightarrow> as_loaded s2 = Some (as_files s1))"
    using act activate_spec [of w s1 ok s2] by (auto split: if_splits)
  note wrote = write_status_spec [OF status]
  show ?thesis
  proof (cases ok)
    case True
    then show ?thesis using a b wrote r by auto
  next
    case False
    then show ?thesis using a b wrote r by simp
  qed
qed

lemma keep_backups_spec:
  "keep_backups w todo s = (ok, s') \<Longrightarrow>
     as_files s' = as_files s \<and> as_status s' = as_status s \<and> as_loaded s' = as_loaded s \<and>
     (ok \<and> distinct (map fst todo) \<longrightarrow>
        as_backup s' = (\<lambda>f. case map_of todo f of Some (Some c) \<Rightarrow> Some c | _ \<Rightarrow> as_backup s f))"
proof (induction w todo s rule: keep_backups.induct)
  case (2 w f todo s)
  then have "map_of todo f = None" if "distinct (map fst ((f, None) # todo))" using that by (auto simp: map_of_eq_None_iff)
  then show ?case using 2 by (auto simp: fun_eq_iff)
next
  case (3 w f c todo s)
  have none: "map_of todo f = None" if "distinct (map fst ((f, Some c) # todo))" using that by (auto simp: map_of_eq_None_iff)
  show ?case
  proof (cases "aw_write w (as_clock s)")
    case True
    have "(True, (tick s)\<lparr>as_backup := (as_backup s)(f := Some c)\<rparr>) = write_backup w f c s" using True by (simp add: write_backup_def)
    moreover have "keep_backups w todo ((tick s)\<lparr>as_backup := (as_backup s)(f := Some c)\<rparr>) = (ok, s')"
      using 3(2) True by (simp add: write_backup_def)
    ultimately show ?thesis using 3(1) [OF _ TrueI] none by (auto simp: fun_eq_iff split: option.splits)
  next
    case False
    then show ?thesis using 3(2) by (auto simp: write_backup_def)
  qed
qed auto

section \<open>One transaction\<close>

definition settled_status :: "str \<Rightarrow> str option \<Rightarrow> str option \<Rightarrow> apply_status" where
  "settled_status digest inputs inputs_now = Applied_status digest (if inputs = inputs_now then inputs else None)"

lemma remember_spec:
  "remember w digest inputs inputs_now changed s = (r, s') \<Longrightarrow>
     as_files s' = as_files s \<and> as_backup s' = as_backup s \<and> as_loaded s' = as_loaded s \<and>
     (r = Inr changed \<and> as_status s' = Some (settled_status digest inputs inputs_now) \<or> r = Inl Write_failed \<and> as_status s' = as_status s)"
  unfolding remember_def settled_status_def by (auto simp: write_status_def split: if_splits)

text \<open>The files before and after, by the answer of the run.\<close>

definition transacted :: "(out_file \<Rightarrow> str) \<Rightarrow> str \<Rightarrow> str option \<Rightarrow> str option \<Rightarrow> (apply_error + bool) \<Rightarrow> apply_state \<Rightarrow> apply_state \<Rightarrow> bool" where
  "transacted new digest inputs inputs_now r s s' =
     (case r of
        Inr True \<Rightarrow> as_files s' = (\<lambda>f. Some (new f)) \<and> as_loaded s' = Some (as_files s') \<and>
          as_status s' = Some (settled_status digest inputs inputs_now) \<and>
          as_backup s' = (\<lambda>f. case as_files s f of Some c \<Rightarrow> Some c | None \<Rightarrow> as_backup s f)
      | Inr False \<Rightarrow> as_files s' = as_files s \<and> as_loaded s' = as_loaded s \<and> as_backup s' = as_backup s \<and>
          as_files s = (\<lambda>f. Some (new f))
      | Inl Apply_failed \<Rightarrow> as_files s' = as_files s \<and> as_backup s' = as_backup s \<and>
          (as_files s Out_active \<noteq> None \<longrightarrow> as_loaded s' = Some (as_files s)) \<and>
          as_status s' \<in> {as_status s, Some (Failed_status digest False)}
      | Inl Rollback_failed \<Rightarrow> as_backup s' = as_backup s
      | Inl Write_failed \<Rightarrow> as_files s' = (\<lambda>f. Some (new f)) \<and> as_loaded s' \<in> {as_loaded s, Some (as_files s')} \<and> as_status s' = as_status s
      | Inl _ \<Rightarrow> s' = s)"

lemma all_managed: "list_all P managed \<longleftrightarrow> (\<forall>f. P f)"
  by (auto simp: managed_def) (metis out_file.exhaust)

lemma replace_files_spec:
  assumes "replace_files w cs digest inputs inputs_now force s = (r, s')"
  shows "transacted (candidate_of cs) digest inputs inputs_now r s s'"
proof -
  let ?todo = "map (\<lambda>f. (f, candidate_of cs f, as_files s f)) [Out_purge, Out_dedup, Out_probe_conf, Out_probe_js, Out_active]"
  let ?same = "list_all (\<lambda>f. as_files s f = Some (candidate_of cs f)) managed \<and> \<not> force \<and>
      (case as_status s of Some (Applied_status _ _) \<Rightarrow> True | _ \<Rightarrow> False)"
  show ?thesis
  proof (cases ?same)
    case True
    then have "remember w digest inputs inputs_now False s = (r, s')" using assms by (simp add: replace_files_def Let_def)
    from remember_spec [OF this] True show ?thesis by (auto simp: transacted_def all_managed fun_eq_iff)
  next
    case False
    obtain wrote published s1 where p: "publish w ?todo [] s = (wrote, published, s1)" by (cases "publish w ?todo [] s") auto
    obtain ok s2 where a: "(if wrote then activate w s1 else (False, s1)) = (ok, s2)" by (cases "if wrote then activate w s1 else (False, s1)")
    have "distinct (map fst ([] :: (out_file \<times> str option) list) @ map fst ?todo)" by simp
    from publish_spec [OF p this] have ps: "restored_by published (as_files s1) = as_files s" "distinct (map fst published)"
        "as_backup s1 = as_backup s" "as_status s1 = as_status s" "wrote \<Longrightarrow> as_files s1 = (\<lambda>f. Some (candidate_of cs f))"
      by (auto simp: restored_by_def fun_eq_iff) (metis (full_types) out_file.exhaust)
    have as: "as_files s2 = as_files s1" "as_backup s2 = as_backup s" "as_status s2 = as_status s"
        "ok \<Longrightarrow> wrote" "ok \<Longrightarrow> as_loaded s2 = Some (as_files s2)"
      using a ps(3,4) activate_spec [of w s1 ok s2] by (auto split: if_splits)
    show ?thesis
    proof (cases ok)
      case ok: True
      then have new: "as_files s2 = (\<lambda>f. Some (candidate_of cs f))" using as ps(5) by simp
      obtain kept s3 where k: "keep_backups w (map (\<lambda>f. (f, as_files s f)) managed) s2 = (kept, s3)"
        by (cases "keep_backups w (map (\<lambda>f. (f, as_files s f)) managed) s2")
      have back_up: "kept \<Longrightarrow> as_backup s3 = (\<lambda>f. case as_files s f of Some c \<Rightarrow> Some c | None \<Rightarrow> as_backup s f)"
        using keep_backups_spec [OF k] as(2)
        by (auto simp: managed_def fun_eq_iff split: option.splits) (metis (full_types) out_file.exhaust)+
      have kept_same: "as_files s3 = as_files s2" "as_loaded s3 = as_loaded s2" "as_status s3 = as_status s"
        using keep_backups_spec [OF k] as(3) by simp_all
      have fin: "(if kept then remember w digest inputs inputs_now True s3 else (Inl Write_failed, s3)) = (r, s')"
        using assms False p a ok k unfolding replace_files_def Let_def by simp
      show ?thesis
      proof (cases kept)
        case True
        with fin have "remember w digest inputs inputs_now True s3 = (r, s')" by simp
        from remember_spec [OF this] show ?thesis using back_up [OF True] kept_same new as(5) [OF ok] by (auto simp: transacted_def)
      next
        case False
        with fin show ?thesis using kept_same new as(5) [OF ok] by (auto simp: transacted_def)
      qed
    next
      case no: False
      have "undo w (as_files s Out_active) published digest s2 = (r, s')"
        using assms False p a no unfolding replace_files_def Let_def by simp
      from undo_spec [OF this ps(2)] show ?thesis using as ps(1) by (auto simp: transacted_def)
    qed
  qed
qed

text \<open>The files are the five candidates, in the order of the digest of the outputs.\<close>

lemma candidates_shape:
  "candidates hash script c policy pairs = Inr cs \<Longrightarrow> map fst cs = managed"
  by (auto simp: candidates_def bind_Inr managed_def)

lemma candidate_digest:
  assumes "map fst cs = managed"
  shows "output_digest sha (\<lambda>f. Some (candidate_of cs f)) = Some (rendered_digest sha (map snd cs))"
proof -
  have "map (candidate_of cs) (map fst cs) = map snd cs"
    using assms by (cases cs) (auto simp: candidate_of_def managed_def)
  then have "map sha (map (candidate_of cs) managed) = map sha (map snd cs)" by (simp only: assms)
  then have "map (\<lambda>f. sha (candidate_of cs f)) managed = map sha (map snd cs)" by (simp only: map_map comp_def)
  then show ?thesis by (simp only: output_digest_def rendered_digest_def list_all_iff option.sel) simp
qed

lemma map_sum_Refused: "map_sum Refused id x = Inr y \<longleftrightarrow> x = Inr y"
  by (cases x) auto

text \<open>What happens before the transaction changes nothing.\<close>

lemma nginx_apply_cases:
  assumes "nginx_apply env w i s = (r, s')"
  shows "s' = s \<and> (r = Inr False \<or> (\<exists>e. r = Inl (Refused e)) \<or> r = Inl Database_failed) \<or>
    (\<exists>c pairs cs. ai_config i = Inr c \<and> ng_enabled (cf_nginx c) \<and> pairs_of c (ai_file i) = Inr pairs \<and>
       candidates (ae_policy_hash env) (ae_script env) c (ai_policy i) pairs = Inr cs \<and>
       replace_files w cs (rendered_digest (ae_sha env) (map snd cs))
         (input_digest (ae_data_hash env) (ae_installed env) c (ai_policy i) (ai_file i))
         (input_digest (ae_data_hash env) (ae_installed env) c (ai_policy i) (ai_file_now i)) (ai_force i) s = (r, s'))"
proof -
  have pairs: "(\<exists>e'. e = Refused e') \<or> e = Database_failed" if "pairs_of c df = Inl e" for c df e
    using that by (auto simp: pairs_of_def split: if_splits option.splits) (metis map_sum.simps old.sum.exhaust sum.inject(1) sum.distinct(1))
  have cand: "(\<exists>e'. e = Refused e')" if "map_sum Refused id x = Inl e" for x :: "config_error + (out_file \<times> str) list" and e
    using that by (cases x) auto
  show ?thesis
    using assms pairs cand
    by (auto simp: map_sum_Refused nginx_apply_def Let_def bind_def split: sum.splits if_splits)
qed

section \<open>Properties\<close>

text \<open>C36: publishing is a transaction, whichever writes and commands fail.  After success the five files are the
  rendered candidates, nginx has loaded them, and the backups are the files they replaced.  After
  \<open>Apply_failed\<close> files and backups are as before and nginx serves by the old files again; a failed rollback
  still keeps the backups; a refusal changes nothing, and \<open>False\<close> means that nothing was published.\<close>
theorem nginx_apply_transactional:
  assumes "nginx_apply env w i s = (r, s')"
  shows "case r of
      Inr True \<Rightarrow> (\<exists>c pairs cs. ai_config i = Inr c \<and> pairs_of c (ai_file i) = Inr pairs \<and>
          candidates (ae_policy_hash env) (ae_script env) c (ai_policy i) pairs = Inr cs \<and>
          as_files s' = (\<lambda>f. Some (candidate_of cs f))) \<and>
        as_loaded s' = Some (as_files s') \<and>
        as_backup s' = (\<lambda>f. case as_files s f of Some content \<Rightarrow> Some content | None \<Rightarrow> as_backup s f)
    | Inr False \<Rightarrow> as_files s' = as_files s \<and> as_loaded s' = as_loaded s \<and> as_backup s' = as_backup s
    | Inl Apply_failed \<Rightarrow> as_files s' = as_files s \<and> as_backup s' = as_backup s \<and>
        (as_files s Out_active \<noteq> None \<longrightarrow> as_loaded s' = Some (as_files s))
    | Inl Rollback_failed \<Rightarrow> as_backup s' = as_backup s
    | Inl Write_failed \<Rightarrow> as_loaded s' \<in> {as_loaded s, Some (as_files s')}
    | Inl _ \<Rightarrow> s' = s"
  using nginx_apply_cases [OF assms]
proof (elim disjE exE conjE)
  fix c pairs cs
  assume "ai_config i = Inr c" "pairs_of c (ai_file i) = Inr pairs"
    "candidates (ae_policy_hash env) (ae_script env) c (ai_policy i) pairs = Inr cs"
    "replace_files w cs (rendered_digest (ae_sha env) (map snd cs))
       (input_digest (ae_data_hash env) (ae_installed env) c (ai_policy i) (ai_file i))
       (input_digest (ae_data_hash env) (ae_installed env) c (ai_policy i) (ai_file_now i)) (ai_force i) s = (r, s')"
  from this(1-3) replace_files_spec [OF this(4)] show ?thesis
    by (auto simp: transacted_def split: sum.splits bool.splits apply_error.splits)
qed auto


section \<open>A first installation\<close>

definition all_works :: apply_world where
  "all_works = \<lparr>aw_write = (\<lambda>_. True), aw_run = (\<lambda>_. Works)\<rparr>"

lemma publish_works: "fst (publish all_works todo published s)"
  by (induction todo arbitrary: published s) (auto simp: write_file_def all_works_def split: prod.splits if_splits)

lemma keep_backups_works: "fst (keep_backups all_works todo s)"
proof (induction todo arbitrary: s)
  case (Cons e todo)
  then show ?case by (cases e; cases "snd e") (auto simp: write_backup_def all_works_def)
qed simp

lemma forced_works: "\<exists>s'. replace_files all_works cs digest inputs inputs_now True s = (Inr True, s')"
proof -
  let ?todo = "map (\<lambda>f. (f, candidate_of cs f, as_files s f)) [Out_purge, Out_dedup, Out_probe_conf, Out_probe_js, Out_active]"
  obtain published s1 where p: "publish all_works ?todo [] s = (True, published, s1)"
    using publish_works [of ?todo "[]" s] by (cases "publish all_works ?todo [] s") auto
  obtain s2 where a: "activate all_works s1 = (True, s2)"
    by (simp add: activate_def run_test_def run_reload_def all_works_def)
  obtain s3 where k: "keep_backups all_works (map (\<lambda>f. (f, as_files s f)) managed) s2 = (True, s3)"
    using keep_backups_works [of "map (\<lambda>f. (f, as_files s f)) managed" s2]
    by (cases "keep_backups all_works (map (\<lambda>f. (f, as_files s f)) managed) s2") auto
  have "replace_files all_works cs digest inputs inputs_now True s = remember all_works digest inputs inputs_now True s3"
    using p a k by (simp add: replace_files_def Let_def)
  then show ?thesis by (simp add: remember_def write_status_def all_works_def)
qed

definition sample_policy :: apply_policy where
  "sample_policy = \<lparr>po_directory = ''/etc/nginx/repowatch'', po_cache_dir = ''/var/cache/nginx/repowatch'',
     po_access_log = ''/var/log/nginx/repo-cache.access.log''\<rparr>"

definition sample_apply :: apply_input where
  "sample_apply = \<lparr>ai_owners = [\<lparr>pa_symlink = False, pa_uid = 0, pa_mode = 420\<rparr>], ai_link_ok = True, ai_config = Inr sample_purging,
     ai_policy = sample_policy, ai_file = None, ai_file_now = None, ai_force = True\<rparr>"

definition sample_apply_env :: apply_env where
  "sample_apply_env = \<lparr>ae_sha = id, ae_data_hash = (\<lambda>_. ''d''), ae_policy_hash = (\<lambda>_. []), ae_installed = ''c'', ae_script = []\<rparr>"

definition fresh_state :: apply_state where
  "fresh_state = \<lparr>as_clock = 0, as_files = (\<lambda>_. None), as_backup = (\<lambda>_. None), as_status = None, as_loaded = None\<rparr>"

lemma sample_apply_runs: "\<exists>s'. nginx_apply sample_apply_env all_works sample_apply fresh_state = (Inr True, s')"
proof -
  have n: "ng_enabled (cf_nginx sample_purging)" "ng_cache_dir (cf_nginx sample_purging) = None"
    "\<not> ng_enable_probe (cf_nginx sample_purging)"
    by (simp_all add: sample_purging_def sample_site_def sample_config_def sample_nginx_def)
  have "conf_paths_of sample_policy = default_paths" by (simp add: conf_paths_of_def sample_policy_def default_paths_def)
  then obtain cs where "candidates (\<lambda>_. []) [] sample_purging sample_policy [] = Inr cs"
    using sample_purging_files n by (auto simp: candidates_def bind_def render_probe_js_def)
  moreover have "pairs_of sample_purging None = Inr []" by (simp add: pairs_of_def)
  moreover have "check_policy_owner [\<lparr>pa_symlink = False, pa_uid = 0, pa_mode = 420\<rparr>] = Inr ()"
    by (simp add: check_policy_owner_def writable_by_others_def)
  ultimately show ?thesis using n forced_works
    by (simp add: nginx_apply_def sample_apply_def sample_apply_env_def bind_def Let_def)
qed

lemma nginx_apply_transactional_witness:
  "\<exists>s'. nginx_apply sample_apply_env all_works sample_apply fresh_state = (Inr True, s') \<and> as_loaded s' = Some (as_files s')"
  using sample_apply_runs nginx_apply_transactional by fastforce


end
