(* ===== verification/Web_Access.thy ===== *)
theory Web_Access
  imports Ip_Address Store_Access Config_Types
begin

text \<open>
  \<open>web/access.py\<close>: who is asking.  The context of a request, derived from the socket and from the headers of
  proxies the configuration trusts, and the check of the administrator's session on every write.
  An address is kept as its value; the code keeps its text and reads it again.
\<close>

section \<open>Configuration\<close>

text \<open>\<open>StatusServerConfig\<close>, without what only \<open>create_server\<close> reads, and the configuration of a request.\<close>

record status_config =
  ss_guest_read_only :: bool
  ss_token_restrictions :: bool
  ss_insecure_http :: bool
  ss_trusted_proxies :: "str list"
  ss_metrics_networks :: "str list"

definition status_config_valid :: "status_config \<Rightarrow> bool" where
  "status_config_valid c \<longleftrightarrow> list_all (\<lambda>n. ip_network n \<noteq> None) (ss_trusted_proxies c) \<and>
     list_all (\<lambda>n. ip_network n \<noteq> None) (ss_metrics_networks c)"

record web_config =
  wc_config :: config
  wc_status :: status_config
  wc_password :: "str option"

section \<open>Addresses\<close>

definition ip :: "str \<Rightarrow> ip_addr option" where
  "ip s = map_option unmapped (ip_address s)"

text \<open>The test stops at the first network that holds the address or cannot be read.\<close>

fun in_networks :: "ip_addr \<Rightarrow> str list \<Rightarrow> bool" where
  "in_networks a [] = False"
| "in_networks a (n # ns) =
     (case ip_network n of None \<Rightarrow> False | Some net \<Rightarrow> in_network a net \<or> in_networks a ns)"

section \<open>The client\<close>

record client =
  cl_ip :: "ip_addr option"
  cl_secure :: bool
  cl_host :: str
  cl_local_direct :: bool

definition credentials_allowed :: "client \<Rightarrow> bool" where
  "credentials_allowed c \<longleftrightarrow> cl_secure c \<or> cl_local_direct c"

type_synonym headers = "str \<Rightarrow> str option"

text \<open>\<open>headers.get(name, '')\<close>\<close>

definition or_empty :: "str option \<Rightarrow> str" where
  "or_empty x = (case x of None \<Rightarrow> [] | Some s \<Rightarrow> s)"

fun read_all :: "str list \<Rightarrow> ip_addr list option" where
  "read_all [] = Some []"
| "read_all (p # ps) = (case (ip (strip p), read_all ps) of (Some a, Some as) \<Rightarrow> Some (a # as) | _ \<Rightarrow> None)"

text \<open>The client before the trusted proxies at the end of the chain.\<close>

definition forwarded_client :: "str list \<Rightarrow> ip_addr \<Rightarrow> str \<Rightarrow> ip_addr option" where
  "forwarded_client trusted peer raw =
     (if raw = [] \<or> length raw > 4096 then None
      else case read_all (split_on CHR '','' raw) of
        None \<Rightarrow> None
      | Some as \<Rightarrow>
          let chain = as @ [peer] in
          if length chain > 32 then None
          else (case dropWhile (\<lambda>a. in_networks a trusted) (rev chain) of [] \<Rightarrow> None | a # _ \<Rightarrow> Some a))"

text \<open>The port of \<open>urlsplit('//' + host)\<close>: absent, or decimal and at most 65535.\<close>

definition port_ok :: "str \<Rightarrow> bool" where
  "port_ok p \<longleftrightarrow> p = [] \<or> (list_all ascii_digit p \<and> nat_of_digits p \<le> 65535)"

definition cut :: "char \<Rightarrow> str \<Rightarrow> str \<times> str" where
  "cut c s = (case partition_at [c] s of None \<Rightarrow> (s, []) | Some x \<Rightarrow> x)"

text \<open>\<open>_hostinfo\<close>: a host in brackets or up to the first colon, and what follows the colon.\<close>

definition host_info :: "str \<Rightarrow> str \<times> str" where
  "host_info s =
     (case partition_at ''['' s of
        Some (_, bracketed) \<Rightarrow> (case cut CHR '']'' bracketed of (h, rest) \<Rightarrow> (h, snd (cut CHR '':'' rest)))
      | None \<Rightarrow> cut CHR '':'' s)"

text \<open>\<open>netloc_ok\<close> stands for the checks of brackets' contents and of names that are not ASCII.\<close>

definition valid_host :: "(str \<Rightarrow> bool) \<Rightarrow> str \<Rightarrow> bool" where
  "valid_host netloc_ok host \<longleftrightarrow>
     host \<noteq> [] \<and>
     \<not> list_ex (\<lambda>c. c \<in> set ''/@, #?'' \<or> c \<in> {CHR 0x5C, CHR 0x0D, CHR 0x0A, CHR 0x09}) host \<and>
     (CHR ''['' \<in> set host \<longleftrightarrow> CHR '']'' \<in> set host) \<and> netloc_ok host \<and>
     fst (host_info host) \<noteq> [] \<and> port_ok (snd (host_info host))"

text \<open>\<open>None\<close> is the ValueError.  \<open>tls\<close> says whether the socket itself is encrypted.\<close>

definition client_context :: "(str \<Rightarrow> bool) \<Rightarrow> str \<Rightarrow> headers \<Rightarrow> bool \<Rightarrow> status_config \<Rightarrow> client option" where
  "client_context netloc_ok peer h tls c =
     (case ip peer of
        None \<Rightarrow> None
      | Some a \<Rightarrow>
          let forwarded = list_ex (\<lambda>k. h k \<noteq> None) [''X-Forwarded-For'', ''X-Forwarded-Proto'', ''X-Forwarded-Host''];
              trusted = in_networks a (ss_trusted_proxies c);
              own_host = or_empty (h ''Host'');
              proto = h ''X-Forwarded-Proto'';
              from = (if trusted then forwarded_client (ss_trusted_proxies c) a (or_empty (h ''X-Forwarded-For''))
                      else if forwarded \<and> is_loopback a then None else Some a);
              secure = (if trusted \<and> proto \<noteq> None then proto = Some ''https'' else tls);
              host = (if trusted \<and> h ''X-Forwarded-Host'' \<noteq> None then the (h ''X-Forwarded-Host'') else own_host) in
          if trusted \<and> proto \<noteq> None \<and> the proto \<notin> set [''http'', ''https''] then None
          else if \<not> valid_host netloc_ok host then None
          else Some \<lparr>cl_ip = from, cl_secure = secure, cl_host = lower host,
                     cl_local_direct = is_loopback a \<and> \<not> forwarded \<and> \<not> trusted\<rparr>)"

section \<open>The administrator\<close>

text \<open>\<open>_check_admin_session\<close>: the status of the refusal.\<close>

definition check_admin_session :: "(str \<Rightarrow> str) \<Rightarrow> web_config \<Rightarrow> session_info option \<Rightarrow> nat option" where
  "check_admin_session digest c admin =
     (if \<not> truthy (wc_password c) then Some 501
      else case admin of
        None \<Rightarrow> Some 401
      | Some s \<Rightarrow> if si_fingerprint s = digest (the (wc_password c)) then None else Some 401)"

text \<open>\<open>load_request_config\<close> and \<open>load_admin_config\<close>; the configuration file holds a configuration or is invalid.\<close>

definition load_request_config :: "web_config option \<Rightarrow> nat + web_config" where
  "load_request_config loaded = (case loaded of None \<Rightarrow> Inl 500 | Some c \<Rightarrow> Inr c)"

definition load_admin_config :: "(str \<Rightarrow> str) \<Rightarrow> web_config option \<Rightarrow> session_info option \<Rightarrow> nat + web_config" where
  "load_admin_config digest loaded admin =
     (case load_request_config loaded of
        Inl e \<Rightarrow> Inl e
      | Inr c \<Rightarrow> (case check_admin_session digest c admin of Some e \<Rightarrow> Inl e | None \<Rightarrow> Inr c))"

section \<open>Forged headers\<close>

lemma read_all_append:
  "read_all (xs @ ys) = (case (read_all xs, read_all ys) of (Some as, Some bs) \<Rightarrow> Some (as @ bs) | _ \<Rightarrow> None)"
  by (induction xs) (auto split: option.splits)

lemma dropWhile_rev_last:
  "\<forall>b \<in> set bs. P b \<Longrightarrow> \<not> P a \<Longrightarrow> dropWhile P (rev (as @ a # bs)) = a # rev as"
  by (induction bs rule: rev_induct) auto

lemma split_on_both: "split_on c (s @ c # t) = split_on c s @ split_on c t"
  by (induction s) (auto split: list.splits)

lemma forwarded_client_origin:
  assumes "raw = forged @ join '','' (appended # hops)" and "forged = [] \<or> (\<exists>t. forged = t @ '','')"
    and "ip (strip appended) = Some origin" and "\<not> in_networks origin trusted" and "in_networks peer trusted"
    and "\<forall>p \<in> set hops. \<exists>b. ip (strip p) = Some b \<and> in_networks b trusted"
    and "\<forall>p \<in> set (appended # hops). CHR '','' \<notin> set p"
  shows "forwarded_client trusted peer raw \<in> {None, Some origin}"
proof -
  have own: "split_on CHR '','' (join '','' (appended # hops)) = appended # hops" using assms(7) by (intro split_of_join) auto
  obtain front where parts: "split_on CHR '','' raw = front @ appended # hops"
    using assms(1,2) own split_on_both [of "CHR '',''"] by (metis append_Cons append_Nil append_assoc)
  have hops: "\<exists>bs. read_all hops = Some bs \<and> (\<forall>b \<in> set bs. in_networks b trusted)"
    using assms(6) by (induction hops) auto
  then obtain bs where bs: "read_all hops = Some bs" "\<forall>b \<in> set (bs @ [peer]). in_networks b trusted" using assms(5) by auto
  show ?thesis
  proof (cases "read_all front")
    case None
    then show ?thesis using parts by (simp add: forwarded_client_def read_all_append)
  next
    case (Some as)
    then have chain: "read_all (split_on CHR '','' raw) = Some (as @ origin # bs)"
      using parts assms(3) bs(1) by (simp add: read_all_append)
    have "dropWhile (\<lambda>a. in_networks a trusted) (rev (as @ origin # (bs @ [peer]))) = origin # rev as"
      using bs(2) assms(4) by (rule dropWhile_rev_last)
    then show ?thesis using chain by (simp add: forwarded_client_def Let_def)
  qed
qed


definition sample_status :: status_config where
  "sample_status = \<lparr>ss_guest_read_only = False, ss_token_restrictions = True, ss_insecure_http = False,
     ss_trusted_proxies = [''10.0.0.0/8''], ss_metrics_networks = [''127.0.0.1/32'']\<rparr>"

definition sample_headers :: headers where
  "sample_headers k = (if k = ''Host'' then Some ''repo.example'' else if k = ''X-Forwarded-For''
     then Some ''127.0.0.1, 203.0.113.9, 10.0.0.2'' else None)"


end
