(* ===== verification/Web_Packages.thy ===== *)
theory Web_Packages
  imports Web_Access Cleanup
begin

text \<open>
  The administrator's actions on packages: \<open>web/packages.py\<close> and the purges of \<open>reporting/statistics.py\<close>.  A body
  is what the code reads of the JSON object: \<open>None\<close> where the field is missing or no list, otherwise
  the texts of its elements.  \<open>Inl\<close> is an exception that leaves the function.
\<close>

datatype reply =
    Refusal
  | Warm_reply warm_report
  | Candidates_reply bool "(str \<times> str) list"
  | Purge_reply "(str \<times> str) list" "str list"
  | Removed_reply nat "(str \<times> str) list option"
  | Banned_reply "str list"
  | Orphans_reply "(str \<times> (str \<times> nat) list) list"
  | Zombies_reply bool "(str \<times> str \<times> str) list"
  | Zombie_results "(str \<times> (str \<times> str) list) list"

type_synonym api_result = "(config_error + nat \<times> reply) \<times> hook list \<times> db"

definition answer :: "nat \<Rightarrow> reply \<Rightarrow> db \<Rightarrow> api_result" where
  "answer status r d = (Inr (status, r), [], d)"

definition refuse :: "nat \<Rightarrow> db \<Rightarrow> api_result" where
  "refuse status d = answer status Refusal d"

text \<open>What every action on a repository begins with: the administrator, then the repository.\<close>

definition with_repository :: "nat + web_config \<Rightarrow> str \<Rightarrow> (config \<Rightarrow> repo_config \<Rightarrow> api_result) \<Rightarrow> db \<Rightarrow> api_result" where
  "with_repository loaded repo_id action d =
     (case loaded of
        Inl status \<Rightarrow> refuse status d
      | Inr c \<Rightarrow> (case find_repo (wc_config c) repo_id of
          None \<Rightarrow> refuse 404 d
        | Some r \<Rightarrow> action (wc_config c) r))"

section \<open>Warming\<close>

definition warm_packages_payload :: "env \<Rightarrow> nat + web_config \<Rightarrow> str \<Rightarrow> str list option \<Rightarrow> db \<Rightarrow> api_result" where
  "warm_packages_payload e loaded repo_id package_keys d =
     with_repository loaded repo_id (\<lambda>c r.
       case package_keys of
         None \<Rightarrow> refuse 400 d
       | Some requested \<Rightarrow>
           (case warm_selected e c r requested d of
              (Inl err, hooks, d') \<Rightarrow> (Inl err, hooks, d')
            | (Inr report, hooks, d') \<Rightarrow> (Inr (200, Warm_reply report), hooks, d'))) d"

section \<open>Purging\<close>

definition purge_candidates_payload :: "nat + web_config \<Rightarrow> str \<Rightarrow> db \<Rightarrow> api_result" where
  "purge_candidates_payload loaded repo_id d =
     with_repository loaded repo_id (\<lambda>c r.
       answer 200 (Candidates_reply (ng_enable_purge (cf_nginx c)) (find_stale_warmed repo_id d)) d) d"

text \<open>The recorded file of every requested package, purged, and the records of those that are gone dropped.\<close>

definition purge_records :: "env \<Rightarrow> config \<Rightarrow> repo_config \<Rightarrow> (str \<times> str \<times> str) list \<Rightarrow> db \<Rightarrow> (config_error + (str \<times> str) list) \<times> db" where
  "purge_records e c r records d =
     (if records \<noteq> [] then purge_items e c r (map (\<lambda>(key, file, revision). (key, file)) records) d else (Inr [], d))"

definition purge_selected_payload :: "env \<Rightarrow> nat + web_config \<Rightarrow> str \<Rightarrow> str list option \<Rightarrow> db \<Rightarrow> api_result" where
  "purge_selected_payload e loaded repo_id package_keys d =
     with_repository loaded repo_id (\<lambda>c r.
       if \<not> ng_enable_purge (cf_nginx c) then refuse 400 d
       else (case package_keys of
         None \<Rightarrow> refuse 400 d
       | Some [] \<Rightarrow> refuse 400 d
       | Some requested \<Rightarrow>
           (let records = get_warmed_records (en_now e) repo_id requested None d;
                not_found = filter (\<lambda>k. map_of records k = None) requested
            in case purge_records e c r records d of
                 (Inl err, d1) \<Rightarrow> (Inl err, [], d1)
               | (Inr results, d1) \<Rightarrow>
                   (let resolved = resolved_purge_keys results in
                    answer 200 (Purge_reply results not_found)
                      (if resolved \<noteq> [] then snd (remove_purged_records repo_id records resolved d1) else d1))))) d"

definition remove_warmed_package_payload :: "env \<Rightarrow> nat + web_config \<Rightarrow> str \<Rightarrow> str list option \<Rightarrow> db \<Rightarrow> api_result" where
  "remove_warmed_package_payload e loaded repo_id package_keys d =
     with_repository loaded repo_id (\<lambda>c r.
       case package_keys of
         None \<Rightarrow> refuse 400 d
       | Some [] \<Rightarrow> refuse 400 d
       | Some requested \<Rightarrow>
           if \<not> ng_enable_purge (cf_nginx c)
           then (case remove_warmed_packages repo_id requested d of (n, d1) \<Rightarrow> answer 200 (Removed_reply n None) d1)
           else (let records = get_warmed_records (en_now e) repo_id requested None d
                 in case purge_records e c r records d of
                      (Inl err, d1) \<Rightarrow> (Inl err, [], d1)
                    | (Inr results, d1) \<Rightarrow>
                        (case remove_purged_records repo_id records (resolved_purge_keys results) d1 of
                           (n, d2) \<Rightarrow> answer 200 (Removed_reply n (Some results)) d2))) d"

section \<open>Bans\<close>

definition banned_packages_payload :: "nat + web_config \<Rightarrow> str \<Rightarrow> db \<Rightarrow> api_result" where
  "banned_packages_payload loaded repo_id d =
     with_repository loaded repo_id (\<lambda>c r. answer 200 (Banned_reply (get_banned_packages repo_id d)) d) d"

definition ban_package_payload :: "env \<Rightarrow> nat + web_config \<Rightarrow> str \<Rightarrow> str list option \<Rightarrow> db \<Rightarrow> api_result" where
  "ban_package_payload e loaded repo_id package_names d =
     with_repository loaded repo_id (\<lambda>c r.
       case package_names of
         None \<Rightarrow> refuse 400 d
       | Some [] \<Rightarrow> refuse 400 d
       | Some names \<Rightarrow> (let d1 = ban_packages (en_now e) repo_id names d in answer 200 (Banned_reply (get_banned_packages repo_id d1)) d1)) d"

definition unban_package_payload :: "nat + web_config \<Rightarrow> str \<Rightarrow> str list option \<Rightarrow> db \<Rightarrow> api_result" where
  "unban_package_payload loaded repo_id package_names d =
     with_repository loaded repo_id (\<lambda>c r.
       case package_names of
         None \<Rightarrow> refuse 400 d
       | Some [] \<Rightarrow> refuse 400 d
       | Some names \<Rightarrow> (let d1 = unban_packages repo_id names d in answer 200 (Banned_reply (get_banned_packages repo_id d1)) d1)) d"

section \<open>Storage\<close>

definition orphaned_repos_payload :: "nat + web_config \<Rightarrow> db \<Rightarrow> api_result" where
  "orphaned_repos_payload loaded d =
     (case loaded of Inl status \<Rightarrow> refuse status d | Inr c \<Rightarrow> answer 200 (Orphans_reply (find_orphaned_repos (wc_config c) d)) d)"

definition purge_orphaned_repos_payload :: "nat + web_config \<Rightarrow> str list option \<Rightarrow> db \<Rightarrow> api_result" where
  "purge_orphaned_repos_payload loaded repo_ids d =
     (case loaded of
        Inl status \<Rightarrow> refuse status d
      | Inr c \<Rightarrow> (case repo_ids of
          None \<Rightarrow> refuse 400 d
        | Some [] \<Rightarrow> refuse 400 d
        | Some ids \<Rightarrow> (case purge_orphaned_repos (wc_config c) ids d of (deleted, d1) \<Rightarrow> answer 200 (Orphans_reply deleted) d1)))"

definition zombie_packages_payload :: "nat + web_config \<Rightarrow> db \<Rightarrow> api_result" where
  "zombie_packages_payload loaded d =
     (case loaded of
        Inl status \<Rightarrow> refuse status d
      | Inr c \<Rightarrow> answer 200 (Zombies_reply (ng_enable_purge (cf_nginx (wc_config c))) (find_all_stale_warmed d)) d)"

text \<open>The items are pairs of texts; \<open>None\<close> when one is not.  A file name sent along is ignored.\<close>

definition purge_zombie_packages_payload :: "env \<Rightarrow> nat + web_config \<Rightarrow> (str \<times> str) list option \<Rightarrow> db \<Rightarrow> api_result" where
  "purge_zombie_packages_payload e loaded items d =
     (case loaded of
        Inl status \<Rightarrow> refuse status d
      | Inr c \<Rightarrow>
          if \<not> ng_enable_purge (cf_nginx (wc_config c)) then refuse 400 d
          else (case items of
            None \<Rightarrow> refuse 400 d
          | Some [] \<Rightarrow> refuse 400 d
          | Some ps \<Rightarrow>
              (case purge_removed_from_index e (wc_config c) (map (\<lambda>(repo, key). (repo, key, [])) ps) d of
                 (Inl err, d1) \<Rightarrow> (Inl err, [], d1)
               | (Inr results, d1) \<Rightarrow> answer 200 (Zombie_results results) d1)))"

end
