(* ===== verification/Cache_Report.thy ===== *)
theory Cache_Report
  imports Dedup_Cleanup
begin

text \<open>
  Reports from an inventory of nginx's cache: which packages are cached (\<open>reporting/completeness.py\<close>) and whose
  bytes they are (\<open>reporting/storage_usage.py\<close>).  \<open>catalogs\<close> is the snapshot per repository, \<open>redirects\<close> the
  final keys of deduplicated files, and \<open>rounded\<close> the rounding of a percentage to two decimals.  An entry
  of the inventory has a key exactly when it could be read.
\<close>

section \<open>Evidence\<close>

definition entry_key :: "scan_entry \<Rightarrow> str option" where
  "entry_key x = (if truthy (sc_key x) then sc_key x else None)"

definition present_keys :: "inventory \<Rightarrow> str list" where
  "present_keys v = concat (map (\<lambda>x. case entry_key x of None \<Rightarrow> [] | Some k \<Rightarrow> [k]) (iv_entries v))"

definition inventory_gaps :: "inventory \<Rightarrow> bool" where
  "inventory_gaps v \<longleftrightarrow> iv_failed v \<noteq> 0 \<or> list_ex (\<lambda>x. entry_key x = None) (iv_entries v)"

type_synonym bound_repo = "repo_config \<times> bound_key"

text \<open>\<open>builder.for_repo\<close> of every repository, before anything is counted.  The storage report binds only the repositories
  whose files it records; that makes no difference, since the builder of a configuration binds all of its
  repositories.\<close>

definition bind_repos :: "key_builder \<Rightarrow> repo_config list \<Rightarrow> config_error + bound_repo list" where
  "bind_repos b rs = traverse (\<lambda>r. bind (for_repo b r) (\<lambda>k. Inr (r, k))) rs"

text \<open>\<open>package_path(repo, filename).lower()\<close>; the prefix of a bound repository is known to be valid.\<close>

definition lower_path :: "bound_repo \<Rightarrow> str \<Rightarrow> str" where
  "lower_path rb filename = lower (bk_local (snd rb) @ filename)"

definition direct_key :: "bound_repo \<Rightarrow> str \<Rightarrow> str" where
  "direct_key rb filename = cache_key (snd rb) None filename"

definition final_key :: "(str \<times> str) list \<Rightarrow> bound_repo \<Rightarrow> str \<Rightarrow> str" where
  "final_key redirects rb filename =
     (case map_of redirects (lower_path rb filename) of None \<Rightarrow> direct_key rb filename | Some k \<Rightarrow> k)"

definition outdated :: "(identity_fields \<Rightarrow> str) \<Rightarrow> repo_config \<Rightarrow> catalog_state \<Rightarrow> bool" where
  "outdated digest r cat \<longleftrightarrow> ct_identity cat \<noteq> Some (catalog_identity digest r)"

text \<open>Keys whose file may belong to a package that is being replaced or to another source.\<close>

definition uncertain_keys :: "(identity_fields \<Rightarrow> str) \<Rightarrow> (str \<Rightarrow> catalog_state) \<Rightarrow> (str \<times> str) list \<Rightarrow> bound_repo list \<Rightarrow> str list" where
  "uncertain_keys digest catalogs redirects bound =
     concat (map (\<lambda>rb. let cat = catalogs (rp_id (fst rb)) in
       concat (map (\<lambda>(package, filename).
         if outdated digest (fst rb) cat \<or> package \<in> set (ct_pending cat)
         then [direct_key rb filename, final_key redirects rb filename] else []) (ct_packages cat))) bound)"

section \<open>Completeness\<close>

datatype presence = Cached | Missing | Unknown

definition artifacts_of_package :: "catalog_state \<Rightarrow> str \<Rightarrow> str list" where
  "artifacts_of_package cat package = (case map_of (ct_artifacts cat) package of None \<Rightarrow> [] | Some fs \<Rightarrow> fs)"

definition presence_of :: "inventory \<Rightarrow> str list \<Rightarrow> (str \<times> str) list \<Rightarrow> bound_repo \<Rightarrow> catalog_state \<Rightarrow> str \<times> str \<Rightarrow> presence" where
  "presence_of v uncertain redirects rb cat item = (case item of (package, filename) \<Rightarrow>
     if package \<in> set (ct_pending cat) then Unknown
     else if rp_type (fst rb) = ''nix''
     then (let artifacts = artifacts_of_package cat package;
               known = (filename \<in> set artifacts \<and> list_ex (\<lambda>f. \<not> ends_with ''.narinfo'' f) artifacts) in
           if known \<and> list_all (\<lambda>f. direct_key rb f \<in> set (present_keys v)) artifacts then Cached else Unknown)
     else (let key = final_key redirects rb filename in
           if key \<in> set uncertain then Unknown
           else if key \<in> set (present_keys v) then Cached
           else if inventory_gaps v \<or> key = [] then Unknown
           else Missing))"

record report_row =
  rr_repo :: str
  rr_total :: "nat option"
  rr_cached :: nat
  rr_missing :: nat
  rr_unknown :: nat
  rr_percent :: "rat option"
  rr_state :: str
  rr_last_check :: "stamp option"
  rr_reason :: "str option"

definition blank_row :: "repo_config \<Rightarrow> catalog_state \<Rightarrow> report_row" where
  "blank_row r cat = \<lparr>rr_repo = rp_id r, rr_total = Some (length (ct_packages cat)), rr_cached = 0, rr_missing = 0,
     rr_unknown = 0, rr_percent = None, rr_state = ''unknown'', rr_last_check = ct_last_check cat, rr_reason = None\<rparr>"

definition count_presence :: "presence \<Rightarrow> presence list \<Rightarrow> nat" where
  "count_presence p ps = length (filter (\<lambda>x. x = p) ps)"

definition concluded :: "(rat \<Rightarrow> rat) \<Rightarrow> report_row \<Rightarrow> report_row" where
  "concluded rounded row =
     (let total = the (rr_total row) in
      if rr_unknown row \<noteq> 0 then row\<lparr>rr_reason := Some ''incomplete_evidence''\<rparr>
      else if total = 0 then row\<lparr>rr_state := ''empty''\<rparr>
      else row\<lparr>rr_percent := Some (rounded (100 * of_nat (rr_cached row) / of_nat total)),
               rr_state := if rr_cached row = total then ''complete'' else ''partial''\<rparr>)"

definition report_of :: "(rat \<Rightarrow> rat) \<Rightarrow> (identity_fields \<Rightarrow> str) \<Rightarrow> (str \<Rightarrow> catalog_state) \<Rightarrow> inventory \<Rightarrow> str list \<Rightarrow>
    (str \<times> str) list \<Rightarrow> bound_repo \<Rightarrow> report_row" where
  "report_of rounded digest catalogs v uncertain redirects rb =
     (let r = fst rb; cat = catalogs (rp_id r); row = blank_row r cat in
      if ct_last_check cat = None then row\<lparr>rr_total := None, rr_reason := Some ''no_snapshot''\<rparr>
      else if outdated digest r cat then row\<lparr>rr_unknown := length (ct_packages cat), rr_reason := Some ''source_changed''\<rparr>
      else let ps = map (presence_of v uncertain redirects rb cat) (ct_packages cat) in
        concluded rounded (row\<lparr>rr_cached := count_presence Cached ps, rr_missing := count_presence Missing ps,
          rr_unknown := count_presence Unknown ps\<rparr>))"

definition summarize :: "(rat \<Rightarrow> rat) \<Rightarrow> (identity_fields \<Rightarrow> str) \<Rightarrow> config \<Rightarrow> (str \<Rightarrow> catalog_state) \<Rightarrow> inventory \<Rightarrow> key_builder \<Rightarrow>
    (str \<times> str) list \<Rightarrow> config_error + report_row list" where
  "summarize rounded digest c catalogs v b redirects =
     bind (bind_repos b (cf_repos c)) (\<lambda>bound.
       Inr (map (report_of rounded digest catalogs v (uncertain_keys digest catalogs redirects bound) redirects) bound))"

section \<open>Storage\<close>

definition usage_reason :: "(identity_fields \<Rightarrow> str) \<Rightarrow> repo_config \<Rightarrow> catalog_state \<Rightarrow> str option" where
  "usage_reason digest r cat =
     (if ct_last_check cat = None then Some ''no_snapshot''
      else if outdated digest r cat then Some ''source_changed'' else None)"

text \<open>The files a repository is known to have used, and whether they belong to a current package.\<close>

definition recorded_files :: "repo_config \<Rightarrow> catalog_state \<Rightarrow> (str \<times> bool) list" where
  "recorded_files r cat =
     concat (map (\<lambda>(package, filename). (filename, True) #
       (if rp_type r = ''nix'' then map (\<lambda>f. (f, True)) (artifacts_of_package cat package) else [])) (ct_packages cat)) @
     map (\<lambda>f. (f, False)) (ct_warmed cat) @
     concat (map (\<lambda>(package, fs). map (\<lambda>f. (f, False)) fs) (ct_artifacts cat))"

text \<open>Both keys a file can have, under the present setting of deduplication and the other one.\<close>

definition both_keys :: "config \<Rightarrow> bound_repo \<Rightarrow> str \<Rightarrow> str list" where
  "both_keys c rb filename = [direct_key rb filename, cache_key (snd rb) (Some (\<not> ng_enable_dedup (cf_nginx c))) filename]"

definition claim_key :: "str list \<Rightarrow> str \<Rightarrow> str \<Rightarrow> (str \<times> str) list \<Rightarrow> (str \<times> str) list" where
  "claim_key present repo key owners =
     (if key \<in> set present \<and> map_of owners key = None then owners @ [(key, repo)] else owners)"

definition claim_repo :: "(identity_fields \<Rightarrow> str) \<Rightarrow> config \<Rightarrow> (str \<Rightarrow> catalog_state) \<Rightarrow> str list \<Rightarrow> bound_repo \<Rightarrow>
    (str \<times> str) list \<Rightarrow> (str \<times> str) list" where
  "claim_repo digest c catalogs present rb owners =
     (let cat = catalogs (rp_id (fst rb)) in
      if usage_reason digest (fst rb) cat \<noteq> None then owners
      else fold (claim_key present (rp_id (fst rb)))
             (concat (map (\<lambda>(f, _). both_keys c rb f) (recorded_files (fst rb) cat))) owners)"

definition key_owners :: "(identity_fields \<Rightarrow> str) \<Rightarrow> config \<Rightarrow> (str \<Rightarrow> catalog_state) \<Rightarrow> inventory \<Rightarrow> bound_repo list \<Rightarrow> (str \<times> str) list" where
  "key_owners digest c catalogs v bound = fold (claim_repo digest c catalogs (present_keys v)) bound []"

definition accessible_keys :: "(identity_fields \<Rightarrow> str) \<Rightarrow> (str \<Rightarrow> catalog_state) \<Rightarrow> inventory \<Rightarrow> (str \<times> str) list \<Rightarrow> bound_repo \<Rightarrow> str list" where
  "accessible_keys digest catalogs v redirects rb =
     (let cat = catalogs (rp_id (fst rb)) in
      if usage_reason digest (fst rb) cat \<noteq> None then []
      else remdups (filter (\<lambda>k. k \<noteq> [] \<and> k \<in> set (present_keys v))
             (map (\<lambda>(f, _). final_key redirects rb f) (filter snd (recorded_files (fst rb) cat)))))"

definition entry_size :: "scan_entry \<Rightarrow> int" where
  "entry_size x = (case sc_size x of Some n \<Rightarrow> if 0 \<le> n then n else 0 | None \<Rightarrow> 0)"

definition unreadable_size :: "scan_entry \<Rightarrow> bool" where
  "unreadable_size x \<longleftrightarrow> (case sc_size x of Some n \<Rightarrow> n < 0 | None \<Rightarrow> True)"

definition owner_of :: "(str \<times> str) list \<Rightarrow> scan_entry \<Rightarrow> str option" where
  "owner_of owners x = Option.bind (entry_key x) (map_of owners)"

text \<open>The bytes and the number of the entries that satisfy a condition.\<close>

definition bytes_of_entries :: "(scan_entry \<Rightarrow> bool) \<Rightarrow> inventory \<Rightarrow> int" where
  "bytes_of_entries P v = sum_list (map entry_size (filter P (iv_entries v)))"

definition files_of_entries :: "(scan_entry \<Rightarrow> bool) \<Rightarrow> inventory \<Rightarrow> nat" where
  "files_of_entries P v = length (filter P (iv_entries v))"

text \<open>A key listed more than once counts with its largest size.\<close>

definition key_size :: "inventory \<Rightarrow> str \<Rightarrow> int" where
  "key_size v k = fold (\<lambda>x n. max n (entry_size x)) (filter (\<lambda>x. entry_key x = Some k) (iv_entries v)) 0"

record usage_row =
  ur_repo :: str
  ur_group :: "str option"
  ur_bytes :: int
  ur_files :: nat
  ur_available_bytes :: int
  ur_available_files :: nat
  ur_reason :: "str option"

record usage_group =
  ug_group :: "str option"
  ug_bytes :: int
  ug_files :: nat
  ug_available_bytes :: int
  ug_available_files :: nat
  ug_unknown :: nat

record usage =
  us_total :: int
  us_count :: nat
  us_attributed :: int
  us_unattributed :: int
  us_unattributed_files :: nat
  us_unreadable_sizes :: nat
  us_unreadable_keys :: nat
  us_failed :: nat
  us_complete :: bool
  us_repositories :: "usage_row list"
  us_groups :: "usage_group list"

definition usage_row_of :: "(identity_fields \<Rightarrow> str) \<Rightarrow> (str \<Rightarrow> catalog_state) \<Rightarrow> inventory \<Rightarrow> (str \<times> str) list \<Rightarrow> (str \<times> str) list \<Rightarrow>
    bound_repo \<Rightarrow> usage_row" where
  "usage_row_of digest catalogs v owners redirects rb =
     (let r = fst rb; keys = accessible_keys digest catalogs v redirects rb in
      \<lparr>ur_repo = rp_id r, ur_group = rp_group r,
       ur_bytes = bytes_of_entries (\<lambda>x. owner_of owners x = Some (rp_id r)) v,
       ur_files = files_of_entries (\<lambda>x. owner_of owners x = Some (rp_id r)) v,
       ur_available_bytes = sum_list (map (key_size v) keys), ur_available_files = length keys,
       ur_reason = usage_reason digest r (catalogs (rp_id r))\<rparr>)"

definition usage_group_of :: "(identity_fields \<Rightarrow> str) \<Rightarrow> (str \<Rightarrow> catalog_state) \<Rightarrow> inventory \<Rightarrow> (str \<times> str) list \<Rightarrow> (str \<times> str) list \<Rightarrow>
    bound_repo list \<Rightarrow> str option \<Rightarrow> usage_group" where
  "usage_group_of digest catalogs v owners redirects bound g =
     (let members = filter (\<lambda>rb. rp_group (fst rb) = g) bound;
          rows = map (usage_row_of digest catalogs v owners redirects) members;
          keys = remdups (concat (map (accessible_keys digest catalogs v redirects) members)) in
      \<lparr>ug_group = g, ug_bytes = sum_list (map ur_bytes rows), ug_files = sum_list (map ur_files rows),
       ug_available_bytes = sum_list (map (key_size v) keys), ug_available_files = length keys,
       ug_unknown = length (filter (\<lambda>row. ur_reason row \<noteq> None) rows)\<rparr>)"

definition storage_usage :: "(identity_fields \<Rightarrow> str) \<Rightarrow> config \<Rightarrow> (str \<Rightarrow> catalog_state) \<Rightarrow> inventory \<Rightarrow> key_builder \<Rightarrow>
    (str \<times> str) list \<Rightarrow> config_error + usage" where
  "storage_usage digest c catalogs v b redirects =
     bind (bind_repos b (sort_key rp_id (cf_repos c))) (\<lambda>bound.
     bind (bind_repos b (cf_repos c)) (\<lambda>listed.
       let owners = key_owners digest c catalogs v bound;
           total = bytes_of_entries (\<lambda>_. True) v;
           unattributed = bytes_of_entries (\<lambda>x. owner_of owners x = None) v;
           sizes = files_of_entries unreadable_size v;
           keys = files_of_entries (\<lambda>x. entry_key x = None) v in
       Inr \<lparr>us_total = total, us_count = length (iv_entries v), us_attributed = total - unattributed,
            us_unattributed = unattributed, us_unattributed_files = files_of_entries (\<lambda>x. owner_of owners x = None) v,
            us_unreadable_sizes = sizes, us_unreadable_keys = keys, us_failed = iv_failed v,
            us_complete = (iv_failed v = 0 \<and> sizes = 0 \<and> keys = 0),
            us_repositories = map (usage_row_of digest catalogs v owners redirects) listed,
            us_groups = map (usage_group_of digest catalogs v owners redirects listed) (unique (map (\<lambda>rb. rp_group (fst rb)) bound))\<rparr>))"

section \<open>The request\<close>

record report_input =
  ri_config :: config               \<comment> \<open>as loaded first\<close>
  ri_free :: bool                   \<comment> \<open>whether the lock was free\<close>
  ri_inventory :: "inventory option" \<comment> \<open>\<open>None\<close> when the scan failed\<close>
  ri_start :: db
  ri_scanned :: "config option"     \<comment> \<open>the configuration after the scan, \<open>None\<close> when it is invalid\<close>
  ri_middle :: db
  ri_finished :: "config option"
  ri_end :: db

record report =
  rp_items :: "report_row list"
  rp_unreadable :: nat
  rp_failed :: nat
  rp_usage :: "usage option"

definition unchanged :: "report_input \<Rightarrow> config option \<Rightarrow> db \<Rightarrow> bool" where
  "unchanged i latest d \<longleftrightarrow> latest = Some (ri_config i) \<and> set (get_snapshot_revisions d) = set (get_snapshot_revisions (ri_start i))"

definition payload_of :: "(rat \<Rightarrow> rat) \<Rightarrow> (identity_fields \<Rightarrow> str) \<Rightarrow> report_input \<Rightarrow> inventory \<Rightarrow> bool \<Rightarrow> config_error + report" where
  "payload_of rounded digest i v include_usage =
     (let c = ri_config i; d = ri_middle i; rows = find_duplicate_files d;
          catalogs = (\<lambda>repo. completeness_catalog include_usage repo d) in
      bind (make_key_builder c) (\<lambda>b.
      bind (if ng_enable_dedup (cf_nginx c)
            then bind (accepted_pairs c d rows) (\<lambda>pairs. dedup_keys c rows b (Some pairs)) else Inr []) (\<lambda>redirects.
      bind (summarize rounded digest c catalogs v b redirects) (\<lambda>items.
      bind (if include_usage then bind (storage_usage digest c catalogs v b redirects) (\<lambda>u. Inr (Some u)) else Inr None) (\<lambda>usage.
        Inr \<lparr>rp_items = items, rp_unreadable = files_of_entries (\<lambda>x. entry_key x = None) v, rp_failed = iv_failed v,
             rp_usage = usage\<rparr>)))))"

text \<open>The status and, with 200, the report.\<close>

definition completeness_payload :: "(rat \<Rightarrow> rat) \<Rightarrow> (identity_fields \<Rightarrow> str) \<Rightarrow> report_input \<Rightarrow> bool \<Rightarrow> config_error + (nat \<times> report option)" where
  "completeness_payload rounded digest i include_usage =
     (if \<not> ng_enable_probe (cf_nginx (ri_config i)) then Inr (409, None)
      else if \<not> ri_free i then Inr (409, None)
      else case (if cf_repos (ri_config i) \<noteq> [] \<or> include_usage then ri_inventory i else Some \<lparr>iv_entries = [], iv_failed = 0\<rparr>) of
        None \<Rightarrow> Inr (502, None)
      | Some v \<Rightarrow>
          if \<not> unchanged i (ri_scanned i) (ri_middle i) then Inr (409, None)
          else bind (payload_of rounded digest i v include_usage) (\<lambda>p.
            if \<not> unchanged i (ri_finished i) (ri_end i) then Inr (409, None) else Inr (200, Some p)))"

end
