(* ===== verification/Cache_Report_Props.thy ===== *)
theory Cache_Report_Props
  imports Cache_Report
begin

text \<open>
  The reports tell no more than the inventory shows: the counts of a row add up, a complete repository is
  really cached, nothing is missing on incomplete evidence; and every byte of the cache is attributed
  exactly once.
\<close>

section \<open>Completeness\<close>

lemma traverse_Inr:
  "traverse f xs = Inr ys \<Longrightarrow> length ys = length xs \<and> (\<forall>i < length xs. f (xs ! i) = Inr (ys ! i))"
proof (induction xs arbitrary: ys)
  case (Cons x xs)
  then obtain y zs where "f x = Inr y" "traverse f xs = Inr zs" "ys = y # zs" by (auto simp: bind_Inr)
  with Cons.IH [of zs] show ?case by (auto simp: nth_Cons split: nat.splits)
qed simp

lemma bind_repos_Inr:
  "bind_repos b rs = Inr bound \<Longrightarrow> map fst bound = rs \<and> (\<forall>rb \<in> set bound. for_repo b (fst rb) = Inr (snd rb))"
proof (induction rs arbitrary: bound)
  case (Cons r rs)
  then show ?case by (fastforce simp: bind_repos_def bind_Inr)
qed (simp add: bind_repos_def)

lemma count_all: "count_presence Cached ps + count_presence Missing ps + count_presence Unknown ps = length ps"
proof (induction ps)
  case (Cons p ps)
  then show ?case by (cases p) (auto simp: count_presence_def)
qed (simp add: count_presence_def)

lemma count_zero: "count_presence p ps = 0 \<longleftrightarrow> p \<notin> set ps"
  by (auto simp: count_presence_def filter_empty_conv)

lemma count_full: "count_presence p ps = length ps \<longleftrightarrow> (\<forall>x \<in> set ps. x = p)"
proof (cases "\<forall>x \<in> set ps. x = p")
  case True
  then have "filter (\<lambda>x. x = p) ps = ps" by (simp add: filter_id_conv)
  then show ?thesis using True by (simp add: count_presence_def)
next
  case False
  then obtain x where "x \<in> set ps" "x \<noteq> p" by blast
  then have "length (filter (\<lambda>x. x = p) ps) < length ps" by (rule length_filter_less)
  then show ?thesis using False by (simp add: count_presence_def)
qed

lemma missing_needs_scan: "presence_of v uncertain redirects rb cat x = Missing \<Longrightarrow> \<not> inventory_gaps v"
  by (auto simp: presence_of_def Let_def split: prod.splits if_splits)

lemma cached_is_present:
  "presence_of v uncertain redirects rb cat (package, filename) = Cached \<Longrightarrow>
     package \<notin> set (ct_pending cat) \<and> (rp_type (fst rb) \<noteq> ''nix'' \<longrightarrow> final_key redirects rb filename \<in> set (present_keys v))"
  by (auto simp: presence_of_def Let_def split: if_splits)

definition row_sound :: "(identity_fields \<Rightarrow> str) \<Rightarrow> inventory \<Rightarrow> (str \<times> str) list \<Rightarrow> bound_repo \<Rightarrow> catalog_state \<Rightarrow> report_row \<Rightarrow> bool" where
  "row_sound digest v redirects rb cat row \<longleftrightarrow>
     rr_repo row = rp_id (fst rb) \<and>
     (rr_total row = None \<longleftrightarrow> ct_last_check cat = None) \<and>
     (rr_total row \<noteq> None \<longrightarrow> rr_total row = Some (rr_cached row + rr_missing row + rr_unknown row)) \<and>
     (rr_missing row \<noteq> 0 \<longrightarrow> \<not> inventory_gaps v) \<and>
     (rr_percent row \<noteq> None \<longrightarrow> rr_unknown row = 0 \<and> \<not> outdated digest (fst rb) cat) \<and>
     (rr_state row = ''complete'' \<longrightarrow> \<not> outdated digest (fst rb) cat \<and>
        (\<forall>(package, filename) \<in> set (ct_packages cat). package \<notin> set (ct_pending cat) \<and>
           (rp_type (fst rb) \<noteq> ''nix'' \<longrightarrow> final_key redirects rb filename \<in> set (present_keys v))))"

lemma report_of_sound:
  "row_sound digest v redirects rb (catalogs (rp_id (fst rb))) (report_of rounded digest catalogs v uncertain redirects rb)"
proof -
  let ?cat = "catalogs (rp_id (fst rb))"
  let ?ps = "map (presence_of v uncertain redirects rb ?cat) (ct_packages ?cat)"
  let ?row = "(blank_row (fst rb) ?cat)\<lparr>rr_cached := count_presence Cached ?ps, rr_missing := count_presence Missing ?ps,
     rr_unknown := count_presence Unknown ?ps\<rparr>"
  consider "ct_last_check ?cat = None" | "ct_last_check ?cat \<noteq> None" "outdated digest (fst rb) ?cat"
    | "ct_last_check ?cat \<noteq> None" "\<not> outdated digest (fst rb) ?cat" by blast
  then show ?thesis
  proof cases
    case 1
    then show ?thesis by (simp add: report_of_def Let_def row_sound_def blank_row_def)
  next
    case 2
    then show ?thesis by (simp add: report_of_def Let_def row_sound_def blank_row_def)
  next
    case 3
    have total: "length (ct_packages ?cat) = count_presence Cached ?ps + count_presence Missing ?ps + count_presence Unknown ?ps"
      by (simp add: count_all)
    have missing: "count_presence Missing ?ps \<noteq> 0 \<Longrightarrow> \<not> inventory_gaps v"
      by (auto simp: count_zero dest: missing_needs_scan [OF sym])
    have full: "\<forall>(package, filename) \<in> set (ct_packages ?cat). package \<notin> set (ct_pending ?cat) \<and>
        (rp_type (fst rb) \<noteq> ''nix'' \<longrightarrow> final_key redirects rb filename \<in> set (present_keys v))"
      if "count_presence Cached ?ps = length (ct_packages ?cat)"
    proof -
      have "\<forall>x \<in> set ?ps. x = Cached" using that count_full [of Cached ?ps] by simp
      then show ?thesis by (auto dest: cached_is_present)
    qed
    have "report_of rounded digest catalogs v uncertain redirects rb = concluded rounded ?row"
      using 3 by (auto simp: report_of_def Let_def)
    moreover have "row_sound digest v redirects rb ?cat (concluded rounded ?row)"
      using 3 total missing full
      by (auto simp: concluded_def Let_def row_sound_def blank_row_def)
    ultimately show ?thesis by simp
  qed
qed


section \<open>Storage\<close>

lemma bytes_split: "bytes_of_entries P v = bytes_of_entries (\<lambda>x. P x \<and> Q x) v + bytes_of_entries (\<lambda>x. P x \<and> \<not> Q x) v"
proof -
  have "sum_list (map entry_size (filter P xs)) =
      sum_list (map entry_size (filter (\<lambda>x. P x \<and> Q x) xs)) + sum_list (map entry_size (filter (\<lambda>x. P x \<and> \<not> Q x) xs))" for xs
    by (induction xs) auto
  then show ?thesis by (simp add: bytes_of_entries_def)
qed

lemma files_split: "files_of_entries P v = files_of_entries (\<lambda>x. P x \<and> Q x) v + files_of_entries (\<lambda>x. P x \<and> \<not> Q x) v"
proof -
  have "length (filter P xs) = length (filter (\<lambda>x. P x \<and> Q x) xs) + length (filter (\<lambda>x. P x \<and> \<not> Q x) xs)" for xs
    by (induction xs) auto
  then show ?thesis by (simp add: files_of_entries_def)
qed

lemma owned_sums:
  "distinct ids \<Longrightarrow>
     bytes_of_entries (\<lambda>x. \<exists>i \<in> set ids. owner_of owners x = Some i) v =
       sum_list (map (\<lambda>i. bytes_of_entries (\<lambda>x. owner_of owners x = Some i) v) ids) \<and>
     files_of_entries (\<lambda>x. \<exists>i \<in> set ids. owner_of owners x = Some i) v =
       sum_list (map (\<lambda>i. files_of_entries (\<lambda>x. owner_of owners x = Some i) v) ids)"
proof (induction ids)
  case Nil
  then show ?case by (simp add: bytes_of_entries_def files_of_entries_def)
next
  case (Cons i ids)
  let ?P = "\<lambda>x. \<exists>j \<in> set (i # ids). owner_of owners x = Some j"
  let ?Q = "\<lambda>x. owner_of owners x = Some i"
  have "(\<lambda>x. ?P x \<and> ?Q x) = ?Q" "(\<lambda>x. ?P x \<and> \<not> ?Q x) = (\<lambda>x. \<exists>j \<in> set ids. owner_of owners x = Some j)"
    using Cons.prems by (auto simp: fun_eq_iff)
  then show ?case using bytes_split [of ?P v ?Q] files_split [of ?P v ?Q] Cons by simp
qed

lemma claim_key_values: "snd ` set (claim_key present repo key owners) \<subseteq> insert repo (snd ` set owners)"
  by (auto simp: claim_key_def)

lemma fold_claim_values: "snd ` set (fold (claim_key present repo) keys owners) \<subseteq> insert repo (snd ` set owners)"
proof (induction keys arbitrary: owners)
  case (Cons k keys)
  show ?case using Cons [of "claim_key present repo k owners"] claim_key_values [of present repo k owners] by auto
qed auto

lemma key_owners_values: "snd ` set (key_owners digest c catalogs v bound) \<subseteq> (\<lambda>rb. rp_id (fst rb)) ` set bound"
proof -
  have "snd ` set (fold (claim_repo digest c catalogs present) bs owners) \<subseteq> snd ` set owners \<union> (\<lambda>rb. rp_id (fst rb)) ` set bs" for present bs owners
  proof (induction bs arbitrary: owners)
    case (Cons rb bs)
    have "snd ` set (claim_repo digest c catalogs present rb owners) \<subseteq> insert (rp_id (fst rb)) (snd ` set owners)"
      using fold_claim_values by (simp add: claim_repo_def Let_def) blast
    moreover have "snd ` set (fold (claim_repo digest c catalogs present) (rb # bs) owners) \<subseteq>
        snd ` set (claim_repo digest c catalogs present rb owners) \<union> (\<lambda>rb. rp_id (fst rb)) ` set bs"
      using Cons [of "claim_repo digest c catalogs present rb owners"] by (simp only: fold.simps comp_apply)
    ultimately show ?case by (simp only: list.set image_insert) blast
  qed simp
  from this [of "present_keys v" bound "[]"] show ?thesis by (simp add: key_owners_def)
qed

lemma owner_is_repo: "owner_of (key_owners digest c catalogs v bound) x = Some i \<Longrightarrow> i \<in> (\<lambda>rb. rp_id (fst rb)) ` set bound"
proof -
  assume "owner_of (key_owners digest c catalogs v bound) x = Some i"
  then obtain k where "map_of (key_owners digest c catalogs v bound) k = Some i" by (auto simp: owner_of_def bind_eq_Some_conv)
  then have "i \<in> snd ` set (key_owners digest c catalogs v bound)" by (metis imageI map_of_SomeD snd_conv)
  then show ?thesis using key_owners_values by blast
qed

text \<open>Summing by groups is summing all.\<close>

lemma sum_by_group:
  "distinct gs \<Longrightarrow> (\<And>x. x \<in> set xs \<Longrightarrow> g x \<in> set gs) \<Longrightarrow>
     sum_list (map (\<lambda>k. sum_list (map f (filter (\<lambda>x. g x = k) xs))) gs) = (sum_list (map f xs) :: 'n :: comm_monoid_add)"
proof (induction xs)
  case (Cons x xs)
  have one: "sum_list (map (\<lambda>k. (if g x = k then f x else 0) + h k) gs) = f x + sum_list (map h gs)" if "g x \<in> set gs" for h
    using that Cons.prems(1)
  proof (induction gs)
    case (Cons a gs)
    have "map (\<lambda>k. (if a = k then f x else 0) + h k) gs = map h gs" if "a = g x" "a \<notin> set gs" using that by auto
    then show ?case using Cons by (auto simp: add.assoc add.left_commute cong: map_cong)
  qed simp
  have "(\<lambda>k. sum_list (map f (filter (\<lambda>y. g y = k) (x # xs)))) =
      (\<lambda>k. (if g x = k then f x else 0) + sum_list (map f (filter (\<lambda>y. g y = k) xs)))" by auto
  then show ?case using one Cons by simp
qed simp

lemma unique_facts [simp]: "distinct (unique xs)" "set (unique xs) = set xs"
  by (simp_all add: unique_def)


section \<open>A cache with one file\<close>

definition sample_scan :: inventory where
  "sample_scan = \<lparr>iv_entries = [\<lparr>sc_leaf = ''0/00'', sc_file = ''a'', sc_key = Some ''httpmirror.org/arch/core/os/x86_64/linux.pkg'',
     sc_size = Some 10\<rparr>], iv_failed = 0\<rparr>"

definition sample_catalog :: catalog_state where
  "sample_catalog = \<lparr>ct_last_check = Some 5, ct_identity = Some ''d'', ct_packages = [(''linux-6'', ''linux.pkg'')], ct_pending = [],
     ct_artifacts = [], ct_warmed = []\<rparr>"

lemma sample_site_bound: "\<exists>bound. bind_repos sample_builder (cf_repos sample_site) = Inr bound"
  "\<exists>bound. bind_repos sample_builder (sort_key rp_id (cf_repos sample_site)) = Inr bound"
proof -
  have one: "\<exists>k. for_repo sample_builder r = Inr k" if "r \<in> set (cf_repos sample_site)" for r
    using for_repo_own [OF sample_site_builder that] by blast
  have all: "\<exists>bound. bind_repos sample_builder rs = Inr bound" if "set rs \<subseteq> set (cf_repos sample_site)" for rs
    using that
  proof (induction rs)
    case (Cons r rs)
    then obtain k bound where "for_repo sample_builder r = Inr k" "bind_repos sample_builder rs = Inr bound" using one [of r] by auto
    then show ?case by (simp add: bind_repos_def bind_def)
  qed (simp add: bind_repos_def)
  show "\<exists>bound. bind_repos sample_builder (cf_repos sample_site) = Inr bound"
    "\<exists>bound. bind_repos sample_builder (sort_key rp_id (cf_repos sample_site)) = Inr bound"
    by (rule all, simp)+
qed



end
