(* ===== verification/Spec2Isabelle.thy ===== *)
theory Spec2Isabelle
  imports Requests_Props Repositories_Props Cache_Props Notifications_Props Store_Access Store_Queries Bandwidth_Props
    Dispatcher Check_Props Cleanup_Props Apt
    Dedup_Cleanup_Props Pacman_Props Xbps Gentoo Slackware Apt_Rpm Dnf
    Transport Syslog_Props Render_Props Nginx_Apply_Props Web_Packages Cache_Report_Props
begin

text \<open>
  Verification development for repowatch, a service that watches package repositories, warms an nginx cache with the
  packages its clients use, and keeps that cache consistent with the repositories.

  \<^bold>\<open>The program.\<close>  A scheduler (\<open>runtime/scheduler.py\<close>) starts one loop per repository.  A loop fetches and verifies the
  index (\<open>parsers/\<close>, \<open>verification/\<close>), records it in a SQLite database (\<open>storage/\<close>), and hands the difference on as cache
  work: new packages that clients have asked for are downloaded through nginx (\<open>operations/warm.py\<close>, \<open>cache/transport.py\<close>),
  removed and replaced ones are purged (\<open>cache/purge.py\<close>, \<open>cache/probe.py\<close>).  A pool of slots and a bandwidth budget bound
  what runs at once.  A listener (\<open>runtime/syslog.py\<close>) reads the access log of nginx; what clients request becomes
  statistics and demand.  Maintenance prunes old rows, removes what unconfigured repositories left, and deletes cached
  copies of files that deduplication now serves from one canonical place.

  \<^bold>\<open>Conventions.\<close>  The database is the record \<open>db\<close> of tables; a table is the list of its rows in rowid order, with the
  primary key of the schema (\<open>Prelude\<close>, \<open>Schema\<close>).  A transaction is a function on \<open>db\<close>.  A dictionary is an association
  list in insertion order, a nullable column an option, an instant an integer in seconds (one clock reading per
  operation), a float a rational.  A failing operation returns a sum with the error on the left, or an option; messages
  are kept only where they are stored or sent.  \<open>str\<close> is a list of characters below 256 and also a byte string; \<open>utext\<close>
  is a list of Unicode code points, for what comes from the network.  A URL of the configuration holds the parts that
  \<open>urlsplit\<close> yields.  Parameters stand for what is outside the program: the clock, HTTP answers, hash functions,
  randomness, \<open>gpgv\<close>, \<open>openssl\<close>, the Nix command, decompressors, \<open>tarfile\<close>, XML, JSON and property lists, the file system.
  They are fields of environment records (\<open>env\<close>, \<open>fetch_env\<close>, \<open>nix_env\<close>, \<open>listen_env\<close> and others) or arguments, and every
  property about them is instantiated by a concrete environment in its witness.  Concurrency is explicit: the order in
  which downloads finish, the admission of a task at each moment and the interleaving of slot operations are
  arguments or step relations.

  \<^bold>\<open>Theories.\<close>
  \<^item> \<open>Prelude\<close>, \<open>PyString\<close>, \<open>Unicode\<close>, \<open>Strict_Text\<close>, \<open>Url_Split\<close>: tables with the locale \<open>upsert_table\<close> and its
    interpretations, Python strings, UTF-8 decoding, lines and words, \<open>urlsplit\<close>, \<open>urljoin\<close> and \<open>unquote\<close>.
  \<^item> \<open>Schema\<close>, \<open>Store_Requests\<close>, \<open>Store_Repositories\<close>, \<open>Store_Cache\<close>, \<open>Store_Access\<close>, \<open>Store_Queries\<close> with
    \<open>Requests_Props\<close>, \<open>Repositories_Props\<close>, \<open>Cache_Props\<close>: \<open>storage/\<close>.  The rollup triggers equal a grouping of the log;
    a recorded snapshot refines an assignment to an abstract catalog; revoked tokens stay dead; pages enumerate all rows.
  \<^item> \<open>Config_Types\<close>, \<open>Config\<close>, \<open>Url_Templates\<close>, \<open>Routing\<close>, \<open>Warming_Policy\<close>: \<open>config/\<close>, \<open>url_templates.py\<close>, \<open>routing.py\<close>,
    \<open>warming_policy.py\<close>.  A loaded configuration is sound, routes serve every repository, cache keys do not collide.
  \<^item> \<open>Notifications\<close>, \<open>Bandwidth\<close>, \<open>Slots\<close>, \<open>Dispatcher\<close> with \<open>Notifications_Props\<close>, \<open>Bandwidth_Props\<close>: failure streaks and
    webhooks, the budget (locale of a token bucket), the slot pool as a step relation with fairness and no lost wakeup,
    and the scheduler's reconciliation of tasks.
  \<^item> \<open>Index_Parser\<close>, \<open>Index_Fetch\<close>, \<open>Gpg\<close>, \<open>Apt_Index\<close>, \<open>Apt\<close>, \<open>Pacman\<close>, \<open>Apk\<close>, \<open>Xbps\<close>, \<open>Gentoo\<close>, \<open>Slackware\<close>, \<open>Apt_Rpm\<close>,
    \<open>Dnf\<close>, \<open>Nix_Index\<close> with \<open>Gpg_Props\<close>, \<open>Apt_Props\<close>, \<open>Pacman_Props\<close>: \<open>parsers/\<close> and \<open>verification/\<close>.  Packages of a verified
    repository rest on signed bytes; fast paths equal reference parsers; readers are bounded.
  \<^item> \<open>Warm\<close>, \<open>Index_Check\<close>, \<open>Cleanup\<close>, \<open>Cache_Probe\<close>, \<open>Dedup\<close>, \<open>Dedup_Cleanup\<close> with \<open>Check_Props\<close>, \<open>Cleanup_Props\<close>,
    \<open>Dedup_Props\<close>, \<open>Dedup_Cleanup_Props\<close>: \<open>operations/\<close> and \<open>cache/\<close>.
  \<^item> \<open>Nix_Narinfo\<close>, \<open>Nix_Cache\<close>, \<open>Nix_Props\<close>, \<open>Nix_Samples\<close>, \<open>Transport\<close>: \<open>cache/nix.py\<close> and \<open>cache/transport.py\<close>;
    \<open>with_nix\<close> supplies the Nix operations of the environment that \<open>Warm\<close>, \<open>Index_Check\<close> and \<open>Cleanup\<close> are stated over.
  \<^item> \<open>Syslog\<close>, \<open>Syslog_Props\<close>: \<open>runtime/syslog.py\<close>.

  \<^bold>\<open>Bounds and termination.\<close>  No definition has fuel.  Loops are structural or have a measure: the rest of a document, the
  rows still to prune, the number of closure records below the configured limit together with the pending names.  The
  constants of the code (chunk sizes, \<open>max_expanded\<close>, \<open>narinfo_limit\<close>, page sizes, attempts) keep their values.

  \<^bold>\<open>Not modelled.\<close>  Sockets, files, processes and threads themselves, logging, the text of pages and of most messages, the command
  line, the installation and measuring scripts, and the network side of every parameter above.  The manifest lists each
  part with its reason.
\<close>

end
